(* ===== verification/Prelude.thy ===== *)
theory Prelude
  imports Main "HOL-Library.Char_ord" "HOL-Library.List_Lexorder"
begin

text \<open>
  What every component shares.

  Values: \<open>js_value\<close> is a value the TypeScript code types as \<open>unknown\<close> (a query
  parameter, a JSON metadata column); \<open>js_date\<close> is a JavaScript \<open>Date\<close>, whose
  time value is a number of milliseconds or NaN; \<open>js_error\<close> is a thrown exception,
  so that a function that may throw returns \<open>js_error + 'a\<close>.

  Strings are HOL strings, so the code units modelled are those below 256; on them
  the order of HOL-Library.List_Lexorder is the order JavaScript's \<open><\<close> uses on strings.

  Lemmas: facts on \<open>rbind\<close>, on stable sorting with a comparator
  (\<open>Array.prototype.sort\<close>), on first-match search and on association lists
  (\<open>Map\<close>) that the component theories use.
\<close>

named_theorems outcome_simps "evaluation of functions that may throw"

section \<open>JavaScript values\<close>

datatype js_value =
    JUndefined
  | JNull
  | JBool bool
  | JNum int
  | JStr string
  | JArr "js_value list"
  | JObj "(string \<times> js_value) list"

datatype js_date = Invalid_Date | Date_Time int

datatype js_error =
    BadRequestException string
  | ConflictException string
  | ForbiddenException string
  | NotFoundException string
  | InternalServerErrorException string
  | Plain_Error string

text \<open>Reading a property of an object: a missing key reads as \<open>undefined\<close>.\<close>

definition js_prop :: "(string \<times> js_value) list \<Rightarrow> string \<Rightarrow> js_value" where
  "js_prop obj k = (case map_of obj k of None \<Rightarrow> JUndefined | Some v \<Rightarrow> v)"

fun js_is_string :: "js_value \<Rightarrow> bool" where
  "js_is_string (JStr _) = True"
| "js_is_string _ = False"

fun js_as_string :: "js_value \<Rightarrow> string option" where
  "js_as_string (JStr s) = Some s"
| "js_as_string _ = None"

section \<open>Outcomes\<close>

definition rbind :: "js_error + 'a \<Rightarrow> ('a \<Rightarrow> js_error + 'b) \<Rightarrow> js_error + 'b" where
  "rbind x f = (case x of Inl e \<Rightarrow> Inl e | Inr a \<Rightarrow> f a)"

lemma rbind_Inl [simp, outcome_simps]: "rbind (Inl e) f = Inl e"
  by (simp add: rbind_def)

lemma rbind_Inr [simp, outcome_simps]: "rbind (Inr a) f = f a"
  by (simp add: rbind_def)

lemma rbind_eq_Inr_iff: "rbind x f = Inr b \<longleftrightarrow> (\<exists>a. x = Inr a \<and> f a = Inr b)"
  by (cases x) auto

lemma rbind_eq_InrE [elim?]:
  assumes "rbind x f = Inr b"
  obtains a where "x = Inr a" and "f a = Inr b"
  using assms by (auto simp: rbind_eq_Inr_iff)

section \<open>Strings\<close>

text \<open>\<open>String.prototype.trim\<close> on the code units below 256.\<close>

definition js_space :: "char \<Rightarrow> bool" where
  "js_space c \<longleftrightarrow> (of_char c :: nat) \<in> {9, 10, 11, 12, 13, 32, 160}"

definition js_trim :: "string \<Rightarrow> string" where
  "js_trim s = rev (dropWhile js_space (rev (dropWhile js_space s)))"

lemma js_trim_Nil [simp]: "js_trim [] = []"
  by (simp add: js_trim_def)

lemma js_trim_eq_Nil_iff: "js_trim s = [] \<longleftrightarrow> (\<forall>c \<in> set s. js_space c)"
proof
  assume "js_trim s = []"
  then have "\<forall>c \<in> set (dropWhile js_space s). js_space c"
    by (simp add: js_trim_def)
  then have "dropWhile js_space s = []"
    using hd_dropWhile [of js_space s] by (cases "dropWhile js_space s") auto
  then show "\<forall>c \<in> set s. js_space c" by simp
next
  assume "\<forall>c \<in> set s. js_space c"
  then have "dropWhile js_space s = []"
    using dropWhile_eq_Nil_conv by blast
  then show "js_trim s = []" by (simp only: js_trim_def rev.simps dropWhile.simps)
qed

text \<open>A string value is truthy when it is not empty; \<open>null\<close> is falsy.\<close>

definition truthy :: "string option \<Rightarrow> bool" where
  "truthy s = (case s of None \<Rightarrow> False | Some t \<Rightarrow> t \<noteq> [])"

lemma truthy_simps [simp]: "\<not> truthy None" "truthy (Some t) \<longleftrightarrow> t \<noteq> []"
  by (simp_all add: truthy_def)

definition js_starts_with :: "string \<Rightarrow> string \<Rightarrow> bool" where
  "js_starts_with s p \<longleftrightarrow> take (length p) s = p"

section \<open>Stable sorting with a comparator\<close>

text \<open>
  \<open>xs.sort(cmp)\<close> is a stable sort. For a comparator that is consistent (the order it
  describes is a total preorder) the result of a stable sort is unique, so insertion
  sort computes it.
\<close>

fun insert_by :: "('a \<Rightarrow> 'a \<Rightarrow> bool) \<Rightarrow> 'a \<Rightarrow> 'a list \<Rightarrow> 'a list" where
  "insert_by le x [] = [x]"
| "insert_by le x (y # ys) = (if le x y then x # y # ys else y # insert_by le x ys)"

definition stable_sort_by :: "('a \<Rightarrow> 'a \<Rightarrow> bool) \<Rightarrow> 'a list \<Rightarrow> 'a list" where
  "stable_sort_by le xs = foldr (insert_by le) xs []"

lemma stable_sort_by_simps [simp]:
  "stable_sort_by le [] = []"
  "stable_sort_by le (x # xs) = insert_by le x (stable_sort_by le xs)"
  by (simp_all add: stable_sort_by_def)

lemma set_insert_by [simp]: "set (insert_by le x ys) = insert x (set ys)"
  by (induction ys) auto

lemma set_stable_sort_by [simp]: "set (stable_sort_by le xs) = set xs"
  by (induction xs) auto

lemma length_insert_by [simp]: "length (insert_by le x ys) = Suc (length ys)"
  by (induction ys) auto

lemma length_stable_sort_by [simp]: "length (stable_sort_by le xs) = length xs"
  by (induction xs) auto

lemma distinct_map_insert_by [simp]:
  "distinct (map f (insert_by le x ys)) \<longleftrightarrow> distinct (map f (x # ys))"
  by (induction ys) auto

lemma distinct_map_stable_sort_by [simp]:
  "distinct (map f (stable_sort_by le xs)) \<longleftrightarrow> distinct (map f xs)"
  by (induction xs) auto

lemma count_insert_by: "count_list (insert_by le x ys) a = count_list (x # ys) a"
  by (induction ys) auto

lemma count_stable_sort_by: "count_list (stable_sort_by le xs) a = count_list xs a"
  by (induction xs) (auto simp: count_insert_by)

lemma sorted_insert_by:
  assumes total: "\<And>a b. le a b \<or> le b a" and tr: "\<And>a b c. le a b \<Longrightarrow> le b c \<Longrightarrow> le a c"
    and sorted: "sorted_wrt le ys"
  shows "sorted_wrt le (insert_by le x ys)"
  using sorted
proof (induction ys)
  case (Cons y ys)
  then show ?case using total [of x y] by (auto intro: tr)
qed simp

lemma sorted_stable_sort_by:
  assumes total: "\<And>a b. le a b \<or> le b a" and tr: "\<And>a b c. le a b \<Longrightarrow> le b c \<Longrightarrow> le a c"
  shows "sorted_wrt le (stable_sort_by le xs)"
proof (induction xs)
  case (Cons x xs)
  then show ?case
    unfolding stable_sort_by_simps by (intro sorted_insert_by total) (auto intro: tr)
qed simp

lemma stable_sort_by_sorted: "sorted_wrt le xs \<Longrightarrow> stable_sort_by le xs = xs"
proof (induction xs)
  case (Cons x xs)
  then show ?case by (cases xs) simp_all
qed simp

section \<open>Rows of a table\<close>

text \<open>A query for one row is \<open>find\<close>; a unique column finds the row that holds it.\<close>

lemma find_unique:
  assumes "distinct (map key xs)" "x \<in> set xs"
  shows "find (\<lambda>y. key y = key x) xs = Some x"
  using assms by (induction xs) (auto simp: image_iff)

lemma find_Some_mem: "find P xs = Some x \<Longrightarrow> x \<in> set xs \<and> P x"
  by (induction xs) (auto split: if_splits)

lemma unique_row: "distinct (map key xs) \<Longrightarrow> x \<in> set xs \<Longrightarrow> y \<in> set xs \<Longrightarrow> key x = key y \<Longrightarrow> x = y"
  by (induction xs) (auto simp: image_iff)

lemma find_eq_unique:
  assumes "distinct (map key xs)" "x \<in> set xs" "P x" "\<And>y. P y \<Longrightarrow> key y = key x"
  shows "find P xs = Some x"
proof (cases "find P xs")
  case None
  then show ?thesis using assms(2,3) by (auto simp: find_None_iff)
next
  case (Some y)
  then show ?thesis using find_Some_mem [OF Some] unique_row [OF assms(1)] assms(2,4) by blast
qed


text \<open>\<open>updateMany\<close>: the rows a condition selects are replaced; \<open>count\<close> is their number.\<close>

definition update_rows :: "('a \<Rightarrow> bool) \<Rightarrow> ('a \<Rightarrow> 'a) \<Rightarrow> 'a list \<Rightarrow> 'a list" where
  "update_rows P f rows = map (\<lambda>r. if P r then f r else r) rows"

lemma update_rows_simps [simp]:
  "update_rows P f [] = []" "update_rows P f (r # rows) = (if P r then f r else r) # update_rows P f rows"
  by (simp_all add: update_rows_def)

lemma map_update_rows: "(\<And>r. key (f r) = key r) \<Longrightarrow> map key (update_rows P f rows) = map key rows"
  by (simp add: update_rows_def)

lemma set_update_rows: "x \<in> set (update_rows P f rows) \<longleftrightarrow> (\<exists>r \<in> set rows. x = (if P r then f r else r))"
  by (auto simp: update_rows_def)

lemma bex_update_rows: "(\<exists>x \<in> set (update_rows P f rows). Q x) \<longleftrightarrow> (\<exists>r \<in> set rows. Q (if P r then f r else r))"
  by (auto simp: update_rows_def)

section \<open>Insertion-ordered sets\<close>

text \<open>\<open>Set.prototype.add\<close> on an insertion-ordered set.\<close>

definition set_add :: "'a list \<Rightarrow> 'a \<Rightarrow> 'a list" where
  "set_add xs x = (if x \<in> set xs then xs else xs @ [x])"

lemma set_add_properties:
  "set (set_add xs x) = insert x (set xs)" "distinct xs \<Longrightarrow> distinct (set_add xs x)"
  by (auto simp: set_add_def)

lemma foldl_set_add: "set (foldl set_add bs xs) = set bs \<union> set xs" "distinct bs \<Longrightarrow> distinct (foldl set_add bs xs)"
  by (induction xs arbitrary: bs) (auto simp: set_add_properties)

end
