(* ===== verification/JsDate.thy ===== *)
theory JsDate
  imports Prelude
begin

text \<open>
  The part of the ECMAScript \<open>Date\<close> object the code uses: UTC fields, \<open>Date.UTC\<close> and
  \<open>toISOString\<close>, over the proleptic Gregorian calendar; and the two date-only readers
  of the backend, \<open>common/date-only.util.ts\<close> and the wire functions of
  \<open>progress/progress-actual-temporal-quantity.policy.ts\<close>.

  A time value is an \<open>int\<close>, in milliseconds. Days are counted from 1970-01-01.
  The lemmas show that the calendar fields of a day and \<open>make_day\<close> are inverse to
  each other, and that the accepted date strings (\<open>0100-01-01\<close> to \<open>9999-12-31\<close>:
  \<open>Date.UTC\<close> reads the years 0 to 99 as 1900 to 1999, so those strings do not survive
  the round-trip check) are in order-preserving bijection with a range of days.
\<close>

section \<open>Calendar arithmetic\<close>

definition ms_per_day :: int where
  "ms_per_day = 86400000"

definition day_from_year :: "int \<Rightarrow> int" where
  "day_from_year y = 365 * (y - 1970) + (y - 1969) div 4 - (y - 1901) div 100 + (y - 1601) div 400"

definition leap_year :: "int \<Rightarrow> bool" where
  "leap_year y \<longleftrightarrow> y mod 4 = 0 \<and> (y mod 100 \<noteq> 0 \<or> y mod 400 = 0)"

definition year_from_day :: "int \<Rightarrow> int" where
  "year_from_day d =
     (let y = 1970 + (400 * d) div 146097
      in if d < day_from_year y then y - 1
         else if day_from_year (y + 1) \<le> d then y + 1 else y)"

definition month_start :: "bool \<Rightarrow> int \<Rightarrow> int" where
  "month_start lp m =
     (if m \<le> 0 then 0 else if m = 1 then 31
      else (if m = 2 then 59 else if m = 3 then 90 else if m = 4 then 120
            else if m = 5 then 151 else if m = 6 then 181 else if m = 7 then 212
            else if m = 8 then 243 else if m = 9 then 273 else if m = 10 then 304
            else if m = 11 then 334 else 365) + (if lp then 1 else 0))"

definition month_from_yday :: "bool \<Rightarrow> int \<Rightarrow> int" where
  "month_from_yday lp k =
     (if k < 31 then 0 else if k < month_start lp 2 then 1 else if k < month_start lp 3 then 2
      else if k < month_start lp 4 then 3 else if k < month_start lp 5 then 4
      else if k < month_start lp 6 then 5 else if k < month_start lp 7 then 6
      else if k < month_start lp 8 then 7 else if k < month_start lp 9 then 8
      else if k < month_start lp 10 then 9 else if k < month_start lp 11 then 10 else 11)"

definition day_in_year :: "int \<Rightarrow> int" where
  "day_in_year d = d - day_from_year (year_from_day d)"

definition month_of_day :: "int \<Rightarrow> int" where
  "month_of_day d = month_from_yday (leap_year (year_from_day d)) (day_in_year d)"

definition date_of_day :: "int \<Rightarrow> int" where
  "date_of_day d =
     day_in_year d - month_start (leap_year (year_from_day d)) (month_of_day d) + 1"

text \<open>ECMAScript \<open>MakeDay\<close>: a month outside 0..11 carries into the year.\<close>

definition make_day :: "int \<Rightarrow> int \<Rightarrow> int \<Rightarrow> int" where
  "make_day y m dt =
     (let ym = y + m div 12; mn = m mod 12
      in day_from_year ym + month_start (leap_year ym) mn + dt - 1)"

definition month_length :: "int \<Rightarrow> int \<Rightarrow> int" where
  "month_length y m = month_start (leap_year y) (m + 1) - month_start (leap_year y) m"

lemma int_div_Suc:
  fixes z n :: int
  assumes "0 < n"
  shows "(z + 1) div n = z div n + (if n dvd z + 1 then 1 else 0)"
proof -
  have z: "z = n * (z div n) + z mod n" by simp
  have r: "0 \<le> z mod n" "z mod n < n" using assms by simp_all
  show ?thesis
  proof (cases "z mod n + 1 = n")
    case True
    have "n * (z div n + 1) = n * (z div n) + n" by (simp add: distrib_left)
    with True z have "z + 1 = n * (z div n + 1)" by linarith
    moreover from this have "n dvd z + 1" by (rule dvdI)
    ultimately show ?thesis using assms by simp
  next
    case False
    with z r have q: "(z + 1) div n = z div n"
      by (intro int_div_pos_eq [of _ _ _ "z mod n + 1"]) (auto simp: algebra_simps)
    have m: "(z + 1) mod n = z mod n + 1"
      using z False r by (intro int_mod_pos_eq [of _ _ "z div n"]) (auto simp: algebra_simps)
    with r have "\<not> n dvd z + 1" by (simp add: dvd_eq_mod_eq_0)
    with q show ?thesis by simp
  qed
qed

lemma day_from_year_Suc: "day_from_year (y + 1) = day_from_year y + (if leap_year y then 366 else 365)"
proof -
  have shift: "n dvd y - c \<longleftrightarrow> n dvd y" if "n dvd c" for n c :: int
    using dvd_add_left_iff [of n c "y - c"] that by simp
  have step: "y - c + 1 = y + 1 - c" "y + 1 - c = y - (c - 1)" for c :: int
    by simp_all
  have 4: "(y + 1 - 1969) div 4 = (y - 1969) div 4 + (if 4 dvd y then 1 else 0)"
    using int_div_Suc [of 4 "y - 1969"] shift [of 4 1968] step [of 1969] by simp
  have 100: "(y + 1 - 1901) div 100 = (y - 1901) div 100 + (if 100 dvd y then 1 else 0)"
    using int_div_Suc [of 100 "y - 1901"] shift [of 100 1900] step [of 1901] by simp
  have 400: "(y + 1 - 1601) div 400 = (y - 1601) div 400 + (if 400 dvd y then 1 else 0)"
    using int_div_Suc [of 400 "y - 1601"] shift [of 400 1600] step [of 1601] by simp
  have d: "400 dvd y \<longrightarrow> 100 dvd y" "100 dvd y \<longrightarrow> 4 dvd y"
    using dvd_trans [of 100 400 y] dvd_trans [of 4 100 y] by simp_all
  have gen: "365 * (y + 1 - 1970) + (A + (if P then 1 else 0)) - (B + (if Q then 1 else 0))
      + (C + (if R then 1 else 0))
    = 365 * (y - 1970) + A - B + C + (if P \<and> (\<not> Q \<or> R) then 366 else 365)"
    if "R \<longrightarrow> Q" "Q \<longrightarrow> P" for P Q R and A B C :: int
    using that by (cases P; cases Q; cases R; simp)
  show ?thesis
    unfolding day_from_year_def 4 100 400 leap_year_def mod_eq_0_iff_dvd by (rule gen [OF d])
qed

lemma int_div_bounds:
  fixes z n :: int
  assumes "0 < n"
  shows "n * (z div n) \<le> z" and "z < n * (z div n) + n"
  using assms by (simp_all add: minus_mod_eq_mult_div [symmetric])

lemma day_from_year_estimate:
  assumes "y = 1970 + (400 * d) div 146097"
  shows "day_from_year (y - 1) \<le> d" and "d < day_from_year (y + 2)"
proof -
  define k where "k = (400 * d) div 146097"
  have y: "y = 1970 + k" using assms k_def by simp
  note k = int_div_bounds [of 146097 "400 * d", simplified, folded k_def]
  have b: "\<exists>q. z div n = q \<and> n * q \<le> z \<and> z < n * q + n" if "0 < n" for z n :: int
    using int_div_bounds [OF that] by blast
  have "day_from_year (y - 1) = 365 * (k - 1) + k div 4 - (k + 68) div 100 + (k + 368) div 400"
    by (simp add: day_from_year_def y algebra_simps)
  then show "day_from_year (y - 1) \<le> d"
    using k b [of 4 k] b [of 100 "k + 68"] b [of 400 "k + 368"] by clarsimp
  have "day_from_year (y + 2) = 365 * (k + 2) + (k + 3) div 4 - (k + 71) div 100 + (k + 371) div 400"
    by (simp add: day_from_year_def y algebra_simps)
  then show "d < day_from_year (y + 2)"
    using k b [of 4 "k + 3"] b [of 100 "k + 71"] b [of 400 "k + 371"] by clarsimp
qed

lemma year_from_day_bounds:
  "day_from_year (year_from_day d) \<le> d" "d < day_from_year (year_from_day d + 1)"
  using day_from_year_estimate [of "1970 + (400 * d) div 146097" d]
  by (auto simp: year_from_day_def Let_def add.commute)

lemma day_from_year_strict_mono: "y < z \<Longrightarrow> day_from_year y + 365 \<le> day_from_year z"
proof (induction z rule: int_gr_induct)
  case base
  show ?case by (simp add: day_from_year_Suc)
next
  case (step i)
  then show ?case by (simp add: day_from_year_Suc)
qed

lemma day_from_year_mono: "y \<le> z \<Longrightarrow> day_from_year y \<le> day_from_year z"
  using day_from_year_strict_mono [of y z] by (cases "y = z") auto

lemma year_from_day_unique:
  assumes "day_from_year y \<le> d" and "d < day_from_year (y + 1)"
  shows "year_from_day d = y"
proof (rule ccontr)
  assume "year_from_day d \<noteq> y"
  then consider "year_from_day d + 1 \<le> y" | "y + 1 \<le> year_from_day d" by linarith
  then show False
    using year_from_day_bounds [of d] assms day_from_year_mono by cases force+
qed

section \<open>Fields of a day\<close>

lemma day_in_year_bounds:
  "0 \<le> day_in_year d" "day_in_year d < (if leap_year (year_from_day d) then 366 else 365)"
  using year_from_day_bounds [of d] day_from_year_Suc [of "year_from_day d"]
  by (auto simp: day_in_year_def)

lemma month_cases:
  fixes m :: int
  assumes "0 \<le> m" and "m \<le> 11"
  shows "m \<in> {0, 1, 2, 3, 4, 5, 6, 7, 8, 9, 10, 11}"
proof -
  have "m \<in> set [0..11]" using assms by simp
  also have "[0..11] = [0, 1, 2, 3, 4, 5, 6, 7, 8, 9, 10, 11 :: int]" by (simp add: upto.simps)
  finally show ?thesis by simp
qed

lemma month_from_yday_bounds:
  assumes "0 \<le> k" and "k < (if lp then 366 else 365)"
  shows "0 \<le> month_from_yday lp k" "month_from_yday lp k \<le> 11"
    "month_start lp (month_from_yday lp k) \<le> k"
    "k < month_start lp (month_from_yday lp k + 1)"
proof -
  show "0 \<le> month_from_yday lp k" "month_from_yday lp k \<le> 11"
    by (simp_all add: month_from_yday_def)
  show "month_start lp (month_from_yday lp k) \<le> k"
    using assms(1) by (cases lp) (simp_all add: month_from_yday_def month_start_def)
  show "k < month_start lp (month_from_yday lp k + 1)"
    using assms(2) by (cases lp) (simp_all add: month_from_yday_def month_start_def)
qed

lemma month_from_yday_unique:
  assumes "0 \<le> m" and "m \<le> 11" and "month_start lp m \<le> k" and "k < month_start lp (m + 1)"
  shows "month_from_yday lp k = m"
proof -
  have "m \<in> {0, 1, 2, 3, 4, 5, 6, 7, 8, 9, 10, 11}" using assms(1,2) by (rule month_cases)
  then show ?thesis
    using assms(3,4) by (auto simp: month_from_yday_def month_start_def split: if_splits)
qed

lemma month_of_day_range: "0 \<le> month_of_day d" "month_of_day d \<le> 11"
  using month_from_yday_bounds [OF day_in_year_bounds] by (simp_all add: month_of_day_def)

lemma date_of_day_range:
  "1 \<le> date_of_day d" "date_of_day d \<le> month_length (year_from_day d) (month_of_day d)"
  using month_from_yday_bounds(3,4) [OF day_in_year_bounds, of d]
  by (simp_all add: date_of_day_def month_length_def month_of_day_def)

lemma month_div_mod [simp]: "0 \<le> m \<Longrightarrow> m \<le> 11 \<Longrightarrow> (m :: int) div 12 = 0"
  "0 \<le> m \<Longrightarrow> m \<le> 11 \<Longrightarrow> (m :: int) mod 12 = m"
  by (simp_all add: div_pos_pos_trivial)

theorem make_day_of_fields: "make_day (year_from_day d) (month_of_day d) (date_of_day d) = d"
  using month_of_day_range [of d]
  by (simp add: make_day_def Let_def date_of_day_def day_in_year_def)

lemma month_start_mono:
  assumes "0 \<le> m" "m \<le> 11"
  shows "0 \<le> month_start lp m" "month_start lp (m + 1) \<le> (if lp then 366 else 365)"
proof -
  have "m \<in> {0, 1, 2, 3, 4, 5, 6, 7, 8, 9, 10, 11}" using assms by (rule month_cases)
  then show "0 \<le> month_start lp m" "month_start lp (m + 1) \<le> (if lp then 366 else 365)"
    by (auto simp: month_start_def)
qed

theorem fields_of_make_day:
  assumes "0 \<le> m" "m \<le> 11" "1 \<le> dt" "dt \<le> month_length y m"
  shows "year_from_day (make_day y m dt) = y" "month_of_day (make_day y m dt) = m"
    "date_of_day (make_day y m dt) = dt"
proof -
  let ?k = "month_start (leap_year y) m + dt - 1"
  have d: "make_day y m dt = day_from_year y + ?k"
    using assms by (simp add: make_day_def Let_def)
  have k: "0 \<le> ?k" "?k < (if leap_year y then 366 else 365)"
    using assms month_start_mono [of m "leap_year y"] by (auto simp: month_length_def)
  show y: "year_from_day (make_day y m dt) = y"
    using k d by (intro year_from_day_unique) (auto simp: day_from_year_Suc)
  have kk: "day_in_year (make_day y m dt) = ?k" unfolding day_in_year_def y by (simp add: d)
  show m: "month_of_day (make_day y m dt) = m"
    unfolding month_of_day_def kk y
    using assms by (intro month_from_yday_unique) (auto simp: month_length_def)
  show "date_of_day (make_day y m dt) = dt"
    unfolding date_of_day_def kk y m by simp
qed

section \<open>Decimal digits\<close>

definition digit_char :: "int \<Rightarrow> char" where
  "digit_char n = char_of (48 + nat n)"

definition digit_value :: "char \<Rightarrow> int option" where
  "digit_value c =
     (let n = (of_char c :: nat) in if 48 \<le> n \<and> n \<le> 57 then Some (int (n - 48)) else None)"

fun dec_digits :: "nat \<Rightarrow> int \<Rightarrow> string" where
  "dec_digits 0 n = []"
| "dec_digits (Suc k) n = dec_digits k (n div 10) @ [digit_char (n mod 10)]"

text \<open>\<open>Number(s)\<close> of a string of ASCII digits; \<open>None\<close> when another character occurs.\<close>

fun digits_number :: "int \<Rightarrow> string \<Rightarrow> int option" where
  "digits_number acc [] = Some acc"
| "digits_number acc (c # cs) =
     (case digit_value c of None \<Rightarrow> None | Some v \<Rightarrow> digits_number (10 * acc + v) cs)"

text \<open>\<open>n.toString()\<close> of an integer, and \<open>padStart\<close> with zeros.\<close>

fun nat_to_string :: "nat \<Rightarrow> string" where
  "nat_to_string n =
     (if n < 10 then [digit_char (int n)]
      else nat_to_string (n div 10) @ [digit_char (int (n mod 10))])"

declare nat_to_string.simps [simp del]

definition int_to_string :: "int \<Rightarrow> string" where
  "int_to_string n = (if n < 0 then ''-'' @ nat_to_string (nat (- n)) else nat_to_string (nat n))"

definition pad_start_zero :: "nat \<Rightarrow> string \<Rightarrow> string" where
  "pad_start_zero k s = replicate (k - length s) (CHR ''0'') @ s"

lemma of_char_digit_char: "0 \<le> n \<Longrightarrow> n \<le> 9 \<Longrightarrow> (of_char (digit_char n) :: nat) = 48 + nat n"
  by (simp add: digit_char_def)

lemma digit_value_digit_char [simp]: "0 \<le> n \<Longrightarrow> n \<le> 9 \<Longrightarrow> digit_value (digit_char n) = Some n"
  by (simp add: digit_value_def of_char_digit_char)

lemma digit_value_SomeD:
  assumes "digit_value c = Some v"
  shows "0 \<le> v" "v \<le> 9" "c = digit_char v"
proof -
  from assms have n: "48 \<le> (of_char c :: nat)" "(of_char c :: nat) \<le> 57"
    and v: "v = int (of_char c - 48)"
    by (auto simp: digit_value_def Let_def split: if_splits)
  then show "0 \<le> v" "v \<le> 9" by auto
  from n v have "48 + nat v = (of_char c :: nat)" by simp
  then show "c = digit_char v" by (simp add: digit_char_def)
qed

lemma digit_char_less_iff:
  assumes "0 \<le> a" "a \<le> 9" "0 \<le> b" "b \<le> 9"
  shows "digit_char a < digit_char b \<longleftrightarrow> a < b"
  using assms by (auto simp: less_char_def of_char_digit_char)

lemma length_dec_digits [simp]: "length (dec_digits k n) = k"
  by (induction k arbitrary: n) auto

lemma digits_number_append:
  "digits_number acc (xs @ ys) =
     (case digits_number acc xs of None \<Rightarrow> None | Some a \<Rightarrow> digits_number a ys)"
  by (induction xs arbitrary: acc) (auto split: option.splits)

lemma digits_number_dec_digits:
  "0 \<le> n \<Longrightarrow> n < 10 ^ k \<Longrightarrow> digits_number 0 (dec_digits k n) = Some n"
proof (induction k arbitrary: n)
  case (Suc k)
  then have "0 \<le> n div 10" "n div 10 < 10 ^ k" by auto
  then show ?case using Suc.IH [of "n div 10"] by (simp add: digits_number_append)
qed simp

lemma digits_number_SomeD:
  "digits_number 0 s = Some n \<Longrightarrow> 0 \<le> n \<and> n < 10 ^ length s \<and> s = dec_digits (length s) n"
proof (induction s arbitrary: n rule: rev_induct)
  case (snoc c s)
  then obtain m v where m: "digits_number 0 s = Some m" and v: "digit_value c = Some v"
    and n: "n = 10 * m + v"
    by (auto simp: digits_number_append split: option.splits)
  note mb = snoc.IH [OF m] and vb = digit_value_SomeD [OF v]
  from n vb have "n div 10 = m" "n mod 10 = v" by auto
  with mb vb n show ?case by auto
qed simp

lemma append_less_iff:
  fixes xs ys us vs :: "'a :: linorder list"
  assumes "length xs = length ys"
  shows "xs @ us < ys @ vs \<longleftrightarrow> xs < ys \<or> xs = ys \<and> us < vs"
  using assms by (induction xs ys rule: list_induct2) auto

lemma dec_digits_less_iff:
  "0 \<le> a \<Longrightarrow> a < 10 ^ k \<Longrightarrow> 0 \<le> b \<Longrightarrow> b < 10 ^ k \<Longrightarrow> dec_digits k a < dec_digits k b \<longleftrightarrow> a < b"
proof (induction k arbitrary: a b)
  case (Suc k)
  have a: "0 \<le> a div 10" "a div 10 < 10 ^ k" using Suc.prems(1,2) by auto
  have b: "0 \<le> b div 10" "b div 10 < 10 ^ k" using Suc.prems(3,4) by auto
  have inj: "dec_digits k (a div 10) = dec_digits k (b div 10) \<longleftrightarrow> a div 10 = b div 10"
    using digits_number_dec_digits [OF a] digits_number_dec_digits [OF b]
    by (metis option.inject)
  note IH = Suc.IH [OF a b]
  have gen: "10 * q + r < 10 * q' + r' \<longleftrightarrow> q < q' \<or> q = q' \<and> r < r'"
    if "0 \<le> r" "r < 10" "0 \<le> r'" "r' < 10" for q r q' r' :: int
    using that by (cases q q' rule: linorder_cases) auto
  have "a < b \<longleftrightarrow> a div 10 < b div 10 \<or> a div 10 = b div 10 \<and> a mod 10 < b mod 10"
    using gen [of "a mod 10" "b mod 10" "a div 10" "b div 10"] by simp
  then show ?case by (simp add: append_less_iff IH inj digit_char_less_iff)
qed simp

section \<open>The \<open>Date\<close> object\<close>

definition day_number :: "int \<Rightarrow> int" where
  "day_number t = t div ms_per_day"

definition get_utc_full_year :: "int \<Rightarrow> int" where
  "get_utc_full_year t = year_from_day (day_number t)"

definition get_utc_month :: "int \<Rightarrow> int" where
  "get_utc_month t = month_of_day (day_number t)"

definition get_utc_date :: "int \<Rightarrow> int" where
  "get_utc_date t = date_of_day (day_number t)"

definition get_utc_day :: "int \<Rightarrow> int" where
  "get_utc_day t = (day_number t + 4) mod 7"

text \<open>
  \<open>Date.UTC(y, m, d)\<close>, with its reading of the years 0..99. \<open>TimeClip\<close> is left out:
  every argument the code passes comes from four-digit years, far inside its range.
\<close>

definition date_utc :: "int \<Rightarrow> int \<Rightarrow> int \<Rightarrow> int" where
  "date_utc y m dt = ms_per_day * make_day (if 0 \<le> y \<and> y \<le> 99 then 1900 + y else y) m dt"

definition iso_year :: "int \<Rightarrow> string" where
  "iso_year y =
     (if 0 \<le> y \<and> y \<le> 9999 then dec_digits 4 y
      else (if y < 0 then ''-'' else ''+'') @ dec_digits 6 \<bar>y\<bar>)"

definition iso_date_part :: "int \<Rightarrow> string" where
  "iso_date_part d =
     iso_year (year_from_day d) @ ''-'' @ dec_digits 2 (month_of_day d + 1) @ ''-''
       @ dec_digits 2 (date_of_day d)"

definition iso_time_part :: "int \<Rightarrow> string" where
  "iso_time_part r =
     ''T'' @ dec_digits 2 (r div 3600000) @ '':'' @ dec_digits 2 (r div 60000 mod 60) @ '':''
       @ dec_digits 2 (r div 1000 mod 60) @ ''.'' @ dec_digits 3 (r mod 1000) @ ''Z''"

definition to_iso_string :: "int \<Rightarrow> string" where
  "to_iso_string t = iso_date_part (day_number t) @ iso_time_part (t mod ms_per_day)"

lemma ms_per_day_pos [simp]: "0 < ms_per_day" "ms_per_day \<noteq> 0" "\<not> ms_per_day < 0"
  by (simp_all add: ms_per_day_def)

lemma day_number_mult [simp]: "day_number (ms_per_day * n) = n"
  "day_number (n * ms_per_day) = n"
  by (simp_all add: day_number_def)

lemma midnight_eq_iff [simp]: "ms_per_day * m = ms_per_day * n \<longleftrightarrow> m = n"
  by simp

lemma midnight_less_iff [simp]: "ms_per_day * m < ms_per_day * n \<longleftrightarrow> m < n"
  "ms_per_day * m \<le> ms_per_day * n \<longleftrightarrow> m \<le> n"
  using ms_per_day_pos(1) by (simp_all only: mult_less_cancel_left_pos mult_le_cancel_left_pos)

section \<open>Date-only strings\<close>

text \<open>The regular expression \<open>/^(\d{4})-(\d{2})-(\d{2})$/\<close> and its three numbers.\<close>

fun date_only_match :: "string \<Rightarrow> (int \<times> int \<times> int) option" where
  "date_only_match [a, b, c, d, s, e, f, t, g, h] =
     (if s = CHR ''-'' \<and> t = CHR ''-'' then
        case (digits_number 0 [a, b, c, d], digits_number 0 [e, f], digits_number 0 [g, h]) of
          (Some y, Some m, Some dt) \<Rightarrow> Some (y, m, dt)
        | _ \<Rightarrow> None
      else None)"
| "date_only_match _ = None"

definition parse_date_only_utc :: "string \<Rightarrow> string \<Rightarrow> js_error + int" where
  "parse_date_only_utc value field_name =
     (case date_only_match value of
        None \<Rightarrow> Inl (BadRequestException
          (field_name @ '' must be an exact calendar date in YYYY-MM-DD format''))
      | Some (year, month, day) \<Rightarrow>
          (let parsed = date_utc year (month - 1) day
           in if get_utc_full_year parsed \<noteq> year \<or> get_utc_month parsed \<noteq> month - 1
                \<or> get_utc_date parsed \<noteq> day
              then Inl (BadRequestException (field_name @ '' is not a valid calendar date''))
              else Inr parsed))"

definition next_utc_day_start :: "int \<Rightarrow> int" where
  "next_utc_day_start utc_day_start = utc_day_start + 24 * 60 * 60 * 1000"

definition previous_utc_day_start :: "int \<Rightarrow> int" where
  "previous_utc_day_start utc_day_start = utc_day_start - 24 * 60 * 60 * 1000"

definition project_business_date_wire :: "js_value \<Rightarrow> string option" where
  "project_business_date_wire value =
     (case value of
        JStr s \<Rightarrow>
          (case date_only_match s of
             None \<Rightarrow> None
           | Some (year, month, day) \<Rightarrow>
               (let date = date_utc year (month - 1) day
                in if get_utc_full_year date = year \<and> get_utc_month date = month - 1
                     \<and> get_utc_date date = day
                   then Some s else None))
      | _ \<Rightarrow> None)"

definition work_date_wire :: "js_date option \<Rightarrow> string option" where
  "work_date_wire value =
     (case value of
        None \<Rightarrow> None
      | Some Invalid_Date \<Rightarrow> None
      | Some (Date_Time t) \<Rightarrow>
          (let wire = to_iso_string t; business_date = take 10 wire
           in if wire = business_date @ ''T00:00:00.000Z''
              then project_business_date_wire (JStr business_date) else None))"

section \<open>Business days\<close>

text \<open>The days a date-only string can name, and the string that names one.\<close>

definition business_day :: "int \<Rightarrow> bool" where
  "business_day n \<longleftrightarrow> 100 \<le> year_from_day n \<and> year_from_day n \<le> 9999"

definition four_digit_day :: "int \<Rightarrow> bool" where
  "four_digit_day n \<longleftrightarrow> 0 \<le> year_from_day n \<and> year_from_day n \<le> 9999"

lemma business_day_four_digit [simp, intro]: "business_day n \<Longrightarrow> four_digit_day n"
  by (simp add: business_day_def four_digit_day_def)

lemma year_from_day_mono: "m \<le> n \<Longrightarrow> year_from_day m \<le> year_from_day n"
proof (rule ccontr)
  assume "m \<le> n" and "\<not> year_from_day m \<le> year_from_day n"
  then have "day_from_year (year_from_day n + 1) \<le> day_from_year (year_from_day m)"
    by (intro day_from_year_mono) simp
  with \<open>m \<le> n\<close> year_from_day_bounds [of m] year_from_day_bounds [of n] show False by linarith
qed

lemma four_digit_day_between:
  "four_digit_day a \<Longrightarrow> four_digit_day c \<Longrightarrow> a \<le> b \<Longrightarrow> b \<le> c \<Longrightarrow> four_digit_day b"
  unfolding four_digit_day_def using year_from_day_mono [of a b] year_from_day_mono [of b c] by linarith

lemma business_day_between:
  "business_day a \<Longrightarrow> business_day c \<Longrightarrow> a \<le> b \<Longrightarrow> b \<le> c \<Longrightarrow> business_day b"
  unfolding business_day_def using year_from_day_mono [of a b] year_from_day_mono [of b c] by linarith

lemma month_length_le: "0 \<le> m \<Longrightarrow> m \<le> 11 \<Longrightarrow> month_length y m \<le> 31"
  using month_cases [of m] by (auto simp: month_length_def month_start_def)

lemma month_length_ge: "0 \<le> m \<Longrightarrow> m \<le> 11 \<Longrightarrow> 28 \<le> month_length y m"
  using month_cases [of m] by (auto simp: month_length_def month_start_def)

lemma date_of_day_le: "date_of_day d \<le> 31"
  using date_of_day_range(2) [of d] month_length_le [OF month_of_day_range, of "year_from_day d" d]
  by simp

lemma iso_date_part_four_digit:
  "four_digit_day n \<Longrightarrow> iso_date_part n =
     dec_digits 4 (year_from_day n) @ ''-'' @ dec_digits 2 (month_of_day n + 1) @ ''-''
       @ dec_digits 2 (date_of_day n)"
  by (simp add: iso_date_part_def iso_year_def four_digit_day_def)

lemma length_iso_date_part [simp]: "four_digit_day n \<Longrightarrow> length (iso_date_part n) = 10"
  by (simp add: iso_date_part_four_digit)

lemma field_digits:
  "four_digit_day n \<Longrightarrow> digits_number 0 (dec_digits 4 (year_from_day n)) = Some (year_from_day n)"
  "digits_number 0 (dec_digits 2 (month_of_day n + 1)) = Some (month_of_day n + 1)"
  "digits_number 0 (dec_digits 2 (date_of_day n)) = Some (date_of_day n)"
  using month_of_day_range [of n] date_of_day_range(1) [of n] date_of_day_le [of n]
  by (intro digits_number_dec_digits; simp add: four_digit_day_def)+

lemma date_only_match_parts:
  assumes "length ys = 4" "length ms = 2" "length ds = 2"
  shows "date_only_match (ys @ ''-'' @ ms @ ''-'' @ ds) =
    (case (digits_number 0 ys, digits_number 0 ms, digits_number 0 ds) of
       (Some y, Some m, Some dt) \<Rightarrow> Some (y, m, dt) | _ \<Rightarrow> None)"
proof -
  from assms(1) obtain a b c d where "ys = [a, b, c, d]"
    by (auto simp: eval_nat_numeral length_Suc_conv)
  moreover from assms(2) obtain e f where "ms = [e, f]"
    by (auto simp: eval_nat_numeral length_Suc_conv)
  moreover from assms(3) obtain g h where "ds = [g, h]"
    by (auto simp: eval_nat_numeral length_Suc_conv)
  ultimately show ?thesis by simp
qed

lemma date_only_match_iso_date_part:
  assumes "four_digit_day n"
  shows "date_only_match (iso_date_part n) = Some (year_from_day n, month_of_day n + 1, date_of_day n)"
  unfolding iso_date_part_four_digit [OF assms]
  by (subst date_only_match_parts) (simp_all add: field_digits assms)

lemma date_only_match_SomeD:
  assumes "date_only_match w = Some (y, m, dt)"
  shows "w = dec_digits 4 y @ ''-'' @ dec_digits 2 m @ ''-'' @ dec_digits 2 dt"
    and "0 \<le> y" "y \<le> 9999" "0 \<le> m" "m \<le> 99" "0 \<le> dt" "dt \<le> 99"
proof -
  from assms obtain a b c d e f g h where
    w: "w = [a, b, c, d] @ ''-'' @ [e, f] @ ''-'' @ [g, h]"
    and y: "digits_number 0 [a, b, c, d] = Some y" and m: "digits_number 0 [e, f] = Some m"
    and dt: "digits_number 0 [g, h] = Some dt"
    by (auto elim!: date_only_match.elims split: if_splits option.splits simp del: digits_number.simps)
  note Y = digits_number_SomeD [OF y] and M = digits_number_SomeD [OF m] and D = digits_number_SomeD [OF dt]
  from Y M D w show "w = dec_digits 4 y @ ''-'' @ dec_digits 2 m @ ''-'' @ dec_digits 2 dt"
    by (simp add: numeral_eq_Suc)
  from Y M D show "0 \<le> y" "y \<le> 9999" "0 \<le> m" "m \<le> 99" "0 \<le> dt" "dt \<le> 99" by simp_all
qed

text \<open>The round-trip check fails on the years below 100, which \<open>Date.UTC\<close> moves to 1900..1999.\<close>

lemma date_utc_two_digit_year:
  assumes "0 \<le> y" "y \<le> 99" "- 1 \<le> m" "0 \<le> dt"
  shows "get_utc_full_year (date_utc y m dt) \<noteq> y"
proof
  let ?n = "make_day (1900 + y) m dt"
  assume "get_utc_full_year (date_utc y m dt) = y"
  then have "year_from_day ?n = y" using assms by (simp add: get_utc_full_year_def date_utc_def)
  then have "?n < day_from_year (y + 1)" using year_from_day_bounds(2) [of ?n] by simp
  moreover have "- 1 \<le> m div 12" using assms(3) zdiv_mono1 [of "- 1" m 12] by simp
  then have "day_from_year (1899 + y) \<le> day_from_year (1900 + y + m div 12)"
    by (intro day_from_year_mono) simp
  moreover have "0 \<le> month_start (leap_year (1900 + y + m div 12)) (m mod 12)"
    using month_start_mono(1) [of "m mod 12"] by simp
  then have "day_from_year (1900 + y + m div 12) - 1 \<le> ?n"
    using assms(4) by (simp add: make_day_def Let_def)
  moreover have "day_from_year (y + 1) + 365 \<le> day_from_year (1899 + y)"
    by (rule day_from_year_strict_mono) simp
  ultimately show False by linarith
qed

lemma date_utc_of_fields:
  assumes "business_day n"
  shows "date_utc (year_from_day n) (month_of_day n) (date_of_day n) = ms_per_day * n"
  using assms by (simp add: date_utc_def business_day_def make_day_of_fields)

lemma date_round_trip_iff:
  assumes "date_only_match w = Some (y, m, dt)"
  shows "get_utc_full_year (date_utc y (m - 1) dt) = y \<and> get_utc_month (date_utc y (m - 1) dt) = m - 1
      \<and> get_utc_date (date_utc y (m - 1) dt) = dt
    \<longleftrightarrow> (\<exists>n. business_day n \<and> w = iso_date_part n \<and> date_utc y (m - 1) dt = ms_per_day * n)"
    (is "?L \<longleftrightarrow> ?R")
proof
  assume L: ?L
  note range = date_only_match_SomeD [OF assms]
  have y: "100 \<le> y"
    using L range date_utc_two_digit_year [of y "m - 1" dt] by (cases "y \<le> 99") auto
  define n where "n = make_day y (m - 1) dt"
  have t: "date_utc y (m - 1) dt = ms_per_day * n" using y by (simp add: date_utc_def n_def)
  have f: "year_from_day n = y" "month_of_day n = m - 1" "date_of_day n = dt"
    using L by (simp_all add: t get_utc_full_year_def get_utc_month_def get_utc_date_def)
  have "business_day n" using y f range by (simp add: business_day_def)
  moreover have "w = iso_date_part n"
    using range(1) f business_day_four_digit [OF \<open>business_day n\<close>] by (simp add: iso_date_part_four_digit)
  ultimately show ?R using t by blast
next
  assume ?R
  then obtain n where n: "business_day n" "w = iso_date_part n"
    and t: "date_utc y (m - 1) dt = ms_per_day * n" by blast
  from n assms have "y = year_from_day n" "m = month_of_day n + 1" "dt = date_of_day n"
    by (simp_all add: date_only_match_iso_date_part)
  then show ?L
    by (simp add: date_utc_of_fields [OF n(1)] get_utc_full_year_def get_utc_month_def get_utc_date_def)
qed

lemma date_only_match_business_day:
  "business_day n \<Longrightarrow> \<exists>y m dt. date_only_match (iso_date_part n) = Some (y, m, dt)
     \<and> date_utc y (m - 1) dt = ms_per_day * n"
  by (simp add: date_only_match_iso_date_part date_utc_of_fields)

theorem parse_date_only_utc_Inr_iff:
  "parse_date_only_utc w f = Inr t \<longleftrightarrow>
     (\<exists>n. business_day n \<and> w = iso_date_part n \<and> t = ms_per_day * n)"
proof (cases "date_only_match w")
  case None
  then show ?thesis
    using date_only_match_business_day by (fastforce simp: parse_date_only_utc_def)
next
  case (Some p)
  obtain y m dt where p: "p = (y, m, dt)" by (cases p)
  note rt = date_round_trip_iff [OF Some [unfolded p]]
  show ?thesis
  proof
    assume "parse_date_only_utc w f = Inr t"
    then have "t = date_utc y (m - 1) dt" and
      "get_utc_full_year (date_utc y (m - 1) dt) = y \<and> get_utc_month (date_utc y (m - 1) dt) = m - 1
        \<and> get_utc_date (date_utc y (m - 1) dt) = dt"
      using Some p by (auto simp: parse_date_only_utc_def Let_def split: if_splits)
    with rt show "\<exists>n. business_day n \<and> w = iso_date_part n \<and> t = ms_per_day * n" by auto
  next
    assume "\<exists>n. business_day n \<and> w = iso_date_part n \<and> t = ms_per_day * n"
    then obtain n where n: "business_day n" "w = iso_date_part n" "t = ms_per_day * n" by blast
    with Some p have t: "date_utc y (m - 1) dt = t"
      using date_only_match_business_day [OF n(1)] by auto
    with n rt have "get_utc_full_year (date_utc y (m - 1) dt) = y
        \<and> get_utc_month (date_utc y (m - 1) dt) = m - 1 \<and> get_utc_date (date_utc y (m - 1) dt) = dt"
      by blast
    with Some p t show "parse_date_only_utc w f = Inr t"
      by (simp add: parse_date_only_utc_def Let_def)
  qed
qed


theorem project_business_date_wire_iff:
  "project_business_date_wire v = Some w \<longleftrightarrow> v = JStr w \<and> (\<exists>n. business_day n \<and> w = iso_date_part n)"
proof (cases v)
  case (JStr s)
  show ?thesis
  proof (cases "date_only_match s")
    case None
    then show ?thesis
      using date_only_match_business_day JStr
      by (fastforce simp: project_business_date_wire_def)
  next
    case (Some p)
    obtain y m dt where p: "p = (y, m, dt)" by (cases p)
    show ?thesis
      using date_round_trip_iff [OF Some [unfolded p]] date_only_match_business_day Some p JStr
      by (auto simp: project_business_date_wire_def Let_def) fastforce+
  qed
qed (auto simp: project_business_date_wire_def)

corollary project_business_date_wire_business_day [simp]:
  "business_day n \<Longrightarrow> project_business_date_wire (JStr (iso_date_part n)) = Some (iso_date_part n)"
  by (auto simp: project_business_date_wire_iff)

corollary parse_date_only_utc_business_day [simp]:
  "business_day n \<Longrightarrow> parse_date_only_utc (iso_date_part n) f = Inr (ms_per_day * n)"
  by (auto simp: parse_date_only_utc_Inr_iff)

section \<open>Order of date strings\<close>

lemma month_start_le:
  assumes "0 \<le> a" "a \<le> b"
  shows "b \<le> 12 \<Longrightarrow> month_start lp a \<le> month_start lp b"
  using assms(2)
proof (induction b rule: int_ge_induct)
  case (step i)
  have "month_start lp i \<le> month_start lp (i + 1)"
    using month_length_ge [of i] month_cases [of i] step assms(1)
    by (auto simp: month_start_def)
  with step show ?case by simp
qed simp

lemma fields_less_imp_day_less:
  assumes "year_from_day m < year_from_day n \<or> year_from_day m = year_from_day n \<and>
    (month_of_day m < month_of_day n \<or> month_of_day m = month_of_day n \<and> date_of_day m < date_of_day n)"
  shows "m < n"
proof -
  consider (year) "year_from_day m < year_from_day n"
    | (month) "year_from_day m = year_from_day n" "month_of_day m < month_of_day n"
    | (day) "year_from_day m = year_from_day n" "month_of_day m = month_of_day n"
        "date_of_day m < date_of_day n"
    using assms by blast
  then show ?thesis
  proof cases
    case year
    then have "day_from_year (year_from_day m + 1) \<le> day_from_year (year_from_day n)"
      by (intro day_from_year_mono) simp
    then show ?thesis using year_from_day_bounds [of m] year_from_day_bounds [of n] by linarith
  next
    case month
    let ?lp = "leap_year (year_from_day n)"
    have "day_in_year m < month_start ?lp (month_of_day m + 1)"
      using month_from_yday_bounds(4) [OF day_in_year_bounds, of m] month by (simp add: month_of_day_def)
    also have "\<dots> \<le> month_start ?lp (month_of_day n)"
      using month month_of_day_range [of m] month_of_day_range [of n] by (intro month_start_le) auto
    also have "\<dots> \<le> day_in_year n"
      using month_from_yday_bounds(3) [OF day_in_year_bounds, of n] by (simp add: month_of_day_def)
    finally show ?thesis using month(1) by (simp add: day_in_year_def)
  next
    case day
    then show ?thesis by (auto simp: date_of_day_def day_in_year_def)
  qed
qed


lemma dec_digits_eq_iff:
  assumes "0 \<le> a" "a < 10 ^ k" "0 \<le> b" "b < 10 ^ k"
  shows "dec_digits k a = dec_digits k b \<longleftrightarrow> a = b"
  using digits_number_dec_digits [OF assms(1,2)] digits_number_dec_digits [OF assms(3,4)]
  by (metis option.inject)

theorem iso_date_part_less_iff:
  assumes "four_digit_day m" "four_digit_day n"
  shows "iso_date_part m < iso_date_part n \<longleftrightarrow> m < n"
proof -
  let ?lt = "\<lambda>a b. year_from_day a < year_from_day b \<or> year_from_day a = year_from_day b \<and>
    (month_of_day a < month_of_day b \<or> month_of_day a = month_of_day b \<and> date_of_day a < date_of_day b)"
  have y: "dec_digits 4 (year_from_day a) < dec_digits 4 (year_from_day b)
      \<longleftrightarrow> year_from_day a < year_from_day b"
    "dec_digits 4 (year_from_day a) = dec_digits 4 (year_from_day b)
      \<longleftrightarrow> year_from_day a = year_from_day b"
    if "four_digit_day a" "four_digit_day b" for a b
    using that by (simp_all add: four_digit_day_def dec_digits_less_iff dec_digits_eq_iff)
  have m: "dec_digits 2 (month_of_day a + 1) < dec_digits 2 (month_of_day b + 1)
      \<longleftrightarrow> month_of_day a < month_of_day b"
    "dec_digits 2 (month_of_day a + 1) = dec_digits 2 (month_of_day b + 1)
      \<longleftrightarrow> month_of_day a = month_of_day b" for a b
    using month_of_day_range [of a] month_of_day_range [of b]
      dec_digits_less_iff [of "month_of_day a + 1" 2 "month_of_day b + 1"]
      dec_digits_eq_iff [of "month_of_day a + 1" 2 "month_of_day b + 1"]
    by (simp_all add: add1_zle_eq)
  have d: "dec_digits 2 (date_of_day a) < dec_digits 2 (date_of_day b) \<longleftrightarrow> date_of_day a < date_of_day b"
    for a b
    using date_of_day_range(1) [of a] date_of_day_range(1) [of b] date_of_day_le [of a] date_of_day_le [of b]
    by (intro dec_digits_less_iff) auto
  have lex: "iso_date_part a < iso_date_part b \<longleftrightarrow> ?lt a b"
    if "four_digit_day a" "four_digit_day b" for a b
    using that by (simp add: iso_date_part_four_digit append_less_iff y m d)
  have "?lt m n \<or> m = n \<or> ?lt n m"
    using make_day_of_fields [of m] make_day_of_fields [of n]
    by (metis linorder_neqE)
  then show ?thesis
    using lex [OF assms] fields_less_imp_day_less [of m n] fields_less_imp_day_less [of n m] by auto
qed

corollary iso_date_part_eq_iff:
  "four_digit_day m \<Longrightarrow> four_digit_day n \<Longrightarrow> iso_date_part m = iso_date_part n \<longleftrightarrow> m = n"
  using iso_date_part_less_iff [of m n] iso_date_part_less_iff [of n m] by (metis less_irrefl linorder_neqE)

corollary iso_date_part_le_iff:
  "four_digit_day m \<Longrightarrow> four_digit_day n \<Longrightarrow> iso_date_part m \<le> iso_date_part n \<longleftrightarrow> m \<le> n"
  using iso_date_part_less_iff [of n m] by (auto simp: not_less [symmetric])

lemmas date_order = iso_date_part_less_iff iso_date_part_eq_iff iso_date_part_le_iff

section \<open>Dates at midnight\<close>

lemma iso_time_part_0: "iso_time_part 0 = ''T00:00:00.000Z''"
  by code_simp

lemma iso_time_part_midnight_iff:
  assumes "0 \<le> r" "r < ms_per_day"
  shows "iso_time_part r = ''T00:00:00.000Z'' \<longleftrightarrow> r = 0"
proof
  assume eq: "iso_time_part r = ''T00:00:00.000Z''"
  then have "iso_time_part r = iso_time_part 0" by (simp only: iso_time_part_0)
  then have d: "dec_digits 2 (r div 3600000) = dec_digits 2 0" "dec_digits 2 (r div 60000 mod 60) = dec_digits 2 0"
    "dec_digits 2 (r div 1000 mod 60) = dec_digits 2 0" "dec_digits 3 (r mod 1000) = dec_digits 3 0"
    by (simp_all add: iso_time_part_def)
  have b: "r div 60000 mod 60 < 60" "r div 1000 mod 60 < 60" "r mod 1000 < 1000" by simp_all
  have h: "0 \<le> r div 3600000" "r div 3600000 < 100" using assms by (simp_all add: ms_per_day_def)
  have z: "n = 0" if "dec_digits k n = dec_digits k 0" "0 \<le> n" "n < 10 ^ k" for k n
    using that dec_digits_eq_iff [of n k 0] by simp
  have z1: "r div 3600000 = 0" by (rule z [OF d(1)]) (use h in simp_all)
  have z2: "r div 60000 mod 60 = 0" by (rule z [OF d(2)]) (use b(1) in simp_all)
  have z3: "r div 1000 mod 60 = 0" by (rule z [OF d(3)]) (use b(2) in simp_all)
  have z4: "r mod 1000 = 0" by (rule z [OF d(4)]) simp_all
  have "r div 1000 div 60 = r div 60000" "r div 60000 div 60 = r div 3600000"
    by (simp_all add: zdiv_zmult2_eq [symmetric])
  with z1 z2 z3 z4 show "r = 0"
    by (metis add.right_neutral div_mult_mod_eq mult_zero_left)
next
  assume "r = 0"
  then show "iso_time_part r = ''T00:00:00.000Z''" by (simp only: iso_time_part_0)
qed

lemma take_10_to_iso_string:
  "four_digit_day (day_number t) \<Longrightarrow> take 10 (to_iso_string t) = iso_date_part (day_number t)"
  by (simp add: to_iso_string_def)

lemma to_iso_string_midnight_iff:
  "to_iso_string t = take 10 (to_iso_string t) @ ''T00:00:00.000Z''
     \<longleftrightarrow> four_digit_day (day_number t) \<and> t mod ms_per_day = 0"
proof (cases "four_digit_day (day_number t)")
  case True
  then show ?thesis
    by (simp add: take_10_to_iso_string) (simp add: to_iso_string_def iso_time_part_midnight_iff)
next
  case False
  then obtain c where "iso_year (year_from_day (day_number t)) = c # dec_digits 6 \<bar>year_from_day (day_number t)\<bar>"
    by (auto simp: iso_year_def four_digit_day_def)
  then have "to_iso_string t ! 10 = CHR ''-''" "10 < length (to_iso_string t)"
    by (simp_all add: to_iso_string_def iso_date_part_def nth_append)
  note dash = this
  have "to_iso_string t \<noteq> take 10 (to_iso_string t) @ ''T00:00:00.000Z''"
  proof
    assume eq: "to_iso_string t = take 10 (to_iso_string t) @ ''T00:00:00.000Z''"
    have "(take 10 (to_iso_string t) @ ''T00:00:00.000Z'') ! 10 = CHR ''T''"
      using dash(2) by (simp add: nth_append)
    with dash(1) show False by (simp add: eq [symmetric])
  qed
  with False show ?thesis by simp
qed

theorem work_date_wire_Some_iff:
  "work_date_wire d = Some w \<longleftrightarrow>
     (\<exists>n. business_day n \<and> w = iso_date_part n \<and> d = Some (Date_Time (ms_per_day * n)))"
proof -
  have "work_date_wire (Some (Date_Time t)) = Some w \<longleftrightarrow>
      (\<exists>n. business_day n \<and> w = iso_date_part n \<and> t = ms_per_day * n)" for t
  proof (cases "four_digit_day (day_number t) \<and> t mod ms_per_day = 0")
    case True
    then have t: "t = ms_per_day * day_number t" by (auto simp: day_number_def)
    have "project_business_date_wire (JStr (iso_date_part (day_number t))) = Some w \<longleftrightarrow>
        business_day (day_number t) \<and> w = iso_date_part (day_number t)"
      using True by (auto simp: project_business_date_wire_iff date_order)
    then show ?thesis
      using True t to_iso_string_midnight_iff [of t]
      by (auto simp: work_date_wire_def Let_def take_10_to_iso_string)
  next
    case False
    then show ?thesis
      using to_iso_string_midnight_iff [of t] by (auto simp: work_date_wire_def Let_def)
  qed
  then show ?thesis
    by (cases d rule: option.exhaust; simp add: work_date_wire_def split: js_date.splits)
qed

section \<open>Evaluation\<close>

text \<open>Code equations that keep the evaluation of dates away from unary numbers.\<close>

definition digit_table :: "(char \<times> int) list" where
  "digit_table = zip ''0123456789'' (map int (upt 0 10))"

lemma digit_table_eq: "digit_table = map (\<lambda>k. (digit_char (int k), int k)) (upt 0 10)"
  by (simp add: digit_table_def upt_rec [of _ 10] digit_char_def char_of_def bit_0)

lemma digit_char_code [code]:
  "digit_char n = (if 0 \<le> n \<and> n \<le> 9 then fst (digit_table ! nat n) else char_of (48 + nat n))"
proof (cases "0 \<le> n \<and> n \<le> 9")
  case True
  then have "nat n < 10" by linarith
  then have "digit_table ! nat n = (digit_char (int (nat n)), int (nat n))" by (simp add: digit_table_eq)
  then show ?thesis using True by simp
next
  case False
  then show ?thesis by (simp only: digit_char_def if_False)
qed

lemma digit_value_code [code]: "digit_value c = map_of digit_table c"
proof (cases "digit_value c")
  case None
  have "c \<noteq> digit_char (int k)" if "k < 10" for k
  proof
    assume "c = digit_char (int k)"
    then show False using None digit_value_digit_char [of "int k"] that by simp
  qed
  then have "c \<notin> fst ` set digit_table" unfolding digit_table_eq by fastforce
  then have "map_of digit_table c = None" by (simp only: map_of_eq_None_iff not_False_eq_True)
  then show ?thesis using None by simp
next
  case (Some v)
  note d = digit_value_SomeD [OF Some]
  have "inj_on (\<lambda>k. digit_char (int k)) (set (upt 0 10))"
  proof (rule inj_onI)
    fix k l :: nat
    assume "k \<in> set (upt 0 10)" "l \<in> set (upt 0 10)" and same: "digit_char (int k) = digit_char (int l)"
    then have r: "0 \<le> int k" "int k \<le> 9" "0 \<le> int l" "int l \<le> 9" by simp_all
    have "Some (int k) = Some (int l)"
      using digit_value_digit_char [OF r(1,2)] digit_value_digit_char [OF r(3,4)] unfolding same by (rule trans [OF sym])
    then show "k = l" by simp
  qed
  then have "distinct (map fst digit_table)" unfolding digit_table_eq by (simp add: distinct_map comp_def)
  moreover have "(c, v) \<in> set digit_table"
  proof -
    have k: "int (nat v) = v" "nat v \<in> set (upt 0 10)" using d(1,2) by simp_all
    have "(c, v) = (digit_char (int (nat v)), int (nat v))" unfolding k(1) d(3) ..
    then show ?thesis unfolding digit_table_eq list.set_map using k(2) by (rule image_eqI)
  qed
  ultimately have "map_of digit_table c = Some v" by (rule map_of_is_SomeI)
  then show ?thesis unfolding Some ..
qed

function pos_to_string :: "int \<Rightarrow> string" where
  "pos_to_string n = (if n < 10 then [digit_char n] else pos_to_string (n div 10) @ [digit_char (n mod 10)])"
  by pat_completeness auto

termination by (relation "measure nat") auto

declare pos_to_string.simps [simp del]

lemma pos_to_string: "0 \<le> n \<Longrightarrow> pos_to_string n = nat_to_string (nat n)"
proof (induction n rule: pos_to_string.induct)
  case (1 n)
  then show ?case by (subst pos_to_string.simps, subst nat_to_string.simps) (auto simp: nat_div_distrib nat_mod_distrib zmod_int)
qed

lemma int_to_string_code [code]: "int_to_string n = (if n < 0 then CHR ''-'' # pos_to_string (- n) else pos_to_string n)"
  by (simp add: int_to_string_def pos_to_string)

end
