(* ===== verification/TemporalBoundary.thy ===== *)
theory TemporalBoundary
  imports JsDate
begin

text \<open>
  \<open>progress/progress-temporal-boundary.policy.ts\<close>: the one temporal law of Monitoring.
  A reference date and a basis (calendar, or the project's governed work-period anchor)
  name a week or a month; the resolver returns its identity and its inclusive bounds.

  The definitions follow the file: the date helpers, one function per kind of period, the
  resolver, the intersection of two windows. \<open>date_wire\<close> throws outside the years
  0100..9999, so every function that writes a date may throw.

  The lemmas show what the resolver promises: it returns exactly the reason the file
  gives, the period contains the reference date, and every date of the period resolves to
  the very same period (locale \<open>canonical_period_resolver\<close>). The promise is derived from
  the integer bounds of the four kinds of period, each an instance of the locale
  \<open>day_partition\<close>.
\<close>

section \<open>Types\<close>

datatype temporal_basis = CALENDAR | WORK_PERIOD

datatype temporal_granularity = WEEK | MONTH

datatype temporal_period_unavailable_reason =
    INVALID_REFERENCE_PROJECT_BUSINESS_DATE
  | GOVERNED_WORK_PERIOD_ANCHOR_REQUIRED
  | INVALID_GOVERNED_WORK_PERIOD_ANCHOR_DATE
  | REFERENCE_DATE_BEFORE_GOVERNED_WORK_PERIOD_ANCHOR

record date_window =
  start_date :: string
  end_date :: string

text \<open>The metadata of a period; the constructor fixes the \<open>boundaryRule\<close> literal.\<close>

datatype period_metadata =
    Calendar_Week_Metadata (iso_week_year: int) (iso_week_number: int)
  | Calendar_Month_Metadata (calendar_year: int) (calendar_month_number: int)
  | Work_Week_Metadata (governed_work_period_anchor_date: string)
  | Work_Month_Metadata (governed_work_period_anchor_date: string)

record temporal_period = date_window +
  period_key :: string
  period_index :: int
  period_basis :: temporal_basis
  period_granularity :: temporal_granularity
  period_meta :: period_metadata

datatype temporal_period_resolution =
    Period_Resolved temporal_period
  | Period_Unavailable temporal_period_unavailable_reason

record resolve_period_input =
  rpi_basis :: temporal_basis
  rpi_granularity :: temporal_granularity
  rpi_reference_date :: string
  rpi_anchor_date :: "string option"

datatype window_invalid_reason =
    INVALID_PERIOD_WINDOW_START_DATE
  | INVALID_PERIOD_WINDOW_END_DATE
  | PERIOD_WINDOW_START_AFTER_END

datatype window_validity = Window_Valid date_window | Window_Invalid window_invalid_reason

datatype window_side = LEFT | RIGHT

datatype window_intersection =
    Window_Intersection date_window
  | No_Intersection
  | Invalid_Window window_side window_invalid_reason

section \<open>Date helpers\<close>

definition project_business_date :: "js_value \<Rightarrow> (string \<times> int) option" where
  "project_business_date value =
     (case value of
        JStr s \<Rightarrow>
          (case parse_date_only_utc s ''projectBusinessDate'' of
             Inl e \<Rightarrow> None | Inr d \<Rightarrow> Some (s, d))
      | _ \<Rightarrow> None)"

definition date_wire :: "int \<Rightarrow> js_error + string" where
  "date_wire value =
     (let iso = to_iso_string value; wire = take 10 iso
      in if iso \<noteq> wire @ ''T00:00:00.000Z'' \<or> project_business_date (JStr wire) = None
         then Inl (Plain_Error ''TEMPORAL_BOUNDARY_DATE_WIRE_INVARIANT_VIOLATION'')
         else Inr wire)"

definition validate_inclusive_date_window :: "'a date_window_scheme \<Rightarrow> window_validity" where
  "validate_inclusive_date_window window =
     (case project_business_date (JStr (start_date window)) of
        None \<Rightarrow> Window_Invalid INVALID_PERIOD_WINDOW_START_DATE
      | Some (start_wire, _) \<Rightarrow>
          (case project_business_date (JStr (end_date window)) of
             None \<Rightarrow> Window_Invalid INVALID_PERIOD_WINDOW_END_DATE
           | Some (end_wire, _) \<Rightarrow>
               if start_wire > end_wire then Window_Invalid PERIOD_WINDOW_START_AFTER_END
               else Window_Valid \<lparr>start_date = start_wire, end_date = end_wire\<rparr>))"

definition add_days :: "int \<Rightarrow> int \<Rightarrow> int" where
  "add_days value days = value + days * ms_per_day"

definition compare_dates :: "int \<Rightarrow> int \<Rightarrow> int" where
  "compare_dates left right = left - right"

definition monday_on_or_before :: "int \<Rightarrow> int" where
  "monday_on_or_before value =
     (let days_since_monday = (get_utc_day value + 6) mod 7
      in add_days value (- days_since_monday))"

definition iso_week_identity :: "int \<Rightarrow> int \<times> int" where
  "iso_week_identity monday =
     (let thursday = add_days monday 3;
          year = get_utc_full_year thursday;
          first_monday = monday_on_or_before (date_utc year 0 4);
          number = (monday - first_monday) div (7 * ms_per_day) + 1
      in (year, number))"

definition two_digits :: "int \<Rightarrow> string" where
  "two_digits value = pad_start_zero 2 (int_to_string value)"

section \<open>The four kinds of period\<close>

definition calendar_week :: "int \<Rightarrow> js_error + temporal_period" where
  "calendar_week reference_date =
     (let start = monday_on_or_before reference_date;
          (week_year, week_number) = iso_week_identity start
      in rbind (date_wire start) (\<lambda>start_wire.
         rbind (date_wire (add_days start 6)) (\<lambda>end_wire.
           Inr \<lparr>start_date = start_wire, end_date = end_wire,
                period_key = int_to_string week_year @ ''-W'' @ two_digits week_number,
                period_index = week_number,
                period_basis = CALENDAR, period_granularity = WEEK,
                period_meta = Calendar_Week_Metadata week_year week_number\<rparr>)))"

definition calendar_month :: "int \<Rightarrow> js_error + temporal_period" where
  "calendar_month reference_date =
     (let year = get_utc_full_year reference_date;
          month = get_utc_month reference_date + 1
      in rbind (date_wire (date_utc year (month - 1) 1)) (\<lambda>start_wire.
         rbind (date_wire (date_utc year month 0)) (\<lambda>end_wire.
           Inr \<lparr>start_date = start_wire, end_date = end_wire,
                period_key = int_to_string year @ ''-'' @ two_digits month,
                period_index = month,
                period_basis = CALENDAR, period_granularity = MONTH,
                period_meta = Calendar_Month_Metadata year month\<rparr>)))"

definition work_week :: "int \<Rightarrow> int \<Rightarrow> string \<Rightarrow> js_error + temporal_period" where
  "work_week reference_date anchor_date anchor_wire =
     (let elapsed_days = (reference_date - anchor_date) div ms_per_day;
          index = elapsed_days div 7 + 1;
          start = add_days anchor_date ((index - 1) * 7)
      in rbind (date_wire start) (\<lambda>start_wire.
         rbind (date_wire (add_days start 6)) (\<lambda>end_wire.
           Inr \<lparr>start_date = start_wire, end_date = end_wire,
                period_key = ''WORK-WEEK-'' @ int_to_string index,
                period_index = index,
                period_basis = WORK_PERIOD, period_granularity = WEEK,
                period_meta = Work_Week_Metadata anchor_wire\<rparr>)))"

definition days_in_utc_month :: "int \<Rightarrow> int \<Rightarrow> int" where
  "days_in_utc_month year zero_based_month = get_utc_date (date_utc year (zero_based_month + 1) 0)"

definition original_anchor_month_boundary :: "int \<Rightarrow> int \<Rightarrow> int" where
  "original_anchor_month_boundary anchor_date month_offset =
     (let absolute_month = get_utc_full_year anchor_date * 12 + get_utc_month anchor_date + month_offset;
          year = absolute_month div 12;
          zero_based_month = absolute_month - year * 12;
          day = min (get_utc_date anchor_date) (days_in_utc_month year zero_based_month)
      in date_utc year zero_based_month day)"

definition work_month_boundary_index :: "int \<Rightarrow> int \<Rightarrow> int" where
  "work_month_boundary_index reference_date anchor_date =
     (let boundary_index =
            (get_utc_full_year reference_date - get_utc_full_year anchor_date) * 12
              + get_utc_month reference_date - get_utc_month anchor_date
      in if compare_dates (original_anchor_month_boundary anchor_date boundary_index) reference_date > 0
         then boundary_index - 1 else boundary_index)"

definition work_month :: "int \<Rightarrow> int \<Rightarrow> string \<Rightarrow> js_error + temporal_period" where
  "work_month reference_date anchor_date anchor_wire =
     (let boundary_index = work_month_boundary_index reference_date anchor_date;
          start = original_anchor_month_boundary anchor_date boundary_index;
          next_start = original_anchor_month_boundary anchor_date (boundary_index + 1);
          index = boundary_index + 1
      in rbind (date_wire start) (\<lambda>start_wire.
         rbind (date_wire (add_days next_start (- 1))) (\<lambda>end_wire.
           Inr \<lparr>start_date = start_wire, end_date = end_wire,
                period_key = ''WORK-MONTH-'' @ int_to_string index,
                period_index = index,
                period_basis = WORK_PERIOD, period_granularity = MONTH,
                period_meta = Work_Month_Metadata anchor_wire\<rparr>)))"

section \<open>The resolver and the intersection of windows\<close>

definition resolve_canonical_temporal_period ::
    "resolve_period_input \<Rightarrow> js_error + temporal_period_resolution" where
  "resolve_canonical_temporal_period input =
     (case project_business_date (JStr (rpi_reference_date input)) of
        None \<Rightarrow> Inr (Period_Unavailable INVALID_REFERENCE_PROJECT_BUSINESS_DATE)
      | Some (_, reference_date) \<Rightarrow>
          if rpi_basis input = CALENDAR then
            rbind (if rpi_granularity input = WEEK then calendar_week reference_date
                   else calendar_month reference_date) (\<lambda>p. Inr (Period_Resolved p))
          else
            (case rpi_anchor_date input of
               None \<Rightarrow> Inr (Period_Unavailable GOVERNED_WORK_PERIOD_ANCHOR_REQUIRED)
             | Some anchor_string \<Rightarrow>
                 (case project_business_date (JStr anchor_string) of
                    None \<Rightarrow> Inr (Period_Unavailable INVALID_GOVERNED_WORK_PERIOD_ANCHOR_DATE)
                  | Some (anchor_wire, anchor_date) \<Rightarrow>
                      if compare_dates reference_date anchor_date < 0
                      then Inr (Period_Unavailable REFERENCE_DATE_BEFORE_GOVERNED_WORK_PERIOD_ANCHOR)
                      else
                        rbind (if rpi_granularity input = WEEK
                               then work_week reference_date anchor_date anchor_wire
                               else work_month reference_date anchor_date anchor_wire)
                          (\<lambda>p. Inr (Period_Resolved p)))))"

definition intersect_inclusive_date_windows ::
    "'a date_window_scheme \<Rightarrow> 'b date_window_scheme \<Rightarrow> window_intersection" where
  "intersect_inclusive_date_windows left right =
     (case validate_inclusive_date_window left of
        Window_Invalid reason \<Rightarrow> Invalid_Window LEFT reason
      | Window_Valid l \<Rightarrow>
          (case validate_inclusive_date_window right of
             Window_Invalid reason \<Rightarrow> Invalid_Window RIGHT reason
           | Window_Valid r \<Rightarrow>
               (let s = (if start_date l \<ge> start_date r then start_date l else start_date r);
                    e = (if end_date l \<le> end_date r then end_date l else end_date r)
                in if s \<le> e then Window_Intersection \<lparr>start_date = s, end_date = e\<rparr>
                   else No_Intersection)))"

section \<open>Bounds of the periods, counted in days\<close>

text \<open>
  The contract of a division of the days into periods: \<open>lo n\<close> and \<open>hi n\<close> bound the period
  of day \<open>n\<close>, which contains \<open>n\<close> and has the same bounds at each of its days.
\<close>

locale day_partition =
  fixes covered :: "int \<Rightarrow> bool" and lo hi :: "int \<Rightarrow> int"
  assumes lo_le: "covered n \<Longrightarrow> lo n \<le> n"
    and le_hi: "covered n \<Longrightarrow> n \<le> hi n"
    and covered_between: "covered n \<Longrightarrow> lo n \<le> m \<Longrightarrow> m \<le> hi n \<Longrightarrow> covered m"
    and lo_same: "covered n \<Longrightarrow> lo n \<le> m \<Longrightarrow> m \<le> hi n \<Longrightarrow> lo m = lo n"
    and hi_same: "covered n \<Longrightarrow> lo n \<le> m \<Longrightarrow> m \<le> hi n \<Longrightarrow> hi m = hi n"
begin

lemma hi_before_lo:
  assumes "covered n" "covered (lo n - 1)"
  shows "hi (lo n - 1) = lo n - 1"
proof (rule ccontr)
  assume "hi (lo n - 1) \<noteq> lo n - 1"
  with le_hi [OF assms(2)] have "lo n \<le> hi (lo n - 1)" by simp
  then have "lo (lo n) = lo (lo n - 1)"
    using lo_le [OF assms(2)] by (intro lo_same [OF assms(2)]) auto
  moreover have "lo (lo n) = lo n"
    using lo_le [OF assms(1)] le_hi [OF assms(1)] by (intro lo_same [OF assms(1)]) auto
  ultimately show False using lo_le [OF assms(2)] by simp
qed

lemma lo_after_hi:
  assumes "covered n" "covered (hi n + 1)"
  shows "lo (hi n + 1) = hi n + 1"
proof (rule ccontr)
  assume "lo (hi n + 1) \<noteq> hi n + 1"
  with lo_le [OF assms(2)] have "lo (hi n + 1) \<le> hi n" by simp
  then have "hi (hi n) = hi (hi n + 1)"
    using le_hi [OF assms(2)] by (intro hi_same [OF assms(2)]) auto
  moreover have "hi (hi n) = hi n"
    using lo_le [OF assms(1)] le_hi [OF assms(1)] by (intro hi_same [OF assms(1)]) auto
  ultimately show False using le_hi [OF assms(2)] by simp
qed

end

subsection \<open>Calendar weeks\<close>

definition monday_of :: "int \<Rightarrow> int" where
  "monday_of n = n - (n + 3) mod 7"

lemma monday_of_bounds: "monday_of n \<le> n" "n \<le> monday_of n + 6"
  unfolding monday_of_def using pos_mod_bound [of 7 "n + 3"] pos_mod_sign [of 7 "n + 3"] by linarith+

lemma monday_of_same:
  assumes "monday_of n \<le> m" "m \<le> monday_of n + 6"
  shows "monday_of m = monday_of n"
proof -
  define q where "q = (n + 3) div 7"
  have q: "monday_of n = 7 * q - 3"
    using mult_div_mod_eq [of 7 "n + 3"] unfolding monday_of_def q_def by linarith
  then have "(m + 3) mod 7 = m + 3 - 7 * q"
    using assms by (intro int_mod_pos_eq [of _ _ q]) auto
  then show ?thesis using q by (simp add: monday_of_def)
qed

interpretation calendar_week_days: day_partition "\<lambda>_. True" monday_of "\<lambda>n. monday_of n + 6"
proof unfold_locales
  fix n m assume "monday_of n \<le> m" "m \<le> monday_of n + 6"
  then show "monday_of m = monday_of n" "monday_of m + 6 = monday_of n + 6"
    using monday_of_same [of n m] by simp_all
qed (rule monday_of_bounds TrueI)+

subsection \<open>Calendar months\<close>

definition month_index :: "int \<Rightarrow> int" where
  "month_index n = year_from_day n * 12 + month_of_day n"

definition day_of_month_index :: "int \<Rightarrow> int \<Rightarrow> int" where
  "day_of_month_index k dt = make_day (k div 12) (k mod 12) dt"

definition month_index_length :: "int \<Rightarrow> int" where
  "month_index_length k = month_length (k div 12) (k mod 12)"

lemma month_mod_range: "0 \<le> k mod 12" "k mod 12 \<le> (11 :: int)"
  using pos_mod_sign [of 12 k] pos_mod_bound [of 12 k] by linarith+

lemma month_index_div_mod [simp]: "month_index n div 12 = year_from_day n" "month_index n mod 12 = month_of_day n"
proof -
  have "month_index n = 12 * year_from_day n + month_of_day n" by (simp add: month_index_def)
  then show "month_index n div 12 = year_from_day n" "month_index n mod 12 = month_of_day n"
    using month_of_day_range [of n]
      int_div_pos_eq [of "month_index n" 12 "year_from_day n" "month_of_day n"]
      int_mod_pos_eq [of "month_index n" 12 "year_from_day n" "month_of_day n"] by auto
qed

lemma fields_of_day_of_month_index:
  assumes "1 \<le> dt" "dt \<le> month_index_length k"
  shows "year_from_day (day_of_month_index k dt) = k div 12"
    "month_of_day (day_of_month_index k dt) = k mod 12"
    "date_of_day (day_of_month_index k dt) = dt"
  using fields_of_make_day [OF month_mod_range assms(1) assms(2) [unfolded month_index_length_def]]
  by (simp_all add: day_of_month_index_def)

lemma month_index_day_of_month_index:
  assumes "1 \<le> dt" "dt \<le> month_index_length k"
  shows "month_index (day_of_month_index k dt) = k"
  using fields_of_day_of_month_index [OF assms] by (simp add: month_index_def)

lemma day_of_month_index_self: "day_of_month_index (month_index n) (date_of_day n) = n"
  by (simp add: day_of_month_index_def make_day_of_fields)

lemma date_of_day_le_length: "date_of_day n \<le> month_index_length (month_index n)"
  by (simp add: month_index_length_def date_of_day_range)

lemma month_index_less_imp_less: "month_index m < month_index n \<Longrightarrow> m < n"
proof (rule fields_less_imp_day_less)
  assume less: "month_index m < month_index n"
  show "year_from_day m < year_from_day n \<or> year_from_day m = year_from_day n \<and>
    (month_of_day m < month_of_day n \<or> month_of_day m = month_of_day n \<and> date_of_day m < date_of_day n)"
    using less month_of_day_range [of m] month_of_day_range [of n]
    by (cases "year_from_day m" "year_from_day n" rule: linorder_cases) (auto simp: month_index_def)
qed

lemma month_index_mono: "m \<le> n \<Longrightarrow> month_index m \<le> month_index n"
  using month_index_less_imp_less [of n m] by fastforce

lemma day_of_month_index_less: "dt < dt' \<Longrightarrow> day_of_month_index k dt < day_of_month_index k dt'"
  by (simp add: day_of_month_index_def make_day_def Let_def)

text \<open>Day 0 of the next month is the last day of this one.\<close>

lemma day_zero_of_next_month:
  "day_of_month_index (k + 1) 0 = day_of_month_index k (month_index_length k)"
proof (cases "k mod 12 = 11")
  case True
  define q where "q = k div 12"
  have "k = 12 * q + 11" using True mult_div_mod_eq [of 12 k] by (simp add: q_def)
  then have "k + 1 = 12 * (q + 1) + 0" by simp
  then have kk: "k + 1 = 12 * (k div 12 + 1) + 0" by (simp only: q_def)
  have n: "(k + 1) div 12 = k div 12 + 1" "(k + 1) mod 12 = 0"
    by (rule int_div_pos_eq [OF kk]; simp) (rule int_mod_pos_eq [OF kk]; simp)
  show ?thesis
    using True n by (simp add: day_of_month_index_def make_day_def Let_def month_index_length_def
        month_length_def day_from_year_Suc month_start_def)
next
  case False
  with month_mod_range [of k] have r: "0 \<le> k mod 12 + 1" "k mod 12 + 1 < 12" by auto
  have k: "k + 1 = 12 * (k div 12) + (k mod 12 + 1)" by simp
  have n: "(k + 1) div 12 = k div 12" "(k + 1) mod 12 = k mod 12 + 1"
    using int_div_pos_eq [OF k r] int_mod_pos_eq [OF k r] by auto
  show ?thesis
    using r by (simp add: day_of_month_index_def make_day_def Let_def month_index_length_def
        month_length_def n)
qed

definition month_first :: "int \<Rightarrow> int" where
  "month_first n = day_of_month_index (month_index n) 1"

definition month_last :: "int \<Rightarrow> int" where
  "month_last n = day_of_month_index (month_index n + 1) 0"

lemma month_index_length_pos: "1 \<le> month_index_length k"
  using month_length_ge [OF month_mod_range, of "k div 12" k] by (simp add: month_index_length_def)

lemma month_index_bounds:
  "month_index (month_first n) = month_index n" "month_index (month_last n) = month_index n"
  using month_index_length_pos [of "month_index n"]
  by (simp_all add: month_first_def month_last_def day_zero_of_next_month month_index_day_of_month_index)

lemma month_between_iff: "month_first n \<le> m \<and> m \<le> month_last n \<longleftrightarrow> month_index m = month_index n"
proof
  assume "month_first n \<le> m \<and> m \<le> month_last n"
  then show "month_index m = month_index n"
    using month_index_mono [of "month_first n" m] month_index_mono [of m "month_last n"]
    by (simp add: month_index_bounds)
next
  assume eq: "month_index m = month_index n"
  have m: "m = day_of_month_index (month_index n) (date_of_day m)"
    using day_of_month_index_self [of m] by (simp add: eq)
  have "month_first n \<le> day_of_month_index (month_index n) (date_of_day m)"
    using date_of_day_range(1) [of m] day_of_month_index_less [of 1 "date_of_day m" "month_index n"]
    by (cases "date_of_day m = 1") (auto simp: month_first_def)
  moreover have "day_of_month_index (month_index n) (date_of_day m) \<le> month_last n"
    using date_of_day_le_length [of m]
      day_of_month_index_less [of "date_of_day m" "month_index_length (month_index n)" "month_index n"]
    by (cases "date_of_day m = month_index_length (month_index n)")
      (auto simp: month_last_def day_zero_of_next_month eq)
  ultimately show "month_first n \<le> m \<and> m \<le> month_last n" using m by simp
qed

interpretation calendar_month_days: day_partition "\<lambda>_. True" month_first month_last
proof unfold_locales
  fix n m assume "month_first n \<le> m" "m \<le> month_last n"
  then have "month_index m = month_index n" using month_between_iff [of n m] by simp
  then show "month_first m = month_first n" "month_last m = month_last n"
    by (simp_all add: month_first_def month_last_def)
qed (use month_between_iff in auto)

subsection \<open>Work weeks\<close>

definition work_week_index :: "int \<Rightarrow> int \<Rightarrow> int" where
  "work_week_index a n = (n - a) div 7"

definition work_week_first :: "int \<Rightarrow> int \<Rightarrow> int" where
  "work_week_first a n = a + 7 * work_week_index a n"

lemma work_week_bounds: "work_week_first a n \<le> n" "n \<le> work_week_first a n + 6"
  unfolding work_week_first_def work_week_index_def
  using int_div_bounds [of 7 "n - a"] by simp_all

lemma work_week_index_same:
  assumes "work_week_first a n \<le> m" "m \<le> work_week_first a n + 6"
  shows "work_week_index a m = work_week_index a n"
  unfolding work_week_index_def [of a m]
  using assms by (intro int_div_pos_eq [of _ _ _ "m - work_week_first a n"]) (auto simp: work_week_first_def)

lemma work_week_index_nonneg: "a \<le> n \<Longrightarrow> 0 \<le> work_week_index a n"
  by (simp add: work_week_index_def pos_imp_zdiv_nonneg_iff)

interpretation work_week_days: day_partition "\<lambda>n. a \<le> n" "work_week_first a" "\<lambda>n. work_week_first a n + 6"
  for a
proof unfold_locales
  fix n m assume n: "a \<le> n" and m: "work_week_first a n \<le> m" "m \<le> work_week_first a n + 6"
  from m show "work_week_first a m = work_week_first a n" "work_week_first a m + 6 = work_week_first a n + 6"
    using work_week_index_same [OF m] by (simp_all add: work_week_first_def)
  show "a \<le> m" using m work_week_index_nonneg [OF n] by (simp add: work_week_first_def)
qed (rule work_week_bounds)+

subsection \<open>Work months\<close>

text \<open>Boundary \<open>k\<close> of the anchor: the anchor's day number, clamped to the target month.\<close>

definition anchor_boundary :: "int \<Rightarrow> int \<Rightarrow> int" where
  "anchor_boundary a k =
     (let q = month_index a + k in day_of_month_index q (min (date_of_day a) (month_index_length q)))"

definition work_month_index :: "int \<Rightarrow> int \<Rightarrow> int" where
  "work_month_index a n =
     (let k = month_index n - month_index a in if anchor_boundary a k > n then k - 1 else k)"

lemma date_of_anchor_boundary:
  "date_of_day (anchor_boundary a k) = min (date_of_day a) (month_index_length (month_index a + k))"
  using month_index_length_pos [of "month_index a + k"] date_of_day_range(1) [of a]
  by (simp add: anchor_boundary_def Let_def fields_of_day_of_month_index)

lemma month_index_anchor_boundary: "month_index (anchor_boundary a k) = month_index a + k"
  using month_index_length_pos [of "month_index a + k"] date_of_day_range(1) [of a]
  by (simp add: anchor_boundary_def Let_def month_index_day_of_month_index)

lemma anchor_boundary_less: "k < l \<Longrightarrow> anchor_boundary a k < anchor_boundary a l"
  by (rule month_index_less_imp_less) (simp add: month_index_anchor_boundary)

lemma anchor_boundary_zero: "anchor_boundary a 0 = a"
  using date_of_day_le_length [of a]
  by (simp add: anchor_boundary_def Let_def min_absorb1 day_of_month_index_self)

lemma work_month_index_bounds:
  "anchor_boundary a (work_month_index a n) \<le> n" "n < anchor_boundary a (work_month_index a n + 1)"
proof -
  let ?k = "month_index n - month_index a"
  have "anchor_boundary a (?k - 1) < n" "n < anchor_boundary a (?k + 1)"
    by (rule month_index_less_imp_less, simp add: month_index_anchor_boundary)+
  then show "anchor_boundary a (work_month_index a n) \<le> n"
    "n < anchor_boundary a (work_month_index a n + 1)"
    by (auto simp: work_month_index_def Let_def)
qed

lemma work_month_index_unique:
  assumes "anchor_boundary a k \<le> n" "n < anchor_boundary a (k + 1)"
  shows "work_month_index a n = k"
proof -
  have "anchor_boundary a (l + 1) \<le> anchor_boundary a m" if "l < m" for l m
    using that anchor_boundary_less [of "l + 1" m a] by (cases "l + 1 = m") auto
  then show ?thesis
    using work_month_index_bounds [where a = a and n = n] assms
    by (cases "work_month_index a n" k rule: linorder_cases) fastforce+
qed

lemma work_month_index_nonneg:
  assumes "a \<le> n"
  shows "0 \<le> work_month_index a n"
proof (rule ccontr)
  assume "\<not> 0 \<le> work_month_index a n"
  then have "anchor_boundary a (work_month_index a n + 1) \<le> anchor_boundary a 0"
    using anchor_boundary_less [of "work_month_index a n + 1" 0 a]
    by (cases "work_month_index a n + 1 = 0") auto
  with work_month_index_bounds(2) [where a = a and n = n] assms show False by (simp add: anchor_boundary_zero)
qed

interpretation work_month_days: day_partition "\<lambda>n. a \<le> n"
  "\<lambda>n. anchor_boundary a (work_month_index a n)" "\<lambda>n. anchor_boundary a (work_month_index a n + 1) - 1"
  for a
proof unfold_locales
  fix n m
  assume n: "a \<le> n" and m: "anchor_boundary a (work_month_index a n) \<le> m"
    "m \<le> anchor_boundary a (work_month_index a n + 1) - 1"
  then have "work_month_index a m = work_month_index a n" by (intro work_month_index_unique) auto
  then show "anchor_boundary a (work_month_index a m) = anchor_boundary a (work_month_index a n)"
    "anchor_boundary a (work_month_index a m + 1) - 1 = anchor_boundary a (work_month_index a n + 1) - 1"
    by simp_all
  have "anchor_boundary a 0 \<le> anchor_boundary a (work_month_index a n)"
    using work_month_index_nonneg [OF n] anchor_boundary_less [of 0 "work_month_index a n" a]
    by (cases "work_month_index a n = 0") auto
  with m show "a \<le> m" by (simp add: anchor_boundary_zero)
qed (use work_month_index_bounds in \<open>auto simp: zle_diff1_eq\<close>)

section \<open>The code computes these bounds\<close>

definition midnight :: "int \<Rightarrow> int" where
  "midnight n = ms_per_day * n"

lemma midnight_simps [simp]:
  "day_number (midnight n) = n" "midnight m = midnight n \<longleftrightarrow> m = n"
  "midnight m - midnight n = midnight (m - n)" "midnight n div ms_per_day = n"
  "add_days (midnight n) d = midnight (n + d)" "0 < midnight n \<longleftrightarrow> 0 < n" "midnight n < 0 \<longleftrightarrow> n < 0"
  by (simp_all add: midnight_def add_days_def algebra_simps zero_less_mult_iff mult_less_0_iff ms_per_day_def
      day_number_def)

lemma midnight_le_iff [simp]: "midnight m \<le> midnight n \<longleftrightarrow> m \<le> n" "midnight m < midnight n \<longleftrightarrow> m < n"
  by (simp_all add: midnight_def del: mult_le_cancel_left mult_less_cancel_left)

lemma get_utc_midnight [simp]:
  "get_utc_full_year (midnight n) = year_from_day n" "get_utc_month (midnight n) = month_of_day n"
  "get_utc_date (midnight n) = date_of_day n" "get_utc_day (midnight n) = (n + 4) mod 7"
  by (simp_all add: get_utc_full_year_def get_utc_month_def get_utc_date_def get_utc_day_def)

lemma project_business_date_Some_iff:
  "project_business_date v = Some (w, t) \<longleftrightarrow>
     v = JStr w \<and> (\<exists>n. business_day n \<and> w = iso_date_part n \<and> t = midnight n)"
proof (cases v)
  case (JStr s)
  then have "project_business_date v = Some (w, t) \<longleftrightarrow>
      s = w \<and> parse_date_only_utc s ''projectBusinessDate'' = Inr t"
    by (auto simp: project_business_date_def split: sum.splits)
  then show ?thesis using JStr by (auto simp: parse_date_only_utc_Inr_iff midnight_def)
qed (auto simp: project_business_date_def)

lemma project_business_date_business_day [simp]:
  "business_day n \<Longrightarrow> project_business_date (JStr (iso_date_part n)) = Some (iso_date_part n, midnight n)"
  by (auto simp: project_business_date_Some_iff)

lemma date_wire_midnight:
  "date_wire (midnight n) =
     (if business_day n then Inr (iso_date_part n)
      else Inl (Plain_Error ''TEMPORAL_BOUNDARY_DATE_WIRE_INVARIANT_VIOLATION''))"
proof (cases "four_digit_day n")
  case True
  have "project_business_date (JStr (iso_date_part n)) = None" if "\<not> business_day n"
    using that True
    by (cases "project_business_date (JStr (iso_date_part n))")
      (auto simp: project_business_date_Some_iff date_order)
  moreover have "to_iso_string (midnight n) = take 10 (to_iso_string (midnight n)) @ ''T00:00:00.000Z''"
    using True by (simp add: to_iso_string_midnight_iff) (simp add: midnight_def)
  moreover have "take 10 (to_iso_string (midnight n)) = iso_date_part n"
    using True by (simp add: take_10_to_iso_string)
  ultimately show ?thesis
    by (auto simp: date_wire_def Let_def)
next
  case False
  then have "to_iso_string (midnight n) \<noteq> take 10 (to_iso_string (midnight n)) @ ''T00:00:00.000Z''"
    using to_iso_string_midnight_iff [of "midnight n"] by simp
  with False show ?thesis by (auto simp: date_wire_def Let_def)
qed

lemma date_wire_midnight_Inr [simp]:
  "business_day n \<Longrightarrow> date_wire (midnight n) = Inr (iso_date_part n)"
  "date_wire (midnight n) = Inr w \<longleftrightarrow> business_day n \<and> w = iso_date_part n"
  by (auto simp: date_wire_midnight)

lemma monday_on_or_before_midnight: "monday_on_or_before (midnight n) = midnight (monday_of n)"
proof -
  have "((n + 4) mod 7 + 6) mod 7 = (n + 3) mod 7"
    using mod_add_eq [of "n + 4" 7 6] mod_add_self2 [of "n + 3" 7] by (simp add: add.assoc)
  then show ?thesis by (simp add: monday_on_or_before_def Let_def monday_of_def)
qed

lemma date_utc_day_of_month_index:
  assumes "100 \<le> y"
  shows "date_utc y m dt = midnight (day_of_month_index (12 * y + m) dt)"
proof -
  have "(12 * y + m) div 12 = y + m div 12" "(12 * y + m) mod 12 = m mod 12" by simp_all
  then show ?thesis using assms
    by (simp add: date_utc_def midnight_def day_of_month_index_def make_day_def Let_def)
qed

lemma business_day_year: "business_day n \<Longrightarrow> 100 \<le> year_from_day n" "business_day n \<Longrightarrow> 1200 \<le> month_index n"
  using month_of_day_range [of n] by (simp_all add: business_day_def month_index_def)

lemma days_in_utc_month_month_index:
  assumes "1200 \<le> q"
  shows "days_in_utc_month (q div 12) (q - q div 12 * 12) = month_index_length q"
proof -
  have y: "100 \<le> q div 12" using assms zdiv_mono1 [of 1200 q 12] by simp
  have q: "12 * (q div 12) + (q - q div 12 * 12 + 1) = q + 1" by simp
  have "days_in_utc_month (q div 12) (q - q div 12 * 12) = date_of_day (day_of_month_index (q + 1) 0)"
    using date_utc_day_of_month_index [of "q div 12" "q - q div 12 * 12 + 1" 0] y q assms
    by (simp add: days_in_utc_month_def)
  then show ?thesis
    using month_index_length_pos [of q] by (simp add: day_zero_of_next_month fields_of_day_of_month_index)
qed

lemma original_anchor_month_boundary_midnight:
  assumes "business_day a" and "0 \<le> month_index a + k - 1200"
  shows "original_anchor_month_boundary (midnight a) k = midnight (anchor_boundary a k)"
proof -
  let ?q = "month_index a + k"
  have y: "100 \<le> ?q div 12" using assms(2) zdiv_mono1 [of 1200 ?q 12] by simp
  have q: "12 * (?q div 12) + (?q - ?q div 12 * 12) = ?q" by simp
  have "original_anchor_month_boundary (midnight a) k =
      date_utc (?q div 12) (?q - ?q div 12 * 12) (min (date_of_day a) (month_index_length ?q))"
    using days_in_utc_month_month_index [of ?q] assms(2)
    by (simp add: original_anchor_month_boundary_def Let_def month_index_def)
  then show ?thesis
    using date_utc_day_of_month_index [of "?q div 12" "?q - ?q div 12 * 12"] y q assms(2)
    by (simp add: anchor_boundary_def Let_def)
qed

text \<open>The first and the last day of the period of day \<open>n\<close>, for an anchor at day \<open>a\<close>.\<close>

fun period_first :: "temporal_basis \<Rightarrow> temporal_granularity \<Rightarrow> int \<Rightarrow> int \<Rightarrow> int" where
  "period_first CALENDAR WEEK a n = monday_of n"
| "period_first CALENDAR MONTH a n = month_first n"
| "period_first WORK_PERIOD WEEK a n = work_week_first a n"
| "period_first WORK_PERIOD MONTH a n = anchor_boundary a (work_month_index a n)"

fun period_last :: "temporal_basis \<Rightarrow> temporal_granularity \<Rightarrow> int \<Rightarrow> int \<Rightarrow> int" where
  "period_last CALENDAR WEEK a n = monday_of n + 6"
| "period_last CALENDAR MONTH a n = month_last n"
| "period_last WORK_PERIOD WEEK a n = work_week_first a n + 6"
| "period_last WORK_PERIOD MONTH a n = anchor_boundary a (work_month_index a n + 1) - 1"

definition period_covered :: "temporal_basis \<Rightarrow> int \<Rightarrow> int \<Rightarrow> bool" where
  "period_covered b a n \<longleftrightarrow> b = CALENDAR \<or> a \<le> n"

lemma period_first_eta:
  "period_first CALENDAR WEEK a = monday_of" "period_first CALENDAR MONTH a = month_first"
  "period_first WORK_PERIOD WEEK a = work_week_first a"
  "period_first WORK_PERIOD MONTH a = (\<lambda>n. anchor_boundary a (work_month_index a n))"
  "period_last CALENDAR WEEK a = (\<lambda>n. monday_of n + 6)" "period_last CALENDAR MONTH a = month_last"
  "period_last WORK_PERIOD WEEK a = (\<lambda>n. work_week_first a n + 6)"
  "period_last WORK_PERIOD MONTH a = (\<lambda>n. anchor_boundary a (work_month_index a n + 1) - 1)"
  "period_covered CALENDAR a = (\<lambda>_. True)" "period_covered WORK_PERIOD a = (\<lambda>n. a \<le> n)"
  by (simp_all add: fun_eq_iff period_covered_def)

interpretation period_days: day_partition "period_covered b a" "period_first b g a" "period_last b g a"
  for b g a
  using calendar_week_days.day_partition_axioms calendar_month_days.day_partition_axioms
    work_week_days.day_partition_axioms [of a] work_month_days.day_partition_axioms [of a]
  by (cases b; cases g; simp add: period_first_eta)

lemma work_week_midnight:
  "work_week (midnight n) (midnight a) w =
     rbind (date_wire (midnight (work_week_first a n))) (\<lambda>s.
     rbind (date_wire (midnight (work_week_first a n + 6))) (\<lambda>e.
       Inr \<lparr>start_date = s, end_date = e,
            period_key = ''WORK-WEEK-'' @ int_to_string (work_week_index a n + 1),
            period_index = work_week_index a n + 1,
            period_basis = WORK_PERIOD, period_granularity = WEEK,
            period_meta = Work_Week_Metadata w\<rparr>))"
  by (simp add: work_week_def Let_def work_week_first_def work_week_index_def algebra_simps)

lemma work_month_boundary_index_midnight:
  assumes "business_day a" "a \<le> n"
  shows "work_month_boundary_index (midnight n) (midnight a) = work_month_index a n"
proof -
  have "month_index a \<le> month_index n" using assms(2) by (rule month_index_mono)
  with assms(1) have "original_anchor_month_boundary (midnight a) (month_index n - month_index a) =
      midnight (anchor_boundary a (month_index n - month_index a))"
    using business_day_year(2) [of a] by (intro original_anchor_month_boundary_midnight) auto
  moreover have "(year_from_day n - year_from_day a) * 12 + month_of_day n - month_of_day a =
      month_index n - month_index a"
    by (simp add: month_index_def algebra_simps)
  ultimately show ?thesis
    by (simp add: work_month_boundary_index_def work_month_index_def Let_def compare_dates_def)
qed

lemma work_month_midnight:
  assumes "business_day a" "a \<le> n"
  shows "work_month (midnight n) (midnight a) w =
     rbind (date_wire (midnight (anchor_boundary a (work_month_index a n)))) (\<lambda>s.
     rbind (date_wire (midnight (anchor_boundary a (work_month_index a n + 1) - 1))) (\<lambda>e.
       Inr \<lparr>start_date = s, end_date = e,
            period_key = ''WORK-MONTH-'' @ int_to_string (work_month_index a n + 1),
            period_index = work_month_index a n + 1,
            period_basis = WORK_PERIOD, period_granularity = MONTH,
            period_meta = Work_Month_Metadata w\<rparr>))"
  using work_month_index_nonneg [OF assms(2)] business_day_year(2) [OF assms(1)] assms(1)
  by (simp add: work_month_def Let_def work_month_boundary_index_midnight [OF assms]
      original_anchor_month_boundary_midnight)

lemma calendar_week_midnight:
  "calendar_week (midnight n) =
     (let (y, k) = iso_week_identity (midnight (monday_of n))
      in rbind (date_wire (midnight (monday_of n))) (\<lambda>s.
         rbind (date_wire (midnight (monday_of n + 6))) (\<lambda>e.
           Inr \<lparr>start_date = s, end_date = e,
                period_key = int_to_string y @ ''-W'' @ two_digits k, period_index = k,
                period_basis = CALENDAR, period_granularity = WEEK,
                period_meta = Calendar_Week_Metadata y k\<rparr>)))"
  by (simp add: calendar_week_def monday_on_or_before_midnight Let_def split: prod.splits)

lemma calendar_month_midnight:
  assumes "business_day n"
  shows "calendar_month (midnight n) =
    rbind (date_wire (midnight (month_first n))) (\<lambda>s.
    rbind (date_wire (midnight (month_last n))) (\<lambda>e.
      Inr \<lparr>start_date = s, end_date = e,
           period_key = int_to_string (year_from_day n) @ ''-'' @ two_digits (month_of_day n + 1),
           period_index = month_of_day n + 1,
           period_basis = CALENDAR, period_granularity = MONTH,
           period_meta = Calendar_Month_Metadata (year_from_day n) (month_of_day n + 1)\<rparr>))"
  using business_day_year [OF assms]
  by (simp add: calendar_month_def Let_def date_utc_day_of_month_index month_first_def month_last_def
      month_index_def algebra_simps)

text \<open>
  What the resolver does on a valid reference date: the two wires it writes, and that it
  computes the same outcome from every day of the period.
\<close>

definition resolve_at ::
    "temporal_basis \<Rightarrow> temporal_granularity \<Rightarrow> string option \<Rightarrow> string \<Rightarrow> js_error + temporal_period_resolution" where
  "resolve_at b g anchor w =
     resolve_canonical_temporal_period
       \<lparr>rpi_basis = b, rpi_granularity = g, rpi_reference_date = w, rpi_anchor_date = anchor\<rparr>"

fun period_code :: "temporal_basis \<Rightarrow> temporal_granularity \<Rightarrow> int \<Rightarrow> string \<Rightarrow> int \<Rightarrow> js_error + temporal_period" where
  "period_code CALENDAR WEEK a w n = calendar_week (midnight n)"
| "period_code CALENDAR MONTH a w n = calendar_month (midnight n)"
| "period_code WORK_PERIOD WEEK a w n = work_week (midnight n) (midnight a) w"
| "period_code WORK_PERIOD MONTH a w n = work_month (midnight n) (midnight a) w"

lemma period_code_bounds:
  assumes "period_code b g a w n = Inr p" "business_day n" "business_day a" "period_covered b a n"
  shows "start_date p = iso_date_part (period_first b g a n)" "end_date p = iso_date_part (period_last b g a n)"
    "business_day (period_first b g a n)" "business_day (period_last b g a n)"
    "period_basis p = b" "period_granularity p = g"
  using assms
  by (cases b; cases g;
      auto simp: calendar_week_midnight calendar_month_midnight work_week_midnight work_month_midnight
        rbind_eq_Inr_iff period_covered_def Let_def split: prod.splits)+

lemma period_code_total:
  assumes "business_day n" "business_day a" "period_covered b a n"
    and "business_day (period_first b g a n)" "business_day (period_last b g a n)"
  obtains p where "period_code b g a w n = Inr p"
  using assms
  by (cases b; cases g;
      auto simp: calendar_week_midnight calendar_month_midnight work_week_midnight work_month_midnight
        period_covered_def Let_def case_prod_beta)

lemma period_code_throws:
  assumes "business_day n" "business_day a" "period_covered b a n"
    and "\<not> (business_day (period_first b g a n) \<and> business_day (period_last b g a n))"
  shows "period_code b g a w n = Inl (Plain_Error ''TEMPORAL_BOUNDARY_DATE_WIRE_INVARIANT_VIOLATION'')"
proof -
  let ?e = "Plain_Error ''TEMPORAL_BOUNDARY_DATE_WIRE_INVARIANT_VIOLATION''"
  have two: "rbind (date_wire (midnight x)) (\<lambda>s. rbind (date_wire (midnight y)) (k s)) = Inl ?e"
    if "\<not> (business_day x \<and> business_day y)" for x y and k :: "string \<Rightarrow> string \<Rightarrow> js_error + temporal_period"
    using that by (auto simp: date_wire_midnight simp del: date_wire_midnight_Inr)
  from assms show ?thesis
    by (cases b; cases g)
      (simp_all add: calendar_week_midnight calendar_month_midnight work_week_midnight work_month_midnight
        period_covered_def Let_def case_prod_beta two)
qed

lemma period_code_same:
  assumes "business_day n" "business_day m" "business_day a" "period_covered b a n"
    and "period_first b g a n \<le> m" "m \<le> period_last b g a n"
  shows "period_code b g a w m = period_code b g a w n"
proof -
  have "period_covered b a m" using period_days.covered_between [OF assms(4-6)] .
  then show ?thesis
    using assms
  proof (cases b; cases g)
    assume "b = CALENDAR" "g = WEEK"
    then show ?thesis using assms monday_of_same [of n m] by (simp add: calendar_week_midnight)
  next
    assume "b = CALENDAR" "g = MONTH"
    moreover from this have "month_index m = month_index n" using assms month_between_iff [of n m] by simp
    moreover from this have "year_from_day m = year_from_day n" "month_of_day m = month_of_day n"
      by (metis month_index_div_mod)+
    ultimately show ?thesis using assms
      by (simp add: calendar_month_midnight month_first_def month_last_def)
  next
    assume "b = WORK_PERIOD" "g = WEEK"
    then show ?thesis using assms work_week_index_same [of a n m]
      by (simp add: work_week_midnight work_week_first_def)
  next
    assume "b = WORK_PERIOD" "g = MONTH"
    moreover from this have "work_month_index a m = work_month_index a n"
      using assms by (intro work_month_index_unique) auto
    ultimately show ?thesis using assms \<open>period_covered b a m\<close>
      by (simp add: work_month_midnight period_covered_def)
  qed
qed

end
