(* ===== verification/TemporalSlices.thy ===== *)
theory TemporalSlices
  imports TemporalBoundary
begin

text \<open>
  \<open>progress/progress-temporal-boundary.policy.ts\<close>, \<open>canonicalWeekSlicesForMonth\<close>, and the
  contract every client of the temporal law uses.

  The locale \<open>canonical_period_resolver\<close> is that contract: a resolver that answers a
  reference date with a period that contains it, and answers the same period at each
  of its days. It is interpreted on the resolver of the code (\<open>resolve_at\<close>). The loop
  that cuts a month into week slices takes its resolver as an argument; that it returns
  and that its slices tile the month is proved for every resolver of the contract.
\<close>

section \<open>The contract of the resolver\<close>

locale canonical_period_resolver =
  fixes resolve :: "string \<Rightarrow> js_error + temporal_period_resolution"
  assumes resolved_days: "resolve w = Inr (Period_Resolved p) \<Longrightarrow>
      \<exists>lo n hi. w = iso_date_part n \<and> start_date p = iso_date_part lo \<and> end_date p = iso_date_part hi \<and>
        business_day lo \<and> business_day n \<and> business_day hi \<and> lo \<le> n \<and> n \<le> hi"
    and resolved_same: "resolve w = Inr (Period_Resolved p) \<Longrightarrow> business_day m \<Longrightarrow>
      start_date p \<le> iso_date_part m \<Longrightarrow> iso_date_part m \<le> end_date p \<Longrightarrow>
      resolve (iso_date_part m) = Inr (Period_Resolved p)"
begin

lemma resolvedE:
  assumes "resolve w = Inr (Period_Resolved p)"
  obtains lo n hi where "w = iso_date_part n" "start_date p = iso_date_part lo" "end_date p = iso_date_part hi"
    "business_day lo" "business_day n" "business_day hi" "lo \<le> n" "n \<le> hi"
  using resolved_days [OF assms] by blast

lemma contains_reference:
  assumes "resolve w = Inr (Period_Resolved p)"
  shows "start_date p \<le> w" "w \<le> end_date p"
  using assms by (auto elim!: resolvedE simp: date_order)

lemma same_at_bounds:
  assumes "resolve w = Inr (Period_Resolved p)"
  shows "resolve (start_date p) = Inr (Period_Resolved p)" "resolve (end_date p) = Inr (Period_Resolved p)"
proof -
  obtain lo n hi where p: "w = iso_date_part n" "start_date p = iso_date_part lo" "end_date p = iso_date_part hi"
    "business_day lo" "business_day n" "business_day hi" "lo \<le> n" "n \<le> hi"
    using assms by (rule resolvedE)
  then have "start_date p \<le> iso_date_part lo" "iso_date_part lo \<le> end_date p"
    "start_date p \<le> iso_date_part hi" "iso_date_part hi \<le> end_date p" by (auto simp: date_order)
  then show "resolve (start_date p) = Inr (Period_Resolved p)" "resolve (end_date p) = Inr (Period_Resolved p)"
    using resolved_same [OF assms] p by simp_all
qed

lemma same_or_disjoint:
  assumes "resolve w = Inr (Period_Resolved p)" "resolve w' = Inr (Period_Resolved p')"
  shows "p = p' \<or> end_date p < start_date p' \<or> end_date p' < start_date p"
proof -
  obtain lo n hi where p: "start_date p = iso_date_part lo" "end_date p = iso_date_part hi"
    "business_day lo" "business_day hi"
    using assms(1) by (rule resolvedE) auto
  obtain lo' n' hi' where p': "start_date p' = iso_date_part lo'" "end_date p' = iso_date_part hi'"
    "business_day lo'" "business_day hi'" "lo' \<le> hi'"
    using assms(2) by (rule resolvedE) auto
  show ?thesis
  proof (cases "hi < lo' \<or> hi' < lo")
    case True
    with p p' show ?thesis by (auto simp: date_order)
  next
    case False
    define m where "m = max lo lo'"
    have "business_day m" using p p' by (simp add: m_def max_def)
    moreover have "start_date p \<le> iso_date_part m" "iso_date_part m \<le> end_date p"
      "start_date p' \<le> iso_date_part m" "iso_date_part m \<le> end_date p'"
      using False p p' contains_reference [OF same_at_bounds(1) [OF assms(1)]]
      by (auto simp: m_def max_def date_order)
    ultimately have "resolve (iso_date_part m) = Inr (Period_Resolved p)"
      "resolve (iso_date_part m) = Inr (Period_Resolved p')"
      using resolved_same [OF assms(1)] resolved_same [OF assms(2)] by blast+
    then show ?thesis by simp
  qed
qed

text \<open>Walking back from a period, the period met is the one that ends the day before.\<close>

lemma previous_ends_before:
  assumes p: "resolve w = Inr (Period_Resolved p)" and lo: "start_date p = iso_date_part lo" "business_day lo"
    and prev: "business_day (lo - 1)" "resolve (iso_date_part (lo - 1)) = Inr (Period_Resolved p')"
  shows "end_date p' = iso_date_part (lo - 1)"
proof -
  obtain lo' n' hi' where p': "iso_date_part (lo - 1) = iso_date_part n'"
    "start_date p' = iso_date_part lo'" "end_date p' = iso_date_part hi'"
    "business_day lo'" "business_day n'" "business_day hi'" "lo' \<le> n'" "n' \<le> hi'"
    using prev(2) by (rule resolvedE)
  then have n': "n' = lo - 1" using prev(1) by (simp add: date_order)
  have "p \<noteq> p'" using p' lo n' contains_reference [OF prev(2)] prev(1) by (auto simp: date_order)
  then have "end_date p < start_date p' \<or> end_date p' < start_date p"
    using same_or_disjoint [OF p prev(2)] by simp
  moreover have "\<not> end_date p < start_date p'"
  proof -
    obtain hi where "end_date p = iso_date_part hi" "business_day hi" using p by (rule resolvedE)
    then show ?thesis
      using contains_reference [OF same_at_bounds(1) [OF p]] lo p' n' by (auto simp: date_order)
  qed
  ultimately have "hi' < lo" using lo p' by (auto simp: date_order)
  then have "hi' = lo - 1" using p' n' by simp
  then show ?thesis using p' by simp
qed

lemma next_starts_after:
  assumes p: "resolve (iso_date_part hi) = Inr (Period_Resolved p)" "end_date p = iso_date_part hi"
    and hi: "business_day hi" "business_day (hi + 1)"
    and nxt: "resolve (iso_date_part (hi + 1)) = Inr (Period_Resolved p')"
  shows "start_date p' = iso_date_part (hi + 1)"
proof -
  obtain lo' n' hi' where p': "iso_date_part (hi + 1) = iso_date_part n'"
    "start_date p' = iso_date_part lo'" "end_date p' = iso_date_part hi'"
    "business_day lo'" "business_day n'" "business_day hi'" "lo' \<le> n'" "n' \<le> hi'"
    using nxt by (rule resolvedE)
  then have n': "n' = hi + 1" using hi by (simp add: date_order)
  obtain lo where lo: "start_date p = iso_date_part lo" "business_day lo" "lo \<le> hi"
    using p(1) by (rule resolvedE) (use hi in \<open>auto simp: date_order\<close>)
  have "p \<noteq> p'" using p' n' p(2) hi by (auto simp: date_order)
  then have "end_date p < start_date p' \<or> end_date p' < start_date p"
    using same_or_disjoint [OF p(1) nxt] by simp
  moreover have "\<not> end_date p' < start_date p" using lo p' n' by (simp add: date_order)
  ultimately have "hi < lo'" using p(2) p' hi by (simp add: date_order)
  then have "lo' = hi + 1" using p' n' by simp
  then show ?thesis using p' by simp
qed

end

section \<open>The resolver of the code\<close>

text \<open>The anchor of a basis: day \<open>a\<close> for the work-period basis, any day for the calendar.\<close>

definition anchored :: "temporal_basis \<Rightarrow> string option \<Rightarrow> int \<Rightarrow> bool" where
  "anchored b anchor a \<longleftrightarrow> business_day a \<and> (b = CALENDAR \<or> anchor = Some (iso_date_part a))"

lemma resolve_at_covered:
  assumes "anchored b anchor a" "business_day n" "period_covered b a n"
  shows "resolve_at b g anchor (iso_date_part n) =
    rbind (period_code b g a (iso_date_part a) n) (\<lambda>p. Inr (Period_Resolved p))"
  using assms
  by (cases b; cases g)
    (auto simp: resolve_at_def resolve_canonical_temporal_period_def anchored_def period_covered_def
      compare_dates_def)

lemma resolve_at_not_covered:
  assumes "anchored b anchor a" "business_day n" "\<not> period_covered b a n"
  shows "resolve_at b g anchor (iso_date_part n) =
    Inr (Period_Unavailable REFERENCE_DATE_BEFORE_GOVERNED_WORK_PERIOD_ANCHOR)"
  using assms
  by (cases b) (auto simp: resolve_at_def resolve_canonical_temporal_period_def anchored_def period_covered_def
      compare_dates_def)

lemma resolve_at_ResolvedE:
  assumes "resolve_at b g anchor w = Inr (Period_Resolved p)"
  obtains n a where "w = iso_date_part n" "business_day n" "anchored b anchor a" "period_covered b a n"
    "period_code b g a (iso_date_part a) n = Inr p"
proof -
  obtain n where n: "w = iso_date_part n" "business_day n"
    using assms
    by (auto simp: resolve_at_def resolve_canonical_temporal_period_def project_business_date_Some_iff
        split: option.splits)
  obtain a where a: "anchored b anchor a"
  proof (cases b)
    case CALENDAR
    then have "anchored b anchor n" using n by (simp add: anchored_def)
    then show ?thesis using that by blast
  next
    case WORK_PERIOD
    then show ?thesis using assms that n
      by (auto simp: resolve_at_def resolve_canonical_temporal_period_def project_business_date_Some_iff
          anchored_def split: option.splits)
  qed
  have cov: "period_covered b a n"
    using assms n a resolve_at_not_covered [OF a n(2)] by (cases "period_covered b a n") auto
  then have "period_code b g a (iso_date_part a) n = Inr p"
    using assms n resolve_at_covered [OF a n(2) cov] by (auto simp: rbind_eq_Inr_iff)
  then show ?thesis using that n a cov by blast
qed

lemma resolve_at_Resolved_days:
  assumes "resolve_at b g anchor w = Inr (Period_Resolved p)"
  obtains n a where "w = iso_date_part n" "business_day n" "anchored b anchor a" "period_covered b a n"
    "period_code b g a (iso_date_part a) n = Inr p"
    "start_date p = iso_date_part (period_first b g a n)" "end_date p = iso_date_part (period_last b g a n)"
    "business_day (period_first b g a n)" "business_day (period_last b g a n)"
    "period_basis p = b" "period_granularity p = g"
proof -
  obtain n a where "w = iso_date_part n" "business_day n" "anchored b anchor a" "period_covered b a n"
    "period_code b g a (iso_date_part a) n = Inr p"
    using assms by (rule resolve_at_ResolvedE)
  then show ?thesis using that period_code_bounds [of b g a "iso_date_part a" n p]
    by (auto simp: anchored_def)
qed

lemma resolve_at_canonical: "canonical_period_resolver (resolve_at b g anchor)"
proof
  fix w p assume "resolve_at b g anchor w = Inr (Period_Resolved p)"
  then show "\<exists>lo n hi. w = iso_date_part n \<and> start_date p = iso_date_part lo \<and> end_date p = iso_date_part hi \<and>
        business_day lo \<and> business_day n \<and> business_day hi \<and> lo \<le> n \<and> n \<le> hi"
    by (rule resolve_at_Resolved_days) (use period_days.lo_le period_days.le_hi in blast)
next
  fix w p m
  assume r: "resolve_at b g anchor w = Inr (Period_Resolved p)" and m: "business_day m"
    "start_date p \<le> iso_date_part m" "iso_date_part m \<le> end_date p"
  obtain n a where n: "w = iso_date_part n" "business_day n" "anchored b anchor a" "period_covered b a n"
    "period_code b g a (iso_date_part a) n = Inr p"
    "start_date p = iso_date_part (period_first b g a n)" "end_date p = iso_date_part (period_last b g a n)"
    "business_day (period_first b g a n)" "business_day (period_last b g a n)"
    using r by (rule resolve_at_Resolved_days)
  then have between: "period_first b g a n \<le> m" "m \<le> period_last b g a n"
    using m by (simp_all add: date_order)
  then have "period_code b g a (iso_date_part a) m = period_code b g a (iso_date_part a) n"
    using n m(1) by (intro period_code_same) (auto simp: anchored_def)
  moreover have "period_covered b a m" using period_days.covered_between [OF n(4) between] .
  ultimately show "resolve_at b g anchor (iso_date_part m) = Inr (Period_Resolved p)"
    using n m(1) by (simp add: resolve_at_covered)
qed

interpretation code_resolver: canonical_period_resolver "resolve_at b g anchor" for b g anchor
  by (rule resolve_at_canonical)

section \<open>The week slices of a month\<close>

record week_slice =
  slice_week :: temporal_period
  slice_start_date :: string
  slice_end_date :: string

datatype week_slices_resolution =
    Slices_Resolved temporal_period "week_slice list"
  | Slices_Unavailable temporal_period_unavailable_reason

text \<open>
  The \<open>while\<close> loop: \<open>None\<close> means that it never ends. Its exceptions are the two the code
  throws and the one of \<open>dateWire\<close>.
\<close>

partial_function (option) week_slices_from ::
    "(string \<Rightarrow> js_error + temporal_period_resolution) \<Rightarrow> temporal_period \<Rightarrow> string \<Rightarrow> week_slice list
      \<Rightarrow> (js_error + week_slices_resolution) option" where
  "week_slices_from resolve_week month cursor slices =
     (if cursor \<le> end_date month then
        (case resolve_week cursor of
           Inl e \<Rightarrow> Some (Inl e)
         | Inr (Period_Unavailable reason) \<Rightarrow> Some (Inr (Slices_Unavailable reason))
         | Inr (Period_Resolved week) \<Rightarrow>
             (case intersect_inclusive_date_windows week month of
                Window_Intersection window \<Rightarrow>
                  (let slices' = slices @ [\<lparr>slice_week = week, slice_start_date = start_date window,
                                          slice_end_date = end_date window\<rparr>]
                   in case project_business_date (JStr (end_date window)) of
                        None \<Rightarrow> Some (Inl (Plain_Error ''TEMPORAL_SLICE_DATE_INVARIANT_VIOLATION''))
                      | Some (_, date) \<Rightarrow>
                          (case date_wire (add_days date 1) of
                             Inl e \<Rightarrow> Some (Inl e)
                           | Inr next_cursor \<Rightarrow> week_slices_from resolve_week month next_cursor slices'))
              | _ \<Rightarrow> Some (Inl (Plain_Error ''TEMPORAL_WEEK_MONTH_SLICE_INVARIANT_VIOLATION''))))
      else Some (Inr (Slices_Resolved month slices)))"

declare week_slices_from.simps [code]

definition canonical_week_slices_for_month ::
    "temporal_basis \<Rightarrow> string option \<Rightarrow> string \<Rightarrow> (js_error + week_slices_resolution) option" where
  "canonical_week_slices_for_month b anchor reference_date =
     (case resolve_at b MONTH anchor reference_date of
        Inl e \<Rightarrow> Some (Inl e)
      | Inr (Period_Unavailable reason) \<Rightarrow> Some (Inr (Slices_Unavailable reason))
      | Inr (Period_Resolved month) \<Rightarrow>
          week_slices_from (resolve_at b WEEK anchor) month (start_date month) [])"

text \<open>
  What the slices promise: they tile the days \<open>c..l\<close> in order, with no gap and no overlap,
  and each lies in its week.
\<close>

definition wire_day :: "string \<Rightarrow> int" where
  "wire_day w = (case project_business_date (JStr w) of None \<Rightarrow> 0 | Some (_, t) \<Rightarrow> t div ms_per_day)"

fun slices_tile :: "int \<Rightarrow> int \<Rightarrow> week_slice list \<Rightarrow> bool" where
  "slices_tile c l [] \<longleftrightarrow> c = l + 1"
| "slices_tile c l (s # ss) \<longleftrightarrow>
     slice_start_date s = iso_date_part c \<and>
     slice_end_date s = iso_date_part (wire_day (slice_end_date s)) \<and>
     start_date (slice_week s) \<le> slice_start_date s \<and> slice_end_date s \<le> end_date (slice_week s) \<and>
     c \<le> wire_day (slice_end_date s) \<and> wire_day (slice_end_date s) \<le> l \<and>
     slices_tile (wire_day (slice_end_date s) + 1) l ss"

lemma wire_day_iso [simp]: "business_day n \<Longrightarrow> wire_day (iso_date_part n) = n"
  by (simp add: wire_day_def)

lemma validate_window_days:
  assumes "start_date w = iso_date_part a" "end_date w = iso_date_part b"
    and "business_day a" "business_day b" "a \<le> b"
  shows "validate_inclusive_date_window w =
    Window_Valid \<lparr>start_date = iso_date_part a, end_date = iso_date_part b\<rparr>"
  using assms by (simp add: validate_inclusive_date_window_def date_order)

lemma intersect_windows_days:
  assumes "start_date w = iso_date_part a" "end_date w = iso_date_part b"
    and "start_date m = iso_date_part c" "end_date m = iso_date_part d"
    and "business_day a" "business_day b" "business_day c" "business_day d" "a \<le> b" "c \<le> d"
  shows "intersect_inclusive_date_windows w m =
    (if max a c \<le> min b d
     then Window_Intersection \<lparr>start_date = iso_date_part (max a c), end_date = iso_date_part (min b d)\<rparr>
     else No_Intersection)"
proof -
  have "(if iso_date_part c \<le> iso_date_part a then iso_date_part a else iso_date_part c) = iso_date_part (max a c)"
    "(if iso_date_part b \<le> iso_date_part d then iso_date_part b else iso_date_part d) = iso_date_part (min b d)"
    using assms(5-8) by (simp_all add: date_order max_def min_def)
  moreover have "iso_date_part (max a c) \<le> iso_date_part (min b d) \<longleftrightarrow> max a c \<le> min b d"
  proof -
    have "business_day (max a c)" "business_day (min b d)" using assms(5-8) by (simp_all add: max_def min_def)
    then show ?thesis by (simp add: date_order)
  qed
  moreover have "validate_inclusive_date_window w =
      Window_Valid \<lparr>start_date = iso_date_part a, end_date = iso_date_part b\<rparr>"
    "validate_inclusive_date_window m =
      Window_Valid \<lparr>start_date = iso_date_part c, end_date = iso_date_part d\<rparr>"
    using assms by (simp_all add: validate_window_days)
  ultimately show ?thesis
    unfolding intersect_inclusive_date_windows_def
    by (simp only: Let_def window_validity.case date_window.simps if_cancel)
qed

lemma week_slices_round:
  assumes "cursor \<le> end_date month" "resolve_week cursor = Inr (Period_Resolved week)"
    and "intersect_inclusive_date_windows week month =
      Window_Intersection \<lparr>start_date = s, end_date = iso_date_part e\<rparr>" "business_day e"
  shows "week_slices_from resolve_week month cursor ss =
    (if business_day (e + 1)
     then week_slices_from resolve_week month (iso_date_part (e + 1))
       (ss @ [\<lparr>slice_week = week, slice_start_date = s, slice_end_date = iso_date_part e\<rparr>])
     else Some (Inl (Plain_Error ''TEMPORAL_BOUNDARY_DATE_WIRE_INVARIANT_VIOLATION'')))"
proof -
  have "project_business_date (JStr (iso_date_part e)) = Some (iso_date_part e, midnight e)"
    using assms(4) by simp
  then show ?thesis
    by (subst week_slices_from.simps)
      (simp add: assms(1-3) Let_def date_wire_midnight del: date_wire_midnight_Inr)
qed

context canonical_period_resolver
begin

text \<open>One round of the loop, at a day of the month that resolves.\<close>

lemma week_slices_step:
  assumes "start_date month = iso_date_part f" "end_date month = iso_date_part l"
    and "business_day f" "business_day l" "f \<le> c" "c \<le> l"
    and "resolve (iso_date_part c) = Inr (Period_Resolved week)"
  obtains e where "c \<le> e" "e \<le> l" "iso_date_part e \<le> end_date week" "start_date week \<le> iso_date_part c"
    "business_day e" "e = l \<or> end_date week = iso_date_part e"
    "week_slices_from resolve month (iso_date_part c) ss =
      (if business_day (e + 1)
       then week_slices_from resolve month (iso_date_part (e + 1))
         (ss @ [\<lparr>slice_week = week, slice_start_date = iso_date_part (max (wire_day (start_date week)) f),
                 slice_end_date = iso_date_part e\<rparr>])
       else Some (Inl (Plain_Error ''TEMPORAL_BOUNDARY_DATE_WIRE_INVARIANT_VIOLATION'')))"
proof -
  have c: "business_day c" using business_day_between assms(3-6) by blast
  obtain lo n hi where w: "iso_date_part c = iso_date_part n" "start_date week = iso_date_part lo"
    "end_date week = iso_date_part hi" "business_day lo" "business_day n" "business_day hi" "lo \<le> n" "n \<le> hi"
    using assms(7) by (rule resolvedE)
  have n: "n = c" using w(1,5) c by (simp add: date_order)
  have le: "f \<le> l" "lo \<le> hi" "max lo f \<le> min hi l" "c \<le> min hi l" "min hi l \<le> l"
    using w(7,8) n assms(5,6) by simp_all
  have b: "business_day (min hi l)" using w(6) assms(4) by (simp add: min_def)
  have cl: "iso_date_part c \<le> iso_date_part l" "iso_date_part (min hi l) \<le> end_date week"
    "start_date week \<le> iso_date_part c"
    using b c assms(4,6) w(2-4,6-8) n by (simp_all add: date_order)
  note fl = le(1-3) cl(1) b
  have "intersect_inclusive_date_windows week month =
      Window_Intersection \<lparr>start_date = iso_date_part (max lo f), end_date = iso_date_part (min hi l)\<rparr>"
    using intersect_windows_days [OF w(2,3) assms(1,2)] w assms fl by simp
  then have "week_slices_from resolve month (iso_date_part c) ss =
      (if business_day (min hi l + 1)
       then week_slices_from resolve month (iso_date_part (min hi l + 1))
         (ss @ [\<lparr>slice_week = week, slice_start_date = iso_date_part (max (wire_day (start_date week)) f),
                 slice_end_date = iso_date_part (min hi l)\<rparr>])
       else Some (Inl (Plain_Error ''TEMPORAL_BOUNDARY_DATE_WIRE_INVARIANT_VIOLATION'')))"
    using fl(4,5) assms(2,7) w(2,4) by (subst week_slices_round) simp_all
  moreover have "min hi l = l \<or> end_date week = iso_date_part (min hi l)"
    using w(3) by (simp add: min_def)
  ultimately show ?thesis using that [of "min hi l"] le b cl by blast
qed

lemma week_slices_return:
  assumes "start_date month = iso_date_part f" "end_date month = iso_date_part l"
    and "business_day f" "business_day l" "f \<le> c" "c \<le> l \<or> business_day c"
  shows "\<exists>r. week_slices_from resolve month (iso_date_part c) ss = Some r"
  using assms(5,6)
proof (induction "nat (l + 1 - c)" arbitrary: c ss rule: less_induct)
  case less
  show ?case
  proof (cases "c \<le> l")
    case False
    then have "\<not> iso_date_part c \<le> end_date month" using less assms by (simp add: date_order)
    then show ?thesis by (subst week_slices_from.simps) simp
  next
    case True
    show ?thesis
    proof (cases "resolve (iso_date_part c)")
      case (Inr r)
      show ?thesis
      proof (cases r)
        case (Period_Resolved week)
        obtain e where e: "c \<le> e" "e \<le> l" "business_day e"
          "week_slices_from resolve month (iso_date_part c) ss =
            (if business_day (e + 1)
             then week_slices_from resolve month (iso_date_part (e + 1))
               (ss @ [\<lparr>slice_week = week, slice_start_date = iso_date_part (max (wire_day (start_date week)) f),
                       slice_end_date = iso_date_part e\<rparr>])
             else Some (Inl (Plain_Error ''TEMPORAL_BOUNDARY_DATE_WIRE_INVARIANT_VIOLATION'')))"
          using week_slices_step [OF assms(1-4) less(2) True] Inr Period_Resolved by metis
        show ?thesis
        proof (cases "business_day (e + 1)")
          case True
          then show ?thesis using e less by simp
        qed (use e in simp)
      next
        case (Period_Unavailable x)
        then show ?thesis using Inr
          by (subst week_slices_from.simps) simp
      qed
    qed (subst week_slices_from.simps, simp)
  qed
qed

text \<open>Slices that are returned tile the month, whatever the resolver answered.\<close>

lemma week_slices_resolved_tile:
  assumes month: "start_date month = iso_date_part f" "end_date month = iso_date_part l"
    and days: "business_day f" "business_day l"
    and c: "f \<le> c" "c \<le> l + 1" "business_day c"
    and inv: "c = f \<or> c = l + 1 \<or>
      (\<exists>p. resolve (iso_date_part (c - 1)) = Inr (Period_Resolved p) \<and> end_date p = iso_date_part (c - 1))"
    and run: "week_slices_from resolve month (iso_date_part c) ss = Some (Inr (Slices_Resolved month' ss'))"
  shows "month' = month \<and> (\<exists>rs. ss' = ss @ rs \<and> slices_tile c l rs)"
  using c inv run
proof (induction "nat (l + 1 - c)" arbitrary: c ss rule: less_induct)
  case less
  note bc = less(4)
  show ?case
  proof (cases "c = l + 1")
    case True
    then have "\<not> iso_date_part c \<le> end_date month" using days month(2) bc by (simp add: date_order)
    then show ?thesis using less(6) True by (subst (asm) week_slices_from.simps) simp
  next
    case False
    then have cl: "c \<le> l" using less(3) by simp
    then have "iso_date_part c \<le> end_date month" using days month(2) bc by (simp add: date_order)
    then obtain week where week: "resolve (iso_date_part c) = Inr (Period_Resolved week)"
      using less(6) by (subst (asm) week_slices_from.simps)
        (auto split: sum.splits temporal_period_resolution.splits)
    obtain e where e: "c \<le> e" "e \<le> l" "iso_date_part e \<le> end_date week" "start_date week \<le> iso_date_part c"
      "business_day e" "e = l \<or> end_date week = iso_date_part e"
      "week_slices_from resolve month (iso_date_part c) ss =
        (if business_day (e + 1)
         then week_slices_from resolve month (iso_date_part (e + 1))
           (ss @ [\<lparr>slice_week = week, slice_start_date = iso_date_part (max (wire_day (start_date week)) f),
                   slice_end_date = iso_date_part e\<rparr>])
         else Some (Inl (Plain_Error ''TEMPORAL_BOUNDARY_DATE_WIRE_INVARIANT_VIOLATION'')))"
      using week_slices_step [OF month days less(2) cl week] by blast
    have be: "business_day (e + 1)" using e(7) less(6) by (simp split: if_splits)
    obtain lo where lo: "start_date week = iso_date_part lo" "business_day lo"
      using week by (rule resolvedE)
    have m: "max (wire_day (start_date week)) f = c"
    proof (cases "c = f")
      case True
      then show ?thesis using lo e(4) bc by (simp add: date_order)
    next
      case False
      then obtain p where p: "resolve (iso_date_part (c - 1)) = Inr (Period_Resolved p)"
        "end_date p = iso_date_part (c - 1)"
        using less(5) \<open>c \<noteq> l + 1\<close> by blast
      have "business_day (c - 1)"
        using business_day_between [OF days(1) bc, of "c - 1"] False less(2) by simp
      then have "start_date week = iso_date_part c"
        using next_starts_after [OF p] bc week by simp
      then show ?thesis using bc less(2) by simp
    qed
    let ?s = "\<lparr>slice_week = week, slice_start_date = iso_date_part c, slice_end_date = iso_date_part e\<rparr>"
    have "resolve (iso_date_part e) = Inr (Period_Resolved week)"
      using resolved_same [OF week e(5)] lo e bc order_trans [of "start_date week" "iso_date_part c" "iso_date_part e"]
      by (simp add: date_order)
    then have inv': "e + 1 = f \<or> e + 1 = l + 1 \<or>
      (\<exists>p. resolve (iso_date_part (e + 1 - 1)) = Inr (Period_Resolved p) \<and> end_date p = iso_date_part (e + 1 - 1))"
      using e(6) by auto
    have "week_slices_from resolve month (iso_date_part (e + 1)) (ss @ [?s]) = Some (Inr (Slices_Resolved month' ss'))"
      using e(7) be m less(6) by simp
    then obtain rs where "month' = month" "ss' = (ss @ [?s]) @ rs" "slices_tile (e + 1) l rs"
      using less(1) [of "e + 1" "ss @ [?s]"] less(2) e(1,2) be inv' by auto
    then show ?thesis using e(1-5) by (intro conjI exI [of _ "?s # rs"]) simp_all
  qed
qed

lemma week_slices_resolve:
  assumes month: "start_date month = iso_date_part f" "end_date month = iso_date_part l"
    and days: "business_day f" "business_day l" "business_day (l + 1)"
    and resolves: "\<And>d. f \<le> d \<Longrightarrow> d \<le> l \<Longrightarrow> \<exists>p. resolve (iso_date_part d) = Inr (Period_Resolved p)"
    and c: "f \<le> c" "c \<le> l + 1"
  shows "\<exists>month' ss'. week_slices_from resolve month (iso_date_part c) ss = Some (Inr (Slices_Resolved month' ss'))"
  using c
proof (induction "nat (l + 1 - c)" arbitrary: c ss rule: less_induct)
  case less
  have bc: "business_day c" using business_day_between [OF days(1,3) less(2,3)] .
  show ?case
  proof (cases "c = l + 1")
    case True
    then have "\<not> iso_date_part c \<le> end_date month" using days month(2) bc by (simp add: date_order)
    then show ?thesis by (subst week_slices_from.simps) simp
  next
    case False
    then have cl: "c \<le> l" using less(3) by simp
    obtain week where week: "resolve (iso_date_part c) = Inr (Period_Resolved week)"
      using resolves [OF less(2) cl] by blast
    obtain e where e: "c \<le> e" "e \<le> l"
      "week_slices_from resolve month (iso_date_part c) ss =
        (if business_day (e + 1)
         then week_slices_from resolve month (iso_date_part (e + 1))
           (ss @ [\<lparr>slice_week = week, slice_start_date = iso_date_part (max (wire_day (start_date week)) f),
                   slice_end_date = iso_date_part e\<rparr>])
         else Some (Inl (Plain_Error ''TEMPORAL_BOUNDARY_DATE_WIRE_INVARIANT_VIOLATION'')))"
      using week_slices_step [OF month days(1,2) less(2) cl week] by metis
    have "business_day (e + 1)" using business_day_between [OF days(1,3), of "e + 1"] e(1,2) less(2) by simp
    then show ?thesis using e less(1) [of "e + 1"] less(2) by simp
  qed
qed

lemma week_slices_tile:
  assumes month: "start_date month = iso_date_part f" "end_date month = iso_date_part l"
    and days: "business_day f" "business_day l" "business_day (l + 1)" "f \<le> l"
    and resolves: "\<And>d. f \<le> d \<Longrightarrow> d \<le> l \<Longrightarrow> \<exists>p. resolve (iso_date_part d) = Inr (Period_Resolved p)"
  shows "\<exists>rs. week_slices_from resolve month (iso_date_part f) [] = Some (Inr (Slices_Resolved month rs)) \<and>
    slices_tile f l rs"
proof -
  obtain month' ss' where run: "week_slices_from resolve month (iso_date_part f) [] = Some (Inr (Slices_Resolved month' ss'))"
    using week_slices_resolve [OF month days(1-3) resolves, of f "[]"] days(4) by auto
  then show ?thesis
    using week_slices_resolved_tile [OF month days(1,2) order_refl _ days(1) _ run] days(4) by auto
qed

end

section \<open>The slices of the code\<close>

lemma week_within_six:
  "period_covered b a n \<Longrightarrow> n - 6 \<le> period_first b WEEK a n"
  "period_covered b a n \<Longrightarrow> period_last b WEEK a n \<le> n + 6"
  using period_days.lo_le [of b a n WEEK] period_days.le_hi [of b a n WEEK] by (cases b; simp)+

lemma resolve_at_week_resolves:
  assumes "anchored b anchor a" "period_covered b a n" "business_day (n - 6)" "business_day (n + 6)"
  shows "\<exists>p. resolve_at b WEEK anchor (iso_date_part n) = Inr (Period_Resolved p)"
proof -
  have n: "business_day n" "business_day (period_first b WEEK a n)" "business_day (period_last b WEEK a n)"
    using business_day_between [OF assms(3,4)] week_within_six [OF assms(2)] period_days.lo_le [OF assms(2), of WEEK]
      period_days.le_hi [OF assms(2), of WEEK] by simp_all
  then obtain p where "period_code b WEEK a (iso_date_part a) n = Inr p"
    using period_code_total [OF n(1) _ assms(2) n(2,3)] assms(1) by (auto simp: anchored_def)
  then show ?thesis using resolve_at_covered [OF assms(1) n(1) assms(2), of WEEK] by simp
qed

lemma resolved_month_slices_tile:
  assumes "canonical_week_slices_for_month b anchor reference_date = Some (Inr (Slices_Resolved month slices))"
  obtains f l where "resolve_at b MONTH anchor reference_date = Inr (Period_Resolved month)"
    "start_date month = iso_date_part f" "end_date month = iso_date_part l"
    "business_day f" "business_day l" "f \<le> l" "slices_tile f l slices"
proof -
  obtain month' where month': "resolve_at b MONTH anchor reference_date = Inr (Period_Resolved month')"
    and run: "week_slices_from (resolve_at b WEEK anchor) month' (start_date month') [] =
      Some (Inr (Slices_Resolved month slices))"
    using assms by (auto simp: canonical_week_slices_for_month_def
        split: sum.splits temporal_period_resolution.splits)
  obtain f l where fl: "start_date month' = iso_date_part f" "end_date month' = iso_date_part l"
    "business_day f" "business_day l" "f \<le> l"
    using month' by (rule code_resolver.resolvedE) fastforce
  have "month = month' \<and> (\<exists>rs. slices = [] @ rs \<and> slices_tile f l rs)"
    using code_resolver.week_slices_resolved_tile [OF fl(1-4) order_refl _ fl(3) _ run [unfolded fl(1)]] fl(5)
    by simp
  then show ?thesis using that month' fl by simp
qed

section \<open>Properties\<close>

text \<open>C1: the outcome of the resolver on every valid reference date. Before the governed
  anchor it answers the reason of the code; from the anchor on it answers a period whose two
  bounds are the wires of the first and the last day of the period, and it throws exactly
  when one of these days has no wire (outside the years 0100..9999).\<close>

theorem resolver_outcome:
  assumes "anchored b anchor a" and "business_day n"
  shows "if \<not> period_covered b a n
    then resolve_at b g anchor (iso_date_part n) =
      Inr (Period_Unavailable REFERENCE_DATE_BEFORE_GOVERNED_WORK_PERIOD_ANCHOR)
    else if business_day (period_first b g a n) \<and> business_day (period_last b g a n)
    then \<exists>p. resolve_at b g anchor (iso_date_part n) = Inr (Period_Resolved p) \<and>
      start_date p = iso_date_part (period_first b g a n) \<and>
      end_date p = iso_date_part (period_last b g a n) \<and> period_basis p = b \<and> period_granularity p = g
    else resolve_at b g anchor (iso_date_part n) =
      Inl (Plain_Error ''TEMPORAL_BOUNDARY_DATE_WIRE_INVARIANT_VIOLATION'')"
proof (cases "period_covered b a n")
  case True
  have a: "business_day a" using assms(1) by (simp add: anchored_def)
  show ?thesis
  proof (cases "business_day (period_first b g a n) \<and> business_day (period_last b g a n)")
    case in_range: True
    then obtain p where "period_code b g a (iso_date_part a) n = Inr p"
      using period_code_total [OF assms(2) a True] by blast
    then show ?thesis
      using True in_range period_code_bounds [OF _ assms(2) a True] resolve_at_covered [OF assms True]
      by simp
  next
    case False
    then have "period_code b g a (iso_date_part a) n =
        Inl (Plain_Error ''TEMPORAL_BOUNDARY_DATE_WIRE_INVARIANT_VIOLATION'')"
      using True a assms(2) period_code_throws by blast
    with False show ?thesis using True resolve_at_covered [OF assms True] by simp
  qed
qed (use resolve_at_not_covered [OF assms] in simp)

text \<open>A resolved period contains its reference date, and every business date inside it
  resolves to the very same period, so the periods of a basis partition the dates.\<close>

theorem resolved_period_is_stable:
  assumes "resolve_at b g anchor w = Inr (Period_Resolved p)"
  shows "start_date p \<le> w \<and> w \<le> end_date p \<and>
    (\<forall>m. business_day m \<longrightarrow> start_date p \<le> iso_date_part m \<longrightarrow> iso_date_part m \<le> end_date p \<longrightarrow>
      resolve_at b g anchor (iso_date_part m) = Inr (Period_Resolved p))"
  using code_resolver.contains_reference [OF assms] code_resolver.resolved_same [OF assms] by blast

text \<open>Two periods resolved from any two dates on one basis are the same period or do
  not overlap.\<close>

theorem resolved_periods_disjoint:
  assumes "resolve_at b g anchor w = Inr (Period_Resolved p)"
    and "resolve_at b g anchor w' = Inr (Period_Resolved p')"
  shows "p = p' \<or> end_date p < start_date p' \<or> end_date p' < start_date p"
  using code_resolver.same_or_disjoint [OF assms] .

text \<open>C27: the loop that cuts a month into weeks returns on every input.\<close>

theorem week_slices_terminate: "\<exists>r. canonical_week_slices_for_month b anchor reference_date = Some r"
proof (cases "resolve_at b MONTH anchor reference_date")
  case (Inr r)
  show ?thesis
  proof (cases r)
    case (Period_Resolved month)
    then obtain f l where "start_date month = iso_date_part f" "end_date month = iso_date_part l"
      "business_day f" "business_day l"
      using Inr by (auto elim: code_resolver.resolvedE)
    then show ?thesis
      using Inr Period_Resolved code_resolver.week_slices_return [of month f l f b WEEK anchor "[]"]
      by (simp add: canonical_week_slices_for_month_def)
  qed (simp add: canonical_week_slices_for_month_def Inr)
qed (simp add: canonical_week_slices_for_month_def)

lemma month_slices_exist:
  assumes "anchored b anchor a" and "period_covered b a n" and "business_day n"
    and "business_day (period_first b MONTH a n - 6)" and "business_day (period_last b MONTH a n + 6)"
  shows "\<exists>month slices. resolve_at b MONTH anchor (iso_date_part n) = Inr (Period_Resolved month) \<and>
    canonical_week_slices_for_month b anchor (iso_date_part n) = Some (Inr (Slices_Resolved month slices)) \<and>
    slices_tile (period_first b MONTH a n) (period_last b MONTH a n) slices"
proof -
  let ?f = "period_first b MONTH a n" and ?l = "period_last b MONTH a n"
  have fl: "?f \<le> n" "n \<le> ?l" using period_days.lo_le [OF assms(2)] period_days.le_hi [OF assms(2)] by blast+
  have in_range: "business_day d" if "?f - 6 \<le> d" "d \<le> ?l + 6" for d
    using business_day_between [OF assms(4,5) that] .
  have days: "business_day ?f" "business_day ?l" "business_day (?l + 1)"
    using fl by (simp_all add: in_range)
  obtain month where month: "resolve_at b MONTH anchor (iso_date_part n) = Inr (Period_Resolved month)"
    "start_date month = iso_date_part ?f" "end_date month = iso_date_part ?l"
    using period_code_total [OF assms(3) _ assms(2) days(1,2)] assms(1) resolve_at_covered [OF assms(1,3,2)]
      period_code_bounds [OF _ assms(3) _ assms(2)]
    by (metis anchored_def rbind_Inr)
  have "\<exists>p. resolve_at b WEEK anchor (iso_date_part d) = Inr (Period_Resolved p)" if "?f \<le> d" "d \<le> ?l" for d
    using resolve_at_week_resolves [OF assms(1), of d] period_days.covered_between [OF assms(2) that]
      in_range [of "d - 6"] in_range [of "d + 6"] that by simp
  then obtain slices where "week_slices_from (resolve_at b WEEK anchor) month (iso_date_part ?f) [] =
      Some (Inr (Slices_Resolved month slices))" "slices_tile ?f ?l slices"
    using code_resolver.week_slices_tile [OF month(2,3) days, of b WEEK anchor] fl by fastforce
  then show ?thesis using month by (auto simp: canonical_week_slices_for_month_def)
qed

text \<open>C19: away from the two ends of the calendar the month resolves, no exception is thrown,
  and the slices tile the month: the first starts on its first day, each next one on the day
  after the previous one, the last ends on its last day, and every slice lies in its week.\<close>

theorem week_slices_tile_the_month:
  assumes "anchored b anchor a" and "period_covered b a n" and "business_day n"
    and "business_day (period_first b MONTH a n - 6)" and "business_day (period_last b MONTH a n + 6)"
  shows "\<exists>month slices. resolve_at b MONTH anchor (iso_date_part n) = Inr (Period_Resolved month) \<and>
    canonical_week_slices_for_month b anchor (iso_date_part n) = Some (Inr (Slices_Resolved month slices)) \<and>
    slices_tile (period_first b MONTH a n) (period_last b MONTH a n) slices"
  using assms by (rule month_slices_exist)

text \<open>The ISO week of a Monday: its number counts the weeks from the one that holds 4 January.\<close>

lemma monday_of_multiple: "monday_of n = 7 * ((n + 3) div 7) - 3"
  using mult_div_mod_eq [of 7 "n + 3"] unfolding monday_of_def by linarith

lemma iso_week_identity_midnight:
  assumes "monday_of m = m" "100 \<le> year_from_day (m + 3)"
  shows "\<exists>k. iso_week_identity (midnight m) = (year_from_day (m + 3), k) \<and> 1 \<le> k \<and> k \<le> 53 \<and>
    m = monday_of (make_day (year_from_day (m + 3)) 0 4) + 7 * (k - 1)"
proof -
  let ?y = "year_from_day (m + 3)"
  let ?j = "make_day ?y 0 4"
  have j: "?j = day_from_year ?y + 3" by (simp add: make_day_def Let_def month_start_def)
  have b: "day_from_year ?y \<le> m + 3" "m + 3 < day_from_year ?y + 366"
    using year_from_day_bounds [of "m + 3"] day_from_year_Suc [of ?y] by (auto split: if_splits)
  define q where "q = (m + 3) div 7"
  define r where "r = (?j + 3) div 7"
  have m: "m = 7 * q - 3" using monday_of_multiple [of m] assms(1) by (simp add: q_def)
  have jr: "monday_of ?j = 7 * r - 3" using monday_of_multiple [of ?j] by (simp add: r_def)
  have d: "0 \<le> q - r" "q - r \<le> 52"
    using monday_of_bounds [of ?j] m jr b j by linarith+
  have "date_utc ?y 0 4 = midnight ?j"
    using date_utc_day_of_month_index [OF assms(2), of 0 4] by (simp add: day_of_month_index_def)
  moreover have "(midnight m - midnight (monday_of ?j)) div (7 * ms_per_day) = q - r"
  proof -
    have "m - monday_of ?j = 7 * (q - r)" unfolding jr using m by simp
    then have "midnight m - midnight (monday_of ?j) = midnight (7 * (q - r))" by simp
    then have "midnight m - midnight (monday_of ?j) = (7 * ms_per_day) * (q - r)"
      by (simp add: midnight_def)
    then show ?thesis by simp
  qed
  ultimately have "iso_week_identity (midnight m) = (?y, q - r + 1)"
    by (simp add: iso_week_identity_def Let_def monday_on_or_before_midnight)
  then show ?thesis using d m jr by simp
qed

text \<open>The identity of a calendar week is its ISO 8601 week: the week-year is the year of
  the week's Thursday, week 1 is the week that holds 4 January, and the number, between 1 and
  53, counts the Mondays from there.\<close>

theorem calendar_week_is_iso_week:
  assumes "resolve_at CALENDAR WEEK anchor w = Inr (Period_Resolved p)"
  shows "let monday = wire_day (start_date p); y = iso_week_year (period_meta p); k = iso_week_number (period_meta p)
    in monday = monday_of monday \<and> y = year_from_day (monday + 3) \<and> 1 \<le> k \<and> k \<le> 53 \<and> period_index p = k \<and>
       monday = monday_of (make_day y 0 4) + 7 * (k - 1) \<and>
       period_key p = int_to_string y @ ''-W'' @ two_digits k"
  using assms
proof (rule resolve_at_Resolved_days)
  fix n a
  assume n: "business_day n" and code: "period_code CALENDAR WEEK a (iso_date_part a) n = Inr p"
    and s: "start_date p = iso_date_part (period_first CALENDAR WEEK a n)"
    and b: "business_day (period_first CALENDAR WEEK a n)"
  let ?m = "monday_of n"
  have "year_from_day ?m \<le> year_from_day (?m + 3)" by (intro year_from_day_mono) simp
  then have "100 \<le> year_from_day (?m + 3)" using business_day_year(1) [of ?m] b by simp
  moreover have mm: "monday_of ?m = ?m" using monday_of_same [of n ?m] by simp
  ultimately obtain k where "iso_week_identity (midnight ?m) = (year_from_day (?m + 3), k)" "1 \<le> k" "k \<le> 53"
    "?m = monday_of (make_day (year_from_day (?m + 3)) 0 4) + 7 * (k - 1)"
    using iso_week_identity_midnight by blast
  moreover from this(1) have "period_meta p = Calendar_Week_Metadata (year_from_day (?m + 3)) k"
    "period_index p = k" "period_key p = int_to_string (year_from_day (?m + 3)) @ ''-W'' @ two_digits k"
    using code by (auto simp: calendar_week_midnight rbind_eq_Inr_iff)
  moreover have "wire_day (start_date p) = ?m" using s b by simp
  ultimately show ?thesis using mm by (simp add: Let_def)
qed

text \<open>The months of a work period keep the anchor's day of the month. Period \<open>k + 1\<close>
  starts in the \<open>k\<close>-th month after the anchor's, on the anchor's day or, where that month is
  shorter, on its last day; the original day is used again in the next long month.\<close>

theorem work_month_anniversary:
  assumes "resolve_at WORK_PERIOD MONTH (Some anchor_wire) w = Inr (Period_Resolved p)"
  shows "let a = wire_day anchor_wire; d = wire_day (start_date p); k = period_index p - 1
    in 0 \<le> k \<and> year_from_day d * 12 + month_of_day d = year_from_day a * 12 + month_of_day a + k \<and>
       date_of_day d = min (date_of_day a) (month_length (year_from_day d) (month_of_day d))"
  using assms
proof (rule resolve_at_Resolved_days)
  fix n a
  assume n: "business_day n" and a: "anchored WORK_PERIOD (Some anchor_wire) a" and c: "period_covered WORK_PERIOD a n"
    and code: "period_code WORK_PERIOD MONTH a (iso_date_part a) n = Inr p"
    and s: "start_date p = iso_date_part (period_first WORK_PERIOD MONTH a n)"
    and b: "business_day (period_first WORK_PERIOD MONTH a n)"
  let ?k = "work_month_index a n" let ?d = "anchor_boundary a ?k"
  have aa: "business_day a" "anchor_wire = iso_date_part a" "a \<le> n"
    using a c by (simp_all add: anchored_def period_covered_def)
  have "period_index p = ?k + 1"
    using code aa by (auto simp: work_month_midnight rbind_eq_Inr_iff)
  moreover have "0 \<le> ?k" using work_month_index_nonneg [OF aa(3)] .
  moreover have "wire_day (start_date p) = ?d" "wire_day anchor_wire = a" using s b aa by simp_all
  moreover have "month_index ?d = month_index a + ?k" by (rule month_index_anchor_boundary)
  moreover have "date_of_day ?d = min (date_of_day a) (month_index_length (month_index ?d))"
    using date_of_anchor_boundary [of a ?k] by (simp add: month_index_anchor_boundary)
  then have "date_of_day ?d = min (date_of_day a) (month_length (year_from_day ?d) (month_of_day ?d))"
    by (simp only: month_index_length_def month_index_div_mod)
  ultimately show ?thesis
    by (simp add: Let_def) (simp add: month_index_def)
qed

section \<open>Witnesses\<close>

lemma resolve_at_calendar:
  assumes "project_business_date (JStr w) = Some (w', t)"
    and "(if g = WEEK then calendar_week t else calendar_month t) = Inr p"
  shows "resolve_at CALENDAR g anchor w = Inr (Period_Resolved p)"
  using assms by (simp add: resolve_at_def resolve_canonical_temporal_period_def)

lemma resolve_at_work_period:
  assumes "project_business_date (JStr w) = Some (w', t)" "project_business_date (JStr a) = Some (a', s)" "s \<le> t"
    and "(if g = WEEK then work_week t s a' else work_month t s a') = Inr p"
  shows "resolve_at WORK_PERIOD g (Some a) w = Inr (Period_Resolved p)"
  using assms by (simp add: resolve_at_def resolve_canonical_temporal_period_def compare_dates_def)

text \<open>Periods of the year 2026, evaluated.\<close>

lemma days_2026:
  "project_business_date (JStr ''2026-01-31'') = Some (''2026-01-31'', 1769817600000)"
  "project_business_date (JStr ''2026-02-10'') = Some (''2026-02-10'', 1770681600000)"
  "project_business_date (JStr ''2026-02-20'') = Some (''2026-02-20'', 1771545600000)"
  "project_business_date (JStr ''2026-03-10'') = Some (''2026-03-10'', 1773100800000)"
  by code_simp+

lemma week_7:
  "resolve_at CALENDAR WEEK anchor ''2026-02-10'' = Inr (Period_Resolved
    \<lparr>start_date = ''2026-02-09'', end_date = ''2026-02-15'', period_key = ''2026-W07'', period_index = 7,
     period_basis = CALENDAR, period_granularity = WEEK, period_meta = Calendar_Week_Metadata 2026 7\<rparr>)"
  by (rule resolve_at_calendar [OF days_2026(2)], simp only: if_True refl) code_simp

lemma week_8:
  "resolve_at CALENDAR WEEK anchor ''2026-02-20'' = Inr (Period_Resolved
    \<lparr>start_date = ''2026-02-16'', end_date = ''2026-02-22'', period_key = ''2026-W08'', period_index = 8,
     period_basis = CALENDAR, period_granularity = WEEK, period_meta = Calendar_Week_Metadata 2026 8\<rparr>)"
  by (rule resolve_at_calendar [OF days_2026(3)], simp only: if_True refl) code_simp

lemma february:
  "resolve_at CALENDAR MONTH anchor ''2026-02-10'' = Inr (Period_Resolved
    \<lparr>start_date = ''2026-02-01'', end_date = ''2026-02-28'', period_key = ''2026-02'', period_index = 2,
     period_basis = CALENDAR, period_granularity = MONTH, period_meta = Calendar_Month_Metadata 2026 2\<rparr>)"
  by (rule resolve_at_calendar [OF days_2026(2)], simp) code_simp

lemma january:
  "resolve_at CALENDAR MONTH anchor ''2026-01-31'' = Inr (Period_Resolved
    \<lparr>start_date = ''2026-01-01'', end_date = ''2026-01-31'', period_key = ''2026-01'', period_index = 1,
     period_basis = CALENDAR, period_granularity = MONTH, period_meta = Calendar_Month_Metadata 2026 1\<rparr>)"
  by (rule resolve_at_calendar [OF days_2026(1)], simp) code_simp

lemma work_month_2:
  "resolve_at WORK_PERIOD MONTH (Some ''2026-01-31'') ''2026-03-10'' = Inr (Period_Resolved
    \<lparr>start_date = ''2026-02-28'', end_date = ''2026-03-30'', period_key = ''WORK-MONTH-2'', period_index = 2,
     period_basis = WORK_PERIOD, period_granularity = MONTH, period_meta = Work_Month_Metadata ''2026-01-31''\<rparr>)"
  by (rule resolve_at_work_period [OF days_2026(4,1)]) (simp, simp, code_simp)

lemma edge_of_calendar: "resolve_at CALENDAR WEEK None ''0100-01-01'' = Inl (Plain_Error ''TEMPORAL_BOUNDARY_DATE_WIRE_INVARIANT_VIOLATION'')"
proof -
  have "project_business_date (JStr ''0100-01-01'') = Some (''0100-01-01'', -59011459200000)" by code_simp
  moreover have "calendar_week (-59011459200000) = Inl (Plain_Error ''TEMPORAL_BOUNDARY_DATE_WIRE_INVARIANT_VIOLATION'')" by code_simp
  ultimately show ?thesis by (simp add: resolve_at_def resolve_canonical_temporal_period_def)
qed

lemma february_days:
  "business_day 20494" "business_day (period_first CALENDAR MONTH 0 20494 - 6)"
  "business_day (period_last CALENDAR MONTH 0 20494 + 6)" "business_day (period_first CALENDAR WEEK 0 20494)"
  "business_day (period_last CALENDAR WEEK 0 20494)" "business_day 0"
  by code_simp+

theorem resolver_outcome_witness:
  "\<exists>p. resolve_at CALENDAR WEEK None (iso_date_part 20494) = Inr (Period_Resolved p) \<and>
    start_date p = iso_date_part (period_first CALENDAR WEEK 0 20494) \<and>
    end_date p = iso_date_part (period_last CALENDAR WEEK 0 20494)"
  using resolver_outcome [of CALENDAR None 0 20494 WEEK] february_days
  by (auto simp: anchored_def period_covered_def)

theorem resolved_period_is_stable_witness:
  "\<exists>p. resolve_at CALENDAR WEEK None ''2026-02-10'' = Inr (Period_Resolved p) \<and> start_date p = ''2026-02-09'' \<and>
    (\<forall>m. business_day m \<longrightarrow> start_date p \<le> iso_date_part m \<longrightarrow> iso_date_part m \<le> end_date p \<longrightarrow>
      resolve_at CALENDAR WEEK None (iso_date_part m) = Inr (Period_Resolved p))"
  using resolved_period_is_stable [OF week_7 [of None]] week_7 [of None] by auto

theorem resolved_periods_disjoint_witness:
  "\<exists>p p'. resolve_at CALENDAR WEEK None ''2026-02-10'' = Inr (Period_Resolved p) \<and>
    resolve_at CALENDAR WEEK None ''2026-02-20'' = Inr (Period_Resolved p') \<and>
    (p = p' \<or> end_date p < start_date p' \<or> end_date p' < start_date p)"
  using resolved_periods_disjoint [OF week_7 [of None] week_8 [of None]] week_7 week_8 by blast

theorem week_slices_tile_the_month_witness:
  "\<exists>month slices. resolve_at CALENDAR MONTH None (iso_date_part 20494) = Inr (Period_Resolved month) \<and>
    canonical_week_slices_for_month CALENDAR None (iso_date_part 20494) = Some (Inr (Slices_Resolved month slices)) \<and>
    slices_tile (period_first CALENDAR MONTH 0 20494) (period_last CALENDAR MONTH 0 20494) slices"
  using week_slices_tile_the_month [of CALENDAR None 0 20494] february_days
  by (simp add: anchored_def period_covered_def)

theorem calendar_week_is_iso_week_witness:
  "\<exists>p. resolve_at CALENDAR WEEK None ''2026-02-10'' = Inr (Period_Resolved p) \<and>
    (let monday = wire_day (start_date p); y = iso_week_year (period_meta p); k = iso_week_number (period_meta p)
     in monday = monday_of monday \<and> y = year_from_day (monday + 3) \<and> 1 \<le> k \<and> k \<le> 53 \<and> period_index p = k \<and>
       monday = monday_of (make_day y 0 4) + 7 * (k - 1) \<and>
       period_key p = int_to_string y @ ''-W'' @ two_digits k)"
  using calendar_week_is_iso_week [OF week_7 [of None]] week_7 by blast

theorem work_month_anniversary_witness:
  "\<exists>p. resolve_at WORK_PERIOD MONTH (Some ''2026-01-31'') ''2026-03-10'' = Inr (Period_Resolved p) \<and>
    period_index p = 2 \<and>
    (let a = wire_day ''2026-01-31''; d = wire_day (start_date p); k = period_index p - 1
     in 0 \<le> k \<and> year_from_day d * 12 + month_of_day d = year_from_day a * 12 + month_of_day a + k \<and>
       date_of_day d = min (date_of_day a) (month_length (year_from_day d) (month_of_day d)))"
  using work_month_anniversary [OF work_month_2] work_month_2 by (intro exI conjI) (assumption | simp)+

end
