(* ===== verification/PeriodPages.thy ===== *)
theory PeriodPages
  imports TemporalSlices
begin

text \<open>
  \<open>progress/progress-period-navigator.policy.ts\<close>, the pure paged enumeration: one bounded
  page of canonical periods, newest first, walked back from the page's end date to the
  horizon's start.

  The loop takes its resolver as an argument. What a page promises (contiguous, bounded,
  complete between its ends, resumed by its cursor without gap or overlap) is proved once in
  the locale \<open>canonical_period_resolver\<close> and read off for the resolver of the code.
\<close>

section \<open>The page\<close>

definition PERIOD_NAVIGATOR_PAGE_SIZE :: nat where
  "PERIOD_NAVIGATOR_PAGE_SIZE = 64"

datatype enumeration_unavailable_reason =
    Resolver_Reason temporal_period_unavailable_reason
  | INVALID_HORIZON_START_DATE
  | INVALID_PAGE_END_DATE
  | HORIZON_START_AFTER_END

datatype period_page =
    Page_Resolved "temporal_period list" bool "string option"
  | Page_Unavailable enumeration_unavailable_reason

definition day_before :: "string \<Rightarrow> string option" where
  "day_before wire =
     (case parse_date_only_utc wire ''periodStartDate'' of
        Inl e \<Rightarrow> None
      | Inr t \<Rightarrow> Some (take 10 (to_iso_string (previous_utc_day_start t))))"

definition is_project_business_date_wire :: "js_value \<Rightarrow> bool" where
  "is_project_business_date_wire wire =
     (case wire of
        JStr s \<Rightarrow> (case parse_date_only_utc s ''horizonDate'' of Inl e \<Rightarrow> False | Inr t \<Rightarrow> True)
      | _ \<Rightarrow> False)"

function page_loop ::
    "(string \<Rightarrow> js_error + temporal_period_resolution) \<Rightarrow> string \<Rightarrow> string \<Rightarrow> temporal_period list
      \<Rightarrow> js_error + period_page" where
  "page_loop resolve horizon_start cursor periods =
     (if horizon_start \<le> cursor \<and> length periods < PERIOD_NAVIGATOR_PAGE_SIZE then
        (case resolve cursor of
           Inl e \<Rightarrow> Inl e
         | Inr (Period_Unavailable reason) \<Rightarrow> Inr (Page_Unavailable (Resolver_Reason reason))
         | Inr (Period_Resolved period) \<Rightarrow>
             (case day_before (start_date period) of
                None \<Rightarrow> Inl (Plain_Error ''PERIOD_NAVIGATOR_NON_ADVANCING_CURSOR_INVARIANT_VIOLATION'')
              | Some previous \<Rightarrow>
                  if previous \<ge> cursor
                  then Inl (Plain_Error ''PERIOD_NAVIGATOR_NON_ADVANCING_CURSOR_INVARIANT_VIOLATION'')
                  else page_loop resolve horizon_start previous (periods @ [period])))
      else
        (let has_more_older = horizon_start \<le> cursor
         in Inr (Page_Resolved periods has_more_older (if has_more_older then Some cursor else None))))"
  by pat_completeness auto
termination
  by (relation "measure (\<lambda>(_, _, _, periods). PERIOD_NAVIGATOR_PAGE_SIZE - length periods)") auto

declare page_loop.simps [simp del]

definition enumerate_canonical_temporal_period_page ::
    "temporal_basis \<Rightarrow> temporal_granularity \<Rightarrow> string option \<Rightarrow> string \<Rightarrow> string \<Rightarrow> js_error + period_page" where
  "enumerate_canonical_temporal_period_page b g anchor horizon_start page_end =
     (if \<not> is_project_business_date_wire (JStr horizon_start)
      then Inr (Page_Unavailable INVALID_HORIZON_START_DATE)
      else if \<not> is_project_business_date_wire (JStr page_end)
      then Inr (Page_Unavailable INVALID_PAGE_END_DATE)
      else if horizon_start > page_end then Inr (Page_Unavailable HORIZON_START_AFTER_END)
      else page_loop (resolve_at b g anchor) horizon_start page_end [])"

section \<open>The helpers on valid dates\<close>

lemma is_project_business_date_wire_iff:
  "is_project_business_date_wire (JStr s) \<longleftrightarrow> (\<exists>n. business_day n \<and> s = iso_date_part n)"
proof -
  have "is_project_business_date_wire (JStr s) \<longleftrightarrow> (\<exists>t. parse_date_only_utc s ''horizonDate'' = Inr t)"
    by (auto simp: is_project_business_date_wire_def split: sum.splits)
  then show ?thesis by (auto simp: parse_date_only_utc_Inr_iff)
qed

lemma day_before_business_day:
  assumes "business_day n"
  shows "day_before (iso_date_part n) = Some (iso_date_part (n - 1))" "four_digit_day (n - 1)"
proof -
  have y: "100 \<le> year_from_day n" "year_from_day n \<le> 9999" using assms by (simp_all add: business_day_def)
  have "year_from_day n - 1 \<le> year_from_day (n - 1)"
  proof (rule ccontr)
    assume "\<not> ?thesis"
    then have "year_from_day (n - 1) + 1 \<le> year_from_day n - 1" by simp
    then have "day_from_year (year_from_day (n - 1) + 1) \<le> day_from_year (year_from_day n - 1)"
      by (rule day_from_year_mono)
    moreover have "day_from_year (year_from_day n - 1) + 365 \<le> day_from_year (year_from_day n)"
      by (rule day_from_year_strict_mono) simp
    ultimately show False using year_from_day_bounds [of "n - 1"] year_from_day_bounds [of n] by simp
  qed
  moreover have "year_from_day (n - 1) \<le> year_from_day n" by (intro year_from_day_mono) simp
  ultimately show four: "four_digit_day (n - 1)" using y by (simp add: four_digit_day_def)
  have "parse_date_only_utc (iso_date_part n) ''periodStartDate'' = Inr (ms_per_day * n)"
    using assms by (auto simp: parse_date_only_utc_Inr_iff)
  moreover have "previous_utc_day_start (ms_per_day * n) = ms_per_day * (n - 1)"
    by (simp add: previous_utc_day_start_def ms_per_day_def)
  ultimately show "day_before (iso_date_part n) = Some (iso_date_part (n - 1))"
    using four by (simp add: day_before_def take_10_to_iso_string)
qed

section \<open>What a page promises\<close>

text \<open>Newest first with no gap and no overlap: each period ends on the day before the one
  listed before it starts.\<close>

fun contiguous_back :: "temporal_period list \<Rightarrow> bool" where
  "contiguous_back [] = True"
| "contiguous_back [p] = True"
| "contiguous_back (p # q # ps) \<longleftrightarrow>
     day_before (start_date p) = Some (end_date q) \<and> contiguous_back (q # ps)"

lemma contiguous_back_append:
  "contiguous_back (ps @ q # qs) \<longleftrightarrow> contiguous_back ps \<and> contiguous_back (q # qs) \<and>
    (ps \<noteq> [] \<longrightarrow> day_before (start_date (last ps)) = Some (end_date q))"
  by (induction ps rule: contiguous_back.induct) auto

context canonical_period_resolver
begin

definition walk_inv :: "string \<Rightarrow> string \<Rightarrow> temporal_period list \<Rightarrow> bool" where
  "walk_inv h c ps \<longleftrightarrow> length ps \<le> PERIOD_NAVIGATOR_PAGE_SIZE \<and> contiguous_back ps \<and>
     (\<forall>p \<in> set ps. resolve (start_date p) = Inr (Period_Resolved p) \<and> h \<le> end_date p) \<and>
     (ps \<noteq> [] \<longrightarrow> day_before (start_date (last ps)) = Some c)"

lemma day_before_resolved:
  assumes "resolve w = Inr (Period_Resolved p)"
  obtains lo where "start_date p = iso_date_part lo" "business_day lo"
    "day_before (start_date p) = Some (iso_date_part (lo - 1))" "four_digit_day (lo - 1)" "iso_date_part (lo - 1) < w"
proof -
  obtain lo n hi where p: "w = iso_date_part n" "start_date p = iso_date_part lo"
    "business_day lo" "business_day n" "lo \<le> n"
    using assms by (rule resolvedE)
  then show ?thesis
    using that [of lo] day_before_business_day [of lo] by (simp add: date_order)
qed

lemma walk_inv_step:
  assumes inv: "walk_inv h c ps" and size: "length ps < PERIOD_NAVIGATOR_PAGE_SIZE"
    and h: "h \<le> c" and p: "resolve c = Inr (Period_Resolved p)" and prev: "day_before (start_date p) = Some w"
  shows "walk_inv h w (ps @ [p])"
proof -
  have "end_date p = c" if "ps \<noteq> []"
  proof -
    have l: "resolve (start_date (last ps)) = Inr (Period_Resolved (last ps))"
      "day_before (start_date (last ps)) = Some c"
      using inv that by (auto simp: walk_inv_def)
    obtain lo where lo: "start_date (last ps) = iso_date_part lo" "business_day lo"
      "c = iso_date_part (lo - 1)" "four_digit_day (lo - 1)"
      using l(1) by (rule day_before_resolved) (use l(2) in simp)
    obtain n where "c = iso_date_part n" "business_day n" using p by (rule resolvedE)
    then have "business_day (lo - 1)" using lo by (simp add: date_order)
    then show ?thesis using previous_ends_before [OF l(1) lo(1,2)] p lo(3) by simp
  qed
  then have "contiguous_back (ps @ [p])"
    using inv by (auto simp: contiguous_back_append walk_inv_def)
  moreover have "h \<le> end_date p" using h contains_reference(2) [OF p] by (rule order_trans)
  ultimately show ?thesis
    using inv size prev same_at_bounds(1) [OF p] by (auto simp: walk_inv_def)
qed

lemma page_loop_step:
  assumes "h \<le> c" "length ps < PERIOD_NAVIGATOR_PAGE_SIZE" "resolve c = Inr (Period_Resolved p)"
  obtains w where "day_before (start_date p) = Some w" "w < c"
    "page_loop resolve h c ps = page_loop resolve h w (ps @ [p])"
proof -
  obtain lo where lo: "day_before (start_date p) = Some (iso_date_part (lo - 1))" "iso_date_part (lo - 1) < c"
    using assms(3) by (rule day_before_resolved)
  then have "page_loop resolve h c ps = page_loop resolve h (iso_date_part (lo - 1)) (ps @ [p])"
    using assms by (subst page_loop.simps) (simp add: not_le [symmetric])
  then show ?thesis using that lo by blast
qed

lemma page_loop_inv:
  assumes "walk_inv h c ps" and "page_loop resolve h c ps = Inr (Page_Resolved qs older cur)"
  shows "\<exists>w. walk_inv h w qs \<and> (older \<longleftrightarrow> h \<le> w) \<and> cur = (if older then Some w else None) \<and>
    (older \<longrightarrow> length qs = PERIOD_NAVIGATOR_PAGE_SIZE) \<and> (ps \<noteq> [] \<longrightarrow> (qs \<noteq> [] \<and> hd qs = hd ps))"
  using assms
proof (induction "PERIOD_NAVIGATOR_PAGE_SIZE - length ps" arbitrary: c ps rule: less_induct)
  case less
  show ?case
  proof (cases "h \<le> c \<and> length ps < PERIOD_NAVIGATOR_PAGE_SIZE")
    case False
    then have "older = (h \<le> c)" "qs = ps" "cur = (if older then Some c else None)"
      using less(3) by (auto simp: page_loop.simps [of resolve h c ps] Let_def)
    then show ?thesis using False less(2) by (auto simp: walk_inv_def)
  next
    case True
    then obtain p where p: "resolve c = Inr (Period_Resolved p)"
      using less(3)
      by (auto simp: page_loop.simps [of resolve h c ps] split: sum.splits temporal_period_resolution.splits)
    obtain w where w: "day_before (start_date p) = Some w"
      "page_loop resolve h c ps = page_loop resolve h w (ps @ [p])"
      using page_loop_step [OF _ _ p] True by blast
    have inv: "walk_inv h w (ps @ [p])" using walk_inv_step [OF less(2) _ _ p w(1)] True by blast
    have size: "PERIOD_NAVIGATOR_PAGE_SIZE - length (ps @ [p]) < PERIOD_NAVIGATOR_PAGE_SIZE - length ps"
      "ps @ [p] \<noteq> []" using True by auto
    obtain w' where "walk_inv h w' qs" "older \<longleftrightarrow> h \<le> w'" "cur = (if older then Some w' else None)"
      "older \<longrightarrow> length qs = PERIOD_NAVIGATOR_PAGE_SIZE" "qs \<noteq> []" "hd qs = hd (ps @ [p])"
      using less(1) [OF size(1) inv less(3) [unfolded w(2)]] size(2) by blast
    moreover from this have "ps \<noteq> [] \<longrightarrow> hd qs = hd ps" by simp
    ultimately show ?thesis by blast
  qed
qed

text \<open>The loop throws only what the resolver throws.\<close>

lemma page_loop_error:
  assumes "page_loop resolve h c ps = Inl e"
  shows "\<exists>w. resolve w = Inl e"
  using assms
proof (induction "PERIOD_NAVIGATOR_PAGE_SIZE - length ps" arbitrary: c ps rule: less_induct)
  case less
  have True: "h \<le> c" "length ps < PERIOD_NAVIGATOR_PAGE_SIZE"
    using less(2) by (auto simp: page_loop.simps [of resolve h c ps] Let_def split: if_splits)
  show ?case
  proof (cases "resolve c")
    case (Inr r)
    then obtain p where p: "resolve c = Inr (Period_Resolved p)"
      using less(2) True by (cases r) (auto simp: page_loop.simps [of resolve h c ps])
    obtain w where "page_loop resolve h c ps = page_loop resolve h w (ps @ [p])"
      using page_loop_step [OF True p] by blast
    then show ?thesis using less(1) [of "ps @ [p]" w] less(2) True by simp
  qed (use less(2) True in \<open>auto simp: page_loop.simps [of resolve h c ps]\<close>)
qed

lemma page_loop_resolves:
  assumes "business_day h" and "c = iso_date_part n" "four_digit_day n"
    and "\<And>m. h \<le> m \<Longrightarrow> m \<le> n \<Longrightarrow> \<exists>p. resolve (iso_date_part m) = Inr (Period_Resolved p)"
  shows "\<exists>qs older cur. page_loop resolve (iso_date_part h) c ps = Inr (Page_Resolved qs older cur)"
  using assms(2-)
proof (induction "PERIOD_NAVIGATOR_PAGE_SIZE - length ps" arbitrary: c n ps rule: less_induct)
  case less
  show ?case
  proof (cases "iso_date_part h \<le> c \<and> length ps < PERIOD_NAVIGATOR_PAGE_SIZE")
    case False
    then show ?thesis by (auto simp: page_loop.simps [of resolve "iso_date_part h" c ps] Let_def)
  next
    case True
    then have "h \<le> n" using assms(1) less(2,3) by (simp add: date_order)
    then obtain p where p: "resolve c = Inr (Period_Resolved p)" using less(2) less(4) [of n] by auto
    obtain lo where lo: "day_before (start_date p) = Some (iso_date_part (lo - 1))" "four_digit_day (lo - 1)"
      "iso_date_part (lo - 1) < c"
      using p by (rule day_before_resolved)
    obtain w where w: "day_before (start_date p) = Some w"
      "page_loop resolve (iso_date_part h) c ps = page_loop resolve (iso_date_part h) w (ps @ [p])"
      using page_loop_step [OF _ _ p] True by blast
    have "lo - 1 < n" using lo(2,3) less(2,3) by (simp add: date_order)
    then show ?thesis
      using less(1) [of "ps @ [p]" w "lo - 1"] lo w True less(4) by auto
  qed
qed

text \<open>A refusal of the loop is a refusal of the resolver at a date of the horizon.\<close>

lemma page_loop_unavailable:
  assumes "business_day h" "c = iso_date_part n" "four_digit_day n"
    and "page_loop resolve (iso_date_part h) c ps = Inr (Page_Unavailable r)"
  shows "\<exists>m q. business_day m \<and> h \<le> m \<and> r = Resolver_Reason q \<and>
    resolve (iso_date_part m) = Inr (Period_Unavailable q)"
  using assms(2-)
proof (induction "PERIOD_NAVIGATOR_PAGE_SIZE - length ps" arbitrary: c n ps rule: less_induct)
  case less
  have size: "iso_date_part h \<le> c" "length ps < PERIOD_NAVIGATOR_PAGE_SIZE"
    using less(4) by (auto simp: page_loop.simps [of resolve "iso_date_part h" c ps] Let_def split: if_splits)
  then have hn: "h \<le> n" using assms(1) less(2,3) by (simp add: date_order)
  then have n: "business_day n"
    using assms(1) less(3) year_from_day_mono [OF hn] by (simp add: business_day_def four_digit_day_def)
  show ?case
  proof (cases "resolve c")
    case (Inl e)
    then show ?thesis using less(4) size by (simp add: page_loop.simps [of resolve "iso_date_part h" c ps])
  next
    case (Inr res)
    show ?thesis
    proof (cases res)
      case (Period_Unavailable q)
      then have "r = Resolver_Reason q"
        using less(4) size Inr by (simp add: page_loop.simps [of resolve "iso_date_part h" c ps])
      then show ?thesis using Inr Period_Unavailable less(2) hn n by blast
    next
      case (Period_Resolved p)
      then have p: "resolve c = Inr (Period_Resolved p)" using Inr by simp
      obtain lo where lo: "day_before (start_date p) = Some (iso_date_part (lo - 1))" "four_digit_day (lo - 1)"
        using p by (rule day_before_resolved)
      obtain w where w: "day_before (start_date p) = Some w"
        "page_loop resolve (iso_date_part h) c ps = page_loop resolve (iso_date_part h) w (ps @ [p])"
        using page_loop_step [OF size p] by blast
      then show ?thesis using less(1) [of "ps @ [p]" w "lo - 1"] lo size less(4) by auto
    qed
  qed
qed

text \<open>Later in the list is earlier in time.\<close>

lemma contiguous_starts_le:
  assumes "contiguous_back ps" "\<forall>p \<in> set ps. resolve (start_date p) = Inr (Period_Resolved p)" "p \<in> set ps"
  shows "start_date p \<le> start_date (hd ps)"
  using assms
proof (induction ps rule: contiguous_back.induct)
  case (3 q q' ps)
  have r: "resolve (start_date q) = Inr (Period_Resolved q)" "resolve (start_date q') = Inr (Period_Resolved q')"
    using 3 by simp_all
  obtain lo where lo: "day_before (start_date q) = Some (iso_date_part (lo - 1))"
    "iso_date_part (lo - 1) < start_date q"
    using r(1) by (rule day_before_resolved)
  then have "end_date q' < start_date q" using 3(2) by simp
  then have "start_date q' < start_date q"
    using contains_reference(2) [OF same_at_bounds(1) [OF r(2)]] by (rule le_less_trans [rotated])
  moreover have "start_date p \<le> start_date q'" if "p \<noteq> q" using 3 that by auto
  ultimately show ?case by (cases "p = q") (simp_all add: less_imp_le order_trans)
qed simp_all

lemma contiguous_last_le:
  assumes "contiguous_back ps" "ps \<noteq> []" "\<forall>p \<in> set ps. resolve (start_date p) = Inr (Period_Resolved p)"
  shows "start_date (last ps) \<le> start_date (hd ps)"
  using contiguous_starts_le [OF assms(1,3) last_in_set [OF assms(2)]] .

text \<open>A contiguous list covers every day from the start of its last period to the end of its first.\<close>

lemma contiguous_covers:
  assumes "contiguous_back ps" "ps \<noteq> []" "\<forall>p \<in> set ps. resolve (start_date p) = Inr (Period_Resolved p)"
    and "business_day m" "start_date (last ps) \<le> iso_date_part m" "iso_date_part m \<le> end_date (hd ps)"
  shows "\<exists>p \<in> set ps. start_date p \<le> iso_date_part m \<and> iso_date_part m \<le> end_date p"
  using assms
proof (induction ps rule: contiguous_back.induct)
  case (3 p q ps)
  show ?case
  proof (cases "start_date p \<le> iso_date_part m")
    case False
    have "resolve (start_date p) = Inr (Period_Resolved p)" using 3 by simp
    then obtain lo where lo: "start_date p = iso_date_part lo" "business_day lo"
      "day_before (start_date p) = Some (iso_date_part (lo - 1))" "four_digit_day (lo - 1)"
      by (rule day_before_resolved)
    with False 3(2,5) have "iso_date_part m \<le> end_date q" by (auto simp: date_order)
    then show ?thesis using 3 by auto
  qed (use 3 in auto)
qed simp_all

end

section \<open>The pages of the code\<close>

lemma rbind_eq_Inl_iff: "rbind x f = Inl e \<longleftrightarrow> x = Inl e \<or> (\<exists>a. x = Inr a \<and> f a = Inl e)"
  by (cases x) auto

lemma date_wire_error:
  "date_wire v = Inl e \<Longrightarrow> e = Plain_Error ''TEMPORAL_BOUNDARY_DATE_WIRE_INVARIANT_VIOLATION''"
  by (simp add: date_wire_def Let_def split: if_splits)

lemma resolve_at_error:
  "resolve_at b g anchor w = Inl e \<Longrightarrow> e = Plain_Error ''TEMPORAL_BOUNDARY_DATE_WIRE_INVARIANT_VIOLATION''"
  by (auto simp: resolve_at_def resolve_canonical_temporal_period_def rbind_eq_Inl_iff calendar_week_def
      calendar_month_def work_week_def work_month_def Let_def dest: date_wire_error
      split: option.splits if_splits prod.splits)

lemma enumerate_ResolvedD:
  assumes "enumerate_canonical_temporal_period_page b g anchor h e = Inr (Page_Resolved ps older cur)"
  obtains i j where "h = iso_date_part i" "e = iso_date_part j" "business_day i" "business_day j" "i \<le> j"
    "page_loop (resolve_at b g anchor) h e [] = Inr (Page_Resolved ps older cur)"
  using assms
  by (auto simp: enumerate_canonical_temporal_period_page_def is_project_business_date_wire_iff date_order not_less
      split: if_splits)

lemma page_walk:
  assumes "enumerate_canonical_temporal_period_page b g anchor h e = Inr (Page_Resolved ps older cur)"
  obtains p w where "h \<le> e" "resolve_at b g anchor e = Inr (Period_Resolved p)" "ps \<noteq> []" "hd ps = p"
    "canonical_period_resolver.walk_inv (resolve_at b g anchor) h w ps" "older \<longleftrightarrow> h \<le> w"
    "cur = (if older then Some w else None)" "older \<longrightarrow> length ps = PERIOD_NAVIGATOR_PAGE_SIZE"
proof -
  obtain i j where d: "h = iso_date_part i" "e = iso_date_part j" "business_day i" "business_day j" "i \<le> j"
    and loop: "page_loop (resolve_at b g anchor) h e [] = Inr (Page_Resolved ps older cur)"
    using assms by (rule enumerate_ResolvedD)
  have he: "h \<le> e" using d by (simp add: date_order)
  have size: "length ([] :: temporal_period list) < PERIOD_NAVIGATOR_PAGE_SIZE"
    by (simp add: PERIOD_NAVIGATOR_PAGE_SIZE_def)
  obtain p where p: "resolve_at b g anchor e = Inr (Period_Resolved p)"
    using loop he size
    by (auto simp: page_loop.simps [of "resolve_at b g anchor" h e] split: sum.splits temporal_period_resolution.splits)
  obtain w where w: "day_before (start_date p) = Some w"
    "page_loop (resolve_at b g anchor) h e [] = page_loop (resolve_at b g anchor) h w ([] @ [p])"
    using code_resolver.page_loop_step [OF he size p] by blast
  have "code_resolver.walk_inv b g anchor h e []"
    by (simp add: code_resolver.walk_inv_def)
  then have "code_resolver.walk_inv b g anchor h w ([] @ [p])"
    using code_resolver.walk_inv_step [OF _ size he p w(1)] by blast
  moreover have "page_loop (resolve_at b g anchor) h w ([] @ [p]) = Inr (Page_Resolved ps older cur)"
    using loop w(2) by simp
  ultimately obtain w' where "code_resolver.walk_inv b g anchor h w' ps" "older \<longleftrightarrow> h \<le> w'"
    "cur = (if older then Some w' else None)" "older \<longrightarrow> length ps = PERIOD_NAVIGATOR_PAGE_SIZE"
    "[] @ [p] \<noteq> [] \<longrightarrow> ps \<noteq> [] \<and> hd ps = hd ([] @ [p])"
    using code_resolver.page_loop_inv by blast
  then show ?thesis using that he p by auto
qed

section \<open>Properties\<close>

lemma page_contract:
  assumes "enumerate_canonical_temporal_period_page b g anchor h e = Inr (Page_Resolved ps older cur)"
  shows "ps \<noteq> [] \<and> length ps \<le> PERIOD_NAVIGATOR_PAGE_SIZE \<and>
    start_date (hd ps) \<le> e \<and> e \<le> end_date (hd ps) \<and> contiguous_back ps \<and>
    (\<forall>p \<in> set ps. resolve_at b g anchor (start_date p) = Inr (Period_Resolved p) \<and> h \<le> end_date p) \<and>
    (\<forall>m. business_day m \<longrightarrow> start_date (last ps) \<le> iso_date_part m \<longrightarrow> iso_date_part m \<le> e \<longrightarrow>
      (\<exists>p \<in> set ps. start_date p \<le> iso_date_part m \<and> iso_date_part m \<le> end_date p))"
proof -
  obtain p w where p: "resolve_at b g anchor e = Inr (Period_Resolved p)" "ps \<noteq> []" "hd ps = p"
    and w: "code_resolver.walk_inv b g anchor h w ps"
    using assms by (rule page_walk)
  have e: "start_date (hd ps) \<le> e" "e \<le> end_date (hd ps)"
    using code_resolver.contains_reference [OF p(1)] p(3) by simp_all
  have ps: "contiguous_back ps" "length ps \<le> PERIOD_NAVIGATOR_PAGE_SIZE"
    "\<forall>p \<in> set ps. resolve_at b g anchor (start_date p) = Inr (Period_Resolved p) \<and> h \<le> end_date p"
    using w by (simp_all add: code_resolver.walk_inv_def)
  have "\<exists>p \<in> set ps. start_date p \<le> iso_date_part m \<and> iso_date_part m \<le> end_date p"
    if "business_day m" "start_date (last ps) \<le> iso_date_part m" "iso_date_part m \<le> e" for m
    using code_resolver.contiguous_covers [OF ps(1) p(2) _ that(1,2) order_trans [OF that(3) e(2)]] ps(3) by blast
  with ps e p(2) show ?thesis by blast
qed

text \<open>A page of the period navigator. It is never empty and holds at most 64 periods; the
  first contains the page's end date, the periods are contiguous and newest first, each is the
  canonical period of its own dates and reaches into the horizon, and every date from the start
  of the last one to the page's end lies in one of them.\<close>

theorem navigator_page:
  assumes "enumerate_canonical_temporal_period_page b g anchor h e = Inr (Page_Resolved ps older cur)"
  shows "ps \<noteq> [] \<and> length ps \<le> PERIOD_NAVIGATOR_PAGE_SIZE \<and>
    start_date (hd ps) \<le> e \<and> e \<le> end_date (hd ps) \<and> contiguous_back ps \<and>
    (\<forall>p \<in> set ps. resolve_at b g anchor (start_date p) = Inr (Period_Resolved p) \<and> h \<le> end_date p) \<and>
    (\<forall>m. business_day m \<longrightarrow> start_date (last ps) \<le> iso_date_part m \<longrightarrow> iso_date_part m \<le> e \<longrightarrow>
      (\<exists>p \<in> set ps. start_date p \<le> iso_date_part m \<and> iso_date_part m \<le> end_date p))"
  using assms by (rule page_contract)

lemma page_resumes:
  assumes "enumerate_canonical_temporal_period_page b g anchor h e = Inr (Page_Resolved ps older cur)"
  shows "case cur of
      None \<Rightarrow> \<not> older \<and> start_date (last ps) \<le> h
    | Some c \<Rightarrow> older \<and> length ps = PERIOD_NAVIGATOR_PAGE_SIZE \<and> h \<le> c \<and> c < e \<and>
        day_before (start_date (last ps)) = Some c \<and>
        (\<forall>qs older' cur'.
           enumerate_canonical_temporal_period_page b g anchor h c = Inr (Page_Resolved qs older' cur') \<longrightarrow>
           contiguous_back (ps @ qs))"
proof -
  obtain p w where p: "h \<le> e" "resolve_at b g anchor e = Inr (Period_Resolved p)" "ps \<noteq> []" "hd ps = p"
    and w: "code_resolver.walk_inv b g anchor h w ps" "older \<longleftrightarrow> h \<le> w" "cur = (if older then Some w else None)"
      "older \<longrightarrow> length ps = PERIOD_NAVIGATOR_PAGE_SIZE"
    using assms by (rule page_walk)
  have l: "resolve_at b g anchor (start_date (last ps)) = Inr (Period_Resolved (last ps))"
    "day_before (start_date (last ps)) = Some w" "contiguous_back ps"
    using w(1) p(3) by (simp_all add: code_resolver.walk_inv_def)
  obtain lo where lo: "start_date (last ps) = iso_date_part lo" "business_day lo" "w = iso_date_part (lo - 1)"
    "four_digit_day (lo - 1)" "w < start_date (last ps)"
    using code_resolver.day_before_resolved [OF l(1)] l(2) by (metis option.inject)
  show ?thesis
  proof (cases older)
    case False
    obtain i j where "h = iso_date_part i" "business_day i" using assms by (rule enumerate_ResolvedD)
    then have "start_date (last ps) \<le> h" using False w(2) lo by (simp add: date_order)
    with False w(3) show ?thesis by simp
  next
    case True
    have all: "\<forall>p \<in> set ps. resolve_at b g anchor (start_date p) = Inr (Period_Resolved p)"
      using w(1) by (simp add: code_resolver.walk_inv_def)
    have "start_date (last ps) \<le> e"
      using code_resolver.contiguous_last_le [OF l(3) p(3) all] code_resolver.contains_reference(1) [OF p(2)] p(4)
      by simp
    then have "w < e" using lo(5) by simp
    have "contiguous_back (ps @ qs)"
      if page: "enumerate_canonical_temporal_period_page b g anchor h w = Inr (Page_Resolved qs older' cur')"
      for qs older' cur'
    proof -
      obtain q w' where q: "resolve_at b g anchor w = Inr (Period_Resolved q)" "qs \<noteq> []" "hd qs = q"
        "code_resolver.walk_inv b g anchor h w' qs"
        using page by (rule page_walk)
      then obtain qs' where qs: "qs = q # qs'" by (cases qs) auto
      obtain n where "w = iso_date_part n" "business_day n" using q(1) by (rule code_resolver.resolvedE)
      then have "business_day (lo - 1)" using lo by (simp add: date_order)
      then have "end_date q = w"
        using code_resolver.previous_ends_before [OF l(1) lo(1,2)] q(1) lo(3) by simp
      then show ?thesis
        using q(4) l qs by (simp add: contiguous_back_append code_resolver.walk_inv_def)
    qed
    then show ?thesis using True w \<open>w < e\<close> l(2) by auto
  qed
qed

text \<open>Paging. A page that offers a cursor is full, the cursor is the day before its oldest
  period starts and still lies in the horizon, and the page asked for with that cursor continues
  it with no gap and no overlap; a page that offers none reaches the start of the horizon.\<close>

theorem navigator_resumes:
  assumes "enumerate_canonical_temporal_period_page b g anchor h e = Inr (Page_Resolved ps older cur)"
  shows "case cur of
      None \<Rightarrow> \<not> older \<and> start_date (last ps) \<le> h
    | Some c \<Rightarrow> older \<and> length ps = PERIOD_NAVIGATOR_PAGE_SIZE \<and> h \<le> c \<and> c < e \<and>
        day_before (start_date (last ps)) = Some c \<and>
        (\<forall>qs older' cur'.
           enumerate_canonical_temporal_period_page b g anchor h c = Inr (Page_Resolved qs older' cur') \<longrightarrow>
           contiguous_back (ps @ qs))"
  using assms by (rule page_resumes)

lemma enumerate_error:
  assumes "enumerate_canonical_temporal_period_page b g anchor h e = Inl err"
  shows "err = Plain_Error ''TEMPORAL_BOUNDARY_DATE_WIRE_INVARIANT_VIOLATION''"
proof -
  have "page_loop (resolve_at b g anchor) h e [] = Inl err"
    using assms by (simp add: enumerate_canonical_temporal_period_page_def split: if_splits)
  then show ?thesis using code_resolver.page_loop_error resolve_at_error by blast
qed

text \<open>The guard against a cursor that does not move back never fires: the only exception
  an enumeration can raise is the one of a date outside the years 0100..9999.\<close>

theorem navigator_cursor_always_advances:
  assumes "enumerate_canonical_temporal_period_page b g anchor h e = Inl err"
  shows "err = Plain_Error ''TEMPORAL_BOUNDARY_DATE_WIRE_INVARIANT_VIOLATION''"
  using assms by (rule enumerate_error)

text \<open>The page ends a client can reach by following the cursors it is given.\<close>

inductive served_page_end ::
    "temporal_basis \<Rightarrow> temporal_granularity \<Rightarrow> string option \<Rightarrow> string \<Rightarrow> string \<Rightarrow> string \<Rightarrow> bool"
  for b g anchor h e where
  newest: "served_page_end b g anchor h e e"
| older: "served_page_end b g anchor h e c \<Longrightarrow>
    enumerate_canonical_temporal_period_page b g anchor h c = Inr (Page_Resolved ps True (Some c')) \<Longrightarrow>
    served_page_end b g anchor h e c'"

text \<open>C20: every date of the horizon can be reached. Where the dates of the horizon resolve,
  following the cursors from the newest page meets, for each of them, a page that lists a
  period holding that date: the page size bounds a response, never the project.\<close>

theorem navigator_reaches_every_date:
  assumes "business_day i" and "business_day j" and "i \<le> m" and "m \<le> j"
    and "\<And>d. i \<le> d \<Longrightarrow> d \<le> j \<Longrightarrow> \<exists>p. resolve_at b g anchor (iso_date_part d) = Inr (Period_Resolved p)"
  shows "\<exists>c ps older cur. served_page_end b g anchor (iso_date_part i) (iso_date_part j) c \<and>
    enumerate_canonical_temporal_period_page b g anchor (iso_date_part i) c = Inr (Page_Resolved ps older cur) \<and>
    (\<exists>p \<in> set ps. start_date p \<le> iso_date_part m \<and> iso_date_part m \<le> end_date p)"
proof -
  let ?h = "iso_date_part i" and ?e = "iso_date_part j"
  have m: "business_day m" using business_day_between [OF assms(1-4)] .
  have "\<exists>c ps older cur. served_page_end b g anchor ?h ?e c \<and>
      enumerate_canonical_temporal_period_page b g anchor ?h c = Inr (Page_Resolved ps older cur) \<and>
      (\<exists>p \<in> set ps. start_date p \<le> iso_date_part m \<and> iso_date_part m \<le> end_date p)"
    if "served_page_end b g anchor ?h ?e (iso_date_part n)" "m \<le> n" "n \<le> j" for n
    using that
  proof (induction "nat (n - m)" arbitrary: n rule: less_induct)
    case less
    let ?c = "iso_date_part n"
    have n: "business_day n" using business_day_between [OF assms(1,2), of n] less(3,4) assms(3) by simp
    have hc: "?h \<le> ?c" using n assms(1,3) less(3) by (simp add: date_order)
    have enum: "enumerate_canonical_temporal_period_page b g anchor ?h ?c = page_loop (resolve_at b g anchor) ?h ?c []"
      using n assms(1) hc
      by (auto simp: enumerate_canonical_temporal_period_page_def is_project_business_date_wire_iff not_less)
    have res: "\<exists>p. resolve_at b g anchor (iso_date_part d) = Inr (Period_Resolved p)" if "i \<le> d" "d \<le> n" for d
      using assms(5) [of d] that less(4) by simp
    obtain ps older cur where page: "enumerate_canonical_temporal_period_page b g anchor ?h ?c =
        Inr (Page_Resolved ps older cur)"
      using code_resolver.page_loop_resolves [OF assms(1) refl _ res] n enum business_day_four_digit by metis
    obtain p w where p: "?h \<le> ?c" "resolve_at b g anchor ?c = Inr (Period_Resolved p)" "ps \<noteq> []" "hd ps = p"
      and w: "code_resolver.walk_inv b g anchor ?h w ps" "older \<longleftrightarrow> ?h \<le> w" "cur = (if older then Some w else None)"
      using page by (rule page_walk)
    have ps: "contiguous_back ps" "\<forall>p \<in> set ps. resolve_at b g anchor (start_date p) = Inr (Period_Resolved p)"
      using w(1) by (simp_all add: code_resolver.walk_inv_def)
    have l: "resolve_at b g anchor (start_date (last ps)) = Inr (Period_Resolved (last ps))"
      "day_before (start_date (last ps)) = Some w"
      using w(1) p(3) by (simp_all add: code_resolver.walk_inv_def)
    show ?case
    proof (cases "start_date (last ps) \<le> iso_date_part m")
      case True
      have "iso_date_part m \<le> ?c" using m n less(3) by (simp add: date_order)
      also have "?c \<le> end_date (hd ps)" using code_resolver.contains_reference(2) [OF p(2)] p(4) by simp
      finally have "\<exists>p \<in> set ps. start_date p \<le> iso_date_part m \<and> iso_date_part m \<le> end_date p"
        using code_resolver.contiguous_covers [OF ps(1) p(3) ps(2) m True] by blast
      with page less(2) show ?thesis by blast
    next
      case False
      obtain lo where lo: "start_date (last ps) = iso_date_part lo" "business_day lo" "w = iso_date_part (lo - 1)"
        "four_digit_day (lo - 1)"
        using code_resolver.day_before_resolved [OF l(1)] l(2) by (metis option.inject)
      have lm: "m \<le> lo - 1" using False m lo by (simp add: date_order)
      have "start_date (last ps) \<le> ?c"
        using code_resolver.contiguous_last_le [OF ps(1) p(3) ps(2)] code_resolver.contains_reference(1) [OF p(2)] p(4)
        by simp
      then have ln: "lo - 1 < n" using lo n by (simp add: date_order)
      have "?h \<le> w" using lm assms(1,3) lo by (simp add: date_order)
      then have "served_page_end b g anchor ?h ?e w"
        using page w less(2) by (auto intro: served_page_end.older)
      then show ?thesis using less(1) [of "lo - 1"] lo lm ln less(4) by auto
    qed
  qed
  then show ?thesis using served_page_end.newest assms(4) by blast
qed

section \<open>Witnesses\<close>

lemma page_2026:
  "enumerate_canonical_temporal_period_page CALENDAR MONTH None ''2026-01-15'' ''2026-02-10'' =
    Inr (Page_Resolved
      [\<lparr>start_date = ''2026-02-01'', end_date = ''2026-02-28'', period_key = ''2026-02'', period_index = 2,
        period_basis = CALENDAR, period_granularity = MONTH, period_meta = Calendar_Month_Metadata 2026 2\<rparr>,
       \<lparr>start_date = ''2026-01-01'', end_date = ''2026-01-31'', period_key = ''2026-01'', period_index = 1,
        period_basis = CALENDAR, period_granularity = MONTH, period_meta = Calendar_Month_Metadata 2026 1\<rparr>] False None)"
proof -
  have h: "is_project_business_date_wire (JStr ''2026-01-15'')" "is_project_business_date_wire (JStr ''2026-02-10'')"
    by code_simp+
  have o: "''2026-01-15'' \<le> ''2026-02-10''" "''2026-01-15'' \<le> ''2026-01-31''" "\<not> ''2026-01-15'' \<le> ''2025-12-31''"
    "''2026-01-31'' < ''2026-02-10''" "''2025-12-31'' < ''2026-01-31''" by code_simp+
  have d: "day_before ''2026-02-01'' = Some ''2026-01-31''" "day_before ''2026-01-01'' = Some ''2025-12-31''"
    by code_simp+
  show ?thesis
    by (simp add: enumerate_canonical_temporal_period_page_def h o d page_loop.simps february january
        PERIOD_NAVIGATOR_PAGE_SIZE_def not_le not_less)
qed


lemma page_at_the_edge:
  "enumerate_canonical_temporal_period_page CALENDAR WEEK None ''0100-01-01'' ''0100-01-01'' =
    Inl (Plain_Error ''TEMPORAL_BOUNDARY_DATE_WIRE_INVARIANT_VIOLATION'')"
proof -
  have "is_project_business_date_wire (JStr ''0100-01-01'')" by code_simp
  then show ?thesis
    by (simp add: enumerate_canonical_temporal_period_page_def page_loop.simps edge_of_calendar
        PERIOD_NAVIGATOR_PAGE_SIZE_def)
qed

theorem navigator_page_witness:
  "\<exists>ps older cur. enumerate_canonical_temporal_period_page CALENDAR MONTH None ''2026-01-15'' ''2026-02-10'' =
      Inr (Page_Resolved ps older cur) \<and>
    ps \<noteq> [] \<and> length ps \<le> PERIOD_NAVIGATOR_PAGE_SIZE \<and> contiguous_back ps \<and>
    start_date (hd ps) \<le> ''2026-02-10'' \<and> ''2026-02-10'' \<le> end_date (hd ps)"
  using navigator_page [OF page_2026] page_2026 by blast

theorem navigator_resumes_witness:
  "\<exists>ps. enumerate_canonical_temporal_period_page CALENDAR MONTH None ''2026-01-15'' ''2026-02-10'' =
      Inr (Page_Resolved ps False None) \<and> start_date (last ps) \<le> ''2026-01-15''"
  using navigator_resumes [OF page_2026] page_2026 by (metis option.simps(4))

theorem navigator_cursor_always_advances_witness:
  "\<exists>err. enumerate_canonical_temporal_period_page CALENDAR WEEK None ''0100-01-01'' ''0100-01-01'' = Inl err \<and>
    err = Plain_Error ''TEMPORAL_BOUNDARY_DATE_WIRE_INVARIANT_VIOLATION''"
  using navigator_cursor_always_advances [OF page_at_the_edge] page_at_the_edge by simp

theorem navigator_reaches_every_date_witness:
  "\<exists>c ps older cur.
    served_page_end CALENDAR MONTH None (iso_date_part 20494) (iso_date_part 20504) c \<and>
    enumerate_canonical_temporal_period_page CALENDAR MONTH None (iso_date_part 20494) c =
      Inr (Page_Resolved ps older cur) \<and>
    (\<exists>p \<in> set ps. start_date p \<le> iso_date_part 20500 \<and> iso_date_part 20500 \<le> end_date p)"
proof (rule navigator_reaches_every_date)
  show days: "business_day 20494" "business_day 20504" by code_simp+
  fix d :: int
  assume "20494 \<le> d" "d \<le> 20504"
  moreover have "''2026-02-10'' = iso_date_part 20494" "''2026-02-01'' = iso_date_part 20485"
    "''2026-02-28'' = iso_date_part 20512" "business_day 20485" "business_day 20512" by code_simp+
  moreover have "business_day d" using business_day_between [OF days] calculation(1,2) .
  ultimately show "\<exists>p. resolve_at CALENDAR MONTH None (iso_date_part d) = Inr (Period_Resolved p)"
    using code_resolver.resolved_same [OF february [of None], of d] by (auto simp: date_order)
qed simp_all

end
