(* ===== verification/Decimal.thy ===== *)
theory Decimal
  imports Complex_Main "HOL-Library.Multiset" JsDate
begin

text \<open>
  The interface of \<open>Prisma.Decimal\<close> (decimal.js), which is not in the repository.

  \<open>decimal_ops\<close> collects the operations the code calls; every component that computes with
  decimals takes one as its first argument. The locale \<open>decimal_arith\<close> states the
  documented behaviour that properties rely on: the value of a result is the exact value of
  the operation rounded to a fixed number of significant digits (\<open>rnd\<close>, monotone and
  idempotent), an infinite or not-a-number operand never gives a finite sum or product, and
  comparisons compare values. Nothing is assumed of results that are not finite.

  \<open>decimal20\<close> is a concrete instance, with the library's defaults (20 significant digits,
  half up), on which the locale is interpreted and on which witnesses compute.
\<close>

record 'd decimal_ops =
  d_of_int :: "int \<Rightarrow> 'd"
  d_parse :: "string \<Rightarrow> 'd option"
  d_to_string :: "'d \<Rightarrow> string"
  d_to_fixed :: "nat \<Rightarrow> 'd \<Rightarrow> string"
  d_to_decimal_places :: "nat \<Rightarrow> 'd \<Rightarrow> 'd"
  d_is_nan :: "'d \<Rightarrow> bool"
  d_is_finite :: "'d \<Rightarrow> bool"
  d_is_negative :: "'d \<Rightarrow> bool"
  d_is_zero :: "'d \<Rightarrow> bool"
  d_plus :: "'d \<Rightarrow> 'd \<Rightarrow> 'd"
  d_sub :: "'d \<Rightarrow> 'd \<Rightarrow> 'd"
  d_mul :: "'d \<Rightarrow> 'd \<Rightarrow> 'd"
  d_div :: "'d \<Rightarrow> 'd \<Rightarrow> 'd"
  d_mod :: "'d \<Rightarrow> 'd \<Rightarrow> 'd"
  d_less_than :: "'d \<Rightarrow> 'd \<Rightarrow> bool"
  d_less_equal :: "'d \<Rightarrow> 'd \<Rightarrow> bool"
  d_equals :: "'d \<Rightarrow> 'd \<Rightarrow> bool"

text \<open>\<open>a.greaterThan(b)\<close> and \<open>a.greaterThanOrEqualTo(b)\<close>.\<close>

definition d_greater_than :: "'d decimal_ops \<Rightarrow> 'd \<Rightarrow> 'd \<Rightarrow> bool" where
  "d_greater_than D a b = d_less_than D b a"

definition d_greater_equal :: "'d decimal_ops \<Rightarrow> 'd \<Rightarrow> 'd \<Rightarrow> bool" where
  "d_greater_equal D a b = d_less_equal D b a"

section \<open>The documented arithmetic\<close>

locale decimal_arith =
  fixes D :: "'d decimal_ops" and val :: "'d \<Rightarrow> rat" and rnd :: "rat \<Rightarrow> rat"
  assumes rnd_mono: "x \<le> y \<Longrightarrow> rnd x \<le> rnd y"
    and rnd_idem: "rnd (rnd x) = rnd x"
    and rnd_int: "\<bar>n\<bar> \<le> 100 \<Longrightarrow> rnd (of_int n) = of_int n"
    and of_int_law: "\<bar>n\<bar> \<le> 100 \<Longrightarrow> d_is_finite D (d_of_int D n) \<and> val (d_of_int D n) = of_int n"
    and plus_law: "d_is_finite D (d_plus D a b) \<Longrightarrow>
      d_is_finite D a \<and> d_is_finite D b \<and> val (d_plus D a b) = rnd (val a + val b)"
    and sub_law: "d_is_finite D (d_sub D a b) \<Longrightarrow>
      d_is_finite D a \<and> d_is_finite D b \<and> val (d_sub D a b) = rnd (val a - val b)"
    and mul_law: "d_is_finite D (d_mul D a b) \<Longrightarrow>
      d_is_finite D a \<and> d_is_finite D b \<and> val (d_mul D a b) = rnd (val a * val b)"
    and div_law: "d_is_finite D (d_div D a b) \<Longrightarrow> d_is_finite D b \<Longrightarrow>
      d_is_finite D a \<and> val b \<noteq> 0 \<and> val (d_div D a b) = rnd (val a / val b)"
    and negative_law: "d_is_finite D a \<Longrightarrow> d_is_negative D a \<Longrightarrow> val a \<le> 0"
    and not_negative_law: "d_is_finite D a \<Longrightarrow> \<not> d_is_negative D a \<Longrightarrow> 0 \<le> val a"
    and zero_law: "d_is_finite D a \<Longrightarrow> d_is_zero D a \<longleftrightarrow> val a = 0"
    and less_than_law: "d_is_finite D a \<Longrightarrow> d_is_finite D b \<Longrightarrow> d_less_than D a b \<longleftrightarrow> val a < val b"
    and less_equal_law: "d_is_finite D a \<Longrightarrow> d_is_finite D b \<Longrightarrow> d_less_equal D a b \<longleftrightarrow> val a \<le> val b"
    and equals_law: "d_is_finite D a \<Longrightarrow> d_is_finite D b \<Longrightarrow> d_equals D a b \<longleftrightarrow> val a = val b"
begin

lemma rnd_0 [simp]: "rnd 0 = 0" and rnd_100 [simp]: "rnd 100 = 100"
  using rnd_int [of 0] rnd_int [of 100] by simp_all

lemma rnd_nonneg: "0 \<le> x \<Longrightarrow> 0 \<le> rnd x"
  using rnd_mono [of 0 x] by simp

text \<open>Adding a nonnegative amount to a rounded sum does not lower it.\<close>

lemma rnd_add_nonneg: "rnd x = x \<Longrightarrow> 0 \<le> y \<Longrightarrow> x \<le> rnd (x + y)"
  using rnd_mono [of x "x + y"] by simp

text \<open>The accumulator of the summing loops: always a rounded value.\<close>

definition settled :: "'d \<Rightarrow> bool" where
  "settled a \<longleftrightarrow> (d_is_finite D a \<longrightarrow> rnd (val a) = val a)"

lemma settled_zero: "settled (d_of_int D 0)"
  using of_int_law [of 0] by (simp add: settled_def)

lemma settled_plus: "settled (d_plus D a b)"
  using plus_law [of a b] by (auto simp: settled_def rnd_idem)

lemma plus_step_finite:
  assumes "d_is_finite D r" "r = c \<or> (\<exists>q. r = d_plus D c q)"
  shows "d_is_finite D c"
proof -
  consider "r = c" | q where "r = d_plus D c q" using assms(2) by blast
  then show ?thesis by cases (use assms(1) plus_law in blast)+
qed

lemma plus_step_settled: "settled c \<Longrightarrow> r = c \<or> (\<exists>q. r = d_plus D c q) \<Longrightarrow> settled r"
  using settled_plus by blast

text \<open>Two summing loops over the same list, the second adding at least what the first adds.\<close>

lemma foldl_plus_mono:
  assumes "settled a" "settled b" "d_is_finite D (foldl f a xs)" "d_is_finite D (foldl g b xs)"
    and "\<And>c x. x \<in> set xs \<Longrightarrow> f c x = c \<or> (\<exists>q. f c x = d_plus D c q)"
    and "\<And>c x. x \<in> set xs \<Longrightarrow> g c x = c \<or> (\<exists>q. g c x = d_plus D c q)"
    and le: "\<And>c d x. x \<in> set xs \<Longrightarrow> settled c \<Longrightarrow> settled d \<Longrightarrow> d_is_finite D (f c x) \<Longrightarrow> d_is_finite D (g d x) \<Longrightarrow>
      d_is_finite D c \<Longrightarrow> d_is_finite D d \<Longrightarrow> val c \<le> val d \<Longrightarrow> val (f c x) \<le> val (g d x)"
    and "d_is_finite D a \<Longrightarrow> d_is_finite D b \<Longrightarrow> val a \<le> val b"
  shows "val (foldl f a xs) \<le> val (foldl g b xs)"
proof -
  have fin_back: "d_is_finite D c" if "d_is_finite D (foldl h c ys)"
    "\<And>c x. x \<in> set ys \<Longrightarrow> h c x = c \<or> (\<exists>q. h c x = d_plus D c q)" for h c and ys :: "'e list"
    using that
  proof (induction ys arbitrary: c)
    case (Cons y ys)
    then have "d_is_finite D (h c y)" by simp
    then show ?case using plus_step_finite Cons(3) [of y c] by simp
  qed simp
  show ?thesis
    using assms
  proof (induction xs arbitrary: a b)
    case (Cons x xs)
    have fin: "d_is_finite D (f a x)" "d_is_finite D (g b x)"
      using fin_back [of f "f a x" xs] fin_back [of g "g b x" xs] Cons(4-7) by simp_all
    have fin': "d_is_finite D a" "d_is_finite D b"
      using plus_step_finite [OF fin(1) Cons(6)] plus_step_finite [OF fin(2) Cons(7)] by simp_all
    have "settled (f a x)" "settled (g b x)"
      using plus_step_settled [OF Cons(2) Cons(6)] plus_step_settled [OF Cons(3) Cons(7)] by simp_all
    moreover have "val (f a x) \<le> val (g b x)"
      using Cons(8) [of x a b] Cons(2,3,9) fin fin' by simp
    ultimately show ?case using Cons(1) [of "f a x" "g b x"] Cons(4-8) by simp
  qed simp
qed

end

section \<open>Exact sums\<close>

text \<open>Sums are exact when no sub-collection of the amounts is rounded.\<close>

definition exact_sums :: "(rat \<Rightarrow> rat) \<Rightarrow> ('d \<Rightarrow> rat) \<Rightarrow> 'd multiset \<Rightarrow> bool" where
  "exact_sums rnd val M \<longleftrightarrow> (\<forall>N. N \<subseteq># M \<longrightarrow> rnd (\<Sum>q \<in># N. val q) = (\<Sum>q \<in># N. val q))"

lemma exact_sums_mono: "exact_sums rnd val M \<Longrightarrow> N \<subseteq># M \<Longrightarrow> exact_sums rnd val N"
  unfolding exact_sums_def by (meson subset_mset.order_trans)

context decimal_arith
begin

lemma fin_foldl_plus: "d_is_finite D (foldl (d_plus D) a qs) \<Longrightarrow> d_is_finite D a"
proof (induction qs arbitrary: a)
  case (Cons q qs)
  then have "d_is_finite D (d_plus D a q)" by simp
  then show ?case using plus_law [of a q] by simp
qed simp

lemma foldl_plus_exact:
  assumes "d_is_finite D (foldl (d_plus D) a qs)" "val a = (\<Sum>q \<in># A. val q)" "exact_sums rnd val (A + mset qs)"
  shows "val (foldl (d_plus D) a qs) = (\<Sum>q \<in># A + mset qs. val q)"
  using assms
proof (induction qs arbitrary: a A)
  case (Cons q qs)
  have fin: "d_is_finite D (d_plus D a q)" using Cons.prems(1) by (auto dest: fin_foldl_plus)
  have "add_mset q A \<subseteq># A + mset (q # qs)" by simp
  then have "rnd (\<Sum>q \<in># add_mset q A. val q) = (\<Sum>q \<in># add_mset q A. val q)"
    using Cons.prems(3) unfolding exact_sums_def by blast
  then have "val (d_plus D a q) = (\<Sum>q \<in># add_mset q A. val q)"
    using plus_law [OF fin] Cons.prems(2) by (simp add: add.commute)
  then have "val (foldl (d_plus D) (d_plus D a q) qs) = (\<Sum>q \<in># add_mset q A + mset qs. val q)"
    using Cons.prems by (intro Cons.IH) simp_all
  then show ?case by simp
qed simp

lemma val_zero [simp]: "val (d_of_int D 0) = 0"
  using of_int_law [of 0] by simp

end

section \<open>A concrete instance: 20 significant digits, half up\<close>

text \<open>The decimal exponent of a positive rational: \<open>10 ^ e \<le> x < 10 ^ (e + 1)\<close>.\<close>

fun digit_count :: "nat \<Rightarrow> nat" where
  "digit_count n = (if n < 10 then 1 else Suc (digit_count (n div 10)))"

declare digit_count.simps [simp del]

definition ten_to :: "int \<Rightarrow> rat" where
  "ten_to e = (if 0 \<le> e then 10 ^ nat e else 1 / 10 ^ nat (- e))"

definition decimal_exponent :: "rat \<Rightarrow> int" where
  "decimal_exponent x =
     (let (p, q) = quotient_of x; e = int (digit_count (nat p)) - int (digit_count (nat q))
      in if ten_to e \<le> x then e else e - 1)"

definition round_positive :: "rat \<Rightarrow> rat" where
  "round_positive x =
     (let u = ten_to (decimal_exponent x - 19) in of_int \<lfloor>x / u + 1 / 2\<rfloor> * u)"

definition round20 :: "rat \<Rightarrow> rat" where
  "round20 x = (if x = 0 then 0 else if 0 < x then round_positive x else - round_positive (- x))"

lemma digit_count_bounds: "10 ^ (digit_count n - 1) \<le> max n 1 \<and> n < 10 ^ digit_count n \<and> 1 \<le> digit_count n"
proof (induction n rule: digit_count.induct)
  case (1 n)
  show ?case
  proof (cases "n < 10")
    case False
    let ?m = "n div 10"
    have d: "digit_count n = Suc (digit_count ?m)" using False by (simp add: digit_count.simps [of n])
    have m: "1 \<le> ?m" using False by simp
    with 1 [OF False] have ih: "10 ^ (digit_count ?m - 1) \<le> ?m" "?m < 10 ^ digit_count ?m" "1 \<le> digit_count ?m"
      by simp_all
    have n: "10 * ?m \<le> n" "n < 10 * ?m + 10" by simp_all
    have "(10 :: nat) ^ digit_count ?m = 10 * 10 ^ (digit_count ?m - 1)"
      using ih(3) by (cases "digit_count ?m") simp_all
    then have "10 ^ digit_count ?m \<le> n" using ih(1) n(1) by linarith
    moreover have "n < 10 * 10 ^ digit_count ?m" using ih(2) n(2) by linarith
    ultimately show ?thesis by (simp add: d)
  qed (simp add: digit_count.simps [of n])
qed

lemma ten_to_pos [simp]: "0 < ten_to e" and ten_to_not_0 [simp]: "ten_to e \<noteq> 0"
  by (simp_all add: ten_to_def)

lemma ten_to_Suc: "ten_to (e + 1) = 10 * ten_to e"
proof (cases "0 \<le> e")
  case True
  then have "nat (e + 1) = Suc (nat e)" by simp
  then show ?thesis using True by (simp add: ten_to_def)
next
  case False
  then have "nat (- e) = Suc (nat (- (e + 1)))" by simp
  with False show ?thesis by (cases "e = - 1") (simp_all add: ten_to_def)
qed

lemma ten_to_add_nat: "ten_to (e + int k) = 10 ^ k * ten_to e"
proof (induction k)
  case (Suc k)
  have "ten_to (e + int (Suc k)) = ten_to (e + int k + 1)" by (simp add: add.commute add.left_commute)
  then show ?case using Suc by (simp only: ten_to_Suc) simp
qed simp

lemma ten_to_mono: "e \<le> f \<Longrightarrow> ten_to e \<le> ten_to f"
proof -
  assume "e \<le> f"
  then have "f = e + int (nat (f - e))" by simp
  then have "ten_to f = 10 ^ nat (f - e) * ten_to e" using ten_to_add_nat by metis
  moreover have "1 \<le> (10 :: rat) ^ nat (f - e)" by simp
  ultimately show ?thesis using mult_right_mono [of 1 "10 ^ nat (f - e)" "ten_to e"] less_imp_le [OF ten_to_pos [of e]]
    by simp
qed

lemma ten_to_nat: "ten_to (int k) = 10 ^ k"
  by (simp add: ten_to_def)

lemma decimal_exponent_bounds:
  assumes "0 < x"
  shows "ten_to (decimal_exponent x) \<le> x" "x < ten_to (decimal_exponent x + 1)"
proof -
  obtain p q where pq: "quotient_of x = (p, q)" by (cases "quotient_of x")
  have q: "0 < q" using quotient_of_denom_pos [OF pq] .
  have x: "x = of_int p / of_int q" using quotient_of_div [OF pq] .
  have p: "0 < p" using assms q by (simp add: x zero_less_divide_iff)
  let ?a = "digit_count (nat p)" and ?b = "digit_count (nat q)"
  let ?e = "int ?a - int ?b"
  have a: "10 ^ (?a - 1) \<le> nat p" "nat p < 10 ^ ?a" "1 \<le> ?a"
    using digit_count_bounds [of "nat p"] max_absorb1 [of 1 "nat p"] p by simp_all
  have b: "10 ^ (?b - 1) \<le> nat q" "nat q < 10 ^ ?b" "1 \<le> ?b"
    using digit_count_bounds [of "nat q"] max_absorb1 [of 1 "nat q"] q by simp_all
  have pr: "(of_int p :: rat) = of_nat (nat p)" "(of_int q :: rat) = of_nat (nat q)" using p q by simp_all
  have ra: "(10 :: rat) ^ (?a - 1) \<le> of_int p" "(of_int p :: rat) < 10 ^ ?a"
    using a(1,2) unfolding pr by (metis of_nat_le_iff of_nat_numeral of_nat_power, metis of_nat_less_iff of_nat_numeral of_nat_power)
  have rb: "(10 :: rat) ^ (?b - 1) \<le> of_int q" "(of_int q :: rat) < 10 ^ ?b"
    using b(1,2) unfolding pr by (metis of_nat_le_iff of_nat_numeral of_nat_power, metis of_nat_less_iff of_nat_numeral of_nat_power)
  have qpos: "(0 :: rat) < of_int q" using q by simp
  have t: "ten_to ?e * 10 ^ ?b = 10 ^ ?a"
    using ten_to_add_nat [of ?e ?b] by (simp add: ten_to_nat mult.commute)
  have up: "x < ten_to (?e + 1)"
  proof -
    have "of_int p < ten_to ?e * 10 ^ ?b" using ra(2) t by simp
    also have "\<dots> = ten_to (?e + 1) * 10 ^ (?b - 1)"
    proof -
      have "(10 :: rat) ^ ?b = 10 * 10 ^ (?b - 1)" using b(3) by (cases ?b) simp_all
      then show ?thesis using ten_to_Suc [of ?e] by simp
    qed
    also have "\<dots> \<le> ten_to (?e + 1) * of_int q" using rb(1) by (simp add: mult_left_mono less_imp_le)
    finally show ?thesis using qpos by (simp add: x divide_less_eq)
  qed
  have low: "ten_to (?e - 1) \<le> x"
  proof -
    have "ten_to (?e - 1) * of_int q \<le> ten_to (?e - 1) * 10 ^ ?b" using rb(2) by (simp add: mult_left_mono less_imp_le)
    also have "\<dots> = 10 ^ (?a - 1)"
    proof -
      have "(10 :: rat) ^ ?a = 10 * 10 ^ (?a - 1)" using a(3) by (cases ?a) simp_all
      moreover have "ten_to ?e = 10 * ten_to (?e - 1)" using ten_to_Suc [of "?e - 1"] by simp
      ultimately have "10 * (ten_to (?e - 1) * 10 ^ ?b) = 10 * 10 ^ (?a - 1)" using t by (simp only: mult.assoc)
      then show ?thesis by simp
    qed
    also have "\<dots> \<le> of_int p" by (rule ra(1))
    finally show ?thesis using qpos by (simp add: x le_divide_eq)
  qed
  show "ten_to (decimal_exponent x) \<le> x" "x < ten_to (decimal_exponent x + 1)"
    using up low by (auto simp: decimal_exponent_def pq Let_def not_le)
qed

lemma decimal_exponent_unique:
  assumes "ten_to e \<le> x" "x < ten_to (e + 1)"
  shows "decimal_exponent x = e"
proof (rule ccontr)
  have x: "0 < x" using assms(1) ten_to_pos [of e] by linarith
  assume "decimal_exponent x \<noteq> e"
  then consider "decimal_exponent x + 1 \<le> e" | "e + 1 \<le> decimal_exponent x" by linarith
  then show False
    by cases (use assms decimal_exponent_bounds [OF x] ten_to_mono in force)+
qed

lemma floor_half_int: "\<lfloor>of_int k + 1 / 2 :: rat\<rfloor> = k"
  by (simp add: floor_eq_iff)

lemma round_positive_bounds:
  assumes "0 < x"
  shows "ten_to (decimal_exponent x) \<le> round_positive x" "round_positive x \<le> ten_to (decimal_exponent x + 1)"
proof -
  let ?u = "ten_to (decimal_exponent x - 19)"
  have e: "ten_to (decimal_exponent x) = of_int (10 ^ 19) * ?u" "ten_to (decimal_exponent x + 1) = of_int (10 ^ 20) * ?u"
    using ten_to_add_nat [of "decimal_exponent x - 19" 19] ten_to_add_nat [of "decimal_exponent x - 19" 20]
    by (simp_all add: add.commute)
  have b: "of_int (10 ^ 19) \<le> x / ?u" "x / ?u < of_int (10 ^ 20)"
    using decimal_exponent_bounds [OF assms] ten_to_pos [of "decimal_exponent x - 19"]
    unfolding e by (simp_all only: le_divide_eq divide_less_eq if_True)
  have k: "10 ^ 19 \<le> \<lfloor>x / ?u + 1 / 2\<rfloor>" "\<lfloor>x / ?u + 1 / 2\<rfloor> \<le> 10 ^ 20"
  proof -
    have "\<lfloor>of_int (10 ^ 19) + 1 / 2 :: rat\<rfloor> \<le> \<lfloor>x / ?u + 1 / 2\<rfloor>" using b(1) by (intro floor_mono add_right_mono)
    then show "10 ^ 19 \<le> \<lfloor>x / ?u + 1 / 2\<rfloor>" unfolding floor_half_int .
    have "\<lfloor>x / ?u + 1 / 2\<rfloor> \<le> \<lfloor>of_int (10 ^ 20) + 1 / 2 :: rat\<rfloor>" using less_imp_le [OF b(2)] by (intro floor_mono add_right_mono)
    then show "\<lfloor>x / ?u + 1 / 2\<rfloor> \<le> 10 ^ 20" unfolding floor_half_int .
  qed
  show "ten_to (decimal_exponent x) \<le> round_positive x" "round_positive x \<le> ten_to (decimal_exponent x + 1)"
    unfolding round_positive_def Let_def e using k ten_to_pos [of "decimal_exponent x - 19"]
    by (intro mult_right_mono; simp only: of_int_le_iff less_imp_le)+
qed

lemma round_positive_mono:
  assumes "0 < x" "x \<le> y"
  shows "round_positive x \<le> round_positive y"
proof -
  have y: "0 < y" using assms by simp
  have "decimal_exponent x \<le> decimal_exponent y"
  proof (rule ccontr)
    assume "\<not> ?thesis"
    then have "ten_to (decimal_exponent y + 1) \<le> ten_to (decimal_exponent x)" by (intro ten_to_mono) simp
    then show False
      using decimal_exponent_bounds(2) [OF y] decimal_exponent_bounds(1) [OF assms(1)] assms(2) by linarith
  qed
  then consider "decimal_exponent x = decimal_exponent y" | "decimal_exponent x + 1 \<le> decimal_exponent y" by linarith
  then show ?thesis
  proof cases
    case 1
    let ?u = "ten_to (decimal_exponent y - 19)"
    have "x / ?u \<le> y / ?u" using assms(2) ten_to_pos [of "decimal_exponent y - 19"]
      by (intro divide_right_mono) (simp_all add: less_imp_le)
    then have "\<lfloor>x / ?u + 1 / 2\<rfloor> \<le> \<lfloor>y / ?u + 1 / 2\<rfloor>" by (intro floor_mono) simp
    then show ?thesis unfolding round_positive_def Let_def 1
      using ten_to_pos [of "decimal_exponent y - 19"] by (intro mult_right_mono) (simp_all add: less_imp_le)
  next
    case 2
    then have "ten_to (decimal_exponent x + 1) \<le> ten_to (decimal_exponent y)" by (rule ten_to_mono)
    then show ?thesis
      using round_positive_bounds(2) [OF assms(1)] round_positive_bounds(1) [OF y] by linarith
  qed
qed

text \<open>A multiple of the last place of its own decade is left unchanged.\<close>

lemma round_positive_multiple:
  assumes "0 < x" "x = of_int k * ten_to (decimal_exponent x - 19)"
  shows "round_positive x = x"
proof -
  have "x / ten_to (decimal_exponent x - 19) = of_int k"
    using assms(2) ten_to_pos [of "decimal_exponent x - 19"] by (simp add: divide_eq_eq)
  then show ?thesis
    unfolding round_positive_def Let_def by (simp only: floor_half_int) (rule assms(2) [symmetric])
qed

lemma round_positive_idem:
  assumes "0 < x"
  shows "round_positive (round_positive x) = round_positive x"
proof -
  let ?e = "decimal_exponent x" and ?r = "round_positive x"
  have r: "ten_to ?e \<le> ?r" "?r \<le> ten_to (?e + 1)" using round_positive_bounds [OF assms] .
  have pos: "0 < ?r" using r(1) ten_to_pos [of ?e] by linarith
  show ?thesis
  proof (cases "?r = ten_to (?e + 1)")
    case True
    have "ten_to (?e + 1) < ten_to (?e + 1 + 1)" using ten_to_Suc [of "?e + 1"] ten_to_pos [of "?e + 1"] by linarith
    then have "decimal_exponent ?r = ?e + 1" using True by (intro decimal_exponent_unique) simp_all
    moreover have "ten_to (?e + 1) = of_int (10 ^ 19) * ten_to (?e + 1 - 19)"
      using ten_to_add_nat [of "?e + 1 - 19" 19] by (simp add: add.commute)
    ultimately show ?thesis using True pos by (intro round_positive_multiple [of _ "10 ^ 19"]) simp_all
  next
    case False
    then have "decimal_exponent ?r = ?e" using r by (intro decimal_exponent_unique) simp_all
    then show ?thesis using pos
      by (intro round_positive_multiple [of _ "\<lfloor>x / ten_to (?e - 19) + 1 / 2\<rfloor>"])
        (simp_all only: round_positive_def Let_def)
  qed
qed

lemma round_positive_pos: "0 < x \<Longrightarrow> 0 < round_positive x"
  using round_positive_bounds(1) [of x] ten_to_pos [of "decimal_exponent x"] by linarith

lemma round20_mono: "x \<le> y \<Longrightarrow> round20 x \<le> round20 y"
  using round_positive_mono [of x y] round_positive_mono [of "- y" "- x"] round_positive_pos [of y]
    round_positive_pos [of "- x"]
  by (auto simp: round20_def)

lemma round20_idem: "round20 (round20 x) = round20 x"
  using round_positive_pos [of x] round_positive_pos [of "- x"] round_positive_idem [of x] round_positive_idem [of "- x"]
  by (auto simp: round20_def)

lemma round_positive_small_int:
  assumes "0 < n" "n < 10 ^ 20"
  shows "round_positive (of_int n) = of_int n"
proof -
  have "decimal_exponent (of_int n) \<le> 19"
  proof (rule ccontr)
    assume "\<not> ?thesis"
    then have "ten_to 20 \<le> ten_to (decimal_exponent (of_int n))" by (intro ten_to_mono) simp
    then have "ten_to 20 \<le> of_int n" using decimal_exponent_bounds(1) [of "of_int n"] assms(1) by simp
    moreover have "ten_to 20 = of_int (10 ^ 20)" by (simp add: ten_to_def)
    ultimately have "10 ^ 20 \<le> n" by (simp only: of_int_le_iff)
    then show False using assms by simp
  qed
  then have k: "19 - decimal_exponent (of_int n) = int k" if "k = nat (19 - decimal_exponent (of_int n))" for k
    using that by simp
  define k where "k = nat (19 - decimal_exponent (of_int n))"
  note k = k [OF k_def]
  have "ten_to (decimal_exponent (of_int n) - 19 + int k) = 10 ^ k * ten_to (decimal_exponent (of_int n) - 19)"
    by (intro ten_to_add_nat)
  moreover have "decimal_exponent (of_int n) - 19 + int k = 0" using k by simp
  ultimately have "1 = 10 ^ k * ten_to (decimal_exponent (of_int n) - 19)" by (simp add: ten_to_def)
  then have "of_int n = of_int (n * 10 ^ k) * ten_to (decimal_exponent (of_int n) - 19)" by (simp add: mult.assoc)
  moreover have "(0 :: rat) < of_int n" using assms(1) by simp
  ultimately show ?thesis by (rule round_positive_multiple [rotated])
qed

text \<open>Rendering and reading, on ordinary notation.\<close>

definition round_half_up :: "rat \<Rightarrow> int" where
  "round_half_up x = (if 0 \<le> x then \<lfloor>x + 1 / 2\<rfloor> else - \<lfloor>- x + 1 / 2\<rfloor>)"

definition fixed_text :: "nat \<Rightarrow> rat \<Rightarrow> string" where
  "fixed_text places x =
     (let n = round_half_up (x * 10 ^ places);
          digits = pad_start_zero (Suc places) (nat_to_string (nat \<bar>n\<bar>));
          k = length digits - places
      in (if n < 0 then ''-'' else []) @ take k digits @ (if places = 0 then [] else ''.'' @ drop k digits))"

definition parse_fixed :: "string \<Rightarrow> rat option" where
  "parse_fixed s =
     (let negative = (take 1 s = ''-''); t = (if negative then drop 1 s else s);
          whole = takeWhile (\<lambda>c. c \<noteq> CHR ''.'') t; frac = drop 1 (dropWhile (\<lambda>c. c \<noteq> CHR ''.'') t)
      in if whole @ frac = [] then None
         else map_option (\<lambda>n. (if negative then - 1 else 1) * of_int n / 10 ^ length frac)
           (digits_number 0 (whole @ frac)))"

text \<open>The instance: a finite value is a rational, \<open>None\<close> is not a finite number.\<close>

fun lift2 :: "(rat \<Rightarrow> rat \<Rightarrow> rat) \<Rightarrow> rat option \<Rightarrow> rat option \<Rightarrow> rat option" where
  "lift2 f (Some a) (Some b) = Some (round20 (f a b))"
| "lift2 f _ _ = None"

fun compare2 :: "(rat \<Rightarrow> rat \<Rightarrow> bool) \<Rightarrow> rat option \<Rightarrow> rat option \<Rightarrow> bool" where
  "compare2 f (Some a) (Some b) = f a b"
| "compare2 f _ _ = False"

text \<open>The remainder of a truncating division, with the sign of the dividend.\<close>

definition remainder :: "rat \<Rightarrow> rat \<Rightarrow> rat" where
  "remainder x y = (let q = x / y in x - y * of_int (if 0 \<le> q then \<lfloor>q\<rfloor> else - \<lfloor>- q\<rfloor>))"

definition decimal20 :: "rat option decimal_ops" where
  "decimal20 =
     \<lparr>d_of_int = (\<lambda>n. Some (of_int n)),
      d_parse = (\<lambda>s. map_option Some (parse_fixed s)),
      d_to_string = (\<lambda>a. case a of None \<Rightarrow> ''NaN'' | Some x \<Rightarrow> fixed_text 20 x),
      d_to_fixed = (\<lambda>places a. case a of None \<Rightarrow> ''NaN'' | Some x \<Rightarrow> fixed_text places x),
      d_to_decimal_places = (\<lambda>places. map_option (\<lambda>x. of_int (round_half_up (x * 10 ^ places)) / 10 ^ places)),
      d_is_nan = (\<lambda>a. a = None),
      d_is_finite = (\<lambda>a. a \<noteq> None),
      d_is_negative = (\<lambda>a. case a of None \<Rightarrow> False | Some x \<Rightarrow> x < 0),
      d_is_zero = (\<lambda>a. a = Some 0),
      d_plus = lift2 (+), d_sub = lift2 (-), d_mul = lift2 (*),
      d_div = (\<lambda>a b. if b = Some 0 then None else lift2 (/) a b),
      d_mod = (\<lambda>a b. if b = Some 0 then None else lift2 remainder a b),
      d_less_than = compare2 (<), d_less_equal = compare2 (\<le>), d_equals = compare2 (=)\<rparr>"

definition val20 :: "rat option \<Rightarrow> rat" where
  "val20 a = (case a of None \<Rightarrow> 0 | Some x \<Rightarrow> x)"

lemma round20_small_int:
  assumes "\<bar>n\<bar> < 10 ^ 20"
  shows "round20 (of_int n) = of_int n"
proof (cases n "0 :: int" rule: linorder_cases)
  case less
  then have "round_positive (of_int (- n)) = of_int (- n)" using assms by (intro round_positive_small_int) auto
  then show ?thesis using less by (simp add: round20_def)
next
  case greater
  then show ?thesis using assms round_positive_small_int [of n] by (simp add: round20_def)
qed (simp add: round20_def)

lemma lift2_finite:
  assumes "lift2 f a b \<noteq> None"
  shows "a \<noteq> None \<and> b \<noteq> None \<and> val20 (lift2 f a b) = round20 (f (val20 a) (val20 b))"
  using assms by (cases a; cases b) (simp_all add: val20_def)

lemma compare2_finite: "a \<noteq> None \<Longrightarrow> b \<noteq> None \<Longrightarrow> compare2 f a b = f (val20 a) (val20 b)"
  by (cases a; cases b) (simp_all add: val20_def)

interpretation decimal20_arith: decimal_arith decimal20 val20 round20
proof unfold_locales
  fix a b
  show "d_is_finite decimal20 (d_plus decimal20 a b) \<Longrightarrow>
      d_is_finite decimal20 a \<and> d_is_finite decimal20 b \<and> val20 (d_plus decimal20 a b) = round20 (val20 a + val20 b)"
    using lift2_finite [of "(+)" a b] by (simp add: decimal20_def)
  show "d_is_finite decimal20 (d_sub decimal20 a b) \<Longrightarrow>
      d_is_finite decimal20 a \<and> d_is_finite decimal20 b \<and> val20 (d_sub decimal20 a b) = round20 (val20 a - val20 b)"
    using lift2_finite [of "(-)" a b] by (simp add: decimal20_def)
  show "d_is_finite decimal20 (d_mul decimal20 a b) \<Longrightarrow>
      d_is_finite decimal20 a \<and> d_is_finite decimal20 b \<and> val20 (d_mul decimal20 a b) = round20 (val20 a * val20 b)"
    using lift2_finite [of "(*)" a b] by (simp add: decimal20_def)
  show "d_is_finite decimal20 (d_div decimal20 a b) \<Longrightarrow> d_is_finite decimal20 b \<Longrightarrow>
      d_is_finite decimal20 a \<and> val20 b \<noteq> 0 \<and> val20 (d_div decimal20 a b) = round20 (val20 a / val20 b)"
    using lift2_finite [of "(/)" a b] by (auto simp: decimal20_def val20_def split: if_splits option.splits)
  show "d_is_finite decimal20 a \<Longrightarrow> d_is_negative decimal20 a \<Longrightarrow> val20 a \<le> 0"
    "d_is_finite decimal20 a \<Longrightarrow> \<not> d_is_negative decimal20 a \<Longrightarrow> 0 \<le> val20 a"
    "d_is_finite decimal20 a \<Longrightarrow> d_is_zero decimal20 a \<longleftrightarrow> val20 a = 0"
    by (auto simp: decimal20_def val20_def)
  assume "d_is_finite decimal20 a" "d_is_finite decimal20 b"
  then show "d_less_than decimal20 a b \<longleftrightarrow> val20 a < val20 b"
    "d_less_equal decimal20 a b \<longleftrightarrow> val20 a \<le> val20 b"
    "d_equals decimal20 a b \<longleftrightarrow> val20 a = val20 b"
    using compare2_finite [of a b] by (simp_all add: decimal20_def)
qed (use round20_mono round20_idem round20_small_int in \<open>simp_all add: decimal20_def val20_def\<close>)

text \<open>The operations of the instance, one by one, for evaluation.\<close>

lemma decimal20_simps:
  "d_of_int decimal20 n = Some (of_int n)" "d_parse decimal20 s = map_option Some (parse_fixed s)"
  "d_is_nan decimal20 a \<longleftrightarrow> a = None" "d_is_finite decimal20 a \<longleftrightarrow> a \<noteq> None"
  "d_is_negative decimal20 (Some x) \<longleftrightarrow> x < 0" "d_is_zero decimal20 a \<longleftrightarrow> a = Some 0"
  "d_plus decimal20 (Some x) (Some y) = Some (round20 (x + y))"
  "d_sub decimal20 (Some x) (Some y) = Some (round20 (x - y))"
  "d_mul decimal20 (Some x) (Some y) = Some (round20 (x * y))"
  "y \<noteq> 0 \<Longrightarrow> d_div decimal20 (Some x) (Some y) = Some (round20 (x / y))"
  "d_less_than decimal20 (Some x) (Some y) \<longleftrightarrow> x < y"
  "d_less_equal decimal20 (Some x) (Some y) \<longleftrightarrow> x \<le> y"
  "d_equals decimal20 (Some x) (Some y) \<longleftrightarrow> x = y"
  "d_greater_than decimal20 (Some x) (Some y) \<longleftrightarrow> y < x"
  "d_to_fixed decimal20 k (Some x) = fixed_text k x"
  "d_to_string decimal20 (Some x) = fixed_text 20 x"
  by (simp_all add: decimal20_def d_greater_than_def)

lemma round20_numeral: "(numeral k :: int) < 10 ^ 20 \<Longrightarrow> round20 (numeral k) = numeral k"
  using round20_small_int [of "numeral k"] by simp

lemma round20_01: "round20 0 = 0" "round20 1 = 1"
  using round20_small_int [of 0] round20_small_int [of 1] by simp_all

lemmas round20_values = round20_numeral round20_01

lemma fixed_text_code [code]:
  "fixed_text places x =
     (let n = round_half_up (x * 10 ^ places);
          digits = pad_start_zero (Suc places) (pos_to_string \<bar>n\<bar>);
          k = length digits - places
      in (if n < 0 then ''-'' else []) @ take k digits @ (if places = 0 then [] else ''.'' @ drop k digits))"
  by (simp add: fixed_text_def pos_to_string)

end
