(* ===== verification/Lineage.thy ===== *)
theory Lineage
  imports Prelude
begin

text \<open>
  \<open>progress/progress-actual-calculation.policy.ts\<close>: which progress entries count. A
  correction supersedes an earlier entry; \<open>selectCurrentCalculationLineageLeaves\<close> validates
  the correction lineages of a set of entries and keeps the entries nobody supersedes.

  The three loops of the function are three recursive functions; a \<open>Map\<close> is an association
  list that is only ever extended at a fresh key or overwritten. The specification
  (\<open>lineage_defect\<close> and the acyclic relation \<open>supersedes\<close>) says which sets are lawful; the
  properties say that the function accepts exactly these, names the first defect
  otherwise, and returns exactly one leaf per independent lineage.
\<close>

section \<open>Status eligibility\<close>

datatype progress_actual_status =
    LEGACY_UNSPECIFIED | RECORDED | SUBMITTED | RETURNED_FOR_CORRECTION | VERIFIED | ACCEPTED

fun is_progress_actual_calculation_eligible :: "progress_actual_status \<Rightarrow> bool" where
  "is_progress_actual_calculation_eligible VERIFIED = True"
| "is_progress_actual_calculation_eligible ACCEPTED = True"
| "is_progress_actual_calculation_eligible LEGACY_UNSPECIFIED = False"
| "is_progress_actual_calculation_eligible RECORDED = False"
| "is_progress_actual_calculation_eligible SUBMITTED = False"
| "is_progress_actual_calculation_eligible RETURNED_FOR_CORRECTION = False"

section \<open>Lineage selection\<close>

record lineage_entry =
  entry_id :: string
  supersedes_entry_id :: "string option"

datatype lineage_invalid_reason =
    DUPLICATE_ID | SELF_REFERENCE | MISSING_PREDECESSOR | MULTIPLE_DIRECT_CHILDREN | CYCLE

datatype 'a lineage_selection =
    Lineage_Valid "'a list"
  | Invalid_Lineage lineage_invalid_reason

datatype visit_state = VISITING | VISITED

fun index_by_id ::
    "'a lineage_entry_scheme list \<Rightarrow> (string \<times> 'a lineage_entry_scheme) list
      \<Rightarrow> lineage_invalid_reason + (string \<times> 'a lineage_entry_scheme) list" where
  "index_by_id [] by_id = Inr by_id"
| "index_by_id (entry # entries) by_id =
     (if map_of by_id (entry_id entry) \<noteq> None then Inl DUPLICATE_ID
      else index_by_id entries (by_id @ [(entry_id entry, entry)]))"

fun index_children ::
    "(string \<times> 'b) list \<Rightarrow> 'a lineage_entry_scheme list \<Rightarrow> (string \<times> string) list
      \<Rightarrow> lineage_invalid_reason + (string \<times> string) list" where
  "index_children by_id [] child_by_predecessor = Inr child_by_predecessor"
| "index_children by_id (entry # entries) child_by_predecessor =
     (case supersedes_entry_id entry of
        None \<Rightarrow> index_children by_id entries child_by_predecessor
      | Some predecessor_id \<Rightarrow>
          if predecessor_id = entry_id entry then Inl SELF_REFERENCE
          else if map_of by_id predecessor_id = None then Inl MISSING_PREDECESSOR
          else if map_of child_by_predecessor predecessor_id \<noteq> None then Inl MULTIPLE_DIRECT_CHILDREN
          else index_children by_id entries (child_by_predecessor @ [(predecessor_id, entry_id entry)]))"

text \<open>The inner \<open>while\<close>: the path visited, and the visit states after it; \<open>None\<close> is the cycle.\<close>

function visit_path ::
    "(string \<times> 'a lineage_entry_scheme) list \<Rightarrow> (string \<Rightarrow> visit_state option) \<Rightarrow> string list
      \<Rightarrow> 'a lineage_entry_scheme option \<Rightarrow> ((string \<Rightarrow> visit_state option) \<times> string list) option" where
  "visit_path by_id visit path None = Some (visit, path)"
| "visit_path by_id visit path (Some cursor) =
     (case visit (entry_id cursor) of
        Some VISITING \<Rightarrow> None
      | Some VISITED \<Rightarrow> Some (visit, path)
      | None \<Rightarrow>
          visit_path by_id (visit(entry_id cursor \<mapsto> VISITING)) (path @ [entry_id cursor])
            (case supersedes_entry_id cursor of None \<Rightarrow> None | Some p \<Rightarrow> map_of by_id p))"
  by pat_completeness auto

text \<open>Each round marks an identifier not marked before; all but the first come from \<open>by_id\<close>.\<close>

definition unmarked :: "(string \<times> 'a lineage_entry_scheme) list \<Rightarrow> (string \<Rightarrow> visit_state option) \<Rightarrow> string set" where
  "unmarked by_id visit = {x \<in> (entry_id \<circ> snd) ` set by_id. visit x = None}"

lemma finite_unmarked [simp]: "finite (unmarked by_id visit)"
  by (simp add: unmarked_def)

lemma unmarked_mark: "unmarked by_id (visit(x \<mapsto> s)) = unmarked by_id visit - {x}"
  by (auto simp: unmarked_def)

definition visit_measure ::
    "(string \<times> 'a lineage_entry_scheme) list \<Rightarrow> (string \<Rightarrow> visit_state option) \<Rightarrow> 'a lineage_entry_scheme option \<Rightarrow> nat" where
  "visit_measure by_id visit cursor =
     (case cursor of
        None \<Rightarrow> 0
      | Some c \<Rightarrow> 1 + card (unmarked by_id visit) + (if entry_id c \<in> (entry_id \<circ> snd) ` set by_id then 0 else 1))"

termination visit_path
proof (relation "measure (\<lambda>(by_id, visit, path, cursor). visit_measure by_id visit cursor)")
  fix by_id :: "(string \<times> 'a lineage_entry_scheme) list" and visit path and cursor :: "'a lineage_entry_scheme"
  assume none: "visit (entry_id cursor) = (None :: visit_state option)"
  let ?next = "case supersedes_entry_id cursor of None \<Rightarrow> None | Some p \<Rightarrow> map_of by_id p"
  have next_in: "entry_id c \<in> (entry_id \<circ> snd) ` set by_id" if "?next = Some c" for c
    using that by (force dest: map_of_SomeD split: option.splits)
  have "visit_measure by_id (visit(entry_id cursor \<mapsto> VISITING)) ?next < visit_measure by_id visit (Some cursor)"
  proof (cases ?next)
    case None
    then show ?thesis by (simp only: None) (simp add: visit_measure_def)
  next
    case (Some c)
    show ?thesis
    proof (cases "entry_id cursor \<in> (entry_id \<circ> snd) ` set by_id")
      case True
      then have "entry_id cursor \<in> unmarked by_id visit" using none by (simp add: unmarked_def)
      then have "card (unmarked by_id visit - {entry_id cursor}) < card (unmarked by_id visit)"
        by (intro psubset_card_mono) auto
      with True next_in [OF Some] show ?thesis
        by (simp only: Some) (simp add: visit_measure_def unmarked_mark)
    next
      case False
      then have "entry_id cursor \<notin> unmarked by_id visit" by (auto simp: unmarked_def)
      with False next_in [OF Some] show ?thesis
        by (simp only: Some) (simp add: visit_measure_def unmarked_mark)
    qed
  qed
  then show "((by_id, visit(entry_id cursor \<mapsto> VISITING), path @ [entry_id cursor], ?next),
      (by_id, visit, path, Some cursor)) \<in> measure (\<lambda>(by_id, visit, path, cursor). visit_measure by_id visit cursor)"
    by simp
qed simp

fun visit_entries ::
    "(string \<times> 'a lineage_entry_scheme) list \<Rightarrow> 'a lineage_entry_scheme list \<Rightarrow> (string \<Rightarrow> visit_state option)
      \<Rightarrow> bool" where
  "visit_entries by_id [] visit = True"
| "visit_entries by_id (entry # entries) visit =
     (if visit (entry_id entry) = Some VISITED then visit_entries by_id entries visit
      else
        case visit_path by_id visit [] (Some entry) of
          None \<Rightarrow> False
        | Some (visit', path) \<Rightarrow>
            visit_entries by_id entries (foldl (\<lambda>v x. v(x \<mapsto> VISITED)) visit' path))"

definition select_current_calculation_lineage_leaves ::
    "'a lineage_entry_scheme list \<Rightarrow> 'a lineage_entry_scheme lineage_selection" where
  "select_current_calculation_lineage_leaves entries =
     (case index_by_id entries [] of
        Inl reason \<Rightarrow> Invalid_Lineage reason
      | Inr by_id \<Rightarrow>
          (case index_children by_id entries [] of
             Inl reason \<Rightarrow> Invalid_Lineage reason
           | Inr child_by_predecessor \<Rightarrow>
               if \<not> visit_entries by_id entries Map.empty then Invalid_Lineage CYCLE
               else Lineage_Valid
                 (filter (\<lambda>entry. map_of child_by_predecessor (entry_id entry) = None) entries)))"

section \<open>What a lawful set of entries is\<close>

text \<open>\<open>p\<close> precedes \<open>c\<close> when the entry \<open>c\<close> supersedes \<open>p\<close>.\<close>

definition precedes :: "'a lineage_entry_scheme list \<Rightarrow> (string \<times> string) set" where
  "precedes entries = {(p, entry_id e) |p e. e \<in> set entries \<and> supersedes_entry_id e = Some p}"

definition predecessors :: "'a lineage_entry_scheme list \<Rightarrow> string list" where
  "predecessors entries = List.map_filter supersedes_entry_id entries"

definition lineage_lawful :: "'a lineage_entry_scheme list \<Rightarrow> bool" where
  "lineage_lawful entries \<longleftrightarrow> distinct (map entry_id entries) \<and>
     (\<forall>e \<in> set entries. supersedes_entry_id e \<noteq> Some (entry_id e)) \<and>
     set (predecessors entries) \<subseteq> entry_id ` set entries \<and>
     distinct (predecessors entries) \<and> acyclic (precedes entries)"

lemma predecessors_simps [simp]:
  "predecessors [] = []"
  "predecessors (e # es) =
    (case supersedes_entry_id e of None \<Rightarrow> predecessors es | Some p \<Rightarrow> p # predecessors es)"
  by (simp_all add: predecessors_def map_filter_simps split: option.splits)

lemma set_predecessors: "p \<in> set (predecessors entries) \<longleftrightarrow> (\<exists>e \<in> set entries. supersedes_entry_id e = Some p)"
  by (induction entries) (auto split: option.splits)

section \<open>The two index loops\<close>

definition id_index :: "'a lineage_entry_scheme list \<Rightarrow> (string \<times> 'a lineage_entry_scheme) list" where
  "id_index entries = map (\<lambda>e. (entry_id e, e)) entries"

lemma index_by_id_eq:
  "index_by_id entries by_id =
     (if distinct (map entry_id entries) \<and> (\<forall>e \<in> set entries. map_of by_id (entry_id e) = None)
      then Inr (by_id @ id_index entries) else Inl DUPLICATE_ID)"
proof (induction entries arbitrary: by_id)
  case (Cons e es)
  have "(\<forall>x \<in> set es. map_of (by_id @ [(entry_id e, e)]) (entry_id x) = None) \<longleftrightarrow>
      (\<forall>x \<in> set es. map_of by_id (entry_id x) = None) \<and> entry_id e \<notin> entry_id ` set es"
  proof -
    have "map_of (by_id @ [(entry_id e, e)]) y = None \<longleftrightarrow> map_of by_id y = None \<and> entry_id e \<noteq> y" for y
      by (auto simp: map_add_def split: option.splits)
    then show ?thesis by (auto simp only: ball_conj_distrib image_iff bex_simps)
  qed
  then show ?case
    by (simp only: index_by_id.simps Cons.IH) (simp add: id_index_def)
qed (simp add: id_index_def)

lemma map_of_id_index:
  "map_of (id_index entries) x = Some e \<Longrightarrow> e \<in> set entries \<and> entry_id e = x"
  by (auto simp: id_index_def dest!: map_of_SomeD)

lemma map_of_id_index_None: "map_of (id_index entries) x = None \<longleftrightarrow> x \<notin> entry_id ` set entries"
  by (force simp: id_index_def map_of_eq_None_iff)

text \<open>The children map is built exactly when the links are lawful; its keys are the predecessors.\<close>

lemma index_children_Inr_iff:
  "index_children by_id entries children = Inr children' \<longleftrightarrow>
     (\<forall>e \<in> set entries. supersedes_entry_id e \<noteq> Some (entry_id e)) \<and>
     set (predecessors entries) \<subseteq> fst ` set by_id \<and>
     distinct (predecessors entries) \<and> set (predecessors entries) \<inter> fst ` set children = {} \<and>
     children' = children @ List.map_filter
       (\<lambda>e. map_option (\<lambda>p. (p, entry_id e)) (supersedes_entry_id e)) entries"
  by (induction entries arbitrary: children)
    (auto simp: map_filter_simps map_of_eq_None_iff split: option.splits)

lemma index_children_Inl:
  "index_children by_id entries children = Inl r \<Longrightarrow>
     (r = SELF_REFERENCE \<and> (\<exists>e \<in> set entries. supersedes_entry_id e = Some (entry_id e))) \<or>
     (r = MISSING_PREDECESSOR \<and> \<not> set (predecessors entries) \<subseteq> fst ` set by_id) \<or>
     (r = MULTIPLE_DIRECT_CHILDREN \<and>
       \<not> (distinct (predecessors entries) \<and> set (predecessors entries) \<inter> fst ` set children = {}))"
proof (induction entries arbitrary: children)
  case (Cons e es)
  show ?case
  proof (cases "supersedes_entry_id e")
    case (Some p)
    consider "p = entry_id e" | "p \<noteq> entry_id e" "p \<notin> fst ` set by_id"
      | "p \<noteq> entry_id e" "p \<in> fst ` set by_id" "p \<in> fst ` set children"
      | "p \<noteq> entry_id e" "p \<in> fst ` set by_id" "p \<notin> fst ` set children"
      by blast
    then show ?thesis
    proof cases
      case 4
      then have 4: "index_children by_id es (children @ [(p, entry_id e)]) = Inl r"
        using Cons(2) Some by (simp del: not_None_eq add: map_of_eq_None_iff)
      from Cons(1) [OF 4] show ?thesis
      proof (elim disjE conjE)
        assume "\<not> set (predecessors es) \<subseteq> fst ` set by_id" "r = MISSING_PREDECESSOR"
        then show ?thesis using Some by simp
      next
        assume "r = MULTIPLE_DIRECT_CHILDREN"
          "\<not> (distinct (predecessors es) \<and> set (predecessors es) \<inter> fst ` set (children @ [(p, entry_id e)]) = {})"
        moreover from this(2) have "\<not> (distinct (predecessors (e # es)) \<and>
            set (predecessors (e # es)) \<inter> fst ` set children = {})"
          using Some by (simp only: predecessors_simps option.case) auto
        ultimately show ?thesis by blast
      qed auto
    qed (use Some Cons(2) in \<open>simp_all del: not_None_eq add: map_of_eq_None_iff\<close>)
  next
    case None
    then show ?thesis using Cons(1) [of children] Cons(2) by simp
  qed
qed simp

lemma children_None_iff:
  "map_of (List.map_filter (\<lambda>e. map_option (\<lambda>p. (p, entry_id e)) (supersedes_entry_id e)) entries) x = None
    \<longleftrightarrow> x \<notin> set (predecessors entries)"
  by (induction entries) (auto simp: map_filter_simps split: option.splits)

section \<open>The visiting loops\<close>

definition visit_ok :: "(string \<times> string) set \<Rightarrow> (string \<Rightarrow> visit_state option) \<Rightarrow> string list \<Rightarrow> bool" where
  "visit_ok r visit path \<longleftrightarrow> (\<forall>x. visit x = Some VISITED \<longrightarrow> x \<in> Wellfounded.acc r) \<and>
     set path = {x. visit x = Some VISITING}"

lemma precedes_step:
  assumes "distinct (map entry_id entries)" "c \<in> set entries" "supersedes_entry_id c = Some p"
  shows "(y, entry_id c) \<in> precedes entries \<longleftrightarrow> y = p"
proof -
  have "e = c" if "e \<in> set entries" "entry_id e = entry_id c" for e
    using that assms(1,2) by (auto simp: distinct_map dest: inj_onD)
  then show ?thesis using assms by (auto simp: precedes_def)
qed

lemma precedes_root:
  assumes "distinct (map entry_id entries)" "c \<in> set entries" "supersedes_entry_id c = None"
  shows "(y, entry_id c) \<notin> precedes entries"
proof -
  have "e = c" if "e \<in> set entries" "entry_id e = entry_id c" for e
    using that assms(1,2) by (auto simp: distinct_map dest: inj_onD)
  then show ?thesis using assms by (auto simp: precedes_def)
qed

lemma visit_path_None:
  assumes "visit_path (id_index entries) visit path cursor = None"
    and "distinct (map entry_id entries)" "visit_ok (precedes entries) visit path"
    and "\<forall>c. cursor = Some c \<longrightarrow> c \<in> set entries \<and> (\<forall>x \<in> set path. (entry_id c, x) \<in> (precedes entries)\<^sup>+)"
  shows "\<not> acyclic (precedes entries)"
  using assms
proof (induction "id_index entries" visit path cursor rule: visit_path.induct)
  case (2 visit path cursor)
  let ?r = "precedes entries"
  show ?case
  proof (cases "visit (entry_id cursor)")
    case None
    define nxt where
      "nxt = (case supersedes_entry_id cursor of None \<Rightarrow> None | Some p \<Rightarrow> map_of (id_index entries) p)"
    have ok: "visit_ok ?r (visit(entry_id cursor \<mapsto> VISITING)) (path @ [entry_id cursor])"
      using 2(4) None by (auto simp: visit_ok_def)
    have "c \<in> set entries \<and> (\<forall>x \<in> set (path @ [entry_id cursor]). (entry_id c, x) \<in> ?r\<^sup>+)"
      if nxt: "nxt = Some c" for c
    proof -
      obtain p where p: "supersedes_entry_id cursor = Some p" "c \<in> set entries" "entry_id c = p"
        using nxt map_of_id_index [of entries _ c] by (auto simp: nxt_def split: option.splits)
      then have "(entry_id c, entry_id cursor) \<in> ?r" using 2(5) by (auto simp: precedes_def)
      then show ?thesis using 2(5) p(2) by (auto intro: trancl_into_trancl2)
    qed
    then show ?thesis
      using 2(1) [OF None _ 2(3) ok] 2(2) None by (simp add: nxt_def)
  next
    case (Some s)
    then have "s = VISITING" using 2(2) by (cases s) simp_all
    then have "entry_id cursor \<in> set path" using Some 2(4) by (simp add: visit_ok_def)
    then have "(entry_id cursor, entry_id cursor) \<in> ?r\<^sup>+" using 2(5) by blast
    then show ?thesis by (auto simp: acyclic_def)
  qed
qed simp

lemma visit_path_Some:
  assumes "visit_path (id_index entries) visit path cursor = Some (visit', path')"
    and "distinct (map entry_id entries)" "set (predecessors entries) \<subseteq> entry_id ` set entries"
    and "visit_ok (precedes entries) visit path" "\<forall>c. cursor = Some c \<longrightarrow> c \<in> set entries"
    and "(\<forall>c. cursor = Some c \<longrightarrow> entry_id c \<in> Wellfounded.acc (precedes entries)) \<longrightarrow>
      set path \<subseteq> Wellfounded.acc (precedes entries)"
  shows "visit_ok (precedes entries) visit' path' \<and> set path' \<subseteq> Wellfounded.acc (precedes entries) \<and>
    (\<forall>x. visit x \<noteq> None \<longrightarrow> visit' x \<noteq> None) \<and> (\<forall>c. cursor = Some c \<longrightarrow> visit' (entry_id c) \<noteq> None)"
  using assms
proof (induction "id_index entries" visit path cursor rule: visit_path.induct)
  case (2 visit path cursor)
  let ?r = "precedes entries"
  show ?case
  proof (cases "visit (entry_id cursor)")
    case None
    define nxt where
      "nxt = (case supersedes_entry_id cursor of None \<Rightarrow> None | Some p \<Rightarrow> map_of (id_index entries) p)"
    have ok: "visit_ok ?r (visit(entry_id cursor \<mapsto> VISITING)) (path @ [entry_id cursor])"
      using 2(5) None by (auto simp: visit_ok_def)
    have cur: "cursor \<in> set entries" using 2(6) by simp
    have inn: "\<forall>c. nxt = Some c \<longrightarrow> c \<in> set entries"
      by (auto simp: nxt_def map_of_id_index split: option.splits)
    have "set (path @ [entry_id cursor]) \<subseteq> Wellfounded.acc ?r"
      if acc: "\<forall>c. nxt = Some c \<longrightarrow> entry_id c \<in> Wellfounded.acc ?r"
    proof -
      have "entry_id cursor \<in> Wellfounded.acc ?r"
      proof (rule accI)
        fix y assume y: "(y, entry_id cursor) \<in> ?r"
        obtain p where p: "supersedes_entry_id cursor = Some p"
          using y precedes_root [OF 2(3) cur] by (cases "supersedes_entry_id cursor") auto
        then have "y = p" using y precedes_step [OF 2(3) cur p] by simp
        moreover have "p \<in> entry_id ` set entries" using 2(4) p cur by (force simp: set_predecessors)
        then obtain c where "map_of (id_index entries) p = Some c"
          using map_of_id_index_None [of entries p] by (cases "map_of (id_index entries) p") auto
        ultimately show "y \<in> Wellfounded.acc ?r"
          using acc p map_of_id_index [of entries p c] by (simp add: nxt_def)
      qed
      then show ?thesis using 2(7) by simp
    qed
    then have "visit_ok ?r visit' path' \<and> set path' \<subseteq> Wellfounded.acc ?r \<and>
        (\<forall>x. (visit(entry_id cursor \<mapsto> VISITING)) x \<noteq> None \<longrightarrow> visit' x \<noteq> None)"
      using 2(1) [OF None _ 2(3,4) ok] 2(2) None inn by (simp add: nxt_def)
    then show ?thesis by auto
  next
    case (Some s)
    then have s: "s = VISITED" "visit' = visit" "path' = path" using 2(2) by (cases s; simp)+
    then have "entry_id cursor \<in> Wellfounded.acc ?r" using Some 2(5) by (simp add: visit_ok_def)
    then show ?thesis using s Some 2(5,7) by simp
  qed
qed simp

lemma mark_visited: "foldl (\<lambda>v x. v(x \<mapsto> VISITED)) v path = (\<lambda>x. if x \<in> set path then Some VISITED else v x)"
  by (induction path arbitrary: v) auto

lemma visit_entries_iff:
  assumes "distinct (map entry_id entries)" "set (predecessors entries) \<subseteq> entry_id ` set entries"
    and "set es \<subseteq> set entries" "visit_ok (precedes entries) visit []"
  shows "if visit_entries (id_index entries) es visit
    then entry_id ` set es \<subseteq> Wellfounded.acc (precedes entries) else \<not> acyclic (precedes entries)"
  using assms(3,4)
proof (induction es arbitrary: visit)
  case (Cons e es)
  let ?r = "precedes entries"
  show ?case
  proof (cases "visit (entry_id e) = Some VISITED")
    case True
    then show ?thesis using Cons(1) [of visit] Cons(2,3) by (auto simp: visit_ok_def)
  next
    case False
    show ?thesis
    proof (cases "visit_path (id_index entries) visit [] (Some e)")
      case None
      then have "\<not> acyclic ?r" using visit_path_None [OF None assms(1) Cons(3)] Cons(2) by simp
      then show ?thesis using False None by simp
    next
      case (Some vp)
      obtain visit' path where vp: "vp = (visit', path)" by (cases vp)
      have v: "visit_ok ?r visit' path" "set path \<subseteq> Wellfounded.acc ?r" "visit' (entry_id e) \<noteq> None"
        using visit_path_Some [OF Some [unfolded vp] assms(1,2) Cons(3)] Cons(2) by simp_all
      define marked where "marked = foldl (\<lambda>v x. v(x \<mapsto> VISITED)) visit' path"
      have m: "visit_ok ?r marked []"
        using v by (auto simp: marked_def mark_visited visit_ok_def)
      have "visit' (entry_id e) = Some VISITING \<or> visit' (entry_id e) = Some VISITED"
      proof (cases "visit' (entry_id e)")
        case (Some st)
        then show ?thesis by (cases st) simp_all
      qed (use v(3) in simp)
      then have e: "entry_id e \<in> Wellfounded.acc ?r" using v(1,2) by (auto simp: visit_ok_def)
      have "visit_entries (id_index entries) (e # es) visit = visit_entries (id_index entries) es marked"
        using False Some vp by (simp add: marked_def)
      then show ?thesis using Cons(1) [OF _ m] Cons(2) e by simp
    qed
  qed
qed simp

lemma finite_precedes: "finite (precedes entries)"
proof -
  have "precedes entries \<subseteq> (\<lambda>e. (the (supersedes_entry_id e), entry_id e)) ` set entries"
    by (force simp: precedes_def)
  then show ?thesis by (rule finite_subset) simp
qed

lemma acc_imp_acyclic:
  assumes "entry_id ` set entries \<subseteq> Wellfounded.acc (precedes entries)"
  shows "acyclic (precedes entries)"
proof -
  have "x \<in> Wellfounded.acc (precedes entries)" for x
  proof (cases "x \<in> entry_id ` set entries")
    case False
    then have none: "(y, x) \<notin> precedes entries" for y by (auto simp: precedes_def)
    show ?thesis by (rule accI) (simp add: none)
  qed (use assms in blast)
  then have "wf (precedes entries)" by (simp add: wf_iff_acc)
  then show ?thesis by (rule wf_acyclic)
qed

lemma visit_entries_acyclic:
  assumes "distinct (map entry_id entries)" "set (predecessors entries) \<subseteq> entry_id ` set entries"
  shows "visit_entries (id_index entries) entries Map.empty \<longleftrightarrow> acyclic (precedes entries)"
  using visit_entries_iff [OF assms subset_refl, of Map.empty] acc_imp_acyclic [of entries]
  by (auto simp: visit_ok_def split: if_splits)

lemma fst_set_id_index: "fst ` set (id_index entries) = entry_id ` set entries"
  by (auto simp: id_index_def image_iff)

lemma select_leaves_eq:
  "select_current_calculation_lineage_leaves entries =
     (if \<not> distinct (map entry_id entries) then Invalid_Lineage DUPLICATE_ID
      else case index_children (id_index entries) entries [] of
        Inl reason \<Rightarrow> Invalid_Lineage reason
      | Inr children \<Rightarrow>
          if \<not> acyclic (precedes entries) then Invalid_Lineage CYCLE
          else Lineage_Valid (filter (\<lambda>e. entry_id e \<notin> set (predecessors entries)) entries))"
proof (cases "distinct (map entry_id entries)")
  case True
  show ?thesis
  proof (cases "index_children (id_index entries) entries []")
    case (Inr children)
    then have c: "children = List.map_filter (\<lambda>e. map_option (\<lambda>p. (p, entry_id e)) (supersedes_entry_id e)) entries"
      "set (predecessors entries) \<subseteq> entry_id ` set entries"
      by (simp_all add: index_children_Inr_iff fst_set_id_index)
    show ?thesis
      using Inr True visit_entries_acyclic [OF True c(2)]
      by (simp add: select_current_calculation_lineage_leaves_def index_by_id_eq c(1) children_None_iff)
  qed (simp add: True select_current_calculation_lineage_leaves_def index_by_id_eq)
qed (auto simp: select_current_calculation_lineage_leaves_def index_by_id_eq)

section \<open>Lineages and their leaves\<close>

lemma length_predecessors: "length (predecessors entries) = length (filter (\<lambda>e. supersedes_entry_id e \<noteq> None) entries)"
  by (induction entries) (auto split: option.splits)

lemma precedes_single_valued:
  assumes "distinct (predecessors entries)" "(p, c) \<in> precedes entries" "(p, c') \<in> precedes entries"
  shows "c = c'"
  using assms
  by (induction entries) (auto simp: precedes_def set_predecessors split: option.splits)

lemma leaf_count:
  assumes "distinct (map entry_id entries)" "set (predecessors entries) \<subseteq> entry_id ` set entries"
    and "distinct (predecessors entries)"
  shows "length (filter (\<lambda>e. entry_id e \<notin> set (predecessors entries)) entries) =
    length (filter (\<lambda>e. supersedes_entry_id e = None) entries)"
proof -
  let ?in = "\<lambda>e. entry_id e \<in> set (predecessors entries)"
  have "length (filter ?in entries) = card (entry_id ` set (filter ?in entries))"
    using assms(1) distinct_card [of "map entry_id (filter ?in entries)"] by (simp add: distinct_map_filter)
  also have "entry_id ` set (filter ?in entries) = set (predecessors entries)"
    using assms(2) by auto
  also have "card (set (predecessors entries)) = length (predecessors entries)"
    using assms(3) by (rule distinct_card)
  finally have "length (filter ?in entries) = length (filter (\<lambda>e. supersedes_entry_id e \<noteq> None) entries)"
    by (simp add: length_predecessors)
  then show ?thesis
    using sum_length_filter_compl [of ?in entries]
      sum_length_filter_compl [of "\<lambda>e. supersedes_entry_id e = None" entries] by simp
qed

lemma leaf_exists:
  assumes "acyclic (precedes entries)" "e \<in> set entries"
  shows "\<exists>l \<in> set entries. entry_id l \<notin> set (predecessors entries) \<and> (entry_id e, entry_id l) \<in> (precedes entries)\<^sup>*"
proof -
  have "wf ((precedes entries)\<inverse>)"
    using finite_precedes assms(1) by (rule finite_acyclic_wf_converse)
  then have "\<forall>e \<in> set entries. entry_id e = x \<longrightarrow>
      (\<exists>l \<in> set entries. entry_id l \<notin> set (predecessors entries) \<and> (x, entry_id l) \<in> (precedes entries)\<^sup>*)" for x
  proof (induction x rule: wf_induct_rule)
    case (less x)
    show ?case
    proof (intro ballI impI)
      fix e assume e: "e \<in> set entries" "entry_id e = x"
      show "\<exists>l \<in> set entries. entry_id l \<notin> set (predecessors entries) \<and> (x, entry_id l) \<in> (precedes entries)\<^sup>*"
      proof (cases "x \<in> set (predecessors entries)")
        case True
        then obtain c where c: "c \<in> set entries" "supersedes_entry_id c = Some x" by (auto simp: set_predecessors)
        then have "(x, entry_id c) \<in> precedes entries" by (auto simp: precedes_def)
        then show ?thesis using less [of "entry_id c"] c by (auto intro: converse_rtrancl_into_rtrancl)
      qed (use e in auto)
    qed
  qed
  then show ?thesis using assms(2) by blast
qed

lemma leaf_unique:
  assumes "distinct (predecessors entries)" "(x, l) \<in> (precedes entries)\<^sup>*" "(x, l') \<in> (precedes entries)\<^sup>*"
    and "l \<notin> set (predecessors entries)" "l' \<notin> set (predecessors entries)"
  shows "l = l'"
proof -
  have stop: "(l, y) \<notin> precedes entries" "(l', y) \<notin> precedes entries" for y
    using assms(4,5) by (auto simp: precedes_def set_predecessors)
  show ?thesis
    using assms(2,3)
  proof (induction rule: converse_rtrancl_induct)
    case base
    then show ?case using stop(1) by (auto elim: converse_rtranclE)
  next
    case (step x y)
    then obtain y' where "(x, y') \<in> precedes entries" "(y', l') \<in> (precedes entries)\<^sup>*"
      using stop(2) by (auto elim: converse_rtranclE)
    then show ?case using step precedes_single_valued [OF assms(1)] by blast
  qed
qed

lemma select_leaves_valid_iff:
  "select_current_calculation_lineage_leaves entries = Lineage_Valid ls \<longleftrightarrow>
     lineage_lawful entries \<and> ls = filter (\<lambda>e. entry_id e \<notin> set (predecessors entries)) entries"
proof (cases "index_children (id_index entries) entries []")
  case (Inl r)
  then have "\<not> lineage_lawful entries"
    using index_children_Inl [OF Inl] by (auto simp: lineage_lawful_def fst_set_id_index)
  then show ?thesis using Inl by (simp add: select_leaves_eq)
next
  case (Inr children)
  then have "lineage_lawful entries \<longleftrightarrow> distinct (map entry_id entries) \<and> acyclic (precedes entries)"
    by (auto simp: lineage_lawful_def index_children_Inr_iff fst_set_id_index)
  then show ?thesis using Inr by (auto simp: select_leaves_eq)
qed

section \<open>Properties\<close>

text \<open>C21: the selection accepts exactly the lawful sets of entries (unique identifiers, no entry
  superseding itself, every predecessor present, at most one direct successor each, no cycle),
  and on them the leaves are the entries nobody supersedes, in their order.\<close>

theorem lineage_valid_iff:
  "select_current_calculation_lineage_leaves entries = Lineage_Valid ls \<longleftrightarrow>
     lineage_lawful entries \<and> ls = filter (\<lambda>e. entry_id e \<notin> set (predecessors entries)) entries"
  by (rule select_leaves_valid_iff)

text \<open>The reason of a refusal is true of the entries, and a later reason is only given when
  the checks before it passed.\<close>

theorem lineage_invalid_reason:
  assumes "select_current_calculation_lineage_leaves entries = Invalid_Lineage r"
  shows "if r = DUPLICATE_ID then \<not> distinct (map entry_id entries)
    else distinct (map entry_id entries) \<and>
      (if r = SELF_REFERENCE then \<exists>e \<in> set entries. supersedes_entry_id e = Some (entry_id e)
       else if r = MISSING_PREDECESSOR then \<exists>p \<in> set (predecessors entries). p \<notin> entry_id ` set entries
       else if r = MULTIPLE_DIRECT_CHILDREN then \<not> distinct (predecessors entries)
       else set (predecessors entries) \<subseteq> entry_id ` set entries \<and> distinct (predecessors entries) \<and>
         (\<exists>x. (x, x) \<in> (precedes entries)\<^sup>+))"
proof (cases "distinct (map entry_id entries)")
  case True
  show ?thesis
  proof (cases "index_children (id_index entries) entries []")
    case (Inl r')
    then have "r = r'" using assms True by (simp add: select_leaves_eq)
    then show ?thesis using True index_children_Inl [OF Inl] by (auto simp: fst_set_id_index)
  next
    case (Inr children)
    then have "r = CYCLE" "\<not> acyclic (precedes entries)"
      using assms True by (simp_all add: select_leaves_eq split: if_splits)
    then show ?thesis
      using True Inr by (simp add: index_children_Inr_iff fst_set_id_index acyclic_def)
  qed
qed (use assms in \<open>simp add: select_leaves_eq\<close>)

text \<open>One current entry per independent lineage. The valid selection has as many leaves as
  there are entries that supersede nothing, and following the corrections from any entry leads
  to exactly one leaf.\<close>

theorem lineage_one_leaf_each:
  assumes "select_current_calculation_lineage_leaves entries = Lineage_Valid ls"
  shows "length ls = length (filter (\<lambda>e. supersedes_entry_id e = None) entries) \<and>
    (\<forall>e \<in> set entries. \<exists>!l. l \<in> set ls \<and> (entry_id e, entry_id l) \<in> (precedes entries)\<^sup>*)"
proof -
  have "lineage_lawful entries" and ls: "ls = filter (\<lambda>e. entry_id e \<notin> set (predecessors entries)) entries"
    using assms by (simp_all add: select_leaves_valid_iff)
  then have law: "distinct (map entry_id entries)" "set (predecessors entries) \<subseteq> entry_id ` set entries"
    "distinct (predecessors entries)" "acyclic (precedes entries)"
    by (simp_all add: lineage_lawful_def)
  have "\<exists>!l. l \<in> set ls \<and> (entry_id e, entry_id l) \<in> (precedes entries)\<^sup>*" if e: "e \<in> set entries" for e
  proof -
    obtain l where l: "l \<in> set ls" "(entry_id e, entry_id l) \<in> (precedes entries)\<^sup>*"
      using leaf_exists [OF law(4) e] ls by auto
    have "l' = l" if "l' \<in> set ls" "(entry_id e, entry_id l') \<in> (precedes entries)\<^sup>*" for l'
    proof -
      have "entry_id l' = entry_id l" using leaf_unique [OF law(3) that(2) l(2)] that(1) l(1) ls by simp
      then show ?thesis using that(1) l(1) ls law(1) by (auto simp: distinct_map dest: inj_onD)
    qed
    with l show ?thesis by blast
  qed
  then show ?thesis using leaf_count [OF law(1-3)] ls by blast
qed

section \<open>Witnesses\<close>

text \<open>A correction: entry b supersedes entry a.\<close>

definition sample_lineage :: "lineage_entry list" where
  "sample_lineage = [\<lparr>entry_id = ''a'', supersedes_entry_id = None\<rparr>, \<lparr>entry_id = ''b'', supersedes_entry_id = Some ''a''\<rparr>]"

lemma sample_lineage_valid:
  "select_current_calculation_lineage_leaves sample_lineage =
    Lineage_Valid [\<lparr>entry_id = ''b'', supersedes_entry_id = Some ''a''\<rparr>]"
  by code_simp

lemma self_reference_invalid:
  "select_current_calculation_lineage_leaves [\<lparr>entry_id = ''a'', supersedes_entry_id = Some ''a''\<rparr>] =
    Invalid_Lineage SELF_REFERENCE"
  by code_simp

theorem lineage_invalid_reason_witness:
  "select_current_calculation_lineage_leaves [\<lparr>entry_id = ''a'', supersedes_entry_id = Some ''a''\<rparr>] =
    Invalid_Lineage SELF_REFERENCE \<and>
   (\<exists>e \<in> set [\<lparr>entry_id = ''a'', supersedes_entry_id = Some ''a''\<rparr>]. supersedes_entry_id e = Some (entry_id e))"
  using lineage_invalid_reason [OF self_reference_invalid] self_reference_invalid by simp

theorem lineage_one_leaf_each_witness:
  "\<exists>ls. select_current_calculation_lineage_leaves sample_lineage = Lineage_Valid ls \<and>
    length ls = length (filter (\<lambda>e. supersedes_entry_id e = None) sample_lineage) \<and>
    (\<forall>e \<in> set sample_lineage. \<exists>!l. l \<in> set ls \<and> (entry_id e, entry_id l) \<in> (precedes sample_lineage)\<^sup>*)"
  using lineage_one_leaf_each [OF sample_lineage_valid] sample_lineage_valid by blast

end
