(* ===== verification/SemanticAuthority.thy ===== *)
theory SemanticAuthority
  imports JsDate Lineage
begin

text \<open>
  \<open>progress/progress-semantic-authority.policy.ts\<close>: the context a human verifier confirms
  (scope, lineage leaves and a digest of the entries) and how an audit trail is read against it.

  Parameters: \<open>locale_compare\<close> stands for \<open>String.prototype.localeCompare\<close> (its collation is
  the host's), \<open>sha256_hex\<close> for the digest of Node's \<open>crypto\<close>. \<open>JSON.stringify\<close> and the order
  of an object's own keys are modelled. An entry's \<open>installedQuantity\<close> is held as the string
  its \<open>toString\<close> returns, which is all this file uses of it.

  The properties: reading an authority finds the latest matching confirmation and never lets a
  malformed or stale one count; the confirmation a context issues is accepted by that context; the
  digest does not depend on the lifecycle status.
\<close>

section \<open>Types\<close>

definition MON04_SEMANTIC_POLICY_VERSION :: string where
  "MON04_SEMANTIC_POLICY_VERSION = ''MON04_CURRENT_NUMERIC_LAW_V1''"

definition MON04_SEMANTIC_CONTEXT_VERSION :: int where
  "MON04_SEMANTIC_CONTEXT_VERSION = 1"

definition MON04_SEMANTIC_ATTESTATION_TYPE :: string where
  "MON04_SEMANTIC_ATTESTATION_TYPE = ''DISTINCT_INCREMENT_NON_OVERLAP_CONFIRMED''"

definition MON04_SEMANTIC_AUDIT_ACTION :: string where
  "MON04_SEMANTIC_AUDIT_ACTION = ''ACTUAL_SEMANTIC_AUTHORITY_CONFIRMED''"

definition PROGRESS_AUTHORITIES_VERIFY :: string where
  "PROGRESS_AUTHORITIES_VERIFY = ''FIELD_PROGRESS_VERIFY''"

record semantic_entry = lineage_entry +
  installed_quantity :: string
  work_date :: "js_date option"
  actual_status :: progress_actual_status
  capture_method :: string
  evidence_references :: js_value
  entry_notes :: "string option"
  correction_reason_code :: "string option"
  correction_reason :: "string option"
  recorded_by_account_id :: "string option"
  revision :: int

record semantic_scope =
  project_id :: string
  active_baseline_id :: string
  boq_item_id :: string

record 'e semantic_context =
  context_scope :: semantic_scope
  context_digest :: string
  current_leaves :: "'e list"
  current_leaf_ids :: "string list"

datatype 'e semantic_context_result =
    Context_Valid "'e semantic_context"
  | Context_Invalid_Lineage lineage_invalid_reason

datatype progress_audit_outcome = SUCCESS | DENIED | FAILED

record semantic_audit_candidate =
  audit_action :: string
  audit_outcome :: progress_audit_outcome
  audit_metadata :: js_value
  occurred_at :: js_date
  actor_account_id :: string
  authority_code :: "string option"
  actor_display_name :: "string option"

record semantic_proof =
  proof_actor_account_id :: string
  proof_actor_display_name :: "string option"
  proof_authority_code :: "string option"
  proof_occurred_at :: js_date

datatype semantic_authority = Not_Proven | Stale | Invalid_Provenance | Proven semantic_proof

record proof_metadata =
  pm_active_baseline_id :: string
  pm_boq_item_id :: string
  pm_context_digest :: string
  pm_current_leaf_ids :: "string list"

section \<open>The stable digest\<close>

text \<open>An object lists its integer-index keys first, in ascending order, then the others in
  insertion order.\<close>

definition integer_index_key :: "string \<Rightarrow> bool" where
  "integer_index_key k \<longleftrightarrow>
     (case digits_number 0 k of
        None \<Rightarrow> False
      | Some n \<Rightarrow> k = int_to_string n \<and> n < 4294967295)"

definition object_from_entries :: "(string \<times> js_value) list \<Rightarrow> js_value" where
  "object_from_entries entries =
     JObj (stable_sort_by (\<lambda>l r. digits_number 0 (fst l) = digits_number 0 (fst r) \<or>
             the (digits_number 0 (fst l)) < the (digits_number 0 (fst r)))
             (filter (\<lambda>e. integer_index_key (fst e)) entries)
           @ filter (\<lambda>e. \<not> integer_index_key (fst e)) entries)"

function canonicalize :: "(string \<Rightarrow> string \<Rightarrow> int) \<Rightarrow> js_value \<Rightarrow> js_value" where
  "canonicalize locale_compare (JArr xs) = JArr (map (canonicalize locale_compare) xs)"
| "canonicalize locale_compare (JObj kvs) =
     object_from_entries
       (map (\<lambda>kv. (fst kv, canonicalize locale_compare (snd kv)))
         (stable_sort_by (\<lambda>left right. locale_compare (fst left) (fst right) \<le> 0)
           (filter (\<lambda>kv. snd kv \<noteq> JUndefined) kvs)))"
| "canonicalize locale_compare JUndefined = JUndefined"
| "canonicalize locale_compare JNull = JNull"
| "canonicalize locale_compare (JBool b) = JBool b"
| "canonicalize locale_compare (JNum n) = JNum n"
| "canonicalize locale_compare (JStr s) = JStr s"
  by pat_completeness auto
termination
proof (relation "measure (\<lambda>(_, v). size v)")
  fix lc :: "string \<Rightarrow> string \<Rightarrow> int" and xs :: "js_value list" and x
  assume "x \<in> set xs"
  then show "((lc, x), lc, JArr xs) \<in> measure (\<lambda>(_, v). size v)"
    by (induction xs) auto
next
  fix lc :: "string \<Rightarrow> string \<Rightarrow> int" and kvs :: "(string \<times> js_value) list" and kv
  assume "kv \<in> set (stable_sort_by (\<lambda>left right. lc (fst left) (fst right) \<le> 0)
      (filter (\<lambda>kv. snd kv \<noteq> JUndefined) kvs))"
  then have "kv \<in> set kvs" by simp
  then have "size (snd kv) < size (JObj kvs)"
    by (induction kvs) (auto simp: size_prod_simp)
  then show "((lc, snd kv), lc, JObj kvs) \<in> measure (\<lambda>(_, v). size v)" by simp
qed simp

definition hex_digit :: "nat \<Rightarrow> char" where
  "hex_digit n = (if n < 10 then char_of (48 + n) else char_of (87 + n))"

definition json_escape :: "char \<Rightarrow> string" where
  "json_escape c =
     (let n = (of_char c :: nat)
      in if n = 34 then [CHR 0x5C, CHR 0x22]
         else if n = 92 then [CHR 0x5C, CHR 0x5C]
         else if n = 8 then CHR 0x5C # ''b'' else if n = 12 then CHR 0x5C # ''f''
         else if n = 10 then CHR 0x5C # ''n'' else if n = 13 then CHR 0x5C # ''r''
         else if n = 9 then CHR 0x5C # ''t''
         else if n < 32 then CHR 0x5C # ''u00'' @ [hex_digit (n div 16), hex_digit (n mod 16)]
         else [c])"

definition json_quote :: "string \<Rightarrow> string" where
  "json_quote s = [CHR 0x22] @ concat (map json_escape s) @ [CHR 0x22]"

fun join_with_comma :: "string list \<Rightarrow> string" where
  "join_with_comma [] = []"
| "join_with_comma [s] = s"
| "join_with_comma (s # t # ss) = s @ '','' @ join_with_comma (t # ss)"

text \<open>\<open>JSON.stringify\<close>: an undefined element of an array is \<open>null\<close>, an undefined property is
  left out.\<close>

function json_stringify :: "js_value \<Rightarrow> string" where
  "json_stringify JUndefined = ''null''"
| "json_stringify JNull = ''null''"
| "json_stringify (JBool b) = (if b then ''true'' else ''false'')"
| "json_stringify (JNum n) = int_to_string n"
| "json_stringify (JStr s) = json_quote s"
| "json_stringify (JArr xs) = ''['' @ join_with_comma (map json_stringify xs) @ '']''"
| "json_stringify (JObj kvs) =
     ''{'' @ join_with_comma
       (map (\<lambda>kv. json_quote (fst kv) @ '':'' @ json_stringify (snd kv))
         (filter (\<lambda>kv. snd kv \<noteq> JUndefined) kvs)) @ ''}''"
  by pat_completeness auto
termination
proof (relation "measure size")
  fix xs :: "js_value list" and x
  assume "x \<in> set xs"
  then show "(x, JArr xs) \<in> measure size" by (induction xs) auto
next
  fix kvs :: "(string \<times> js_value) list" and kv
  assume "kv \<in> set (filter (\<lambda>kv. snd kv \<noteq> JUndefined) kvs)"
  then have "kv \<in> set kvs" by simp
  then have "size (snd kv) < size (JObj kvs)"
    by (induction kvs) (auto simp: size_prod_simp)
  then show "(snd kv, JObj kvs) \<in> measure size" by simp
qed simp

definition stable_digest ::
    "(string \<Rightarrow> string) \<Rightarrow> (string \<Rightarrow> string \<Rightarrow> int) \<Rightarrow> js_value \<Rightarrow> string" where
  "stable_digest sha256_hex locale_compare value =
     sha256_hex (json_stringify (canonicalize locale_compare value))"

section \<open>The verification context\<close>

definition js_nullable :: "string option \<Rightarrow> js_value" where
  "js_nullable s = (case s of None \<Rightarrow> JNull | Some t \<Rightarrow> JStr t)"

text \<open>\<open>entry.workDate?.toISOString() ?? null\<close>: an invalid date throws.\<close>

definition work_date_iso :: "js_date option \<Rightarrow> js_error + js_value" where
  "work_date_iso d =
     (case d of
        None \<Rightarrow> Inr JNull
      | Some Invalid_Date \<Rightarrow> Inl (Plain_Error ''Invalid time value'')
      | Some (Date_Time t) \<Rightarrow> Inr (JStr (to_iso_string t)))"

definition semantic_entry_digest_projection :: "'a semantic_entry_scheme \<Rightarrow> js_error + js_value" where
  "semantic_entry_digest_projection entry =
     rbind (work_date_iso (work_date entry)) (\<lambda>work_date_value. Inr (JObj
       [(''id'', JStr (entry_id entry)),
        (''supersedesEntryId'', js_nullable (supersedes_entry_id entry)),
        (''installedQuantity'', JStr (installed_quantity entry)),
        (''workDate'', work_date_value),
        (''captureMethod'', JStr (capture_method entry)),
        (''evidenceReferences'', evidence_references entry),
        (''notes'', js_nullable (entry_notes entry)),
        (''correctionReasonCode'', js_nullable (correction_reason_code entry)),
        (''correctionReason'', js_nullable (correction_reason entry)),
        (''recordedByAccountId'', js_nullable (recorded_by_account_id entry)),
        (''revision'', JNum (revision entry))]))"

fun map_throwing :: "('a \<Rightarrow> js_error + 'b) \<Rightarrow> 'a list \<Rightarrow> js_error + 'b list" where
  "map_throwing f [] = Inr []"
| "map_throwing f (x # xs) = rbind (f x) (\<lambda>y. rbind (map_throwing f xs) (\<lambda>ys. Inr (y # ys)))"

definition js_scope :: "semantic_scope \<Rightarrow> js_value" where
  "js_scope scope = JObj
     [(''projectId'', JStr (project_id scope)),
      (''activeBaselineId'', JStr (active_baseline_id scope)),
      (''boqItemId'', JStr (boq_item_id scope))]"

definition sort_by_id ::
    "(string \<Rightarrow> string \<Rightarrow> int) \<Rightarrow> 'a lineage_entry_scheme list \<Rightarrow> 'a lineage_entry_scheme list" where
  "sort_by_id locale_compare entries =
     stable_sort_by (\<lambda>left right. locale_compare (entry_id left) (entry_id right) \<le> 0) entries"

definition create_progress_semantic_verification_context ::
    "(string \<Rightarrow> string) \<Rightarrow> (string \<Rightarrow> string \<Rightarrow> int) \<Rightarrow> semantic_scope \<Rightarrow> 'a semantic_entry_scheme list
      \<Rightarrow> js_error + 'a semantic_entry_scheme semantic_context_result" where
  "create_progress_semantic_verification_context sha256_hex locale_compare scope entries =
     (let ordered_entries = sort_by_id locale_compare entries
      in case select_current_calculation_lineage_leaves ordered_entries of
           Invalid_Lineage reason \<Rightarrow> Inr (Context_Invalid_Lineage reason)
         | Lineage_Valid lineage_leaves \<Rightarrow>
             (let leaves = sort_by_id locale_compare lineage_leaves;
                  leaf_ids = map entry_id leaves
              in rbind (map_throwing semantic_entry_digest_projection ordered_entries) (\<lambda>relevant_entries.
                 Inr (Context_Valid
                   \<lparr>context_scope = scope,
                    context_digest = stable_digest sha256_hex locale_compare (JObj
                      [(''policyVersion'', JStr MON04_SEMANTIC_POLICY_VERSION),
                       (''attestationType'', JStr MON04_SEMANTIC_ATTESTATION_TYPE),
                       (''contextVersion'', JNum MON04_SEMANTIC_CONTEXT_VERSION),
                       (''scope'', js_scope scope),
                       (''relevantEntries'', JArr relevant_entries),
                       (''currentLeafIds'', JArr (map JStr leaf_ids))]),
                    current_leaves = leaves,
                    current_leaf_ids = leaf_ids\<rparr>))))"

definition is_progress_semantic_attestation_eligible :: "progress_actual_status \<Rightarrow> bool" where
  "is_progress_semantic_attestation_eligible status = is_progress_actual_calculation_eligible status"

definition progress_semantic_proof_metadata :: "'e semantic_context \<Rightarrow> js_value" where
  "progress_semantic_proof_metadata context = JObj
     [(''policyVersion'', JStr MON04_SEMANTIC_POLICY_VERSION),
      (''attestationType'', JStr MON04_SEMANTIC_ATTESTATION_TYPE),
      (''contextVersion'', JNum MON04_SEMANTIC_CONTEXT_VERSION),
      (''activeBaselineId'', JStr (active_baseline_id (context_scope context))),
      (''boqItemId'', JStr (boq_item_id (context_scope context))),
      (''contextDigest'', JStr (context_digest context)),
      (''currentLeafIds'', JArr (map JStr (current_leaf_ids context))),
      (''explicitConfirmation'', JBool True)]"

section \<open>Reading the audit trail\<close>

definition as_proof_metadata :: "js_value \<Rightarrow> proof_metadata option" where
  "as_proof_metadata value =
     (case value of
        JObj metadata \<Rightarrow>
          if js_prop metadata ''policyVersion'' \<noteq> JStr MON04_SEMANTIC_POLICY_VERSION
             \<or> js_prop metadata ''attestationType'' \<noteq> JStr MON04_SEMANTIC_ATTESTATION_TYPE
             \<or> js_prop metadata ''contextVersion'' \<noteq> JNum MON04_SEMANTIC_CONTEXT_VERSION
          then None
          else
            (case (js_as_string (js_prop metadata ''activeBaselineId''),
                   js_as_string (js_prop metadata ''boqItemId''),
                   js_as_string (js_prop metadata ''contextDigest'')) of
               (Some baseline, Some item, Some digest) \<Rightarrow>
                 if js_prop metadata ''explicitConfirmation'' \<noteq> JBool True then None
                 else
                   (case js_prop metadata ''currentLeafIds'' of
                      JArr ids \<Rightarrow>
                        if list_all js_is_string ids
                        then Some \<lparr>pm_active_baseline_id = baseline, pm_boq_item_id = item,
                                   pm_context_digest = digest,
                                   pm_current_leaf_ids = map (\<lambda>v. the (js_as_string v)) ids\<rparr>
                        else None
                    | _ \<Rightarrow> None)
             | _ \<Rightarrow> None)
      | _ \<Rightarrow> None)"

definition metadata_matches :: "'e semantic_context \<Rightarrow> proof_metadata \<Rightarrow> bool" where
  "metadata_matches context metadata \<longleftrightarrow>
     pm_active_baseline_id metadata = active_baseline_id (context_scope context) \<and>
     pm_boq_item_id metadata = boq_item_id (context_scope context) \<and>
     pm_context_digest metadata = context_digest context \<and>
     length (pm_current_leaf_ids metadata) = length (current_leaf_ids context) \<and>
     list_all2 (=) (pm_current_leaf_ids metadata) (current_leaf_ids context)"

fun read_events ::
    "'e semantic_context \<Rightarrow> semantic_audit_candidate list \<Rightarrow> bool \<Rightarrow> bool \<Rightarrow> semantic_authority" where
  "read_events context [] has_valid_stale_proof has_malformed_proof =
     (if has_valid_stale_proof then Stale
      else if has_malformed_proof then Invalid_Provenance else Not_Proven)"
| "read_events context (event # events) has_valid_stale_proof has_malformed_proof =
     (case as_proof_metadata (audit_metadata event) of
        None \<Rightarrow> read_events context events has_valid_stale_proof True
      | Some metadata \<Rightarrow>
          if actor_account_id event = [] \<or> authority_code event \<noteq> Some PROGRESS_AUTHORITIES_VERIFY
          then read_events context events has_valid_stale_proof True
          else if metadata_matches context metadata
          then Proven \<lparr>proof_actor_account_id = actor_account_id event,
                      proof_actor_display_name = actor_display_name event,
                      proof_authority_code = authority_code event,
                      proof_occurred_at = occurred_at event\<rparr>
          else read_events context events True has_malformed_proof)"

definition read_progress_semantic_authority ::
    "'e semantic_context \<Rightarrow> semantic_audit_candidate list \<Rightarrow> semantic_authority" where
  "read_progress_semantic_authority context events =
     (let semantic_events = filter (\<lambda>event. audit_action event = MON04_SEMANTIC_AUDIT_ACTION
            \<and> audit_outcome event = SUCCESS) events
      in if semantic_events = [] then Not_Proven
         else read_events context (rev semantic_events) False False)"

section \<open>Reading: which event decides\<close>

definition semantic_event :: "semantic_audit_candidate \<Rightarrow> bool" where
  "semantic_event e \<longleftrightarrow> audit_action e = MON04_SEMANTIC_AUDIT_ACTION \<and> audit_outcome e = SUCCESS"

text \<open>A confirmation of good provenance, and one that confirms this very context.\<close>

definition well_formed_event :: "semantic_audit_candidate \<Rightarrow> bool" where
  "well_formed_event e \<longleftrightarrow> semantic_event e \<and> as_proof_metadata (audit_metadata e) \<noteq> None \<and>
     actor_account_id e \<noteq> [] \<and> authority_code e = Some PROGRESS_AUTHORITIES_VERIFY"

definition confirms :: "'e semantic_context \<Rightarrow> semantic_audit_candidate \<Rightarrow> bool" where
  "confirms context e \<longleftrightarrow> well_formed_event e \<and>
     metadata_matches context (the (as_proof_metadata (audit_metadata e)))"

definition proof_of_event :: "semantic_audit_candidate \<Rightarrow> semantic_proof" where
  "proof_of_event e = \<lparr>proof_actor_account_id = actor_account_id e,
     proof_actor_display_name = actor_display_name e, proof_authority_code = authority_code e,
     proof_occurred_at = occurred_at e\<rparr>"

lemma read_events_eq:
  assumes "\<forall>e \<in> set events. semantic_event e"
  shows "read_events context events stale malformed =
    (case filter (confirms context) events of
       e # _ \<Rightarrow> Proven (proof_of_event e)
     | [] \<Rightarrow> if stale \<or> (\<exists>e \<in> set events. well_formed_event e) then Stale
           else if malformed \<or> events \<noteq> [] then Invalid_Provenance else Not_Proven)"
  using assms
proof (induction events arbitrary: stale malformed)
  case (Cons e es)
  show ?case
  proof (cases "well_formed_event e")
    case True
    then obtain md where md: "as_proof_metadata (audit_metadata e) = Some md" by (auto simp: well_formed_event_def)
    then show ?thesis
      using True Cons by (simp add: well_formed_event_def confirms_def proof_of_event_def split: list.splits)
  next
    case False
    then have "read_events context (e # es) stale malformed = read_events context es stale True"
      using Cons(2) by (auto simp: well_formed_event_def split: option.splits)
    then show ?thesis using False Cons by (simp add: confirms_def split: list.splits)
  qed
qed simp

lemma filter_confirms_semantic: "filter (confirms context) (filter semantic_event events) = filter (confirms context) events"
  by (induction events) (auto simp: confirms_def well_formed_event_def)

lemma read_authority_eq:
  "read_progress_semantic_authority context events =
     (if \<exists>e \<in> set events. confirms context e
      then Proven (proof_of_event (last (filter (confirms context) events)))
      else if \<exists>e \<in> set events. well_formed_event e then Stale
      else if \<exists>e \<in> set events. semantic_event e then Invalid_Provenance else Not_Proven)"
proof -
  let ?s = "filter semantic_event events"
  have "filter (\<lambda>e. audit_action e = MON04_SEMANTIC_AUDIT_ACTION \<and> audit_outcome e = SUCCESS) events = ?s"
    by (simp add: semantic_event_def [abs_def])
  then have "read_progress_semantic_authority context events =
      (if ?s = [] then Not_Proven else read_events context (rev ?s) False False)"
    by (simp add: read_progress_semantic_authority_def Let_def)
  also have "\<dots> = (if ?s = [] then Not_Proven else
      case rev (filter (confirms context) events) of
         e # _ \<Rightarrow> Proven (proof_of_event e)
       | [] \<Rightarrow> if \<exists>e \<in> set events. well_formed_event e then Stale else Invalid_Provenance)"
  proof -
    have "filter (confirms context) (rev ?s) = rev (filter (confirms context) events)"
      by (simp only: rev_filter [symmetric] filter_confirms_semantic)
    moreover have "(\<exists>e \<in> set (rev ?s). well_formed_event e) \<longleftrightarrow> (\<exists>e \<in> set events. well_formed_event e)"
      by (auto simp: well_formed_event_def)
    moreover have "\<forall>e \<in> set (rev ?s). semantic_event e" by simp
    ultimately have "read_events context (rev ?s) False False =
        (case rev (filter (confirms context) events) of
           e # _ \<Rightarrow> Proven (proof_of_event e)
         | [] \<Rightarrow> if \<exists>e \<in> set events. well_formed_event e then Stale
               else if rev ?s \<noteq> [] then Invalid_Provenance else Not_Proven)"
      by (simp only: read_events_eq simp_thms)
    then show ?thesis by (cases "?s = []") (simp_all only: rev_is_Nil_conv if_True if_False simp_thms)
  qed
  also have "\<dots> = (if \<exists>e \<in> set events. confirms context e
      then Proven (proof_of_event (last (filter (confirms context) events)))
      else if \<exists>e \<in> set events. well_formed_event e then Stale
      else if \<exists>e \<in> set events. semantic_event e then Invalid_Provenance else Not_Proven)"
  proof (cases "filter (confirms context) events" rule: rev_cases)
    case Nil
    then show ?thesis by (auto simp: filter_empty_conv well_formed_event_def)
  next
    case (snoc ys y)
    then have "y \<in> set (filter (confirms context) events)" by simp
    then have "\<exists>e \<in> set events. confirms context e" "?s \<noteq> []"
      by (auto simp: filter_empty_conv confirms_def well_formed_event_def)
    then show ?thesis using snoc by simp
  qed
  finally show ?thesis .
qed

section \<open>The lifecycle status and the digest\<close>

lemma insert_by_map:
  fixes g :: "'a \<Rightarrow> 'a"
  assumes "\<And>x. k (g x) = k x"
  shows "insert_by (\<lambda>x y. le (k x) (k y)) (g x) (map g ys) = map g (insert_by (\<lambda>x y. le (k x) (k y)) x ys)"
  using assms by (induction ys) simp_all

lemma sort_by_id_map:
  fixes g :: "'a lineage_entry_scheme \<Rightarrow> 'a lineage_entry_scheme"
  assumes "\<And>e. entry_id (g e) = entry_id e"
  shows "sort_by_id lc (map g entries) = map g (sort_by_id lc entries)"
  unfolding sort_by_id_def
  by (induction entries)
    (simp_all add: insert_by_map [of entry_id g "\<lambda>l r. lc l r \<le> 0", OF assms])

lemma index_children_cong:
  assumes "fst ` set b = fst ` set b'"
  shows "index_children b es ch = index_children b' es ch"
  using assms
  by (induction es arbitrary: ch) (simp_all add: map_of_eq_None_iff del: not_None_eq split: option.splits)

lemma index_children_map:
  assumes "\<And>e. entry_id (g e) = entry_id e" "\<And>e. supersedes_entry_id (g e) = supersedes_entry_id e"
  shows "index_children b (map g es) ch = index_children b es ch"
  by (induction es arbitrary: ch) (simp_all add: assms split: option.splits)

lemma precedes_iff:
  "(p, c) \<in> precedes entries \<longleftrightarrow> (\<exists>e \<in> set entries. entry_id e = c \<and> supersedes_entry_id e = Some p)"
  by (auto simp: precedes_def)

lemma select_leaves_map:
  fixes g :: "'a lineage_entry_scheme \<Rightarrow> 'a lineage_entry_scheme"
  assumes g: "\<And>e. entry_id (g e) = entry_id e" "\<And>e. supersedes_entry_id (g e) = supersedes_entry_id e"
  shows "select_current_calculation_lineage_leaves (map g entries) =
    map_lineage_selection g (select_current_calculation_lineage_leaves entries)"
proof -
  have p: "predecessors (map g entries) = predecessors entries"
    by (induction entries) (simp_all add: g split: option.splits)
  have r: "precedes (map g entries) = precedes entries"
    by (simp only: set_eq_iff split_paired_All precedes_iff) (simp add: g)
  have i: "index_children (id_index (map g entries)) (map g entries) [] = index_children (id_index entries) entries []"
    unfolding index_children_map [OF g]
    by (intro index_children_cong) (simp add: fst_set_id_index g image_image)
  show ?thesis
  proof (cases "index_children (id_index entries) entries []")
    case (Inl reason)
    then show ?thesis by (simp add: select_leaves_eq i g comp_def)
  next
    case (Inr children)
    have "filter (\<lambda>e. entry_id e \<notin> set (predecessors entries)) (map g entries) =
        map g (filter (\<lambda>e. entry_id e \<notin> set (predecessors entries)) entries)"
      by (simp add: filter_map comp_def g(1))
    with Inr show ?thesis by (simp add: select_leaves_eq i p r g(1) comp_def)
  qed
qed

lemma digest_projection_status:
  "semantic_entry_digest_projection (entry\<lparr>actual_status := st\<rparr>) = semantic_entry_digest_projection entry"
  by (simp add: semantic_entry_digest_projection_def)

lemma map_throwing_map: "map_throwing f (map g xs) = map_throwing (f \<circ> g) xs"
  by (induction xs) simp_all

section \<open>Properties\<close>

text \<open>C23: how an audit trail is read. The latest confirmation of good provenance (this action,
  a success, well-formed metadata, an actor, the VERIFY authority) that matches the context proves
  it; without one, a confirmation of another state of the entries makes it stale; without any, a
  malformed confirmation is invalid provenance; an empty trail proves nothing.\<close>

theorem authority_reading:
  "read_progress_semantic_authority context events =
     (if \<exists>e \<in> set events. confirms context e
      then Proven (proof_of_event (last (filter (confirms context) events)))
      else if \<exists>e \<in> set events. well_formed_event e then Stale
      else if \<exists>e \<in> set events. semantic_event e then Invalid_Provenance else Not_Proven)"
  by (rule read_authority_eq)

lemma proof_metadata_round_trip:
  "as_proof_metadata (progress_semantic_proof_metadata context) = Some
     \<lparr>pm_active_baseline_id = active_baseline_id (context_scope context),
      pm_boq_item_id = boq_item_id (context_scope context),
      pm_context_digest = context_digest context,
      pm_current_leaf_ids = current_leaf_ids context\<rparr>"
  by (simp add: as_proof_metadata_def progress_semantic_proof_metadata_def js_prop_def list_all_iff comp_def)

text \<open>C28: the confirmation a context issues proves that context, whatever the trail before it:
  recording \<open>progressSemanticProofMetadata\<close> in a successful event of a named actor under the VERIFY
  authority makes the next reading PROVEN with that event's actor and time.\<close>

theorem issued_confirmation_is_accepted:
  assumes "audit_action e = MON04_SEMANTIC_AUDIT_ACTION" and "audit_outcome e = SUCCESS"
    and "audit_metadata e = progress_semantic_proof_metadata context"
    and "actor_account_id e \<noteq> []" and "authority_code e = Some PROGRESS_AUTHORITIES_VERIFY"
  shows "read_progress_semantic_authority context (events @ [e]) = Proven (proof_of_event e)"
proof -
  have "confirms context e"
    using assms by (simp add: confirms_def well_formed_event_def semantic_event_def proof_metadata_round_trip
        metadata_matches_def list_all2_refl)
  then show ?thesis by (simp add: read_authority_eq)
qed

text \<open>The lifecycle status of the entries is no part of what was confirmed. Changing the
  statuses (VERIFIED to ACCEPTED) changes neither the lineage verdict, nor the digest, nor the
  leaves' identifiers, so every reading of every audit trail stays what it was.\<close>

theorem status_change_keeps_authority:
  "let before = create_progress_semantic_verification_context sha lc scope entries;
       after = create_progress_semantic_verification_context sha lc scope
         (map (\<lambda>e. e\<lparr>actual_status := new_status e\<rparr>) entries)
   in case before of
        Inr (Context_Valid c) \<Rightarrow>
          (\<exists>c'. after = Inr (Context_Valid c') \<and> context_digest c' = context_digest c \<and>
             current_leaf_ids c' = current_leaf_ids c \<and>
             read_progress_semantic_authority c' = read_progress_semantic_authority c)
      | other \<Rightarrow> after = other"
proof -
  define g where "g = (\<lambda>e :: 'a semantic_entry_scheme. e\<lparr>actual_status := new_status e\<rparr>)"
  have g: "entry_id (g e) = entry_id e" "supersedes_entry_id (g e) = supersedes_entry_id e"
    "semantic_entry_digest_projection \<circ> g = semantic_entry_digest_projection" for e
    by (simp_all add: g_def digest_projection_status fun_eq_iff)
  have s: "sort_by_id lc (map g xs) = map g (sort_by_id lc xs)" for xs
    using sort_by_id_map [of g lc xs] g(1) by simp
  have r: "read_progress_semantic_authority c' = read_progress_semantic_authority c"
    if "context_scope c' = context_scope c" "context_digest c' = context_digest c"
      "current_leaf_ids c' = current_leaf_ids c" for c c' :: "'a semantic_entry_scheme semantic_context"
  proof -
    have "confirms c' = confirms c"
      by (intro ext) (simp add: confirms_def metadata_matches_def that)
    then show ?thesis by (intro ext) (simp only: read_authority_eq)
  qed
  let ?sel = "select_current_calculation_lineage_leaves (sort_by_id lc entries)"
  have sel: "select_current_calculation_lineage_leaves (map g (sort_by_id lc entries)) = map_lineage_selection g ?sel"
    using select_leaves_map [of g "sort_by_id lc entries"] g(1,2) by simp
  have after: "create_progress_semantic_verification_context sha lc scope (map g entries) =
      (case ?sel of
         Invalid_Lineage reason \<Rightarrow> Inr (Context_Invalid_Lineage reason)
       | Lineage_Valid ls \<Rightarrow>
           rbind (map_throwing semantic_entry_digest_projection (sort_by_id lc entries)) (\<lambda>relevant.
             Inr (Context_Valid \<lparr>context_scope = scope,
               context_digest = stable_digest sha lc (JObj
                 [(''policyVersion'', JStr MON04_SEMANTIC_POLICY_VERSION),
                  (''attestationType'', JStr MON04_SEMANTIC_ATTESTATION_TYPE),
                  (''contextVersion'', JNum MON04_SEMANTIC_CONTEXT_VERSION),
                  (''scope'', js_scope scope), (''relevantEntries'', JArr relevant),
                  (''currentLeafIds'', JArr (map JStr (map entry_id (sort_by_id lc ls))))]),
               current_leaves = map g (sort_by_id lc ls),
               current_leaf_ids = map entry_id (sort_by_id lc ls)\<rparr>)))"
    unfolding create_progress_semantic_verification_context_def Let_def s sel map_throwing_map g(3)
    by (cases ?sel) (simp_all add: s comp_def g(1))
  show ?thesis
    unfolding g_def [symmetric] Let_def after
    unfolding create_progress_semantic_verification_context_def Let_def
  proof (cases ?sel; cases "map_throwing semantic_entry_digest_projection (sort_by_id lc entries)")
  qed (auto intro: r)
qed

section \<open>Witnesses\<close>

definition sample_context :: "unit semantic_context" where
  "sample_context =
     \<lparr>context_scope = \<lparr>project_id = ''P'', active_baseline_id = ''B'', boq_item_id = ''I''\<rparr>,
      context_digest = ''D'', current_leaves = [()], current_leaf_ids = [''a'']\<rparr>"

definition sample_confirmation :: semantic_audit_candidate where
  "sample_confirmation =
     \<lparr>audit_action = MON04_SEMANTIC_AUDIT_ACTION, audit_outcome = SUCCESS,
      audit_metadata = progress_semantic_proof_metadata sample_context, occurred_at = Date_Time 0,
      actor_account_id = ''acc'', authority_code = Some PROGRESS_AUTHORITIES_VERIFY, actor_display_name = None\<rparr>"

theorem issued_confirmation_is_accepted_witness:
  "read_progress_semantic_authority sample_context ([] @ [sample_confirmation]) =
    Proven (proof_of_event sample_confirmation)"
  by (rule issued_confirmation_is_accepted) (simp_all add: sample_confirmation_def)

end
