(* ===== verification/OfficialQuantity.thy ===== *)
theory OfficialQuantity
  imports "HOL-Library.Multiset" Decimal SemanticAuthority
begin

text \<open>
  MON-04 LAW 1, the current official quantity of a work item, and its projection to a date.

  \<open>progress/progress-current-official-quantity.policy.ts\<close>: the governed facts of an item
  (lineage, current leaves, lifecycle eligibility, numeric domain, semantic authority,
  completeness, in this order) and their sum; \<open>progress/progress-actual-temporal-quantity.policy.ts\<close>:
  the same facts up to a cutoff date and the dates at which the sum changes.

  The properties: a COMPLETE result accounts for exactly the unsuperseded entries and each
  of them is eligible, numerically valid and confirmed; the date projection agrees with the
  undated sum once the cutoff covers every fact and never decreases with the cutoff.
\<close>

section \<open>Governed facts\<close>

record law1_entry = semantic_entry +
  audit_events :: "semantic_audit_candidate list"

record ('d, 'e) official_fact =
  fact_entry :: 'e
  fact_quantity :: 'd

datatype ('d, 'e) governed_facts =
    Facts_Not_Yet_Recorded
  | Facts_No_Eligible_Current_Fact
  | Facts_Invalid_Lineage lineage_invalid_reason
  | Facts_Invalid_Numeric_Fact
  | Facts_Semantics_Unproven
  | Facts_Incomplete "('d, 'e) official_fact list"
  | Facts_Complete "('d, 'e) official_fact list"

datatype 'd official_quantity =
    Quantity_Not_Yet_Recorded
  | Quantity_No_Eligible_Current_Fact
  | Quantity_Invalid_Lineage lineage_invalid_reason
  | Quantity_Invalid_Numeric_Fact
  | Quantity_Semantics_Unproven
  | Quantity_Incomplete 'd
  | Quantity_Complete 'd

definition sum_facts :: "'d decimal_ops \<Rightarrow> ('d, 'e) official_fact list \<Rightarrow> 'd" where
  "sum_facts D facts =
     foldl (\<lambda>subtotal f. d_plus D subtotal (fact_quantity f)) (d_of_int D 0) facts"

fun calculate_current_official_quantity_from_governed ::
    "'d decimal_ops \<Rightarrow> ('d, 'e) governed_facts \<Rightarrow> 'd official_quantity" where
  "calculate_current_official_quantity_from_governed D Facts_Not_Yet_Recorded = Quantity_Not_Yet_Recorded"
| "calculate_current_official_quantity_from_governed D Facts_No_Eligible_Current_Fact =
     Quantity_No_Eligible_Current_Fact"
| "calculate_current_official_quantity_from_governed D (Facts_Invalid_Lineage reason) =
     Quantity_Invalid_Lineage reason"
| "calculate_current_official_quantity_from_governed D Facts_Invalid_Numeric_Fact =
     Quantity_Invalid_Numeric_Fact"
| "calculate_current_official_quantity_from_governed D Facts_Semantics_Unproven =
     Quantity_Semantics_Unproven"
| "calculate_current_official_quantity_from_governed D (Facts_Incomplete facts) =
     Quantity_Incomplete (sum_facts D facts)"
| "calculate_current_official_quantity_from_governed D (Facts_Complete facts) =
     Quantity_Complete (sum_facts D facts)"

fun leaf_quantities ::
    "'d decimal_ops \<Rightarrow> 'a semantic_entry_scheme list \<Rightarrow> (string \<Rightarrow> 'd option) \<Rightarrow> (string \<Rightarrow> 'd option) option" where
  "leaf_quantities D [] quantity_by_entry_id = Some quantity_by_entry_id"
| "leaf_quantities D (leaf # leaves) quantity_by_entry_id =
     (case d_parse D (installed_quantity leaf) of
        None \<Rightarrow> None
      | Some quantity \<Rightarrow>
          if d_is_nan D quantity \<or> \<not> d_is_finite D quantity \<or> d_is_negative D quantity then None
          else leaf_quantities D leaves (quantity_by_entry_id(entry_id leaf \<mapsto> quantity)))"

text \<open>\<open>new Map(entries.map((entry) => [entry.id, entry]))\<close>: a later entry replaces an earlier one.\<close>

definition entry_by_id :: "'a lineage_entry_scheme list \<Rightarrow> string \<Rightarrow> 'a lineage_entry_scheme option" where
  "entry_by_id entries = map_of (rev (map (\<lambda>e. (entry_id e, e)) entries))"

fun all_leaves_proven ::
    "('a law1_entry_scheme) semantic_context \<Rightarrow> (string \<Rightarrow> 'a law1_entry_scheme option) \<Rightarrow> 'a law1_entry_scheme list \<Rightarrow> bool" where
  "all_leaves_proven context by_id [] = True"
| "all_leaves_proven context by_id (leaf # leaves) =
     (case by_id (entry_id leaf) of
        None \<Rightarrow> False
      | Some full_entry \<Rightarrow>
          (case read_progress_semantic_authority context (audit_events full_entry) of
             Proven _ \<Rightarrow> all_leaves_proven context by_id leaves
           | _ \<Rightarrow> False))"

definition resolve_current_governed_official_facts ::
    "'d decimal_ops \<Rightarrow> (string \<Rightarrow> string) \<Rightarrow> (string \<Rightarrow> string \<Rightarrow> int) \<Rightarrow> semantic_scope
      \<Rightarrow> 'a law1_entry_scheme list \<Rightarrow> js_error + ('d, 'a law1_entry_scheme) governed_facts" where
  "resolve_current_governed_official_facts D sha256_hex locale_compare scope entries =
     (if entries = [] then Inr Facts_Not_Yet_Recorded
      else
        rbind (create_progress_semantic_verification_context sha256_hex locale_compare scope entries) (\<lambda>result.
          case result of
            Context_Invalid_Lineage reason \<Rightarrow> Inr (Facts_Invalid_Lineage reason)
          | Context_Valid context \<Rightarrow>
              (let leaves = current_leaves context;
                   eligible = filter (\<lambda>leaf. is_progress_actual_calculation_eligible (actual_status leaf)) leaves
               in if leaves = [] then Inr Facts_Not_Yet_Recorded
                  else if eligible = [] then Inr Facts_No_Eligible_Current_Fact
                  else
                    (case leaf_quantities D eligible Map.empty of
                       None \<Rightarrow> Inr Facts_Invalid_Numeric_Fact
                     | Some quantity_by_entry_id \<Rightarrow>
                         if \<not> all_leaves_proven context (entry_by_id entries) eligible
                         then Inr Facts_Semantics_Unproven
                         else
                           (let facts = map (\<lambda>entry. \<lparr>fact_entry = entry,
                                  fact_quantity = the (quantity_by_entry_id (entry_id entry))\<rparr>) eligible
                            in if length eligible \<noteq> length leaves then Inr (Facts_Incomplete facts)
                               else Inr (Facts_Complete facts))))))"

definition calculate_current_official_quantity ::
    "'d decimal_ops \<Rightarrow> (string \<Rightarrow> string) \<Rightarrow> (string \<Rightarrow> string \<Rightarrow> int) \<Rightarrow> semantic_scope
      \<Rightarrow> 'a law1_entry_scheme list \<Rightarrow> js_error + 'd official_quantity" where
  "calculate_current_official_quantity D sha256_hex locale_compare scope entries =
     rbind (resolve_current_governed_official_facts D sha256_hex locale_compare scope entries)
       (\<lambda>governed. Inr (calculate_current_official_quantity_from_governed D governed))"

section \<open>The projection to a cutoff date\<close>

datatype 'd actual_temporal_quantity =
    Actual_Quantity "'d official_quantity"
  | Actual_Invalid_Cutoff

fun project_facts_loop ::
    "'d decimal_ops \<Rightarrow> string \<Rightarrow> ('d, 'a semantic_entry_scheme) official_fact list \<Rightarrow> 'd \<Rightarrow> bool \<Rightarrow> 'd \<times> bool" where
  "project_facts_loop D cutoff [] subtotal unplaceable = (subtotal, unplaceable)"
| "project_facts_loop D cutoff (f # facts) subtotal unplaceable =
     (case work_date_wire (work_date (fact_entry f)) of
        None \<Rightarrow> project_facts_loop D cutoff facts subtotal True
      | Some wire \<Rightarrow>
          if wire \<le> cutoff
          then project_facts_loop D cutoff facts (d_plus D subtotal (fact_quantity f)) unplaceable
          else project_facts_loop D cutoff facts subtotal unplaceable)"

definition project_complete_or_incomplete ::
    "'d decimal_ops \<Rightarrow> string \<Rightarrow> bool \<Rightarrow> ('d, 'a semantic_entry_scheme) official_fact list \<Rightarrow> 'd official_quantity" where
  "project_complete_or_incomplete D cutoff incomplete facts =
     (case project_facts_loop D cutoff facts (d_of_int D 0) False of
        (subtotal, unplaceable) \<Rightarrow>
          if incomplete \<or> unplaceable then Quantity_Incomplete subtotal else Quantity_Complete subtotal)"

definition project_actual_temporal_official_quantity ::
    "'d decimal_ops \<Rightarrow> ('d, 'a semantic_entry_scheme) governed_facts \<Rightarrow> string \<Rightarrow> 'd actual_temporal_quantity" where
  "project_actual_temporal_official_quantity D governed cutoff =
     (if project_business_date_wire (JStr cutoff) = None then Actual_Invalid_Cutoff
      else
        Actual_Quantity
          (case governed of
             Facts_Not_Yet_Recorded \<Rightarrow> Quantity_Not_Yet_Recorded
           | Facts_No_Eligible_Current_Fact \<Rightarrow> Quantity_No_Eligible_Current_Fact
           | Facts_Invalid_Lineage reason \<Rightarrow> Quantity_Invalid_Lineage reason
           | Facts_Invalid_Numeric_Fact \<Rightarrow> Quantity_Invalid_Numeric_Fact
           | Facts_Semantics_Unproven \<Rightarrow> Quantity_Semantics_Unproven
           | Facts_Incomplete facts \<Rightarrow> project_complete_or_incomplete D cutoff True facts
           | Facts_Complete facts \<Rightarrow> project_complete_or_incomplete D cutoff False facts))"

definition calculate_actual_temporal_official_quantity ::
    "'d decimal_ops \<Rightarrow> (string \<Rightarrow> string) \<Rightarrow> (string \<Rightarrow> string \<Rightarrow> int) \<Rightarrow> semantic_scope
      \<Rightarrow> 'a law1_entry_scheme list \<Rightarrow> string \<Rightarrow> js_error + 'd actual_temporal_quantity" where
  "calculate_actual_temporal_official_quantity D sha256_hex locale_compare scope entries cutoff =
     rbind (resolve_current_governed_official_facts D sha256_hex locale_compare scope entries)
       (\<lambda>governed. Inr (project_actual_temporal_official_quantity D governed cutoff))"

fun governed_fact_list :: "('d, 'e) governed_facts \<Rightarrow> ('d, 'e) official_fact list" where
  "governed_fact_list (Facts_Incomplete facts) = facts"
| "governed_fact_list (Facts_Complete facts) = facts"
| "governed_fact_list _ = []"

definition actual_temporal_series_boundaries ::
    "('d, 'a semantic_entry_scheme) governed_facts list \<Rightarrow> string \<Rightarrow> js_error + string list" where
  "actual_temporal_series_boundaries governed_contexts cutoff =
     (if project_business_date_wire (JStr cutoff) = None
      then Inl (Plain_Error ''VALIDATED_TEMPORAL_CUTOFF_REQUIRED'')
      else
        Inr (stable_sort_by (\<le>)
          (foldl (\<lambda>boundaries governed.
             foldl (\<lambda>boundaries f.
                case work_date_wire (work_date (fact_entry f)) of
                  None \<Rightarrow> boundaries
                | Some wire \<Rightarrow> if wire \<le> cutoff then set_add boundaries wire else boundaries)
               boundaries (governed_fact_list governed))
             [cutoff] governed_contexts)))"

section \<open>Lemmas\<close>

lemma length_filter_eq_iff: "length (filter P xs) = length xs \<longleftrightarrow> (\<forall>x \<in> set xs. P x)"
proof (induction xs)
  case (Cons x xs)
  have "length (filter P xs) \<noteq> Suc (length xs)" by (metis Suc_n_not_le_n length_filter_le)
  with Cons show ?case by auto
qed simp

lemma mset_insert_by: "mset (insert_by le x ys) = add_mset x (mset ys)"
  by (induction ys) auto

lemma mset_stable_sort_by [simp]: "mset (stable_sort_by le xs) = mset xs"
  by (induction xs) (auto simp: mset_insert_by)

lemma mset_predecessors:
  "mset (predecessors entries) =
    image_mset the (filter_mset (\<lambda>s. s \<noteq> None) (image_mset supersedes_entry_id (mset entries)))"
  by (induction entries) (auto split: option.splits)

text \<open>The order of the entries does not matter to their lineage.\<close>

lemma lineage_lawful_mset:
  assumes "mset xs = mset ys"
  shows "lineage_lawful xs \<longleftrightarrow> lineage_lawful ys" "set (predecessors xs) = set (predecessors ys)"
proof -
  have p: "mset (predecessors xs) = mset (predecessors ys)" using assms by (simp add: mset_predecessors)
  have s: "set xs = set ys" using assms by (rule mset_eq_setD)
  have r: "precedes xs = precedes ys" using s by (simp add: precedes_def)
  have d: "distinct (map entry_id xs) \<longleftrightarrow> distinct (map entry_id ys)"
    "distinct (predecessors xs) \<longleftrightarrow> distinct (predecessors ys)"
    using assms p by (auto intro!: mset_eq_imp_distinct_iff)
  show "set (predecessors xs) = set (predecessors ys)" using p by (rule mset_eq_setD)
  then show "lineage_lawful xs \<longleftrightarrow> lineage_lawful ys" using d r s by (simp add: lineage_lawful_def)
qed

lemma entry_by_id_self:
  assumes "distinct (map entry_id entries)" "e \<in> set entries"
  shows "entry_by_id entries (entry_id e) = Some e"
proof -
  have "distinct (map fst (rev (map (\<lambda>e. (entry_id e, e)) entries)))"
    using assms(1) by (simp add: rev_map [symmetric] comp_def)
  then show ?thesis using assms(2) by (simp add: entry_by_id_def)
qed

lemma leaf_quantities_Some:
  assumes "leaf_quantities D ls m = Some m'" "distinct (map entry_id ls)"
  shows "(\<forall>l \<in> set ls. \<exists>q. d_parse D (installed_quantity l) = Some q \<and> \<not> d_is_nan D q \<and> d_is_finite D q \<and>
      \<not> d_is_negative D q \<and> m' (entry_id l) = Some q) \<and> (\<forall>x. x \<notin> entry_id ` set ls \<longrightarrow> m' x = m x)"
  using assms
proof (induction ls arbitrary: m)
  case (Cons l ls)
  obtain q where q: "d_parse D (installed_quantity l) = Some q" "\<not> d_is_nan D q" "d_is_finite D q"
    "\<not> d_is_negative D q" "leaf_quantities D ls (m(entry_id l \<mapsto> q)) = Some m'"
    using Cons(2) by (auto split: option.splits if_splits)
  have d: "distinct (map entry_id ls)" "entry_id l \<notin> entry_id ` set ls" using Cons(3) by simp_all
  note ih = Cons(1) [OF q(5) d(1)]
  then have "m' (entry_id l) = Some q" using d(2) by simp
  with q ih show ?case by auto
qed simp

lemma all_leaves_proven_iff:
  "all_leaves_proven ctx by_id ls \<longleftrightarrow>
    (\<forall>l \<in> set ls. \<exists>full pr. by_id (entry_id l) = Some full \<and>
      read_progress_semantic_authority ctx (audit_events full) = Proven pr)"
  by (induction ls) (auto split: option.splits semantic_authority.splits)

lemma context_valid_leaves:
  assumes "create_progress_semantic_verification_context sha lc scope entries = Inr (Context_Valid ctx)"
  shows "lineage_lawful entries" "set (current_leaves ctx) = {e \<in> set entries. entry_id e \<notin> set (predecessors entries)}"
    "distinct (map entry_id (current_leaves ctx))"
proof -
  obtain ls where ls: "select_current_calculation_lineage_leaves (sort_by_id lc entries) = Lineage_Valid ls"
    "current_leaves ctx = sort_by_id lc ls"
    using assms
    by (auto simp: create_progress_semantic_verification_context_def Let_def rbind_eq_Inr_iff
        split: lineage_selection.splits)
  have m: "mset (sort_by_id lc entries) = mset entries" by (simp add: sort_by_id_def)
  have v: "lineage_lawful (sort_by_id lc entries)"
    "ls = filter (\<lambda>e. entry_id e \<notin> set (predecessors (sort_by_id lc entries))) (sort_by_id lc entries)"
    using ls(1) by (simp_all add: select_leaves_valid_iff)
  show l: "lineage_lawful entries" using v(1) lineage_lawful_mset(1) [OF m] by simp
  show "set (current_leaves ctx) = {e \<in> set entries. entry_id e \<notin> set (predecessors entries)}"
    using ls(2) v(2) lineage_lawful_mset(2) [OF m] by (auto simp: sort_by_id_def)
  have "distinct (map entry_id (sort_by_id lc entries))" using v(1) by (simp add: lineage_lawful_def)
  then have "distinct (map entry_id ls)" by (simp add: v(2) distinct_map_filter)
  then show "distinct (map entry_id (current_leaves ctx))" by (simp add: ls(2) sort_by_id_def)
qed

lemma governed_facts_Inr:
  assumes "resolve_current_governed_official_facts D sha lc scope entries = Inr g"
    and "g = Facts_Complete facts \<or> g = Facts_Incomplete facts"
  obtains ctx m where
    "create_progress_semantic_verification_context sha lc scope entries = Inr (Context_Valid ctx)"
    "leaf_quantities D (filter (\<lambda>l. is_progress_actual_calculation_eligible (actual_status l)) (current_leaves ctx))
       Map.empty = Some m"
    "all_leaves_proven ctx (entry_by_id entries)
       (filter (\<lambda>l. is_progress_actual_calculation_eligible (actual_status l)) (current_leaves ctx))"
    "facts = map (\<lambda>e. \<lparr>fact_entry = e, fact_quantity = the (m (entry_id e))\<rparr>)
       (filter (\<lambda>l. is_progress_actual_calculation_eligible (actual_status l)) (current_leaves ctx))"
    "g = Facts_Complete facts \<longleftrightarrow>
       (\<forall>l \<in> set (current_leaves ctx). is_progress_actual_calculation_eligible (actual_status l))"
proof -
  have "entries \<noteq> []" using assms by (auto simp: resolve_current_governed_official_facts_def)
  then obtain r where r: "create_progress_semantic_verification_context sha lc scope entries = Inr r"
    using assms by (auto simp: resolve_current_governed_official_facts_def rbind_eq_Inr_iff)
  then obtain ctx where c: "r = Context_Valid ctx"
    using assms by (cases r) (auto simp: resolve_current_governed_official_facts_def split: if_splits)
  let ?e = "filter (\<lambda>l. is_progress_actual_calculation_eligible (actual_status l)) (current_leaves ctx)"
  have len: "length ?e = length (current_leaves ctx) \<longleftrightarrow>
      (\<forall>l \<in> set (current_leaves ctx). is_progress_actual_calculation_eligible (actual_status l))"
    by (rule length_filter_eq_iff)
  define eligible where "eligible = ?e"
  have eq: "(Inr g :: js_error + _) =
      (if current_leaves ctx = [] then Inr Facts_Not_Yet_Recorded
       else if eligible = [] then Inr Facts_No_Eligible_Current_Fact
       else case leaf_quantities D eligible Map.empty of
         None \<Rightarrow> Inr Facts_Invalid_Numeric_Fact
       | Some m \<Rightarrow>
           if \<not> all_leaves_proven ctx (entry_by_id entries) eligible then Inr Facts_Semantics_Unproven
           else if length eligible \<noteq> length (current_leaves ctx)
           then Inr (Facts_Incomplete (map (\<lambda>e. \<lparr>fact_entry = e, fact_quantity = the (m (entry_id e))\<rparr>) eligible))
           else Inr (Facts_Complete (map (\<lambda>e. \<lparr>fact_entry = e, fact_quantity = the (m (entry_id e))\<rparr>) eligible)))"
    using assms(1) \<open>entries \<noteq> []\<close> r c
    by (simp only: resolve_current_governed_official_facts_def Let_def if_False rbind_Inr semantic_context_result.case
        eligible_def)
  show ?thesis
  proof (cases "leaf_quantities D eligible Map.empty")
    case None
    then show ?thesis using eq assms(2) by (simp split: if_splits)
  next
    case (Some m)
    then have "all_leaves_proven ctx (entry_by_id entries) eligible"
      "facts = map (\<lambda>e. \<lparr>fact_entry = e, fact_quantity = the (m (entry_id e))\<rparr>) eligible"
      "g = Facts_Complete facts \<longleftrightarrow> length eligible = length (current_leaves ctx)"
      using eq assms(2) by (auto split: if_splits)
    then show ?thesis using that r c Some len unfolding eligible_def by blast
  qed
qed

lemma governed_facts_sound:
  assumes "resolve_current_governed_official_facts D sha lc scope entries = Inr g"
    and "g = Facts_Complete facts \<or> g = Facts_Incomplete facts"
  shows "\<exists>ctx. create_progress_semantic_verification_context sha lc scope entries = Inr (Context_Valid ctx) \<and>
    lineage_lawful entries \<and> distinct (map (\<lambda>f. entry_id (fact_entry f)) facts) \<and>
    fact_entry ` set facts = {e \<in> set entries. entry_id e \<notin> set (predecessors entries) \<and>
      is_progress_actual_calculation_eligible (actual_status e)} \<and>
    (g = Facts_Complete facts \<longleftrightarrow> (\<forall>e \<in> set entries. entry_id e \<notin> set (predecessors entries) \<longrightarrow>
      is_progress_actual_calculation_eligible (actual_status e))) \<and>
    (\<forall>f \<in> set facts. d_parse D (installed_quantity (fact_entry f)) = Some (fact_quantity f) \<and>
      d_is_finite D (fact_quantity f) \<and> \<not> d_is_negative D (fact_quantity f) \<and>
      (\<exists>pr. read_progress_semantic_authority ctx (audit_events (fact_entry f)) = Proven pr))"
proof -
  obtain ctx m where c: "create_progress_semantic_verification_context sha lc scope entries = Inr (Context_Valid ctx)"
    and q: "leaf_quantities D (filter (\<lambda>l. is_progress_actual_calculation_eligible (actual_status l)) (current_leaves ctx))
       Map.empty = Some m"
    and p: "all_leaves_proven ctx (entry_by_id entries)
       (filter (\<lambda>l. is_progress_actual_calculation_eligible (actual_status l)) (current_leaves ctx))"
    and f: "facts = map (\<lambda>e. \<lparr>fact_entry = e, fact_quantity = the (m (entry_id e))\<rparr>)
       (filter (\<lambda>l. is_progress_actual_calculation_eligible (actual_status l)) (current_leaves ctx))"
    and g: "g = Facts_Complete facts \<longleftrightarrow>
       (\<forall>l \<in> set (current_leaves ctx). is_progress_actual_calculation_eligible (actual_status l))"
    using assms by (rule governed_facts_Inr)
  note leaves = context_valid_leaves [OF c]
  have d: "distinct (map entry_id entries)" using leaves(1) by (simp add: lineage_lawful_def)
  have dq: "distinct (map entry_id (filter (\<lambda>l. is_progress_actual_calculation_eligible (actual_status l))
      (current_leaves ctx)))"
    using leaves(3) by (simp add: distinct_map_filter)
  have "d_parse D (installed_quantity (fact_entry x)) = Some (fact_quantity x) \<and>
      d_is_finite D (fact_quantity x) \<and> \<not> d_is_negative D (fact_quantity x) \<and>
      (\<exists>pr. read_progress_semantic_authority ctx (audit_events (fact_entry x)) = Proven pr)"
    if x: "x \<in> set facts" for x
  proof -
    obtain e where e: "x = \<lparr>fact_entry = e, fact_quantity = the (m (entry_id e))\<rparr>"
      "e \<in> set (filter (\<lambda>l. is_progress_actual_calculation_eligible (actual_status l)) (current_leaves ctx))"
      using x f by auto
    then have "entry_by_id entries (entry_id e) = Some e" using leaves(2) d by (intro entry_by_id_self) auto
    then show ?thesis
      using leaf_quantities_Some [OF q dq] p e by (auto simp: all_leaves_proven_iff)
  qed
  moreover have "fact_entry ` set facts = {e \<in> set entries. entry_id e \<notin> set (predecessors entries) \<and>
      is_progress_actual_calculation_eligible (actual_status e)}"
    using leaves(2) by (auto simp: f image_image)
  moreover have "distinct (map (\<lambda>f. entry_id (fact_entry f)) facts)"
    using dq by (simp add: f comp_def)
  moreover have "g = Facts_Complete facts \<longleftrightarrow> (\<forall>e \<in> set entries. entry_id e \<notin> set (predecessors entries) \<longrightarrow>
      is_progress_actual_calculation_eligible (actual_status e))"
    unfolding g using leaves(2) by auto
  ultimately show ?thesis using c leaves(1) by blast
qed

section \<open>The dated projection\<close>

definition fact_wire :: "('d, 'a semantic_entry_scheme) official_fact \<Rightarrow> string option" where
  "fact_wire f = work_date_wire (work_date (fact_entry f))"

definition dated_by :: "string \<Rightarrow> ('d, 'a semantic_entry_scheme) official_fact \<Rightarrow> bool" where
  "dated_by cutoff f \<longleftrightarrow> (case fact_wire f of None \<Rightarrow> False | Some wire \<Rightarrow> wire \<le> cutoff)"

lemma project_facts_loop_eq:
  "project_facts_loop D cutoff facts subtotal unplaceable =
    (foldl (\<lambda>subtotal f. d_plus D subtotal (fact_quantity f)) subtotal (filter (dated_by cutoff) facts),
     unplaceable \<or> (\<exists>f \<in> set facts. fact_wire f = None))"
  by (induction facts arbitrary: subtotal unplaceable)
    (auto simp: fact_wire_def dated_by_def split: option.splits)

lemma project_complete_or_incomplete_eq:
  "project_complete_or_incomplete D cutoff incomplete facts =
    (if incomplete \<or> (\<exists>f \<in> set facts. fact_wire f = None)
     then Quantity_Incomplete (sum_facts D (filter (dated_by cutoff) facts))
     else Quantity_Complete (sum_facts D (filter (dated_by cutoff) facts)))"
  by (simp add: project_complete_or_incomplete_def project_facts_loop_eq sum_facts_def)

lemma foldl_filter_if: "foldl f a (filter P xs) = foldl (\<lambda>c x. if P x then f c x else c) a xs"
  by (induction xs arbitrary: a) auto

context decimal_arith
begin

lemma dated_sum_mono:
  assumes le: "c \<le> c'"
    and facts: "\<forall>f \<in> set facts. d_is_finite D (fact_quantity f) \<and> \<not> d_is_negative D (fact_quantity f)"
    and fin: "d_is_finite D (sum_facts D (filter (dated_by c) facts))"
      "d_is_finite D (sum_facts D (filter (dated_by c') facts))"
  shows "val (sum_facts D (filter (dated_by c) facts)) \<le> val (sum_facts D (filter (dated_by c') facts))"
proof -
  define step where "step k a f = (if dated_by k f then d_plus D a (fact_quantity f) else a)" for k a and
    f :: "('d, 'a semantic_entry_scheme) official_fact"
  have eq: "sum_facts D (filter (dated_by k) facts) = foldl (step k) (d_of_int D 0) facts" for k
    by (simp add: sum_facts_def foldl_filter_if step_def [abs_def])
  have later: "dated_by c f \<longrightarrow> dated_by c' f" for f :: "('d, 'a semantic_entry_scheme) official_fact"
    using le by (auto simp: dated_by_def split: option.splits intro: order_trans)
  show ?thesis
    unfolding eq
  proof (rule foldl_plus_mono)
    fix a b f
    assume f: "f \<in> set facts" and settled: "settled a" "settled b" and fin: "d_is_finite D (step c a f)"
      "d_is_finite D (step c' b f)" "d_is_finite D a" "d_is_finite D b" and ab: "val a \<le> val b"
    have q: "0 \<le> val (fact_quantity f)" using facts f not_negative_law by blast
    have b: "val b \<le> rnd (val b + val (fact_quantity f))"
      using settled(2) fin(4) q by (intro rnd_add_nonneg) (simp_all add: settled_def)
    show "val (step c a f) \<le> val (step c' b f)"
    proof (cases "dated_by c f")
      case True
      then have s: "step c a f = d_plus D a (fact_quantity f)" "step c' b f = d_plus D b (fact_quantity f)"
        using later by (simp_all add: step_def)
      then show ?thesis
        using plus_law [of a "fact_quantity f"] plus_law [of b "fact_quantity f"] fin(1,2) ab
        by (simp add: rnd_mono)
    next
      case False
      then have s: "step c a f = a" by (simp add: step_def)
      show ?thesis
      proof (cases "dated_by c' f")
        case True
        then have "step c' b f = d_plus D b (fact_quantity f)" by (simp add: step_def)
        then show ?thesis using plus_law [of b "fact_quantity f"] fin(2) ab b s by simp
      qed (use s ab in \<open>simp add: step_def\<close>)
    qed
  qed (use fin eq settled_zero in \<open>auto simp: step_def\<close>)
qed

end

section \<open>Properties\<close>

text \<open>C18: LAW 1 accounts for every current entry and for nothing else. When the item has a
  COMPLETE or an INCOMPLETE result, the correction lineages are lawful; the facts counted are
  exactly the entries nobody supersedes whose status is VERIFIED or ACCEPTED, each once; the
  result is COMPLETE exactly when no current entry was left out; every quantity is the finite,
  nonnegative number of its entry; and every counted entry is confirmed by its audit trail.\<close>

theorem current_official_facts_account_for_leaves:
  assumes "resolve_current_governed_official_facts D sha lc scope entries = Inr g"
    and "g = Facts_Complete facts \<or> g = Facts_Incomplete facts"
  shows "\<exists>ctx. create_progress_semantic_verification_context sha lc scope entries = Inr (Context_Valid ctx) \<and>
    lineage_lawful entries \<and> distinct (map (\<lambda>f. entry_id (fact_entry f)) facts) \<and>
    fact_entry ` set facts = {e \<in> set entries. entry_id e \<notin> set (predecessors entries) \<and>
      is_progress_actual_calculation_eligible (actual_status e)} \<and>
    (g = Facts_Complete facts \<longleftrightarrow> (\<forall>e \<in> set entries. entry_id e \<notin> set (predecessors entries) \<longrightarrow>
      is_progress_actual_calculation_eligible (actual_status e))) \<and>
    (\<forall>f \<in> set facts. d_parse D (installed_quantity (fact_entry f)) = Some (fact_quantity f) \<and>
      d_is_finite D (fact_quantity f) \<and> \<not> d_is_negative D (fact_quantity f) \<and>
      (\<exists>pr. read_progress_semantic_authority ctx (audit_events (fact_entry f)) = Proven pr))"
  using assms by (rule governed_facts_sound)

text \<open>The dated projection and the undated law agree. Once the cutoff is at or after the
  work date of every counted fact (and each has one), projecting the governed facts to the
  cutoff gives the very result of LAW 1.\<close>

theorem cutoff_after_every_work_date:
  assumes "project_business_date_wire (JStr cutoff) \<noteq> None"
    and "\<forall>f \<in> set (governed_fact_list g). dated_by cutoff f"
  shows "project_actual_temporal_official_quantity D g cutoff =
    Actual_Quantity (calculate_current_official_quantity_from_governed D g)"
proof -
  have wire: "fact_wire f \<noteq> None" if "dated_by cutoff f" for f :: "('a, 'b semantic_entry_scheme) official_fact"
    using that by (cases "fact_wire f") (simp_all add: dated_by_def)
  have "filter (dated_by cutoff) (governed_fact_list g) = governed_fact_list g"
    using assms(2) by (simp add: filter_id_conv)
  moreover have "\<not> (\<exists>f \<in> set (governed_fact_list g). fact_wire f = None)" using assms(2) wire by blast
  ultimately show ?thesis
    using assms(1)
    by (cases g) (auto simp: project_actual_temporal_official_quantity_def project_complete_or_incomplete_eq)
qed

text \<open>The official quantity of an item never decreases with the cutoff date, in spite of the
  rounding of the decimal sums: more facts are counted and none of them is negative.\<close>

theorem official_quantity_monotone_in_cutoff:
  assumes "decimal_arith D val rnd" and "c \<le> c'"
    and "calculate_actual_temporal_official_quantity D sha lc scope entries c =
      Inr (Actual_Quantity (Quantity_Complete q))"
    and "calculate_actual_temporal_official_quantity D sha lc scope entries c' =
      Inr (Actual_Quantity (Quantity_Complete q'))"
    and "d_is_finite D q" and "d_is_finite D q'"
  shows "val q \<le> val q'"
proof -
  obtain g where g: "resolve_current_governed_official_facts D sha lc scope entries = Inr g"
    "project_actual_temporal_official_quantity D g c = Actual_Quantity (Quantity_Complete q)"
    "project_actual_temporal_official_quantity D g c' = Actual_Quantity (Quantity_Complete q')"
    using assms(3,4) by (auto simp: calculate_actual_temporal_official_quantity_def rbind_eq_Inr_iff)
  then obtain facts where facts: "g = Facts_Complete facts"
    by (cases g) (auto simp: project_actual_temporal_official_quantity_def project_complete_or_incomplete_eq
        split: if_splits)
  then have q: "q = sum_facts D (filter (dated_by c) facts)" "q' = sum_facts D (filter (dated_by c') facts)"
    using g by (auto simp: project_actual_temporal_official_quantity_def project_complete_or_incomplete_eq
        split: if_splits)
  have "\<forall>f \<in> set facts. d_is_finite D (fact_quantity f) \<and> \<not> d_is_negative D (fact_quantity f)"
    using governed_facts_sound [OF g(1), of facts] facts by auto
  then show ?thesis
    using decimal_arith.dated_sum_mono [OF assms(1,2)] assms(5,6) q by blast
qed

lemma series_inner:
  "set (foldl (\<lambda>bs f. case work_date_wire (work_date (fact_entry f)) of None \<Rightarrow> bs
      | Some wire \<Rightarrow> if wire \<le> cutoff then set_add bs wire else bs) bs facts) =
    set bs \<union> {w. \<exists>f \<in> set facts. fact_wire f = Some w \<and> w \<le> cutoff}"
  "distinct bs \<Longrightarrow> distinct (foldl (\<lambda>bs f. case work_date_wire (work_date (fact_entry f)) of None \<Rightarrow> bs
      | Some wire \<Rightarrow> if wire \<le> cutoff then set_add bs wire else bs) bs facts)"
  by (induction facts arbitrary: bs) (auto simp: fact_wire_def set_add_properties split: option.splits)

lemma series_outer:
  "set (foldl (\<lambda>bs g. foldl (\<lambda>bs f. case work_date_wire (work_date (fact_entry f)) of None \<Rightarrow> bs
      | Some wire \<Rightarrow> if wire \<le> cutoff then set_add bs wire else bs) bs (governed_fact_list g)) bs gs) =
    set bs \<union> {w. \<exists>g \<in> set gs. \<exists>f \<in> set (governed_fact_list g). fact_wire f = Some w \<and> w \<le> cutoff}"
  "distinct bs \<Longrightarrow> distinct (foldl (\<lambda>bs g. foldl (\<lambda>bs f. case work_date_wire (work_date (fact_entry f)) of None \<Rightarrow> bs
      | Some wire \<Rightarrow> if wire \<le> cutoff then set_add bs wire else bs) bs (governed_fact_list g)) bs gs)"
  by (induction gs arbitrary: bs) (auto simp: series_inner)

lemma sorted_distinct_last:
  fixes xs :: "'a :: linorder list"
  assumes "sorted_wrt (\<le>) xs" "\<forall>x \<in> set xs. x \<le> m" "m \<in> set xs"
  shows "last xs = m"
proof -
  obtain ys where "xs = ys @ [last xs]" using assms(3) by (cases xs rule: rev_cases) auto
  then have "\<forall>y \<in> set xs. y \<le> last xs" using assms(1) by (metis sorted_wrt_append list.set_intros(1) in_set_conv_decomp
    Un_iff order_refl set_append set_ConsD empty_iff list.set(1))
  then show ?thesis using assms(2,3) \<open>xs = ys @ [last xs]\<close> by (metis antisym in_set_conv_decomp)
qed

lemma series_boundaries_props:
  assumes "actual_temporal_series_boundaries gs cutoff = Inr bs"
  shows "sorted_wrt (<) bs" "last bs = cutoff"
    and series_boundaries_set: "set bs = insert cutoff
      {w. \<exists>g \<in> set gs. \<exists>f \<in> set (governed_fact_list g). fact_wire f = Some w \<and> w \<le> cutoff}"
proof -
  define dates where "dates = foldl (\<lambda>bs g. foldl (\<lambda>bs f. case work_date_wire (work_date (fact_entry f)) of None \<Rightarrow> bs
      | Some wire \<Rightarrow> if wire \<le> cutoff then set_add bs wire else bs) bs (governed_fact_list g)) [cutoff] gs"
  have bs: "bs = stable_sort_by (\<le>) dates"
    using assms by (simp add: actual_temporal_series_boundaries_def dates_def split: if_splits)
  have set: "set bs = insert cutoff {w. \<exists>g \<in> set gs. \<exists>f \<in> set (governed_fact_list g). fact_wire f = Some w \<and> w \<le> cutoff}"
    unfolding bs dates_def by (simp add: series_outer)
  have "distinct dates" unfolding dates_def by (rule series_outer(2)) simp
  then have d: "distinct bs" unfolding bs using distinct_map_stable_sort_by [of "\<lambda>x :: string. x"] by simp
  have s: "sorted_wrt (\<le>) bs" unfolding bs by (rule sorted_stable_sort_by) auto
  then show "sorted_wrt (<) bs" using d by (simp add: strict_sorted_iff)
  show "last bs = cutoff" using s set by (intro sorted_distinct_last) auto
  show "set bs = insert cutoff {w. \<exists>g \<in> set gs. \<exists>f \<in> set (governed_fact_list g). fact_wire f = Some w \<and> w \<le> cutoff}"
    by (rule set)
qed

text \<open>The dates of the actual series. They are the cutoff and the distinct work dates of the
  counted facts up to it, in strictly ascending order, the cutoff last.\<close>

theorem series_boundaries_are_the_dates:
  assumes "actual_temporal_series_boundaries gs cutoff = Inr bs"
  shows "sorted_wrt (<) bs \<and> last bs = cutoff \<and>
    set bs = insert cutoff {w. \<exists>g \<in> set gs. \<exists>f \<in> set (governed_fact_list g). fact_wire f = Some w \<and> w \<le> cutoff}"
  using series_boundaries_props [OF assms] by blast

section \<open>Witnesses\<close>

text \<open>An item with two verified entries, 5 on 2026-02-10 and 3 on 2026-02-20, both confirmed.\<close>

definition sample_scope :: semantic_scope where
  "sample_scope = \<lparr>project_id = ''P'', active_baseline_id = ''B'', boq_item_id = ''I''\<rparr>"

definition sample_event :: semantic_audit_candidate where
  "sample_event =
     \<lparr>audit_action = MON04_SEMANTIC_AUDIT_ACTION, audit_outcome = SUCCESS,
      audit_metadata = JObj
        [(''policyVersion'', JStr MON04_SEMANTIC_POLICY_VERSION),
         (''attestationType'', JStr MON04_SEMANTIC_ATTESTATION_TYPE),
         (''contextVersion'', JNum MON04_SEMANTIC_CONTEXT_VERSION),
         (''activeBaselineId'', JStr ''B''), (''boqItemId'', JStr ''I''), (''contextDigest'', JStr ''H''),
         (''currentLeafIds'', JArr [JStr ''a'', JStr ''b'']), (''explicitConfirmation'', JBool True)],
      occurred_at = Date_Time 0, actor_account_id = ''acc'',
      authority_code = Some PROGRESS_AUTHORITIES_VERIFY, actor_display_name = None\<rparr>"

definition sample_entry :: "string \<Rightarrow> string \<Rightarrow> int \<Rightarrow> law1_entry" where
  "sample_entry k quantity day =
     \<lparr>entry_id = k, supersedes_entry_id = None, installed_quantity = quantity,
      work_date = Some (Date_Time (ms_per_day * day)), actual_status = VERIFIED,
      capture_method = ''MANUAL'', evidence_references = JNull, entry_notes = None,
      correction_reason_code = None, correction_reason = None, recorded_by_account_id = None,
      revision = 1, audit_events = [sample_event]\<rparr>"

definition sample_entries :: "law1_entry list" where
  "sample_entries = [sample_entry ''a'' ''5'' 20494, sample_entry ''b'' ''3'' 20504]"

definition sample_facts :: "(rat option, law1_entry) official_fact list" where
  "sample_facts =
     [\<lparr>fact_entry = sample_entry ''a'' ''5'' 20494, fact_quantity = Some 5\<rparr>,
      \<lparr>fact_entry = sample_entry ''b'' ''3'' 20504, fact_quantity = Some 3\<rparr>]"

lemma sample_leaves: "select_current_calculation_lineage_leaves sample_entries = Lineage_Valid sample_entries"
proof -
  have "predecessors sample_entries = []" "precedes sample_entries = {}"
    by (auto simp: predecessors_def precedes_def sample_entries_def sample_entry_def)
  moreover have "distinct (map entry_id sample_entries)" by (simp add: sample_entries_def sample_entry_def)
  ultimately show ?thesis by (simp add: select_leaves_valid_iff lineage_lawful_def acyclic_def)
      (simp add: sample_entries_def sample_entry_def)
qed

lemma sample_parse: "parse_fixed ''5'' = Some 5" "parse_fixed ''3'' = Some 3"
  by code_simp+

lemma sample_sort: "sort_by_id (\<lambda>_ _. 0) sample_entries = sample_entries"
  by (simp add: sort_by_id_def sample_entries_def)

definition sample_ctx :: "law1_entry semantic_context" where
  "sample_ctx = \<lparr>context_scope = sample_scope, context_digest = ''H'',
     current_leaves = sample_entries, current_leaf_ids = [''a'', ''b'']\<rparr>"

lemma sample_ctx:
  "create_progress_semantic_verification_context (\<lambda>_. ''H'') (\<lambda>_ _. 0) sample_scope sample_entries =
    Inr (Context_Valid sample_ctx)"
proof -
  have "\<exists>vs. map_throwing semantic_entry_digest_projection sample_entries = Inr vs"
    by (simp add: sample_entries_def sample_entry_def semantic_entry_digest_projection_def work_date_iso_def)
  moreover have "map entry_id sample_entries = [''a'', ''b'']" by (simp add: sample_entries_def sample_entry_def)
  ultimately show ?thesis
    by (auto simp: create_progress_semantic_verification_context_def sample_sort sample_leaves
        stable_digest_def sample_ctx_def)
qed

lemma sample_proven: "read_progress_semantic_authority sample_ctx [sample_event] = Proven (proof_of_event sample_event)"
proof -
  have "as_proof_metadata (audit_metadata sample_event) = Some \<lparr>pm_active_baseline_id = ''B'', pm_boq_item_id = ''I'',
      pm_context_digest = ''H'', pm_current_leaf_ids = [''a'', ''b'']\<rparr>"
    by (simp add: sample_event_def as_proof_metadata_def js_prop_def)
  then show ?thesis
    by (simp add: read_progress_semantic_authority_def sample_event_def metadata_matches_def sample_ctx_def
        sample_scope_def proof_of_event_def)
qed

lemma sample_governed:
  "resolve_current_governed_official_facts decimal20 (\<lambda>_. ''H'') (\<lambda>_ _. 0) sample_scope sample_entries =
    Inr (Facts_Complete sample_facts)"
proof -
  have "current_leaves sample_ctx = sample_entries" by (simp add: sample_ctx_def)
  moreover have "all_leaves_proven sample_ctx (entry_by_id sample_entries) sample_entries"
    by (simp add: sample_entries_def sample_entry_def entry_by_id_def sample_proven)
  ultimately show ?thesis
    by (simp add: resolve_current_governed_official_facts_def sample_ctx)
      (simp add: sample_entries_def sample_entry_def sample_facts_def decimal20_simps sample_parse)
qed

lemma sample_wires:
  "work_date_wire (Some (Date_Time (ms_per_day * 20494))) = Some ''2026-02-10''"
  "work_date_wire (Some (Date_Time (ms_per_day * 20504))) = Some ''2026-02-20''"
  by code_simp+

lemma sample_order: "''2026-02-10'' \<le> ''2026-02-15''" "\<not> ''2026-02-20'' \<le> ''2026-02-15''" "''2026-02-10'' \<le> ''2026-02-20''"
   "''2026-02-15'' \<le> ''2026-02-20''"
  by code_simp+

lemma sample_dates: "project_business_date_wire (JStr ''2026-02-15'') = Some ''2026-02-15''"
  "project_business_date_wire (JStr ''2026-02-20'') = Some ''2026-02-20''"
  by code_simp+

lemma sample_dated: "dated_by ''2026-02-15'' f \<longleftrightarrow> f = hd sample_facts" "dated_by ''2026-02-20'' f" if "f \<in> set sample_facts"
  using that sample_order by (auto simp: sample_facts_def dated_by_def fact_wire_def sample_entry_def sample_wires)

lemma sample_quantity:
  "calculate_actual_temporal_official_quantity decimal20 (\<lambda>_. ''H'') (\<lambda>_ _. 0) sample_scope sample_entries ''2026-02-15'' =
    Inr (Actual_Quantity (Quantity_Complete (Some 5)))"
  "calculate_actual_temporal_official_quantity decimal20 (\<lambda>_. ''H'') (\<lambda>_ _. 0) sample_scope sample_entries ''2026-02-20'' =
    Inr (Actual_Quantity (Quantity_Complete (Some 8)))"
  using sample_order
  by (simp_all add: calculate_actual_temporal_official_quantity_def sample_governed
      project_actual_temporal_official_quantity_def sample_dates project_complete_or_incomplete_def
      sample_facts_def sample_entry_def sample_wires decimal20_simps round20_values)

theorem current_official_facts_account_for_leaves_witness:
  "\<exists>ctx. create_progress_semantic_verification_context (\<lambda>_. ''H'') (\<lambda>_ _. 0) sample_scope sample_entries =
      Inr (Context_Valid ctx) \<and> lineage_lawful sample_entries \<and>
    fact_entry ` set sample_facts = {e \<in> set sample_entries. entry_id e \<notin> set (predecessors sample_entries) \<and>
      is_progress_actual_calculation_eligible (actual_status e)} \<and>
    (\<forall>f \<in> set sample_facts. \<exists>pr. read_progress_semantic_authority ctx (audit_events (fact_entry f)) = Proven pr)"
  using current_official_facts_account_for_leaves [OF sample_governed, of sample_facts] by blast

theorem cutoff_after_every_work_date_witness:
  "project_actual_temporal_official_quantity decimal20 (Facts_Complete sample_facts) ''2026-02-20'' =
    Actual_Quantity (calculate_current_official_quantity_from_governed decimal20 (Facts_Complete sample_facts))"
  by (rule cutoff_after_every_work_date) (simp_all add: sample_dates sample_dated)

theorem official_quantity_monotone_in_cutoff_witness: "val20 (Some 5) \<le> val20 (Some 8)"
  by (rule official_quantity_monotone_in_cutoff
      [OF decimal20_arith.decimal_arith_axioms sample_order(4) sample_quantity]) (simp_all add: decimal20_simps)

lemma sample_boundaries:
  "actual_temporal_series_boundaries [Facts_Complete sample_facts] ''2026-02-20'' = Inr [''2026-02-10'', ''2026-02-20'']"
  using sample_order
  by (simp add: actual_temporal_series_boundaries_def sample_dates sample_facts_def sample_entry_def sample_wires
      set_add_def stable_sort_by_def)

theorem series_boundaries_are_the_dates_witness:
  "sorted_wrt (<) [''2026-02-10'', ''2026-02-20''] \<and> last [''2026-02-10'', ''2026-02-20''] = ''2026-02-20'' \<and>
    set [''2026-02-10'', ''2026-02-20''] = insert ''2026-02-20''
      {w. \<exists>g \<in> set [Facts_Complete sample_facts]. \<exists>f \<in> set (governed_fact_list g). fact_wire f = Some w \<and> w \<le> ''2026-02-20''}"
  using series_boundaries_are_the_dates [OF sample_boundaries] .

end
