(* ===== verification/MonitoringWeight.thy ===== *)
theory MonitoringWeight
  imports "HOL-Library.Multiset" Decimal
begin

text \<open>
  \<open>progress/monitoring-weight.ts\<close> (H2-A1): the weight of each RAB row in the baseline total.

  \<open>order_depth_first\<close> is the reading order of the rows; the recursive \<open>visit\<close> of the code is
  written with its pending loops as an explicit stack, which visits the same rows in the
  same order. \<open>project_monitoring_weights\<close> is the projection, one definition per step.

  The properties: no row is lost by the ordering and none is shown twice, the counts add up, and
  a COMPLETE project has an available weight on every work item, which is what LAW 3 relies on.
\<close>

section \<open>Types\<close>

datatype monitoring_weight_reason =
    BASELINE_VALUE_UNAVAILABLE
  | ZERO_BASELINE_DENOMINATOR
  | INVALID_BASELINE_DENOMINATOR
  | ITEM_VALUE_UNAVAILABLE
  | INCOMPLETE_BASELINE_VALUE_COVERAGE

datatype monitoring_weight_fact =
    Weight_Available string
  | Weight_Unavailable monitoring_weight_reason
  | Weight_Not_Applicable

record monitoring_row_weight =
  own_weight :: monitoring_weight_fact
  subtree_weight :: monitoring_weight_fact
  cumulative_weight :: monitoring_weight_fact

datatype weight_completeness = Weights_Complete | Weights_Incomplete | Weights_Unavailable

record monitoring_project_weight =
  weight_completeness_of :: weight_completeness
  weight_reason :: "monitoring_weight_reason option"
  weight_denominator :: "string option"
  eligible_work_item_count :: nat
  weighted_work_item_count :: nat
  unavailable_work_item_count :: nat

record 'd weight_row =
  row_id :: string
  row_parent_id :: "string option"
  row_item_type :: string
  row_sort_order :: int
  row_line_total :: "'d option"

record monitoring_weight_projection =
  projection_project :: monitoring_project_weight
  projection_rows :: "(string \<times> monitoring_row_weight) list"

section \<open>The reading order\<close>

definition sort_rows :: "'d weight_row list \<Rightarrow> 'd weight_row list" where
  "sort_rows rows = stable_sort_by (\<lambda>left right. row_sort_order left \<le> row_sort_order right) rows"

text \<open>\<open>children.get(parent) ?? []\<close>: the rows filed under a parent; a missing parent is \<open>null\<close>.\<close>

definition effective_parent :: "'d weight_row list \<Rightarrow> 'd weight_row \<Rightarrow> string option" where
  "effective_parent sorted_rows row =
     (case row_parent_id row of
        None \<Rightarrow> None
      | Some p \<Rightarrow> if p \<noteq> [] \<and> p \<in> row_id ` set sorted_rows then Some p else None)"

definition children_of :: "'d weight_row list \<Rightarrow> string option \<Rightarrow> 'd weight_row list" where
  "children_of sorted_rows parent = filter (\<lambda>row. effective_parent sorted_rows row = parent) sorted_rows"

lemma children_of_foreign: "p \<notin> row_id ` set rows \<Longrightarrow> children_of rows (Some p) = []"
  by (auto simp: children_of_def effective_parent_def filter_empty_conv split: option.splits)

function visit ::
    "'d weight_row list \<Rightarrow> ('d weight_row \<times> nat) list \<Rightarrow> ('d weight_row \<times> nat) list \<Rightarrow> ('d weight_row \<times> nat) list" where
  "visit sorted_rows [] result = result"
| "visit sorted_rows ((row, depth) # pending) result =
     (if row_id row \<in> (\<lambda>r. row_id (fst r)) ` set result then visit sorted_rows pending result
      else visit sorted_rows
        (map (\<lambda>child. (child, depth + 1)) (children_of sorted_rows (Some (row_id row))) @ pending)
        (result @ [(row, depth)]))"
  by pat_completeness auto

text \<open>Every row that is emitted is new; only a row from outside the list has no children.\<close>

definition unvisited :: "'d weight_row list \<Rightarrow> ('d weight_row \<times> nat) list \<Rightarrow> string set" where
  "unvisited rows result = row_id ` set rows - (\<lambda>r. row_id (fst r)) ` set result"

termination visit
proof (relation "(\<lambda>(rows, pending, result). card (unvisited rows result)) <*mlex*>
    measure (\<lambda>(rows, pending, result). length pending)")
  fix rows :: "'d weight_row list" and row :: "'d weight_row" and depth :: nat
    and pending result :: "('d weight_row \<times> nat) list"
  assume new: "row_id row \<notin> (\<lambda>r. row_id (fst r)) ` set result"
  let ?r = "result @ [(row, depth)]"
  have u: "unvisited rows ?r = unvisited rows result - {row_id row}"
    by (auto simp: unvisited_def)
  show "((rows, map (\<lambda>c. (c, depth + 1)) (children_of rows (Some (row_id row))) @ pending, ?r),
      rows, (row, depth) # pending, result)
    \<in> (\<lambda>(rows, pending, result). card (unvisited rows result)) <*mlex*>
      measure (\<lambda>(rows, pending, result). length pending)"
  proof (cases "row_id row \<in> row_id ` set rows")
    case True
    then have "row_id row \<in> unvisited rows result" "finite (unvisited rows result)"
      using new by (auto simp: unvisited_def)
    then have "card (unvisited rows ?r) < card (unvisited rows result)"
      unfolding u by (intro card_Diff1_less)
    then show ?thesis by (intro mlex_less) simp
  next
    case False
    then have "unvisited rows ?r = unvisited rows result" unfolding u by (auto simp: unvisited_def)
    with children_of_foreign [OF False] show ?thesis by (intro mlex_leq) simp_all
  qed
next
  fix rows :: "'d weight_row list" and row :: "'d weight_row" and depth :: nat
    and pending result :: "('d weight_row \<times> nat) list"
  show "((rows, pending, result), rows, (row, depth) # pending, result)
    \<in> (\<lambda>(rows, pending, result). card (unvisited rows result)) <*mlex*>
      measure (\<lambda>(rows, pending, result). length pending)"
    by (intro mlex_leq) simp_all
qed (simp add: wf_mlex)

fun visit_remaining ::
    "'d weight_row list \<Rightarrow> 'd weight_row list \<Rightarrow> ('d weight_row \<times> nat) list \<Rightarrow> ('d weight_row \<times> nat) list" where
  "visit_remaining sorted_rows [] result = result"
| "visit_remaining sorted_rows (row # rows) result =
     (if row_id row \<in> (\<lambda>r. row_id (fst r)) ` set result then visit_remaining sorted_rows rows result
      else visit_remaining sorted_rows rows
        (visit sorted_rows (map (\<lambda>child. (child, 1)) (children_of sorted_rows (Some (row_id row))))
          (result @ [(row, 0)])))"

definition order_depth_first :: "'d weight_row list \<Rightarrow> ('d weight_row \<times> nat) list" where
  "order_depth_first rows =
     (let sorted_rows = sort_rows rows
      in visit_remaining sorted_rows sorted_rows
           (visit sorted_rows (map (\<lambda>child. (child, 0)) (children_of sorted_rows None)) []))"

section \<open>The projection\<close>

text \<open>\<open>.replace(/(\.\d*?[1-9])0+$|\.0+$/u, '$1')\<close> on a fixed-point decimal.\<close>

definition strip_fraction_zeros :: "string \<Rightarrow> string" where
  "strip_fraction_zeros s =
     (let whole = takeWhile (\<lambda>c. c \<noteq> CHR ''.'') s;
          fraction = drop 1 (dropWhile (\<lambda>c. c \<noteq> CHR ''.'') s);
          kept = rev (dropWhile (\<lambda>c. c = CHR ''0'') (rev fraction))
      in if fraction = [] then s
         else if kept = [] then whole else whole @ ''.'' @ kept)"

definition percentage_wire_value :: "'d decimal_ops \<Rightarrow> 'd \<Rightarrow> string" where
  "percentage_wire_value D value = strip_fraction_zeros (d_to_fixed D 20 value)"

definition percentage :: "'d decimal_ops \<Rightarrow> 'd \<Rightarrow> 'd \<Rightarrow> monitoring_weight_fact" where
  "percentage D value denominator =
     Weight_Available (percentage_wire_value D (d_div D (d_mul D value (d_of_int D 100)) denominator))"

definition is_work_item :: "'d weight_row \<times> nat \<Rightarrow> bool" where
  "is_work_item r \<longleftrightarrow> row_item_type (fst r) = ''WORK_ITEM''"

definition denominator_reason_of :: "'d decimal_ops \<Rightarrow> 'd option \<Rightarrow> monitoring_weight_reason option" where
  "denominator_reason_of D denominator =
     (case denominator of
        None \<Rightarrow> Some BASELINE_VALUE_UNAVAILABLE
      | Some d \<Rightarrow>
          if d_is_zero D d then Some ZERO_BASELINE_DENOMINATOR
          else if d_is_negative D d then Some INVALID_BASELINE_DENOMINATOR
          else None)"

definition item_value_sum :: "'d decimal_ops \<Rightarrow> ('d weight_row \<times> nat) list \<Rightarrow> 'd" where
  "item_value_sum D work_items =
     foldl (\<lambda>sum row. case row_line_total (fst row) of None \<Rightarrow> sum | Some v \<Rightarrow> d_plus D sum v)
       (d_of_int D 0) work_items"

definition project_weight_of ::
    "'d decimal_ops \<Rightarrow> ('d weight_row \<times> nat) list \<Rightarrow> 'd option \<Rightarrow> monitoring_project_weight" where
  "project_weight_of D work_items denominator =
     (let reason = denominator_reason_of D denominator;
          available = length (filter (\<lambda>row. row_line_total (fst row) \<noteq> None) work_items);
          weighted = (if reason = None then available else 0);
          coverage_complete =
            (case denominator of
               None \<Rightarrow> False
             | Some d \<Rightarrow> reason = None \<and> available = length work_items
                 \<and> d_equals D (item_value_sum D work_items) d)
      in \<lparr>weight_completeness_of =
            (if reason \<noteq> None then Weights_Unavailable
             else if coverage_complete then Weights_Complete else Weights_Incomplete),
          weight_reason =
            (if reason \<noteq> None then reason
             else if coverage_complete then None else Some INCOMPLETE_BASELINE_VALUE_COVERAGE),
          weight_denominator =
            (if reason = None then map_option (d_to_fixed D 2) denominator else None),
          eligible_work_item_count = length work_items,
          weighted_work_item_count = weighted,
          unavailable_work_item_count = length work_items - weighted\<rparr>)"

text \<open>The running sums over the work items: the value so far and how many values were missing.\<close>

fun prefix_sums ::
    "'d decimal_ops \<Rightarrow> ('d weight_row \<times> nat) list \<Rightarrow> 'd \<Rightarrow> nat \<Rightarrow> ('d \<times> nat) list" where
  "prefix_sums D [] running_value running_missing = []"
| "prefix_sums D (row # rows) running_value running_missing =
     (case row_line_total (fst row) of
        None \<Rightarrow> (running_value, running_missing + 1) # prefix_sums D rows running_value (running_missing + 1)
      | Some v \<Rightarrow>
          (d_plus D running_value v, running_missing)
            # prefix_sums D rows (d_plus D running_value v) running_missing)"

fun position_of :: "string \<Rightarrow> ('d weight_row \<times> nat) list \<Rightarrow> nat option" where
  "position_of k [] = None"
| "position_of k (row # rows) =
     (if row_id (fst row) = k then Some 0 else map_option Suc (position_of k rows))"

definition descendant_work_items ::
    "('d weight_row \<times> nat) list \<Rightarrow> 'd weight_row \<times> nat \<Rightarrow> ('d weight_row \<times> nat) list" where
  "descendant_work_items ordered row =
     (case position_of (row_id (fst row)) ordered of
        None \<Rightarrow> []
      | Some start \<Rightarrow>
          filter is_work_item (takeWhile (\<lambda>candidate. snd candidate > snd row) (drop (start + 1) ordered)))"

definition row_weight_of ::
    "'d decimal_ops \<Rightarrow> ('d weight_row \<times> nat) list \<Rightarrow> 'd option \<Rightarrow> 'd weight_row \<times> nat \<Rightarrow> monitoring_row_weight" where
  "row_weight_of D ordered denominator row =
     (if row_item_type (fst row) = ''NOTE'' then
        \<lparr>own_weight = Weight_Not_Applicable, subtree_weight = Weight_Not_Applicable,
         cumulative_weight = Weight_Not_Applicable\<rparr>
      else
        (let work_items = filter is_work_item ordered;
             prefixes = prefix_sums D work_items (d_of_int D 0) 0;
             reason = denominator_reason_of D denominator;
             relevant = (if is_work_item row then [row] else descendant_work_items ordered row);
             own =
               (if \<not> is_work_item row then Weight_Not_Applicable
                else case reason of
                  Some r \<Rightarrow> Weight_Unavailable r
                | None \<Rightarrow>
                    (case row_line_total (fst row) of
                       None \<Rightarrow> Weight_Unavailable ITEM_VALUE_UNAVAILABLE
                     | Some v \<Rightarrow> percentage D v (the denominator)));
             subtree_value =
               foldl (\<lambda>sum item. d_plus D sum
                   (case row_line_total (fst item) of None \<Rightarrow> d_of_int D 0 | Some v \<Rightarrow> v))
                 (d_of_int D 0) relevant;
             subtree =
               (if is_work_item row then Weight_Not_Applicable
                else case reason of
                  Some r \<Rightarrow> Weight_Unavailable r
                | None \<Rightarrow>
                    if \<exists>item \<in> set relevant. row_line_total (fst item) = None
                    then Weight_Unavailable INCOMPLETE_BASELINE_VALUE_COVERAGE
                    else percentage D subtree_value (the denominator));
             cumulative =
               (case (if relevant = [] then None else position_of (row_id (fst (last relevant))) work_items) of
                  None \<Rightarrow> Weight_Not_Applicable
                | Some position \<Rightarrow>
                    (case reason of
                       Some r \<Rightarrow> Weight_Unavailable r
                     | None \<Rightarrow>
                         if snd (prefixes ! position) > 0
                         then Weight_Unavailable INCOMPLETE_BASELINE_VALUE_COVERAGE
                         else percentage D (fst (prefixes ! position)) (the denominator)))
         in \<lparr>own_weight = own, subtree_weight = subtree, cumulative_weight = cumulative\<rparr>))"

definition project_monitoring_weights ::
    "'d decimal_ops \<Rightarrow> 'd weight_row list \<Rightarrow> 'd option \<Rightarrow> monitoring_weight_projection" where
  "project_monitoring_weights D source_rows denominator =
     (let ordered = order_depth_first source_rows; work_items = filter is_work_item ordered
      in \<lparr>projection_project = project_weight_of D work_items denominator,
          projection_rows =
            map (\<lambda>row. (row_id (fst row), row_weight_of D ordered denominator row)) ordered\<rparr>)"

section \<open>The order: lemmas\<close>

abbreviation row_ids :: "('d weight_row \<times> nat) list \<Rightarrow> string set" where
  "row_ids rs \<equiv> (\<lambda>r. row_id (fst r)) ` set rs"

lemma set_children_of: "set (children_of rows parent) \<subseteq> set rows"
  by (simp add: children_of_def)

lemma visit_ids: "row_ids result \<union> row_ids pending \<subseteq> row_ids (visit rows pending result)"
proof (induction rows pending result rule: visit.induct)
  case (2 rows row depth pending result)
  show ?case
  proof (cases "row_id row \<in> row_ids result")
    case True
    have "row_id row \<in> row_ids (visit rows pending result)"
      by (rule subsetD [OF _ True]) (use 2(1) [OF True] in simp)
    then show ?thesis using True 2(1) [OF True] by simp
  next
    case False
    then show ?thesis using 2(2) [OF False] by (simp add: image_Un)
  qed
qed simp

lemma visit_distinct:
  "distinct (map (\<lambda>r. row_id (fst r)) result) \<Longrightarrow> distinct (map (\<lambda>r. row_id (fst r)) (visit rows pending result))"
  by (induction rows pending result rule: visit.induct) simp_all

lemma visit_within:
  "fst ` set (visit rows pending result) \<subseteq> set rows \<union> fst ` set pending \<union> fst ` set result"
proof (induction rows pending result rule: visit.induct)
  case (2 rows row depth pending result)
  have sub: "\<And>S R A B C x. S \<subseteq> R \<union> (C \<union> A) \<union> insert x B \<Longrightarrow> C \<subseteq> R \<Longrightarrow> S \<subseteq> R \<union> insert x A \<union> B"
    "\<And>S R A B x. S \<subseteq> R \<union> A \<union> B \<Longrightarrow> S \<subseteq> R \<union> insert x A \<union> B" by blast+
  show ?case
  proof (cases "row_id row \<in> row_ids result")
    case True
    then show ?thesis using sub(2) [OF 2(1) [OF True]] by simp
  next
    case False
    let ?c = "children_of rows (Some (row_id row))"
    have "fst ` set (visit rows (map (\<lambda>child. (child, depth + 1)) ?c @ pending) (result @ [(row, depth)])) \<subseteq>
        set rows \<union> (set ?c \<union> fst ` set pending) \<union> insert row (fst ` set result)"
      using 2(2) [OF False] by (simp add: image_Un image_image)
    then show ?thesis using sub(1) [OF _ set_children_of] False by simp
  qed
qed simp

lemma visit_root_keeps:
  fixes rows :: "'d weight_row list"
  defines "rooted r result \<equiv>
    visit rows (map (\<lambda>child. (child, 1)) (children_of rows (Some (row_id r)))) (result @ [(r, 0)])"
  shows "row_ids result \<union> {row_id r} \<subseteq> row_ids (rooted r result)"
    "fst ` set (rooted r result) \<subseteq> set rows \<union> {r} \<union> fst ` set result"
    "row_id r \<notin> row_ids result \<Longrightarrow> distinct (map (\<lambda>r. row_id (fst r)) result) \<Longrightarrow>
      distinct (map (\<lambda>r. row_id (fst r)) (rooted r result))"
proof -
  let ?c = "children_of rows (Some (row_id r))"
  show "row_ids result \<union> {row_id r} \<subseteq> row_ids (rooted r result)"
    using visit_ids [where rows = rows and result = "result @ [(r, 0)]" and pending = "map (\<lambda>c. (c, 1)) ?c"]
    by (simp add: rooted_def)
  have "fst ` set (rooted r result) \<subseteq> set rows \<union> set ?c \<union> ({r} \<union> fst ` set result)"
    using visit_within [where rows = rows and result = "result @ [(r, 0)]" and pending = "map (\<lambda>c. (c, 1)) ?c"]
    by (simp add: rooted_def image_image)
  then show "fst ` set (rooted r result) \<subseteq> set rows \<union> {r} \<union> fst ` set result"
    by (simp only: Un_absorb2 [OF set_children_of] Un_assoc)
  show "row_id r \<notin> row_ids result \<Longrightarrow> distinct (map (\<lambda>r. row_id (fst r)) result) \<Longrightarrow>
      distinct (map (\<lambda>r. row_id (fst r)) (rooted r result))"
    unfolding rooted_def by (rule visit_distinct) simp
qed

lemma visit_remaining_ids: "row_ids result \<union> row_id ` set rs \<subseteq> row_ids (visit_remaining rows rs result)"
proof (induction rs arbitrary: result)
  case (Cons r rs)
  show ?case
  proof (cases "row_id r \<in> row_ids result")
    case True
    have "row_id r \<in> row_ids (visit_remaining rows rs result)"
      by (rule subsetD [OF _ True]) (use Cons [of result] in simp)
    then show ?thesis using True Cons [of result] by simp
  next
    case False
    let ?v = "visit rows (map (\<lambda>child. (child, 1)) (children_of rows (Some (row_id r)))) (result @ [(r, 0)])"
    have "row_ids result \<union> {row_id r} \<subseteq> row_ids (visit_remaining rows rs ?v)"
      by (rule order_trans [OF visit_root_keeps(1) [of result r rows]]) (use Cons [of ?v] in simp)
    then show ?thesis using Cons [of ?v] False by simp
  qed
qed simp

lemma visit_remaining_distinct:
  "distinct (map (\<lambda>r. row_id (fst r)) result) \<Longrightarrow>
    distinct (map (\<lambda>r. row_id (fst r)) (visit_remaining rows rs result))"
proof (induction rs arbitrary: result)
  case (Cons r rs)
  then show ?case
    using visit_root_keeps(3) [where rows = rows and r = r and result = result] by simp
qed simp

lemma visit_remaining_within:
  "fst ` set (visit_remaining rows rs result) \<subseteq> set rows \<union> set rs \<union> fst ` set result"
proof (induction rs arbitrary: result)
  case (Cons r rs)
  have sub: "\<And>S R B A x. S \<subseteq> R \<union> B \<union> A \<Longrightarrow> S \<subseteq> R \<union> insert x B \<union> A"
    "\<And>S R B A V x. S \<subseteq> R \<union> B \<union> V \<Longrightarrow> V \<subseteq> R \<union> {x} \<union> A \<Longrightarrow> S \<subseteq> R \<union> insert x B \<union> A"
    by blast+
  show ?case
    using sub(1) [OF Cons [of result]] sub(2) [OF Cons visit_root_keeps(2) [of rows r result]] by simp
qed simp

lemma order_keeps:
  "distinct (map (\<lambda>r. row_id (fst r)) (order_depth_first rows))"
  "row_ids (order_depth_first rows) = row_id ` set rows"
  "fst ` set (order_depth_first rows) \<subseteq> set rows"
proof -
  let ?s = "sort_rows rows"
  let ?v = "visit ?s (map (\<lambda>c. (c, 0)) (children_of ?s None)) []"
  have o: "order_depth_first rows = visit_remaining ?s ?s ?v" by (simp add: order_depth_first_def Let_def)
  have s: "set ?s = set rows" by (simp add: sort_rows_def)
  have v: "distinct (map (\<lambda>r. row_id (fst r)) ?v)" "fst ` set ?v \<subseteq> set ?s"
    using visit_distinct [where rows = ?s and result = "[]" and pending = "map (\<lambda>c. (c, 0)) (children_of ?s None)"]
      visit_within [where rows = ?s and result = "[]" and pending = "map (\<lambda>c. (c, 0)) (children_of ?s None)"]
    by (simp_all add: image_image Un_absorb2 [OF set_children_of])
  show "distinct (map (\<lambda>r. row_id (fst r)) (order_depth_first rows))"
    unfolding o using v(1) by (rule visit_remaining_distinct)
  have sub: "fst ` set (visit_remaining ?s ?s ?v) \<subseteq> set ?s"
    using visit_remaining_within [where rows = ?s and rs = ?s and result = ?v] v(2) by auto
  then show "fst ` set (order_depth_first rows) \<subseteq> set rows" unfolding o s .
  have "row_ids (visit_remaining ?s ?s ?v) = row_id ` fst ` set (visit_remaining ?s ?s ?v)"
    by (simp add: image_image)
  then show "row_ids (order_depth_first rows) = row_id ` set rows"
    unfolding o using image_mono [OF sub, of row_id] visit_remaining_ids [where rows = ?s and rs = ?s and result = ?v]
    by (intro equalityI) (simp_all add: s)
qed

text \<open>Preorder: a row below the top follows its parent, one level up, with only deeper rows between.\<close>

definition hangs :: "'d weight_row list \<Rightarrow> ('d weight_row \<times> nat) list \<Rightarrow> 'd weight_row \<times> nat \<Rightarrow> bool" where
  "hangs rows before r \<longleftrightarrow> snd r = 0 \<or>
     (\<exists>j < length before. effective_parent rows (fst r) = Some (row_id (fst (before ! j))) \<and>
       snd (before ! j) + 1 = snd r \<and> (\<forall>k < length before. j < k \<longrightarrow> snd r \<le> snd (before ! k)))"

fun preordered :: "'d weight_row list \<Rightarrow> ('d weight_row \<times> nat) list \<Rightarrow> ('d weight_row \<times> nat) list \<Rightarrow> bool" where
  "preordered rows before [] \<longleftrightarrow> True"
| "preordered rows before (r # rs) \<longleftrightarrow> hangs rows before r \<and> preordered rows (before @ [r]) rs"

lemma preordered_append:
  "preordered rows before (xs @ ys) \<longleftrightarrow> preordered rows before xs \<and> preordered rows (before @ xs) ys"
  by (induction xs arbitrary: before) auto

lemma hangs_snoc:
  assumes "hangs rows before r" "snd r \<le> snd x"
  shows "hangs rows (before @ [x]) r"
  using assms(1) unfolding hangs_def
proof (elim disjE exE conjE)
  fix j assume j: "j < length before" "effective_parent rows (fst r) = Some (row_id (fst (before ! j)))"
    "snd (before ! j) + 1 = snd r" "\<forall>k < length before. j < k \<longrightarrow> snd r \<le> snd (before ! k)"
  have "snd r \<le> snd ((before @ [x]) ! k)" if "k < length (before @ [x])" "j < k" for k
    using j(4) that assms(2) by (cases "k = length before") (simp_all add: nth_append)
  with j show "snd r = 0 \<or> (\<exists>j < length (before @ [x]). effective_parent rows (fst r) = Some (row_id (fst ((before @ [x]) ! j))) \<and>
      snd ((before @ [x]) ! j) + 1 = snd r \<and> (\<forall>k < length (before @ [x]). j < k \<longrightarrow> snd r \<le> snd ((before @ [x]) ! k)))"
    by (intro disjI2 exI [of _ j]) (simp add: nth_append)
qed simp

lemma child_hangs:
  assumes "c \<in> set (children_of rows (Some (row_id row)))"
  shows "hangs rows (before @ [(row, depth)]) (c, depth + 1)"
  using assms unfolding hangs_def
  by (intro disjI2 exI [of _ "length before"]) (auto simp: children_of_def)

lemma visit_preordered:
  assumes "preordered rows [] result" "sorted_wrt (\<lambda>x y. snd y \<le> snd x) pending" "\<forall>p \<in> set pending. hangs rows result p"
  shows "preordered rows [] (visit rows pending result)"
  using assms
proof (induction rows pending result rule: visit.induct)
  case (2 rows row depth pending result)
  show ?case
  proof (cases "row_id row \<in> row_ids result")
    case True
    then show ?thesis using 2 by simp
  next
    case False
    let ?c = "map (\<lambda>child. (child, depth + 1)) (children_of rows (Some (row_id row)))"
    have "preordered rows [] (result @ [(row, depth)])"
      using 2(3,5) by (simp add: preordered_append)
    moreover have "sorted_wrt (\<lambda>x y. snd y \<le> snd x) (?c @ pending)"
      using 2(4) by (auto simp: sorted_wrt_append sorted_wrt_map intro: sorted_wrt_mono_rel [of _ "\<lambda>_ _. True"])
    moreover have "hangs rows (result @ [(row, depth)]) p" if p: "p \<in> set (?c @ pending)" for p
    proof -
      consider c where "c \<in> set (children_of rows (Some (row_id row)))" "p = (c, depth + 1)" | "p \<in> set pending"
        using p by auto
      then show ?thesis
      proof cases
        case 1
        then show ?thesis using child_hangs by blast
      next
        case pending: 2
        then show ?thesis using 2(4,5) by (intro hangs_snoc) auto
      qed
    qed
    ultimately show ?thesis using 2(2) [OF False] False by simp
  qed
qed simp

lemma sorted_wrt_const_depth: "sorted_wrt (\<lambda>x y. snd y \<le> snd x) (map (\<lambda>c. (c, n :: nat)) cs)"
  by (induction cs) auto

lemma visit_remaining_preordered:
  "preordered rows [] result \<Longrightarrow> preordered rows [] (visit_remaining rows rs result)"
proof (induction rs arbitrary: result)
  case (Cons r rs)
  let ?c = "map (\<lambda>child. (child, 1 :: nat)) (children_of rows (Some (row_id r)))"
  have "preordered rows [] (result @ [(r, 0)])"
    using Cons(2) by (simp add: preordered_append hangs_def)
  moreover have "sorted_wrt (\<lambda>x y. snd y \<le> snd x) ?c"
    by (rule sorted_wrt_const_depth)
  moreover have "\<forall>p \<in> set ?c. hangs rows (result @ [(r, 0)]) p"
    using child_hangs [of _ rows r result 0] by auto
  ultimately have "preordered rows [] (visit rows ?c (result @ [(r, 0)]))"
    by (rule visit_preordered)
  then show ?case using Cons by simp
qed simp

lemma order_preordered: "preordered (sort_rows rows) [] (order_depth_first rows)"
proof -
  let ?s = "sort_rows rows"
  have "preordered ?s [] (visit ?s (map (\<lambda>c. (c, 0)) (children_of ?s None)) [])"
    by (rule visit_preordered) (auto simp: hangs_def intro: sorted_wrt_const_depth)
  then show ?thesis unfolding order_depth_first_def Let_def by (rule visit_remaining_preordered)
qed

lemma preordered_nth:
  "preordered rows before rs \<Longrightarrow> i < length rs \<Longrightarrow> hangs rows (before @ take i rs) (rs ! i)"
proof (induction rs arbitrary: before i)
  case (Cons r rs)
  show ?case
  proof (cases i)
    case (Suc n)
    then have "hangs rows ((before @ [r]) @ take n rs) (rs ! n)" using Cons by (intro Cons(1)) simp_all
    then show ?thesis using Suc by simp
  qed (use Cons in simp)
qed simp

section \<open>The projection: lemmas\<close>

lemma map_of_projection_rows:
  assumes "row \<in> set (order_depth_first rows)"
  shows "map_of (projection_rows (project_monitoring_weights D rows denominator)) (row_id (fst row)) =
    Some (row_weight_of D (order_depth_first rows) denominator row)"
proof -
  have "distinct (map fst (map (\<lambda>r. (row_id (fst r), row_weight_of D (order_depth_first rows) denominator r))
      (order_depth_first rows)))"
    using order_keeps(1) [of rows] by (simp add: comp_def)
  then show ?thesis using assms
    by (auto simp: project_monitoring_weights_def Let_def intro!: map_of_is_SomeI)
qed

lemma own_weight_of:
  "is_work_item row \<Longrightarrow> own_weight (row_weight_of D ordered denominator row) =
    (case denominator_reason_of D denominator of
       Some r \<Rightarrow> Weight_Unavailable r
     | None \<Rightarrow>
         (case row_line_total (fst row) of
            None \<Rightarrow> Weight_Unavailable ITEM_VALUE_UNAVAILABLE
          | Some v \<Rightarrow> percentage D v (the denominator)))"
  by (simp add: row_weight_of_def is_work_item_def Let_def)

lemma available_count_all:
  "length (filter (\<lambda>row. row_line_total (fst row) \<noteq> None) items) = length items \<longleftrightarrow>
    (\<forall>row \<in> set items. row_line_total (fst row) \<noteq> None)"
proof (induction items)
  case (Cons x xs)
  have "length (filter P xs) \<noteq> Suc (length xs)" for P by (metis Suc_n_not_le_n length_filter_le)
  with Cons show ?case by auto
qed simp

section \<open>Properties\<close>

text \<open>The depth-first reading order loses no row and shows none twice, also when parents are
  missing or the parent links form a cycle: for rows with distinct identifiers it is a
  permutation of the input.\<close>

theorem monitoring_order_keeps_every_row:
  assumes "distinct (map row_id rows)"
  shows "mset (map fst (order_depth_first rows)) = mset rows"
proof -
  have d: "distinct (map fst (order_depth_first rows))"
    using order_keeps(1) [of rows] distinct_map [of row_id "map fst (order_depth_first rows)"] by (simp add: comp_def)
  have inj: "inj_on row_id (set rows)" using assms by (simp add: distinct_map)
  have sub: "set (map fst (order_depth_first rows)) \<subseteq> set rows" using order_keeps(3) [of rows] by simp
  have "row_id ` set (map fst (order_depth_first rows)) = row_id ` set rows"
    using order_keeps(2) [of rows] by (simp add: image_image)
  then have "set (map fst (order_depth_first rows)) = set rows"
    using inj_on_image_eq_iff [OF inj sub subset_refl] by simp
  moreover have "distinct rows" using assms by (simp add: distinct_map)
  ultimately show ?thesis using d set_eq_iff_mset_eq_distinct by blast
qed

text \<open>C24: the reading order is a preorder. A row shown at a depth above 0 follows its parent,
  which is one level up, and every row between the two is at least as deep as the row; so the rows
  below a folder are exactly the deeper rows that follow it without interruption.\<close>

theorem monitoring_order_is_preorder:
  assumes "i < length (order_depth_first rows)" and "snd (order_depth_first rows ! i) > 0"
  shows "\<exists>j < i. effective_parent (sort_rows rows) (fst (order_depth_first rows ! i)) =
      Some (row_id (fst (order_depth_first rows ! j))) \<and>
    snd (order_depth_first rows ! j) + 1 = snd (order_depth_first rows ! i) \<and>
    (\<forall>k. j < k \<and> k < i \<longrightarrow> snd (order_depth_first rows ! i) \<le> snd (order_depth_first rows ! k))"
  using preordered_nth [OF order_preordered assms(1)] assms by (auto simp: hangs_def)

text \<open>The project summary. The counts add up; the project is UNAVAILABLE exactly when the
  denominator is missing, zero or negative; and when it is COMPLETE every work item has a value,
  is counted as weighted, and shows an available weight of its own.\<close>

theorem complete_project_weighs_every_work_item:
  "let p = project_monitoring_weights D rows denominator; project = projection_project p
   in weighted_work_item_count project + unavailable_work_item_count project = eligible_work_item_count project \<and>
     (weight_completeness_of project = Weights_Unavailable \<longleftrightarrow>
       (case denominator of None \<Rightarrow> True | Some d \<Rightarrow> d_is_zero D d \<or> d_is_negative D d)) \<and>
     (weight_completeness_of project = Weights_Complete \<longrightarrow>
       unavailable_work_item_count project = 0 \<and>
       (\<forall>row \<in> set (order_depth_first rows). is_work_item row \<longrightarrow>
         (\<exists>w s. map_of (projection_rows p) (row_id (fst row)) = Some w \<and> own_weight w = Weight_Available s)))"
proof -
  let ?ordered = "order_depth_first rows"
  let ?items = "filter is_work_item ?ordered"
  let ?p = "project_monitoring_weights D rows denominator"
  have pr: "projection_project ?p = project_weight_of D ?items denominator"
    by (simp add: project_monitoring_weights_def Let_def)
  have reason: "denominator_reason_of D denominator \<noteq> None \<longleftrightarrow>
      (case denominator of None \<Rightarrow> True | Some d \<Rightarrow> d_is_zero D d \<or> d_is_negative D d)"
    by (simp add: denominator_reason_of_def split: option.splits)
  have le: "length (filter (\<lambda>row. row_line_total (fst row) \<noteq> None) ?items) \<le> length ?items"
    by (rule length_filter_le)
  have counts: "weighted_work_item_count (project_weight_of D ?items denominator) +
      unavailable_work_item_count (project_weight_of D ?items denominator) =
      eligible_work_item_count (project_weight_of D ?items denominator)"
    using le by (simp add: project_weight_of_def Let_def)
  have un: "weight_completeness_of (project_weight_of D ?items denominator) = Weights_Unavailable \<longleftrightarrow>
      denominator_reason_of D denominator \<noteq> None"
    by (simp add: project_weight_of_def Let_def)
  have complete: "denominator_reason_of D denominator = None \<and> (\<forall>row \<in> set ?items. row_line_total (fst row) \<noteq> None)"
    "unavailable_work_item_count (project_weight_of D ?items denominator) = 0"
    if "weight_completeness_of (project_weight_of D ?items denominator) = Weights_Complete"
    using that available_count_all [of ?items]
    by (auto simp: project_weight_of_def Let_def split: if_splits option.splits)
  have "\<exists>w s. map_of (projection_rows ?p) (row_id (fst row)) = Some w \<and> own_weight w = Weight_Available s"
    if c: "weight_completeness_of (project_weight_of D ?items denominator) = Weights_Complete"
      and row: "row \<in> set ?ordered" "is_work_item row" for row
  proof -
    have "row \<in> set ?items" using row by simp
    then have "row_line_total (fst row) \<noteq> None" using complete(1) [OF c] by blast
    then obtain v where "row_line_total (fst row) = Some v" by blast
    then show ?thesis
      using map_of_projection_rows [OF row(1)] own_weight_of [OF row(2)] complete(1) [OF c]
      by (simp add: percentage_def)
  qed
  then show ?thesis using counts un reason complete(2) unfolding Let_def pr by blast
qed

section \<open>Witnesses\<close>

definition sample_rows :: "rat option weight_row list" where
  "sample_rows =
     [\<lparr>row_id = ''i'', row_parent_id = Some ''f'', row_item_type = ''WORK_ITEM'', row_sort_order = 2,
       row_line_total = Some (Some 10)\<rparr>,
      \<lparr>row_id = ''f'', row_parent_id = None, row_item_type = ''FOLDER'', row_sort_order = 1, row_line_total = None\<rparr>]"

lemma sample_order_rows:
  "order_depth_first sample_rows = [(sample_rows ! 1, 0), (sample_rows ! 0, 1)]"
  by (simp add: order_depth_first_def sort_rows_def sample_rows_def children_of_def effective_parent_def)

lemma hundred: "fixed_text 20 100 = ''100.00000000000000000000''"
  by code_simp

lemma sample_weights_complete:
  "weight_completeness_of (projection_project (project_monitoring_weights decimal20 sample_rows (Some (Some 10)))) = Weights_Complete"
proof -
  let ?row = "(sample_rows ! 0, 1 :: nat)"
  have rows: "filter is_work_item (order_depth_first sample_rows) = [?row]" "row_line_total (fst ?row) = Some (Some 10)"
    by (simp_all add: sample_order_rows) (simp_all add: is_work_item_def sample_rows_def)
  show ?thesis
    by (simp only: project_monitoring_weights_def Let_def monitoring_weight_projection.simps rows(1))
      (simp add: project_weight_of_def rows(2) [unfolded fst_conv] Let_def denominator_reason_of_def
        decimal20_simps item_value_sum_def round20_values)
qed

theorem monitoring_order_keeps_every_row_witness:
  "mset (map fst (order_depth_first sample_rows)) = mset sample_rows"
  by (rule monitoring_order_keeps_every_row) (simp add: sample_rows_def)

theorem monitoring_order_is_preorder_witness:
  "\<exists>j < 1. effective_parent (sort_rows sample_rows) (fst (order_depth_first sample_rows ! 1)) =
      Some (row_id (fst (order_depth_first sample_rows ! j))) \<and>
    snd (order_depth_first sample_rows ! j) + 1 = snd (order_depth_first sample_rows ! 1)"
  using monitoring_order_is_preorder [of 1 sample_rows] by (auto simp: sample_order_rows)

theorem complete_project_weighs_every_work_item_witness:
  "\<exists>w s. map_of (projection_rows (project_monitoring_weights decimal20 sample_rows (Some (Some 10)))) ''i'' = Some w \<and>
    own_weight w = Weight_Available s"
proof -
  have row: "(sample_rows ! 0, 1) \<in> set (order_depth_first sample_rows)" "is_work_item (sample_rows ! 0, 1)"
    "row_id (fst (sample_rows ! 0, 1 :: nat)) = ''i''"
    by (simp_all add: sample_order_rows) (simp_all add: is_work_item_def sample_rows_def)
  show ?thesis
    using complete_project_weighs_every_work_item [of decimal20 sample_rows "Some (Some 10)"]
      sample_weights_complete row unfolding Let_def by metis
qed

end
