(* ===== verification/ExecutionPlan.thy ===== *)
theory ExecutionPlan
  imports OfficialQuantity MonitoringWeight
begin

text \<open>
  \<open>execution-plan/execution-plan-projection.policy.ts\<close>, \<open>execution-plan-adoption.policy.ts\<close> and
  \<open>execution-plan.contracts.ts\<close>: the plan of a baseline (incremental quantities per work item and
  interval), the blockers that keep it from being locked, and the planned curve.

  Dates are the time values of the \<open>Date\<close> columns, which the database never leaves invalid.
  \<open>locale_compare\<close> is the collation of the host. Reading a weight percentage back may throw, so
  the curve is an outcome.

  The properties: a plan without blockers distributes every positive quantity exactly, over
  intervals of positive length that never overlap; the draft flow; the curve never falls.
\<close>

section \<open>Contracts\<close>

datatype execution_plan_readiness =
    PLAN_NOT_READY | REVISION_IN_PROGRESS | READY_FOR_LOCK | LOCKED_FOR_EXECUTION

datatype execution_plan_blocker_code =
    NO_ACTIVE_BASELINE
  | MULTIPLE_ACTIVE_BASELINES
  | EXECUTION_PLAN_DRAFT_NOT_FOUND
  | AMBIGUOUS_EXECUTION_PLAN_CONTEXT
  | ACTIVE_PROJECT_WITHOUT_LOCKED_PLAN
  | LEGACY_ACTIVE_PROJECT_REQUIRES_PLAN_ADOPTION
  | LOCKED_PLAN_PROJECT_NOT_ACTIVE
  | BASELINE_BINDING_MISMATCH
  | PROJECT_NOT_PLANNED
  | NO_REQUIRED_WORK_ITEMS
  | MISSING_WORK_ITEM_DISTRIBUTION
  | PLANNED_QUANTITY_INCOMPLETE
  | PLANNED_QUANTITY_EXCEEDS_BASELINE
  | INVALID_DISTRIBUTION_WORK_ITEM
  | INVALID_DISTRIBUTION_DATE
  | INVALID_DISTRIBUTION_QUANTITY
  | DISTRIBUTION_INTERVAL_OVERLAP
  | H2A1_WEIGHT_UNAVAILABLE

record execution_plan_blocker =
  blocker_code :: execution_plan_blocker_code
  blocker_boq_item_id :: "string option"
  blocker_expected_quantity :: "string option"
  blocker_planned_quantity :: "string option"

datatype project_status = PLANNED | ACTIVE | ON_HOLD | COMPLETED | ARCHIVED | CANCELLED

datatype execution_plan_status = DRAFT | LOCKED

datatype execution_plan_draft_flow = NORMAL_PLANNED_FLOW | LEGACY_ACTIVE_ADOPTION | NOT_ELIGIBLE

section \<open>Adoption\<close>

definition execution_plan_draft_flow_of ::
    "project_status \<Rightarrow> int \<Rightarrow> execution_plan_status list \<Rightarrow> int \<Rightarrow> execution_plan_draft_flow" where
  "execution_plan_draft_flow_of status active_baseline_count current_baseline_plan_statuses other_baseline_plan_count =
     (if active_baseline_count \<noteq> 1 \<or> other_baseline_plan_count \<noteq> 0
         \<or> length current_baseline_plan_statuses > 1
         \<or> (length current_baseline_plan_statuses = 1 \<and> hd current_baseline_plan_statuses \<noteq> DRAFT)
      then NOT_ELIGIBLE
      else if status = PLANNED then NORMAL_PLANNED_FLOW
      else if status = ACTIVE then LEGACY_ACTIVE_ADOPTION
      else NOT_ELIGIBLE)"

section \<open>The projection's input\<close>

record 'd plan_item =
  item_id :: string
  item_parent_id :: "string option"
  item_wbs_node_id :: "string option"
  item_wbs_code :: string
  item_name :: string
  item_type_of :: string
  item_sort_order :: int
  item_quantity :: 'd
  item_unit :: string
  item_line_total :: "'d option"

record 'd plan_distribution =
  distribution_id :: string
  distribution_boq_item_id :: string
  period_start_date :: int
  period_end_date :: int
  planned_incremental_quantity :: 'd

record 'd plan_input =
  plan_project_status :: project_status
  plan_status :: execution_plan_status
  plan_draft_flow :: execution_plan_draft_flow
  plan_total_base_cost :: "'d option"
  plan_items :: "'d plan_item list"
  plan_distributions :: "'d plan_distribution list"

definition iso_date_wire :: "int \<Rightarrow> string" where
  "iso_date_wire value = take 10 (to_iso_string value)"

definition decimal_wire :: "'d decimal_ops \<Rightarrow> 'd \<Rightarrow> string" where
  "decimal_wire D value = strip_fraction_zeros (d_to_fixed D 20 value)"

definition plan_work_items :: "'d plan_input \<Rightarrow> 'd plan_item list" where
  "plan_work_items input = filter (\<lambda>item. item_type_of item = ''WORK_ITEM'') (plan_items input)"

definition distributions_of :: "'d plan_input \<Rightarrow> string \<Rightarrow> 'd plan_distribution list" where
  "distributions_of input k =
     (if k \<in> item_id ` set (plan_work_items input)
      then filter (\<lambda>d. distribution_boq_item_id d = k) (plan_distributions input) else [])"

section \<open>The blockers\<close>

definition blocker :: "execution_plan_blocker_code \<Rightarrow> execution_plan_blocker" where
  "blocker code = \<lparr>blocker_code = code, blocker_boq_item_id = None,
     blocker_expected_quantity = None, blocker_planned_quantity = None\<rparr>"

definition item_blocker :: "execution_plan_blocker_code \<Rightarrow> string \<Rightarrow> execution_plan_blocker" where
  "item_blocker code k = (blocker code)\<lparr>blocker_boq_item_id := Some k\<rparr>"

definition context_blockers :: "'d decimal_ops \<Rightarrow> 'd plan_input \<Rightarrow> execution_plan_blocker list" where
  "context_blockers D input =
     (let required = filter (\<lambda>item. d_greater_than D (item_quantity item) (d_of_int D 0)) (plan_work_items input);
          valid_draft_context =
            (plan_project_status input = PLANNED \<and> plan_draft_flow input = NORMAL_PLANNED_FLOW) \<or>
            (plan_project_status input = ACTIVE \<and> plan_draft_flow input = LEGACY_ACTIVE_ADOPTION)
      in (if plan_status input \<noteq> LOCKED \<and> \<not> valid_draft_context then [blocker PROJECT_NOT_PLANNED] else [])
         @ (if required = [] then [blocker NO_REQUIRED_WORK_ITEMS] else []))"

definition distribution_blockers ::
    "'d decimal_ops \<Rightarrow> 'd plan_input \<Rightarrow> 'd plan_distribution \<Rightarrow> execution_plan_blocker list" where
  "distribution_blockers D input distribution =
     (let k = distribution_boq_item_id distribution
      in if k \<notin> item_id ` set (plan_work_items input) then [item_blocker INVALID_DISTRIBUTION_WORK_ITEM k]
         else (if period_start_date distribution > period_end_date distribution
               then [item_blocker INVALID_DISTRIBUTION_DATE k] else [])
            @ (if \<not> d_greater_than D (planned_incremental_quantity distribution) (d_of_int D 0)
               then [item_blocker INVALID_DISTRIBUTION_QUANTITY k] else []))"

text \<open>The comparator \<open>a || b || c\<close>: a difference of 0 is falsy.\<close>

definition distribution_le ::
    "(string \<Rightarrow> string \<Rightarrow> int) \<Rightarrow> 'd plan_distribution \<Rightarrow> 'd plan_distribution \<Rightarrow> bool" where
  "distribution_le locale_compare left right =
     (if period_start_date left \<noteq> period_start_date right
      then period_start_date left < period_start_date right
      else if period_end_date left \<noteq> period_end_date right
      then period_end_date left < period_end_date right
      else locale_compare (distribution_id left) (distribution_id right) \<le> 0)"

fun intervals_overlap :: "'d plan_distribution list \<Rightarrow> bool" where
  "intervals_overlap (a # b # rows) \<longleftrightarrow>
     period_start_date b \<le> period_end_date a \<or> intervals_overlap (b # rows)"
| "intervals_overlap _ \<longleftrightarrow> False"

definition planned_total :: "'d decimal_ops \<Rightarrow> 'd plan_distribution list \<Rightarrow> 'd" where
  "planned_total D rows =
     foldl (\<lambda>sum row. d_plus D sum (planned_incremental_quantity row)) (d_of_int D 0) rows"

definition work_item_blockers ::
    "'d decimal_ops \<Rightarrow> (string \<Rightarrow> string \<Rightarrow> int) \<Rightarrow> 'd plan_input \<Rightarrow> 'd plan_item \<Rightarrow> execution_plan_blocker list" where
  "work_item_blockers D locale_compare input item =
     (let rows = stable_sort_by (distribution_le locale_compare) (distributions_of input (item_id item));
          planned = planned_total D rows;
          quantity = item_quantity item
      in (if intervals_overlap rows then [item_blocker DISTRIBUTION_INTERVAL_OVERLAP (item_id item)] else [])
         @ (if d_greater_than D quantity (d_of_int D 0) \<and> rows = []
            then [(item_blocker MISSING_WORK_ITEM_DISTRIBUTION (item_id item))
                    \<lparr>blocker_expected_quantity := Some (decimal_wire D quantity)\<rparr>]
            else if d_less_than D planned quantity
            then [(item_blocker PLANNED_QUANTITY_INCOMPLETE (item_id item))
                    \<lparr>blocker_expected_quantity := Some (decimal_wire D quantity),
                     blocker_planned_quantity := Some (decimal_wire D planned)\<rparr>]
            else if d_greater_than D planned quantity
            then [(item_blocker PLANNED_QUANTITY_EXCEEDS_BASELINE (item_id item))
                    \<lparr>blocker_expected_quantity := Some (decimal_wire D quantity),
                     blocker_planned_quantity := Some (decimal_wire D planned)\<rparr>]
            else []))"

definition plan_weights :: "'d decimal_ops \<Rightarrow> 'd plan_input \<Rightarrow> monitoring_weight_projection" where
  "plan_weights D input =
     project_monitoring_weights D
       (map (\<lambda>item. \<lparr>row_id = item_id item, row_parent_id = item_parent_id item,
          row_item_type = item_type_of item, row_sort_order = item_sort_order item,
          row_line_total = item_line_total item\<rparr>) (plan_items input))
       (plan_total_base_cost input)"

definition plan_blockers ::
    "'d decimal_ops \<Rightarrow> (string \<Rightarrow> string \<Rightarrow> int) \<Rightarrow> 'd plan_input \<Rightarrow> execution_plan_blocker list" where
  "plan_blockers D locale_compare input =
     context_blockers D input
     @ concat (map (distribution_blockers D input) (plan_distributions input))
     @ concat (map (work_item_blockers D locale_compare input) (plan_work_items input))
     @ (if weight_completeness_of (projection_project (plan_weights D input)) \<noteq> Weights_Complete
        then [blocker H2A1_WEIGHT_UNAVAILABLE] else [])"

section \<open>The schedule\<close>

record schedule_row =
  schedule_boq_item_id :: string
  schedule_wbs_code :: string
  schedule_name :: string
  schedule_unit :: string
  schedule_baseline_quantity :: string
  schedule_planned_quantity :: string
  schedule_planned_item_progress_percent :: "string option"
  schedule_planned_start_date :: string
  schedule_planned_finish_date :: string

definition schedule_row_of :: "'d decimal_ops \<Rightarrow> 'd plan_input \<Rightarrow> 'd plan_item \<Rightarrow> schedule_row option" where
  "schedule_row_of D input item =
     (let rows = stable_sort_by (\<lambda>left right. period_start_date left \<le> period_start_date right)
            (distributions_of input (item_id item));
          planned = planned_total D rows
      in if rows = [] then None
         else Some \<lparr>schedule_boq_item_id = item_id item, schedule_wbs_code = item_wbs_code item,
           schedule_name = item_name item, schedule_unit = item_unit item,
           schedule_baseline_quantity = decimal_wire D (item_quantity item),
           schedule_planned_quantity = decimal_wire D planned,
           schedule_planned_item_progress_percent =
             (if d_is_zero D (item_quantity item) then None
              else Some (decimal_wire D (d_div D (d_mul D planned (d_of_int D 100)) (item_quantity item)))),
           schedule_planned_start_date = iso_date_wire (period_start_date (hd rows)),
           schedule_planned_finish_date = iso_date_wire
             (foldl (\<lambda>latest row. if period_end_date row > latest then period_end_date row else latest)
               (period_end_date (hd rows)) rows)\<rparr>)"

text \<open>\<open>workItemById.get(id)?.sortOrder ?? 0\<close>: of several items of one id the map keeps the last.\<close>

definition sort_order_of :: "'d plan_input \<Rightarrow> string \<Rightarrow> int" where
  "sort_order_of input k =
     (case map_of (rev (map (\<lambda>item. (item_id item, item_sort_order item)) (plan_work_items input))) k of
        None \<Rightarrow> 0 | Some n \<Rightarrow> n)"

definition plan_schedule :: "'d decimal_ops \<Rightarrow> 'd plan_input \<Rightarrow> schedule_row list" where
  "plan_schedule D input =
     stable_sort_by
       (\<lambda>left right. sort_order_of input (schedule_boq_item_id left) \<le> sort_order_of input (schedule_boq_item_id right))
       (List.map_filter (schedule_row_of D input) (plan_work_items input))"

section \<open>The planned curve\<close>

record curve_point =
  point_period_end_date :: string
  point_known_percent :: string

datatype planned_curve =
    Curve_Complete "string option" "curve_point list"
  | Curve_Incomplete "string option" "curve_point list"
  | Curve_Unavailable string "curve_point list"

fun own_weight_available :: "monitoring_row_weight option \<Rightarrow> bool" where
  "own_weight_available None = False"
| "own_weight_available (Some w) = (case own_weight w of Weight_Available _ \<Rightarrow> True | _ \<Rightarrow> False)"

definition plan_weight_unavailable :: "'d decimal_ops \<Rightarrow> 'd plan_input \<Rightarrow> bool" where
  "plan_weight_unavailable D input \<longleftrightarrow>
     (\<exists>item \<in> set (plan_work_items input).
        \<not> own_weight_available (map_of (projection_rows (plan_weights D input)) (item_id item)))"

definition plan_boundaries :: "'d plan_input \<Rightarrow> string list" where
  "plan_boundaries input =
     stable_sort_by (\<le>)
       (foldl set_add [] (map (\<lambda>row. iso_date_wire (period_end_date row)) (plan_distributions input)))"

text \<open>\<open>new Date(`${boundary}T00:00:00.000Z`)\<close>; an unreadable date compares as false.\<close>

definition boundary_time :: "string \<Rightarrow> int option" where
  "boundary_time boundary =
     map_option (\<lambda>(y, m, d). ms_per_day * make_day y (m - 1) d) (date_only_match boundary)"

definition cumulative_at :: "'d decimal_ops \<Rightarrow> 'd plan_distribution list \<Rightarrow> int option \<Rightarrow> 'd" where
  "cumulative_at D rows boundary =
     foldl (\<lambda>sum row.
        if (case boundary of None \<Rightarrow> False | Some t \<Rightarrow> period_end_date row \<le> t)
        then d_plus D sum (planned_incremental_quantity row) else sum) (d_of_int D 0) rows"

definition item_curve_share :: "'d decimal_ops \<Rightarrow> 'd \<Rightarrow> 'd \<Rightarrow> 'd \<Rightarrow> 'd" where
  "item_curve_share D weight cumulative quantity = d_div D (d_mul D weight cumulative) quantity"

fun known_contribution ::
    "'d decimal_ops \<Rightarrow> 'd plan_input \<Rightarrow> int option \<Rightarrow> 'd plan_item list \<Rightarrow> 'd \<Rightarrow> js_error + 'd" where
  "known_contribution D input boundary [] project_sum = Inr project_sum"
| "known_contribution D input boundary (item # items) project_sum =
     (let rows = distributions_of input (item_id item)
      in if rows = [] \<or> d_is_zero D (item_quantity item)
         then known_contribution D input boundary items project_sum
         else
           (case map_of (projection_rows (plan_weights D input)) (item_id item) of
              None \<Rightarrow> Inl (Plain_Error ''Cannot read properties of undefined'')
            | Some w \<Rightarrow>
                (case own_weight w of
                   Weight_Available weight_percentage \<Rightarrow>
                     (case d_parse D weight_percentage of
                        None \<Rightarrow> Inl (Plain_Error ''DecimalError'')
                      | Some weight \<Rightarrow>
                          known_contribution D input boundary items
                            (d_plus D project_sum
                              (item_curve_share D weight (cumulative_at D rows boundary) (item_quantity item))))
                 | _ \<Rightarrow> known_contribution D input boundary items project_sum)))"

fun curve_points_of :: "'d decimal_ops \<Rightarrow> 'd plan_input \<Rightarrow> string list \<Rightarrow> js_error + curve_point list" where
  "curve_points_of D input [] = Inr []"
| "curve_points_of D input (boundary # boundaries) =
     rbind (known_contribution D input (boundary_time boundary) (plan_work_items input) (d_of_int D 0)) (\<lambda>known.
     rbind (curve_points_of D input boundaries) (\<lambda>points.
       Inr (\<lparr>point_period_end_date = boundary, point_known_percent = decimal_wire D known\<rparr> # points)))"

section \<open>The whole projection\<close>

record work_plan_row =
  work_plan_boq_item_id :: string
  work_plan_parent_id :: "string option"
  work_plan_wbs_node_id :: "string option"
  work_plan_wbs_code :: string
  work_plan_name :: string
  work_plan_unit :: string
  work_plan_baseline_quantity :: string
  work_plan_distribution_count :: nat

record execution_plan_projection =
  readiness_state :: execution_plan_readiness
  projection_blockers :: "execution_plan_blocker list"
  projection_schedule :: "schedule_row list"
  projection_work_plan :: "work_plan_row list"
  projection_planned_curve :: planned_curve
  projection_weight :: monitoring_project_weight

definition readiness_of :: "execution_plan_status \<Rightarrow> bool \<Rightarrow> execution_plan_readiness" where
  "readiness_of status lockable =
     (if status = LOCKED \<and> lockable then LOCKED_FOR_EXECUTION
      else if status = LOCKED then PLAN_NOT_READY
      else if lockable then READY_FOR_LOCK
      else REVISION_IN_PROGRESS)"

definition work_plan_row_of :: "'d decimal_ops \<Rightarrow> 'd plan_input \<Rightarrow> 'd plan_item \<Rightarrow> work_plan_row" where
  "work_plan_row_of D input item =
     \<lparr>work_plan_boq_item_id = item_id item, work_plan_parent_id = item_parent_id item,
      work_plan_wbs_node_id = item_wbs_node_id item, work_plan_wbs_code = item_wbs_code item,
      work_plan_name = item_name item, work_plan_unit = item_unit item,
      work_plan_baseline_quantity = decimal_wire D (item_quantity item),
      work_plan_distribution_count = length (distributions_of input (item_id item))\<rparr>"

definition project_execution_plan ::
    "'d decimal_ops \<Rightarrow> (string \<Rightarrow> string \<Rightarrow> int) \<Rightarrow> 'd plan_input \<Rightarrow> js_error + execution_plan_projection" where
  "project_execution_plan D locale_compare input =
     (let blockers = plan_blockers D locale_compare input;
          lockable = (blockers = []);
          weight_unavailable = plan_weight_unavailable D input
      in rbind (if weight_unavailable then Inr [] else curve_points_of D input (plan_boundaries input)) (\<lambda>points.
         Inr \<lparr>readiness_state = readiness_of (plan_status input) lockable,
              projection_blockers = blockers,
              projection_schedule = plan_schedule D input,
              projection_work_plan = map (work_plan_row_of D input) (plan_work_items input),
              projection_planned_curve =
                (if weight_unavailable then Curve_Unavailable ''H2A1_WEIGHT_UNAVAILABLE'' []
                 else if lockable then Curve_Complete None points
                 else Curve_Incomplete (Some ''KNOWN_SUBTOTAL_ONLY'') points),
              projection_weight = projection_project (plan_weights D input)\<rparr>))"

section \<open>Lemmas\<close>

lemma no_overlap_sorted:
  assumes "\<not> intervals_overlap rows" "\<forall>d \<in> set rows. period_start_date d \<le> period_end_date d"
  shows "sorted_wrt (\<lambda>a b. period_end_date a < period_start_date b) rows"
  using assms
proof (induction rows rule: intervals_overlap.induct)
  case (1 a b rows)
  have ab: "period_end_date a < period_start_date b" using 1(2) by simp
  have rest: "sorted_wrt (\<lambda>a b. period_end_date a < period_start_date b) (b # rows)"
    using 1 by simp
  have "period_end_date a < period_start_date c" if "c \<in> set rows" for c
  proof -
    have "period_end_date b < period_start_date c" using rest that by simp
    moreover have "period_start_date b \<le> period_end_date b" using 1(3) by simp
    ultimately show ?thesis using ab by linarith
  qed
  then show ?case using rest ab by simp
qed simp_all

lemma plan_blockers_Nil_iff:
  "plan_blockers D lc input = [] \<longleftrightarrow>
    context_blockers D input = [] \<and>
    (\<forall>d \<in> set (plan_distributions input). distribution_blockers D input d = []) \<and>
    (\<forall>item \<in> set (plan_work_items input). work_item_blockers D lc input item = []) \<and>
    weight_completeness_of (projection_project (plan_weights D input)) = Weights_Complete"
  by (auto simp: plan_blockers_def)

text \<open>The curve's share of one item, as a step of the sum.\<close>

definition curve_step :: "'d decimal_ops \<Rightarrow> 'd plan_input \<Rightarrow> int option \<Rightarrow> 'd \<Rightarrow> 'd plan_item \<Rightarrow> 'd" where
  "curve_step D input boundary c item =
     (let rows = distributions_of input (item_id item)
      in if rows = [] \<or> d_is_zero D (item_quantity item) then c
         else
           (case map_of (projection_rows (plan_weights D input)) (item_id item) of
              None \<Rightarrow> c
            | Some w \<Rightarrow>
                (case own_weight w of
                   Weight_Available s \<Rightarrow>
                     d_plus D c (item_curve_share D (the (d_parse D s)) (cumulative_at D rows boundary) (item_quantity item))
                 | _ \<Rightarrow> c)))"

lemma known_contribution_foldl:
  "known_contribution D input boundary items c = Inr x \<Longrightarrow> x = foldl (curve_step D input boundary) c items"
  by (induction items arbitrary: c)
    (auto simp: curve_step_def Let_def split: if_splits option.splits monitoring_weight_fact.splits)

lemma curve_step_plus: "curve_step D input boundary c item = c \<or> (\<exists>q. curve_step D input boundary c item = d_plus D c q)"
  by (auto simp: curve_step_def Let_def split: option.splits monitoring_weight_fact.splits)

text \<open>Every amount the curve is made of is a finite number that is not negative.\<close>

definition plan_amounts_ok :: "'d decimal_ops \<Rightarrow> 'd plan_input \<Rightarrow> bool" where
  "plan_amounts_ok D input \<longleftrightarrow>
     (\<forall>d \<in> set (plan_distributions input). d_is_finite D (planned_incremental_quantity d) \<and>
       \<not> d_is_negative D (planned_incremental_quantity d)) \<and>
     (\<forall>item \<in> set (plan_work_items input). d_is_finite D (item_quantity item) \<and> \<not> d_is_negative D (item_quantity item)) \<and>
     (\<forall>(k, w) \<in> set (projection_rows (plan_weights D input)).
        case own_weight w of
          Weight_Available s \<Rightarrow>
            (case d_parse D s of None \<Rightarrow> False | Some x \<Rightarrow> d_is_finite D x \<and> \<not> d_is_negative D x)
        | _ \<Rightarrow> True)"

context decimal_arith
begin

lemma cumulative_mono:
  assumes ok: "\<forall>d \<in> set rows. d_is_finite D (planned_incremental_quantity d) \<and> \<not> d_is_negative D (planned_incremental_quantity d)"
    and le: "t \<le> t'" and fin: "d_is_finite D (cumulative_at D rows (Some t))" "d_is_finite D (cumulative_at D rows (Some t'))"
  shows "val (cumulative_at D rows (Some t)) \<le> val (cumulative_at D rows (Some t'))"
  unfolding cumulative_at_def option.case
proof (rule foldl_plus_mono)
  fix a b row
  assume row: "row \<in> set rows" and acc: "settled b" "d_is_finite D b" "val a \<le> val b"
    and f: "d_is_finite D (if period_end_date row \<le> t then d_plus D a (planned_incremental_quantity row) else a)"
      "d_is_finite D (if period_end_date row \<le> t' then d_plus D b (planned_incremental_quantity row) else b)"
  let ?q = "planned_incremental_quantity row"
  have q: "0 \<le> val ?q" using ok row not_negative_law by blast
  have b: "val b \<le> rnd (val b + val ?q)" using acc q by (intro rnd_add_nonneg) (simp_all add: settled_def)
  consider "period_end_date row \<le> t" "period_end_date row \<le> t'" | "\<not> period_end_date row \<le> t" "period_end_date row \<le> t'"
    | "\<not> period_end_date row \<le> t" "\<not> period_end_date row \<le> t'" using le by linarith
  then show "val (if period_end_date row \<le> t then d_plus D a ?q else a) \<le>
      val (if period_end_date row \<le> t' then d_plus D b ?q else b)"
  proof cases
    case 1
    then show ?thesis using plus_law [of a ?q] plus_law [of b ?q] f acc(3) by (simp add: rnd_mono)
  next
    case 2
    then show ?thesis using plus_law [of b ?q] f acc(3) b by simp
  next
    case 3
    then show ?thesis using acc by simp
  qed
qed (use fin settled_zero in \<open>auto simp: cumulative_at_def\<close>)

lemma cumulative_nonneg:
  assumes ok: "\<forall>d \<in> set rows. d_is_finite D (planned_incremental_quantity d) \<and> \<not> d_is_negative D (planned_incremental_quantity d)"
    and fin: "d_is_finite D (cumulative_at D rows b)"
  shows "0 \<le> val (cumulative_at D rows b)"
proof -
  have "0 \<le> val (foldl (\<lambda>sum row. if (case b of None \<Rightarrow> False | Some t \<Rightarrow> period_end_date row \<le> t)
      then d_plus D sum (planned_incremental_quantity row) else sum) c rows)"
    if "0 \<le> val c \<or> \<not> d_is_finite D c" "d_is_finite D (foldl (\<lambda>sum row. if (case b of None \<Rightarrow> False | Some t \<Rightarrow> period_end_date row \<le> t)
      then d_plus D sum (planned_incremental_quantity row) else sum) c rows)" for c
    using ok that
  proof (induction rows arbitrary: c)
    case (Cons r rs)
    let ?c = "if (case b of None \<Rightarrow> False | Some t \<Rightarrow> period_end_date r \<le> t)
      then d_plus D c (planned_incremental_quantity r) else c"
    have q: "0 \<le> val (planned_incremental_quantity r)" using Cons(2) not_negative_law by simp
    have "0 \<le> val ?c \<or> \<not> d_is_finite D ?c"
    proof (cases "d_is_finite D (d_plus D c (planned_incremental_quantity r))")
      case True
      then show ?thesis using plus_law [OF True] Cons(3) q by (auto intro!: rnd_nonneg)
    qed (use Cons(3) in auto)
    then show ?case using Cons(1) [of ?c] Cons(2,4) by simp
  qed auto
  then show ?thesis using fin of_int_law [of 0] by (simp add: cumulative_at_def)
qed

lemma curve_step_mono:
  assumes ok: "plan_amounts_ok D input" and item: "item \<in> set (plan_work_items input)" and le: "t \<le> t'"
    and acc: "settled b" "d_is_finite D b" "val a \<le> val b"
    and f: "d_is_finite D (curve_step D input (Some t) a item)" "d_is_finite D (curve_step D input (Some t') b item)"
  shows "val (curve_step D input (Some t) a item) \<le> val (curve_step D input (Some t') b item)"
proof -
  let ?rows = "distributions_of input (item_id item)" and ?q = "item_quantity item"
  have rows: "\<forall>d \<in> set ?rows. d_is_finite D (planned_incremental_quantity d) \<and> \<not> d_is_negative D (planned_incremental_quantity d)"
    using ok by (auto simp: plan_amounts_ok_def distributions_of_def)
  have q: "d_is_finite D ?q" "0 \<le> val ?q" using ok item not_negative_law by (auto simp: plan_amounts_ok_def)
  show ?thesis
  proof (cases "?rows = [] \<or> d_is_zero D ?q")
    case True
    then show ?thesis using acc by (auto simp: curve_step_def)
  next
    case False
    show ?thesis
    proof (cases "map_of (projection_rows (plan_weights D input)) (item_id item)")
      case (Some w)
      show ?thesis
      proof (cases "own_weight w")
        case (Weight_Available s)
        obtain x where x: "d_parse D s = Some x" "d_is_finite D x" "0 \<le> val x"
          using ok map_of_SomeD [OF Some] Weight_Available not_negative_law
          by (force simp: plan_amounts_ok_def split: option.splits)
        let ?share = "\<lambda>t. item_curve_share D x (cumulative_at D ?rows (Some t)) ?q"
        have s: "curve_step D input (Some u) c item = d_plus D c (?share u)" for u c
          using False Some Weight_Available x(1) by (simp add: curve_step_def Let_def)
        have fin: "d_is_finite D (?share t)" "d_is_finite D (?share t')"
          using plus_law [of a "?share t"] plus_law [of b "?share t'"] f unfolding s by simp_all
        have v: "d_is_finite D (cumulative_at D ?rows (Some u)) \<and> val ?q \<noteq> 0 \<and>
            val (?share u) = rnd (rnd (val x * val (cumulative_at D ?rows (Some u))) / val ?q)"
          if "d_is_finite D (?share u)" for u
          using div_law [of "d_mul D x (cumulative_at D ?rows (Some u))" ?q] mul_law [of x "cumulative_at D ?rows (Some u)"]
            that q(1) by (simp add: item_curve_share_def)
        have cum: "val (cumulative_at D ?rows (Some t)) \<le> val (cumulative_at D ?rows (Some t'))"
          using cumulative_mono [OF rows le] v fin by blast
        have "val (?share t) \<le> val (?share t')"
          using v [OF fin(1)] v [OF fin(2)] cum x(3) q(2)
          by (simp add: rnd_mono divide_right_mono mult_left_mono)
        then have "rnd (val a + val (?share t)) \<le> rnd (val b + val (?share t'))"
          using acc(3) by (intro rnd_mono add_mono)
        then show ?thesis
          using plus_law [of a "?share t"] plus_law [of b "?share t'"] f unfolding s by simp
      qed (use acc False Some in \<open>simp_all add: curve_step_def Let_def\<close>)
    qed (use acc False in \<open>simp add: curve_step_def Let_def\<close>)
  qed
qed

lemma curve_mono:
  assumes ok: "plan_amounts_ok D input" and le: "t \<le> t'"
    and x: "known_contribution D input (Some t) (plan_work_items input) (d_of_int D 0) = Inr x" "d_is_finite D x"
    and y: "known_contribution D input (Some t') (plan_work_items input) (d_of_int D 0) = Inr y" "d_is_finite D y"
  shows "val x \<le> val y"
  unfolding known_contribution_foldl [OF x(1)] known_contribution_foldl [OF y(1)]
proof (rule foldl_plus_mono)
  fix a b item
  assume "item \<in> set (plan_work_items input)" "settled b" "d_is_finite D b" "val a \<le> val b"
    "d_is_finite D (curve_step D input (Some t) a item)" "d_is_finite D (curve_step D input (Some t') b item)"
  then show "val (curve_step D input (Some t) a item) \<le> val (curve_step D input (Some t') b item)"
    using curve_step_mono [OF ok _ le] by blast
qed (use x(2) y(2) known_contribution_foldl [OF x(1)] known_contribution_foldl [OF y(1)] curve_step_plus settled_zero
  in \<open>simp_all\<close>)

end

section \<open>Properties\<close>

text \<open>C22: what a plan without blockers guarantees. Something must be required; every
  distribution belongs to a work item, has a positive quantity and an interval that does not end
  before it starts; every work item with a positive quantity has a distribution, and its
  distributions add up to its quantity, neither less nor more; put in order, the intervals of an
  item never overlap (each ends strictly before any later one starts); and the weights of the
  project are complete.\<close>

theorem plan_without_blockers_is_sound:
  assumes "plan_blockers D lc input = []"
  shows "(\<exists>item \<in> set (plan_work_items input). d_greater_than D (item_quantity item) (d_of_int D 0)) \<and>
    (\<forall>d \<in> set (plan_distributions input). distribution_boq_item_id d \<in> item_id ` set (plan_work_items input) \<and>
      period_start_date d \<le> period_end_date d \<and> d_greater_than D (planned_incremental_quantity d) (d_of_int D 0)) \<and>
    (\<forall>item \<in> set (plan_work_items input). \<exists>rows. mset rows = mset (distributions_of input (item_id item)) \<and>
      (d_greater_than D (item_quantity item) (d_of_int D 0) \<longrightarrow> rows \<noteq> []) \<and>
      \<not> d_less_than D (planned_total D rows) (item_quantity item) \<and>
      \<not> d_less_than D (item_quantity item) (planned_total D rows) \<and>
      sorted_wrt (\<lambda>a b. period_end_date a < period_start_date b) rows) \<and>
    weight_completeness_of (projection_project (plan_weights D input)) = Weights_Complete"
proof -
  note b = assms [unfolded plan_blockers_Nil_iff]
  have req: "\<exists>item \<in> set (plan_work_items input). d_greater_than D (item_quantity item) (d_of_int D 0)"
    using b by (auto simp: context_blockers_def Let_def filter_empty_conv split: if_splits)
  have dist: "distribution_boq_item_id d \<in> item_id ` set (plan_work_items input) \<and>
      period_start_date d \<le> period_end_date d \<and> d_greater_than D (planned_incremental_quantity d) (d_of_int D 0)"
    if "d \<in> set (plan_distributions input)" for d
    using b that by (auto simp: distribution_blockers_def Let_def split: if_splits)
  have "\<exists>rows. mset rows = mset (distributions_of input (item_id item)) \<and>
      (d_greater_than D (item_quantity item) (d_of_int D 0) \<longrightarrow> rows \<noteq> []) \<and>
      \<not> d_less_than D (planned_total D rows) (item_quantity item) \<and>
      \<not> d_less_than D (item_quantity item) (planned_total D rows) \<and>
      sorted_wrt (\<lambda>a b. period_end_date a < period_start_date b) rows"
    if "item \<in> set (plan_work_items input)" for item
  proof -
    define rows where "rows = stable_sort_by (distribution_le lc) (distributions_of input (item_id item))"
    have w: "work_item_blockers D lc input item = []" using b that by blast
    have "\<not> intervals_overlap rows" "d_greater_than D (item_quantity item) (d_of_int D 0) \<longrightarrow> rows \<noteq> []"
      "\<not> d_less_than D (planned_total D rows) (item_quantity item)"
      "\<not> d_less_than D (item_quantity item) (planned_total D rows)"
      using w unfolding work_item_blockers_def Let_def rows_def [symmetric] append_is_Nil_conv
      by (auto simp: d_greater_than_def split: if_splits)
    moreover have "\<forall>d \<in> set rows. period_start_date d \<le> period_end_date d"
      using dist by (auto simp: rows_def distributions_of_def)
    moreover have "mset rows = mset (distributions_of input (item_id item))" by (simp add: rows_def)
    ultimately show ?thesis using no_overlap_sorted by blast
  qed
  then show ?thesis using req dist b by blast
qed

text \<open>The draft flow as a table.\<close>

lemma draft_flow_is_exact:
  "execution_plan_draft_flow_of status baselines statuses others =
    (if baselines = 1 \<and> others = 0 \<and> (statuses = [] \<or> statuses = [DRAFT]) then
       (case status of PLANNED \<Rightarrow> NORMAL_PLANNED_FLOW | ACTIVE \<Rightarrow> LEGACY_ACTIVE_ADOPTION | _ \<Rightarrow> NOT_ELIGIBLE)
     else NOT_ELIGIBLE)"
proof -
  have "length statuses > 1 \<or> (length statuses = 1 \<and> hd statuses \<noteq> DRAFT) \<longleftrightarrow>
      \<not> (statuses = [] \<or> statuses = [DRAFT])"
    by (cases statuses; cases "tl statuses") auto
  then show ?thesis
    by (cases status) (auto simp: execution_plan_draft_flow_of_def)
qed

text \<open>The planned curve never falls. When no amount of the plan is negative, the weighted planned
  progress at a later boundary is at least the one at an earlier boundary, in spite of the rounding.\<close>

theorem planned_curve_never_falls:
  assumes "decimal_arith D val rnd" and "plan_amounts_ok D input" and "t \<le> t'"
    and "known_contribution D input (Some t) (plan_work_items input) (d_of_int D 0) = Inr x" and "d_is_finite D x"
    and "known_contribution D input (Some t') (plan_work_items input) (d_of_int D 0) = Inr y" and "d_is_finite D y"
  shows "val x \<le> val y"
  using decimal_arith.curve_mono [OF assms] .

section \<open>Witnesses\<close>

text \<open>A plan of one work item, 10 units over two weeks.\<close>

definition sample_distribution :: "string \<Rightarrow> int \<Rightarrow> int \<Rightarrow> rat \<Rightarrow> rat option plan_distribution" where
  "sample_distribution k first_day last_day quantity =
     \<lparr>distribution_id = k, distribution_boq_item_id = ''i'', period_start_date = ms_per_day * first_day,
      period_end_date = ms_per_day * last_day, planned_incremental_quantity = Some quantity\<rparr>"

definition sample_plan :: "rat option plan_input" where
  "sample_plan =
     \<lparr>plan_project_status = PLANNED, plan_status = DRAFT, plan_draft_flow = NORMAL_PLANNED_FLOW,
      plan_total_base_cost = Some (Some 10),
      plan_items =
        [\<lparr>item_id = ''i'', item_parent_id = None, item_wbs_node_id = None, item_wbs_code = ''1'', item_name = ''Item'',
          item_type_of = ''WORK_ITEM'', item_sort_order = 1, item_quantity = Some 10, item_unit = ''m3'',
          item_line_total = Some (Some 10)\<rparr>],
      plan_distributions = [sample_distribution ''a'' 20494 20499 4, sample_distribution ''b'' 20500 20504 6]\<rparr>"

lemma sample_plan_weights:
  "plan_weights decimal20 sample_plan =
    \<lparr>projection_project = projection_project (plan_weights decimal20 sample_plan),
     projection_rows = [(''i'', \<lparr>own_weight = Weight_Available ''100'', subtree_weight = Weight_Not_Applicable,
       cumulative_weight = Weight_Available ''100''\<rparr>)]\<rparr>"
  "weight_completeness_of (projection_project (plan_weights decimal20 sample_plan)) = Weights_Complete"
proof -
  have hundred: "strip_fraction_zeros (fixed_text 20 100) = ''100''" by code_simp
  let ?row = "\<lparr>row_id = ''i'', row_parent_id = None, row_item_type = ''WORK_ITEM'', row_sort_order = 1,
    row_line_total = Some (Some 10)\<rparr> :: rat option weight_row"
  have rows: "order_depth_first [?row] = [(?row, 0)]"
    by (simp add: order_depth_first_def sort_rows_def children_of_def effective_parent_def)
  have p: "plan_weights decimal20 sample_plan = project_monitoring_weights decimal20 [?row] (Some (Some 10))"
    by (simp add: plan_weights_def sample_plan_def)
  have work: "filter is_work_item [(?row, 0 :: nat)] = [(?row, 0)]" "is_work_item (?row, 0)" by (simp_all add: is_work_item_def)
  have facts: "denominator_reason_of decimal20 (Some (Some 10)) = None"
    by (simp add: denominator_reason_of_def decimal20_simps)
  show "plan_weights decimal20 sample_plan =
    \<lparr>projection_project = projection_project (plan_weights decimal20 sample_plan),
     projection_rows = [(''i'', \<lparr>own_weight = Weight_Available ''100'', subtree_weight = Weight_Not_Applicable,
       cumulative_weight = Weight_Available ''100''\<rparr>)]\<rparr>"
    unfolding p
    by (simp add: project_monitoring_weights_def rows row_weight_of_def work facts Let_def percentage_def
        percentage_wire_value_def decimal20_simps round20_values hundred)
  show "weight_completeness_of (projection_project (plan_weights decimal20 sample_plan)) = Weights_Complete"
    unfolding p
    by (simp add: project_monitoring_weights_def rows work facts project_weight_of_def Let_def item_value_sum_def
        decimal20_simps round20_values)
qed

lemma sample_plan_fields:
  "plan_work_items sample_plan = plan_items sample_plan"
  "distributions_of sample_plan ''i'' = plan_distributions sample_plan"
  by (simp_all add: plan_work_items_def distributions_of_def sample_plan_def sample_distribution_def)

lemma sample_plan_ready: "plan_blockers decimal20 (\<lambda>_ _. 0) sample_plan = []"
proof -
  have "context_blockers decimal20 sample_plan = []"
    by (simp add: context_blockers_def sample_plan_fields) (simp add: sample_plan_def decimal20_simps)
  moreover have "\<forall>d \<in> set (plan_distributions sample_plan). distribution_blockers decimal20 sample_plan d = []"
    by (simp add: distribution_blockers_def sample_plan_fields)
      (simp add: sample_plan_def sample_distribution_def decimal20_simps)
  moreover have "\<forall>item \<in> set (plan_work_items sample_plan). work_item_blockers decimal20 (\<lambda>_ _. 0) sample_plan item = []"
  proof -
    have "work_item_blockers decimal20 (\<lambda>_ _. 0) sample_plan (hd (plan_items sample_plan)) = []"
    proof -
      have "item_id (hd (plan_items sample_plan)) = ''i''" "item_quantity (hd (plan_items sample_plan)) = Some 10"
        by (simp_all add: sample_plan_def)
      moreover have "stable_sort_by (distribution_le (\<lambda>_ _. 0)) (plan_distributions sample_plan) = plan_distributions sample_plan"
        by (simp add: sample_plan_def sample_distribution_def distribution_le_def)
      moreover have "\<not> intervals_overlap (plan_distributions sample_plan)"
        "planned_total decimal20 (plan_distributions sample_plan) = Some 10" "plan_distributions sample_plan \<noteq> []"
        by (simp_all add: sample_plan_def sample_distribution_def planned_total_def decimal20_simps round20_values)
      ultimately show ?thesis by (simp add: work_item_blockers_def sample_plan_fields Let_def decimal20_simps)
    qed
    then show ?thesis by (simp add: sample_plan_fields) (simp add: sample_plan_def)
  qed
  ultimately show ?thesis using sample_plan_weights(2) by (simp add: plan_blockers_Nil_iff)
qed

theorem plan_without_blockers_is_sound_witness:
  "(\<exists>item \<in> set (plan_work_items sample_plan). d_greater_than decimal20 (item_quantity item) (d_of_int decimal20 0)) \<and>
    (\<exists>rows. mset rows = mset (distributions_of sample_plan ''i'') \<and>
      \<not> d_less_than decimal20 (planned_total decimal20 rows) (Some 10) \<and>
      \<not> d_less_than decimal20 (Some 10) (planned_total decimal20 rows) \<and>
      sorted_wrt (\<lambda>a b. period_end_date a < period_start_date b) rows) \<and>
    weight_completeness_of (projection_project (plan_weights decimal20 sample_plan)) = Weights_Complete"
proof -
  have "hd (plan_items sample_plan) \<in> set (plan_work_items sample_plan)" "item_id (hd (plan_items sample_plan)) = ''i''"
    "item_quantity (hd (plan_items sample_plan)) = Some 10"
    by (simp_all add: sample_plan_fields) (simp_all add: sample_plan_def)
  then show ?thesis using plan_without_blockers_is_sound [OF sample_plan_ready] by metis
qed

lemma sample_curve:
  "known_contribution decimal20 sample_plan (Some (ms_per_day * 20499)) (plan_work_items sample_plan) (d_of_int decimal20 0) = Inr (Some 40)"
  "known_contribution decimal20 sample_plan (Some (ms_per_day * 20504)) (plan_work_items sample_plan) (d_of_int decimal20 0) = Inr (Some 100)"
proof -
  have r: "projection_rows (plan_weights decimal20 sample_plan) = [(''i'', \<lparr>own_weight = Weight_Available ''100'',
      subtree_weight = Weight_Not_Applicable, cumulative_weight = Weight_Available ''100''\<rparr>)]"
    using arg_cong [OF sample_plan_weights(1), of projection_rows] by simp
  have i: "plan_items sample_plan = [hd (plan_items sample_plan)]" "item_id (hd (plan_items sample_plan)) = ''i''"
    "item_quantity (hd (plan_items sample_plan)) = Some 10" "plan_distributions sample_plan \<noteq> []"
    by (simp_all add: sample_plan_def)
  have t: "parse_fixed ''100'' = Some 100" by code_simp
  have c: "cumulative_at decimal20 (plan_distributions sample_plan) (Some (ms_per_day * 20499)) = Some 4"
    "cumulative_at decimal20 (plan_distributions sample_plan) (Some (ms_per_day * 20504)) = Some 10"
    by (simp_all add: cumulative_at_def sample_plan_def sample_distribution_def decimal20_simps round20_values)
  show "known_contribution decimal20 sample_plan (Some (ms_per_day * 20499)) (plan_work_items sample_plan) (d_of_int decimal20 0) = Inr (Some 40)"
    "known_contribution decimal20 sample_plan (Some (ms_per_day * 20504)) (plan_work_items sample_plan) (d_of_int decimal20 0) = Inr (Some 100)"
    by (simp_all only: sample_plan_fields) (subst i(1), simp add: i(2-4) sample_plan_fields r t c item_curve_share_def decimal20_simps round20_values)+
qed

lemma sample_amounts: "plan_amounts_ok decimal20 sample_plan"
proof -
  have r: "projection_rows (plan_weights decimal20 sample_plan) = [(''i'', \<lparr>own_weight = Weight_Available ''100'',
      subtree_weight = Weight_Not_Applicable, cumulative_weight = Weight_Available ''100''\<rparr>)]"
    using arg_cong [OF sample_plan_weights(1), of projection_rows] by simp
  have t: "parse_fixed ''100'' = Some 100" by code_simp
  show ?thesis
    by (simp add: plan_amounts_ok_def r t sample_plan_fields decimal20_simps)
      (simp add: sample_plan_def sample_distribution_def decimal20_simps)
qed

theorem planned_curve_never_falls_witness: "val20 (Some 40) \<le> val20 (Some 100)"
  using planned_curve_never_falls
    [OF decimal20_arith.decimal_arith_axioms sample_amounts _ sample_curve(1) _ sample_curve(2)]
  by (simp add: decimal20_simps)

end
