(* ===== verification/PhysicalProgress.thy ===== *)
theory PhysicalProgress
  imports OfficialQuantity MonitoringWeight
begin

text \<open>
  MON-04 LAW 2 and LAW 3.

  \<open>progress/progress-current-physical-progress.policy.ts\<close>: the physical progress of one work item
  from its official quantity, its planned quantity and its unit;
  \<open>progress/progress-current-rab-weighted-physical-progress.policy.ts\<close>: the progress of the project as
  the weighted sum over its work items.

  The properties: a bounded progress lies between 0 and 100 and equals the raw one unless that exceeds
  100; the project result is COMPLETE exactly when every item that weighs anything is; and
  the weighted sum is nonnegative and does not fall when items advance.
\<close>

section \<open>LAW 2\<close>

datatype physical_progress_unavailable_reason =
    PLANNED_QUANTITY_UNAVAILABLE
  | PLANNED_QUANTITY_INVALID
  | PLANNED_QUANTITY_ZERO
  | SAME_WORK_ITEM_UNIT_CONTEXT_UNAVAILABLE

text \<open>The first constructor passes a LAW 1 result through.\<close>

datatype 'd physical_progress =
    Progress_Law1 "'d official_quantity"
  | Progress_Incomplete "'d option"
  | Progress_Unavailable physical_progress_unavailable_reason
  | Progress_Complete (raw_progress: 'd) (bounded_progress: 'd)

text \<open>The planned quantity is held as the string its \<open>toString\<close> returns; \<open>None\<close> is null or undefined.\<close>

definition validate_planned_quantity ::
    "'d decimal_ops \<Rightarrow> string option \<Rightarrow> physical_progress_unavailable_reason + 'd" where
  "validate_planned_quantity D planned_quantity =
     (case planned_quantity of
        None \<Rightarrow> Inl PLANNED_QUANTITY_UNAVAILABLE
      | Some s \<Rightarrow>
          (case d_parse D s of
             None \<Rightarrow> Inl PLANNED_QUANTITY_INVALID
           | Some value \<Rightarrow>
               if d_is_nan D value \<or> \<not> d_is_finite D value \<or> d_is_negative D value
               then Inl PLANNED_QUANTITY_INVALID
               else if d_is_zero D value then Inl PLANNED_QUANTITY_ZERO
               else Inr value))"

definition has_usable_same_work_item_unit_context :: "string option \<Rightarrow> bool" where
  "has_usable_same_work_item_unit_context planned_unit =
     (case planned_unit of None \<Rightarrow> False | Some u \<Rightarrow> length (js_trim u) > 0)"

definition calculate_work_item_current_physical_progress ::
    "'d decimal_ops \<Rightarrow> 'd official_quantity \<Rightarrow> string option \<Rightarrow> string option \<Rightarrow> 'd physical_progress" where
  "calculate_work_item_current_physical_progress D quantity_result planned_quantity planned_unit =
     (let planned = validate_planned_quantity D planned_quantity;
          unit_context_available = has_usable_same_work_item_unit_context planned_unit
      in case quantity_result of
           Quantity_Incomplete subtotal \<Rightarrow>
             (case planned of
                Inl _ \<Rightarrow> Progress_Incomplete None
              | Inr value \<Rightarrow>
                  if \<not> unit_context_available then Progress_Incomplete None
                  else Progress_Incomplete (Some (d_div D (d_mul D subtotal (d_of_int D 100)) value)))
         | Quantity_Complete quantity \<Rightarrow>
             (case planned of
                Inl reason \<Rightarrow> Progress_Unavailable reason
              | Inr value \<Rightarrow>
                  if \<not> unit_context_available
                  then Progress_Unavailable SAME_WORK_ITEM_UNIT_CONTEXT_UNAVAILABLE
                  else
                    (let raw = d_div D (d_mul D quantity (d_of_int D 100)) value
                     in Progress_Complete raw
                          (if d_greater_than D raw (d_of_int D 100) then d_of_int D 100 else raw)))
         | passed_through \<Rightarrow> Progress_Law1 passed_through)"

section \<open>LAW 3\<close>

record 'd weighted_work_item =
  work_item_boq_item_id :: string
  work_item_rab_weight :: monitoring_weight_fact
  work_item_progress :: "'d physical_progress"

datatype 'd weighted_progress =
    Weighted_Complete 'd
  | Weighted_Incomplete 'd
  | Weighted_Unavailable monitoring_weight_reason

definition available_weight :: "'d decimal_ops \<Rightarrow> string \<Rightarrow> js_error + 'd" where
  "available_weight D weight_percentage =
     (case d_parse D weight_percentage of
        None \<Rightarrow> Inl (Plain_Error ''H2A1_AVAILABLE_WEIGHT_INVALID'')
      | Some weight \<Rightarrow>
          if d_is_nan D weight \<or> \<not> d_is_finite D weight \<or> d_is_negative D weight
             \<or> d_greater_than D weight (d_of_int D 100)
          then Inl (Plain_Error ''H2A1_AVAILABLE_WEIGHT_INVALID'')
          else Inr weight)"

definition weighted_contribution :: "'d decimal_ops \<Rightarrow> 'd \<Rightarrow> 'd \<Rightarrow> 'd" where
  "weighted_contribution D weight bounded = d_div D (d_mul D weight bounded) (d_of_int D 100)"

fun weigh_work_items ::
    "'d decimal_ops \<Rightarrow> weight_completeness \<Rightarrow> 'd weighted_work_item list \<Rightarrow> 'd \<Rightarrow> bool \<Rightarrow> js_error + 'd \<times> bool" where
  "weigh_work_items D completeness [] subtotal unresolved = Inr (subtotal, unresolved)"
| "weigh_work_items D completeness (item # items) subtotal unresolved =
     (case work_item_rab_weight item of
        Weight_Available weight_percentage \<Rightarrow>
          rbind (available_weight D weight_percentage) (\<lambda>weight.
            if d_is_zero D weight then weigh_work_items D completeness items subtotal unresolved
            else
              (case work_item_progress item of
                 Progress_Complete _ bounded \<Rightarrow>
                   weigh_work_items D completeness items
                     (d_plus D subtotal (weighted_contribution D weight bounded)) unresolved
               | _ \<Rightarrow> weigh_work_items D completeness items subtotal True))
      | _ \<Rightarrow>
          if completeness = Weights_Complete
          then Inl (Plain_Error ''H2A1_COMPLETE_WORK_ITEM_WEIGHT_REQUIRED'')
          else weigh_work_items D completeness items subtotal True)"

definition calculate_current_official_rab_weighted_physical_progress ::
    "'d decimal_ops \<Rightarrow> monitoring_project_weight \<Rightarrow> 'd weighted_work_item list \<Rightarrow> js_error + 'd weighted_progress" where
  "calculate_current_official_rab_weighted_physical_progress D project_weight work_items =
     (if weight_completeness_of project_weight = Weights_Unavailable then
        (case weight_reason project_weight of
           None \<Rightarrow> Inl (Plain_Error ''H2A1_PROJECT_UNAVAILABLE_REASON_REQUIRED'')
         | Some reason \<Rightarrow> Inr (Weighted_Unavailable reason))
      else
        rbind (weigh_work_items D (weight_completeness_of project_weight) work_items (d_of_int D 0)
                 (weight_completeness_of project_weight = Weights_Incomplete)) (\<lambda>(subtotal, unresolved).
          Inr (if unresolved then Weighted_Incomplete subtotal else Weighted_Complete subtotal)))"

section \<open>Lemmas\<close>

text \<open>The weight of an item that weighs something; the items the sum runs over.\<close>

definition counted_weight :: "'d decimal_ops \<Rightarrow> 'd weighted_work_item \<Rightarrow> 'd option" where
  "counted_weight D item =
     (case work_item_rab_weight item of
        Weight_Available s \<Rightarrow>
          (case available_weight D s of Inl e \<Rightarrow> None | Inr w \<Rightarrow> if d_is_zero D w then None else Some w)
      | _ \<Rightarrow> None)"

fun is_complete_progress :: "'d physical_progress \<Rightarrow> bool" where
  "is_complete_progress (Progress_Complete raw bounded) = True"
| "is_complete_progress _ = False"

definition contribution_step :: "'d decimal_ops \<Rightarrow> 'd \<Rightarrow> 'd weighted_work_item \<Rightarrow> 'd" where
  "contribution_step D subtotal item =
     (case counted_weight D item of
        None \<Rightarrow> subtotal
      | Some w \<Rightarrow>
          if is_complete_progress (work_item_progress item)
          then d_plus D subtotal (weighted_contribution D w (bounded_progress (work_item_progress item)))
          else subtotal)"

definition weight_readable :: "'d decimal_ops \<Rightarrow> weight_completeness \<Rightarrow> 'd weighted_work_item \<Rightarrow> bool" where
  "weight_readable D completeness item =
     (case work_item_rab_weight item of
        Weight_Available s \<Rightarrow> (case available_weight D s of Inl e \<Rightarrow> False | Inr w \<Rightarrow> True)
      | _ \<Rightarrow> completeness \<noteq> Weights_Complete)"

definition item_unresolved :: "'d decimal_ops \<Rightarrow> 'd weighted_work_item \<Rightarrow> bool" where
  "item_unresolved D item =
     (case work_item_rab_weight item of
        Weight_Available s \<Rightarrow> counted_weight D item \<noteq> None \<and> \<not> is_complete_progress (work_item_progress item)
      | _ \<Rightarrow> True)"

lemma weigh_work_items_Inr_iff:
  "weigh_work_items D completeness items subtotal unresolved = Inr (sum_total, u) \<longleftrightarrow>
     (\<forall>item \<in> set items. weight_readable D completeness item) \<and>
     sum_total = foldl (contribution_step D) subtotal items \<and>
     (u \<longleftrightarrow> unresolved \<or> (\<exists>item \<in> set items. item_unresolved D item))"
proof (induction items arbitrary: subtotal unresolved)
  case (Cons item items)
  show ?case
  proof (cases "work_item_rab_weight item")
    case (Weight_Available s)
    show ?thesis
    proof (cases "available_weight D s")
      case (Inr w)
      show ?thesis
        using Cons Weight_Available Inr
        by (cases "work_item_progress item")
          (auto simp: counted_weight_def contribution_step_def weight_readable_def item_unresolved_def)
    qed (simp add: Weight_Available weight_readable_def)
  qed (use Cons in \<open>auto simp: counted_weight_def contribution_step_def weight_readable_def item_unresolved_def\<close>)
qed auto

lemma calculate_rab_weighted_eq:
  assumes "weight_completeness_of project \<noteq> Weights_Unavailable"
  shows "calculate_current_official_rab_weighted_physical_progress D project items = Inr r \<longleftrightarrow>
    (\<forall>item \<in> set items. weight_readable D (weight_completeness_of project) item) \<and>
    r = (if weight_completeness_of project = Weights_Incomplete \<or> (\<exists>item \<in> set items. item_unresolved D item)
      then Weighted_Incomplete (foldl (contribution_step D) (d_of_int D 0) items)
      else Weighted_Complete (foldl (contribution_step D) (d_of_int D 0) items))"
proof (cases "weigh_work_items D (weight_completeness_of project) items (d_of_int D 0)
    (weight_completeness_of project = Weights_Incomplete)")
  case (Inl e)
  then have "\<not> (\<forall>item \<in> set items. weight_readable D (weight_completeness_of project) item)"
  proof (intro notI)
    assume "\<forall>item \<in> set items. weight_readable D (weight_completeness_of project) item"
    then have "\<exists>t u. weigh_work_items D (weight_completeness_of project) items (d_of_int D 0)
        (weight_completeness_of project = Weights_Incomplete) = Inr (t, u)"
      unfolding weigh_work_items_Inr_iff by blast
    then show False using Inl by simp
  qed
  then show ?thesis
    using assms Inl by (simp add: calculate_current_official_rab_weighted_physical_progress_def)
next
  case (Inr tu)
  obtain t u where tu: "tu = (t, u)" by (cases tu)
  note i = Inr [unfolded tu weigh_work_items_Inr_iff]
  then show ?thesis
    using assms Inr tu by (auto simp: calculate_current_official_rab_weighted_physical_progress_def)
qed

context decimal_arith
begin

lemma available_weight_range:
  assumes "available_weight D s = Inr w"
  shows "d_is_finite D w" "0 \<le> val w" "val w \<le> 100"
proof -
  have w: "d_is_finite D w" "\<not> d_is_negative D w" "\<not> d_less_than D (d_of_int D 100) w"
    using assms by (auto simp: available_weight_def d_greater_than_def split: option.splits if_splits)
  show "d_is_finite D w" by (rule w(1))
  show "0 \<le> val w" using not_negative_law w by blast
  show "val w \<le> 100" using of_int_law [of 100] less_than_law [of "d_of_int D 100" w] w by simp
qed

lemma contribution_value:
  assumes "d_is_finite D (weighted_contribution D w b)"
  shows "d_is_finite D b \<and> val (weighted_contribution D w b) = rnd (rnd (val w * val b) / 100)"
proof -
  have "d_is_finite D (d_of_int D 100)" "val (d_of_int D 100) = 100" using of_int_law [of 100] by simp_all
  then show ?thesis
    using assms div_law [of "d_mul D w b" "d_of_int D 100"] mul_law [of w b]
    by (simp add: weighted_contribution_def)
qed

lemma rnd_contribution_mono: "0 \<le> w \<Longrightarrow> b \<le> b' \<Longrightarrow> rnd (rnd (w * b) / 100) \<le> rnd (rnd (w * b') / 100)"
  by (intro rnd_mono divide_right_mono) (auto intro: mult_left_mono)

lemma contribution_step_mono:
  assumes weight: "work_item_rab_weight x' = work_item_rab_weight x"
    and progress: "is_complete_progress (work_item_progress x) \<longrightarrow> is_complete_progress (work_item_progress x') \<and>
      val (bounded_progress (work_item_progress x)) \<le> val (bounded_progress (work_item_progress x'))"
    and nonneg: "is_complete_progress (work_item_progress x') \<longrightarrow> 0 \<le> val (bounded_progress (work_item_progress x'))"
    and acc: "settled b" "d_is_finite D b" "val a \<le> val b"
    and fin: "d_is_finite D (contribution_step D a x)" "d_is_finite D (contribution_step D b x')"
  shows "val (contribution_step D a x) \<le> val (contribution_step D b x')"
proof (cases "counted_weight D x")
  case None
  moreover have "counted_weight D x' = None" using None weight by (simp add: counted_weight_def)
  ultimately show ?thesis using acc by (simp add: contribution_step_def)
next
  case (Some w)
  then have w': "counted_weight D x' = Some w" using weight by (simp add: counted_weight_def)
  obtain s where "available_weight D s = Inr w"
    using Some by (auto simp: counted_weight_def split: monitoring_weight_fact.splits sum.splits if_splits)
  then have w: "0 \<le> val w" by (rule available_weight_range)
  let ?b = "bounded_progress (work_item_progress x)" and ?b' = "bounded_progress (work_item_progress x')"
  show ?thesis
  proof (cases "is_complete_progress (work_item_progress x')")
    case False
    then show ?thesis using progress Some w' acc by (simp add: contribution_step_def)
  next
    case True
    then have s': "contribution_step D b x' = d_plus D b (weighted_contribution D w ?b')"
      using w' by (simp add: contribution_step_def)
    have v': "val (contribution_step D b x') = rnd (val b + val (weighted_contribution D w ?b'))"
      "val (weighted_contribution D w ?b') = rnd (rnd (val w * val ?b') / 100)"
      using plus_law [of b "weighted_contribution D w ?b'"] contribution_value fin(2) s' by auto
    have pos: "0 \<le> rnd (rnd (val w * val ?b') / 100)"
      using w nonneg True by (intro rnd_nonneg divide_nonneg_nonneg mult_nonneg_nonneg) simp_all
    show ?thesis
    proof (cases "is_complete_progress (work_item_progress x)")
      case False
      then have "contribution_step D a x = a" using Some by (simp add: contribution_step_def)
      moreover have "val b \<le> rnd (val b + rnd (rnd (val w * val ?b') / 100))"
        using acc(1,2) pos by (intro rnd_add_nonneg) (simp_all add: settled_def)
      ultimately show ?thesis using v' acc(3) by simp
    next
      case True
      then have "contribution_step D a x = d_plus D a (weighted_contribution D w ?b)"
        using Some by (simp add: contribution_step_def)
      then have "val (contribution_step D a x) = rnd (val a + rnd (rnd (val w * val ?b) / 100))"
        using plus_law [of a "weighted_contribution D w ?b"] contribution_value fin(1) by auto
      moreover have "rnd (rnd (val w * val ?b) / 100) \<le> rnd (rnd (val w * val ?b') / 100)"
        using w progress True by (intro rnd_contribution_mono) simp_all
      ultimately show ?thesis using v' acc(3) by (simp add: rnd_mono add_mono)
    qed
  qed
qed

lemma foldl_zip_fst: "length xs = length ys \<Longrightarrow> foldl (\<lambda>c p. f c (fst p)) a (zip xs ys) = foldl f a xs"
  by (induction xs ys arbitrary: a rule: list_induct2) simp_all

lemma foldl_zip_snd: "length xs = length ys \<Longrightarrow> foldl (\<lambda>c p. f c (snd p)) a (zip xs ys) = foldl f a ys"
  by (induction xs ys arbitrary: a rule: list_induct2) simp_all

lemma contribution_step_plus: "contribution_step D c x = c \<or> (\<exists>q. contribution_step D c x = d_plus D c q)"
  by (auto simp: contribution_step_def split: option.splits)

lemma weighted_sum_mono:
  assumes items: "list_all2 (\<lambda>x x'. work_item_rab_weight x' = work_item_rab_weight x \<and>
      (is_complete_progress (work_item_progress x) \<longrightarrow> is_complete_progress (work_item_progress x') \<and>
        val (bounded_progress (work_item_progress x)) \<le> val (bounded_progress (work_item_progress x'))) \<and>
      (is_complete_progress (work_item_progress x') \<longrightarrow> 0 \<le> val (bounded_progress (work_item_progress x')))) items items'"
    and fin: "d_is_finite D (foldl (contribution_step D) (d_of_int D 0) items)"
      "d_is_finite D (foldl (contribution_step D) (d_of_int D 0) items')"
  shows "val (foldl (contribution_step D) (d_of_int D 0) items) \<le> val (foldl (contribution_step D) (d_of_int D 0) items')"
proof -
  have len: "length items = length items'" using items by (rule list_all2_lengthD)
  let ?f = "\<lambda>c p. contribution_step D c (fst p)" and ?g = "\<lambda>c p. contribution_step D c (snd p)"
  have "val (foldl ?f (d_of_int D 0) (zip items items')) \<le> val (foldl ?g (d_of_int D 0) (zip items items'))"
  proof (rule foldl_plus_mono)
    fix a b p
    assume p: "p \<in> set (zip items items')" and acc: "settled b" "d_is_finite D b" "val a \<le> val b"
      and f: "d_is_finite D (?f a p)" "d_is_finite D (?g b p)"
    show "val (?f a p) \<le> val (?g b p)"
      using items p acc f by (cases p) (intro contribution_step_mono; force simp: list_all2_iff)
  qed (use fin len contribution_step_plus settled_zero in \<open>simp_all add: foldl_zip_fst foldl_zip_snd\<close>)
  then show ?thesis by (simp add: foldl_zip_fst [OF len] foldl_zip_snd [OF len])
qed

lemma bounded_range:
  assumes "calculate_work_item_current_physical_progress D (Quantity_Complete q) (Some s) planned_unit =
      Progress_Complete raw bounded"
    and "d_is_finite D q" and "\<not> d_is_negative D q" and "d_is_finite D raw"
  shows "0 \<le> val bounded \<and> val bounded \<le> 100 \<and> val bounded = min (val raw) 100 \<and>
    (\<exists>v. d_parse D s = Some v \<and> 0 < val v \<and> val raw = rnd (rnd (val q * 100) / val v))"
proof -
  obtain v where v: "d_parse D s = Some v" "d_is_finite D v" "\<not> d_is_negative D v" "\<not> d_is_zero D v"
    and raw: "raw = d_div D (d_mul D q (d_of_int D 100)) v"
    and bounded: "bounded = (if d_less_than D (d_of_int D 100) raw then d_of_int D 100 else raw)"
    using assms(1)
    by (auto simp: calculate_work_item_current_physical_progress_def validate_planned_quantity_def Let_def
        d_greater_than_def split: option.splits if_splits)
  have pos: "0 < val v" using not_negative_law [OF v(2,3)] zero_law [OF v(2)] v(4) by simp
  have hundred: "d_is_finite D (d_of_int D 100)" "val (d_of_int D 100) = 100" using of_int_law [of 100] by simp_all
  have vr: "val raw = rnd (rnd (val q * 100) / val v)"
    using div_law [of "d_mul D q (d_of_int D 100)" v] mul_law [of q "d_of_int D 100"] assms(4) v(2) raw hundred by simp
  have "0 \<le> val q" using not_negative_law [OF assms(2,3)] .
  then have nn: "0 \<le> val raw" unfolding vr using pos by (intro rnd_nonneg divide_nonneg_nonneg) simp_all
  have "val bounded = min (val raw) 100"
    using less_than_law [OF hundred(1) assms(4)] hundred bounded by auto
  then show ?thesis using nn v(1) pos vr by auto
qed

end

section \<open>Properties\<close>

text \<open>When an item has official progress. A COMPLETE physical progress exists exactly when the
  official quantity is complete, the planned quantity reads as a finite number that is neither
  negative nor zero, and the unit is not blank; every other case is passed through or named.\<close>

theorem physical_progress_complete_iff:
  "(\<exists>raw bounded. calculate_work_item_current_physical_progress D quantity planned_quantity planned_unit =
      Progress_Complete raw bounded) \<longleftrightarrow>
    (\<exists>q. quantity = Quantity_Complete q) \<and>
    (\<exists>s v. planned_quantity = Some s \<and> d_parse D s = Some v \<and> \<not> d_is_nan D v \<and> d_is_finite D v \<and>
      \<not> d_is_negative D v \<and> \<not> d_is_zero D v) \<and>
    (\<exists>u. planned_unit = Some u \<and> js_trim u \<noteq> [])"
  by (cases quantity)
    (auto simp: calculate_work_item_current_physical_progress_def validate_planned_quantity_def
      has_usable_same_work_item_unit_context_def Let_def split: option.splits)

text \<open>The bounded progress of LAW 2. For a nonnegative official quantity it lies between 0
  and 100, it is the raw progress unless that exceeds 100, and then it is 100; the raw progress is
  one multiplication and one division away from the quantities, rounded at each.\<close>

theorem bounded_progress_range:
  assumes "decimal_arith D val rnd"
    and "calculate_work_item_current_physical_progress D (Quantity_Complete q) (Some s) planned_unit =
      Progress_Complete raw bounded"
    and "d_is_finite D q" and "\<not> d_is_negative D q" and "d_is_finite D raw"
  shows "0 \<le> val bounded \<and> val bounded \<le> 100 \<and> val bounded = min (val raw) 100 \<and>
    (\<exists>v. d_parse D s = Some v \<and> 0 < val v \<and> val raw = rnd (rnd (val q * 100) / val v))"
  using decimal_arith.bounded_range [OF assms] .


text \<open>The project progress never falls when items advance. With the same weights, if each
  item with a progress keeps one that is at least as high, the weighted total is at least as high,
  in spite of the rounding at each step.\<close>

theorem project_progress_monotone:
  assumes "decimal_arith D val rnd"
    and "calculate_current_official_rab_weighted_physical_progress D project items = Inr (Weighted_Complete sum_total)"
    and "calculate_current_official_rab_weighted_physical_progress D project items' = Inr (Weighted_Complete after_total)"
    and "list_all2 (\<lambda>x x'. work_item_rab_weight x' = work_item_rab_weight x \<and>
      (is_complete_progress (work_item_progress x) \<longrightarrow> is_complete_progress (work_item_progress x') \<and>
        val (bounded_progress (work_item_progress x)) \<le> val (bounded_progress (work_item_progress x'))) \<and>
      (is_complete_progress (work_item_progress x') \<longrightarrow> 0 \<le> val (bounded_progress (work_item_progress x')))) items items'"
    and "d_is_finite D sum_total" and "d_is_finite D after_total"
  shows "val sum_total \<le> val after_total"
proof -
  have "weight_completeness_of project \<noteq> Weights_Unavailable"
    using assms(2) by (auto simp: calculate_current_official_rab_weighted_physical_progress_def split: option.splits)
  then have t: "sum_total = foldl (contribution_step D) (d_of_int D 0) items"
    "after_total = foldl (contribution_step D) (d_of_int D 0) items'"
    using assms(2,3) by (simp_all add: calculate_rab_weighted_eq split: if_splits)
  show ?thesis using decimal_arith.weighted_sum_mono [OF assms(1,4)] assms(5,6) t by simp
qed

section \<open>Witnesses\<close>

lemma sample_texts: "parse_fixed ''2'' = Some 2" "parse_fixed ''1'' = Some 1" "js_trim ''m3'' = ''m3''"
  by code_simp+

lemma sample_progress:
  "calculate_work_item_current_physical_progress decimal20 (Quantity_Complete (Some 1)) (Some ''2'') (Some ''m3'') =
    Progress_Complete (Some 50) (Some 50)"
  by (simp add: calculate_work_item_current_physical_progress_def validate_planned_quantity_def
      has_usable_same_work_item_unit_context_def Let_def sample_texts decimal20_simps round20_values)

theorem bounded_progress_range_witness:
  "0 \<le> val20 (Some 50) \<and> val20 (Some 50) \<le> 100 \<and> val20 (Some 50) = min (val20 (Some 50)) 100 \<and>
    (\<exists>v. d_parse decimal20 ''2'' = Some v \<and> 0 < val20 v \<and>
      val20 (Some 50) = round20 (round20 (val20 (Some 1) * 100) / val20 v))"
  by (rule bounded_progress_range [OF decimal20_arith.decimal_arith_axioms sample_progress])
    (simp_all add: decimal20_simps)

definition sample_project :: monitoring_project_weight where
  "sample_project =
     \<lparr>weight_completeness_of = Weights_Complete, weight_reason = None, weight_denominator = Some ''10.00'',
      eligible_work_item_count = 1, weighted_work_item_count = 1, unavailable_work_item_count = 0\<rparr>"

definition sample_item :: "rat \<Rightarrow> rat option weighted_work_item" where
  "sample_item progress =
     \<lparr>work_item_boq_item_id = ''i'', work_item_rab_weight = Weight_Available ''2'',
      work_item_progress = Progress_Complete (Some progress) (Some progress)\<rparr>"

lemma sample_weighted:
  "calculate_current_official_rab_weighted_physical_progress decimal20 sample_project [sample_item 50] =
    Inr (Weighted_Complete (Some 1))"
  "calculate_current_official_rab_weighted_physical_progress decimal20 sample_project [sample_item 100] =
    Inr (Weighted_Complete (Some 2))"
  by (simp_all add: calculate_current_official_rab_weighted_physical_progress_def sample_project_def sample_item_def
      available_weight_def weighted_contribution_def sample_texts decimal20_simps round20_values)


theorem project_progress_monotone_witness: "val20 (Some 1) \<le> val20 (Some 2)"
  by (rule project_progress_monotone [OF decimal20_arith.decimal_arith_axioms sample_weighted])
    (simp_all add: sample_item_def val20_def decimal20_simps)

end
