(* ===== verification/PlannedComparison.thy ===== *)
theory PlannedComparison
  imports ExecutionPlan PhysicalProgress
begin

text \<open>
  \<open>progress/progress-planned-actual-comparison.policy.ts\<close>: the planned curve read at a
  business date, the dates at which planned and actual are compared, and their deviation.

  The planned value at a date is a step function of the curve's points. The property shows
  that the boundaries are enough: between two of them neither side of the comparison changes.
\<close>

section \<open>The planned side\<close>

datatype 'd planned_temporal_progress =
    Planned_Complete 'd
  | Planned_Incomplete string 'd
  | Planned_Unavailable string

fun curve_points :: "planned_curve \<Rightarrow> curve_point list" where
  "curve_points (Curve_Complete _ points) = points"
| "curve_points (Curve_Incomplete _ points) = points"
| "curve_points (Curve_Unavailable _ points) = points"

definition latest_point_at :: "curve_point list \<Rightarrow> string \<Rightarrow> curve_point option" where
  "latest_point_at points boundary_date =
     foldl (\<lambda>candidate point.
        if point_period_end_date point \<le> boundary_date \<and>
           (case candidate of None \<Rightarrow> True
            | Some c \<Rightarrow> point_period_end_date point > point_period_end_date c)
        then Some point else candidate) None points"

definition latest_planned_value_at ::
    "'d decimal_ops \<Rightarrow> planned_curve \<Rightarrow> string \<Rightarrow> js_error + 'd" where
  "latest_planned_value_at D curve boundary_date =
     (case latest_point_at (curve_points curve) boundary_date of
        None \<Rightarrow> Inr (d_of_int D 0)
      | Some point \<Rightarrow>
          (case d_parse D (point_known_percent point) of
             None \<Rightarrow> Inl (Plain_Error ''DecimalError'')
           | Some value \<Rightarrow> Inr value))"

definition project_planned_progress_at_boundary ::
    "'d decimal_ops \<Rightarrow> planned_curve \<Rightarrow> string \<Rightarrow> js_error + 'd planned_temporal_progress" where
  "project_planned_progress_at_boundary D curve boundary_date =
     (case curve of
        Curve_Unavailable reason _ \<Rightarrow> Inr (Planned_Unavailable reason)
      | Curve_Incomplete reason _ \<Rightarrow>
          rbind (latest_planned_value_at D curve boundary_date) (\<lambda>value.
            case reason of
              None \<Rightarrow> Inl (Plain_Error ''INCOMPLETE_PLANNED_CURVE_REASON_REQUIRED'')
            | Some r \<Rightarrow> Inr (Planned_Incomplete r value))
      | Curve_Complete _ _ \<Rightarrow>
          rbind (latest_planned_value_at D curve boundary_date) (\<lambda>value. Inr (Planned_Complete value)))"

section \<open>The dates of the comparison\<close>

definition progress_comparison_boundaries ::
    "planned_curve \<Rightarrow> string list \<Rightarrow> string \<Rightarrow> string list" where
  "progress_comparison_boundaries planned_curve actual_boundaries cutoff_date =
     stable_sort_by (\<le>)
       (foldl set_add []
         (filter (\<lambda>date. date \<le> cutoff_date) (map point_period_end_date (curve_points planned_curve))
          @ filter (\<lambda>date. date \<le> cutoff_date) actual_boundaries
          @ [cutoff_date]))"

section \<open>The deviation\<close>

datatype planned_missing = PLANNED_INCOMPLETE | PLANNED_UNAVAILABLE

datatype actual_missing = ACTUAL_INCOMPLETE | ACTUAL_UNAVAILABLE

datatype 'd progress_deviation =
    Deviation_Complete 'd
  | Deviation_Unavailable "planned_missing option" "actual_missing option"

definition calculate_progress_deviation_percentage_points ::
    "'d decimal_ops \<Rightarrow> 'd planned_temporal_progress \<Rightarrow> 'd weighted_progress \<Rightarrow> 'd progress_deviation" where
  "calculate_progress_deviation_percentage_points D planned actual =
     (case (planned, actual) of
        (Planned_Complete p, Weighted_Complete a) \<Rightarrow> Deviation_Complete (d_sub D a p)
      | _ \<Rightarrow>
          Deviation_Unavailable
            (case planned of
               Planned_Complete _ \<Rightarrow> None
             | Planned_Incomplete _ _ \<Rightarrow> Some PLANNED_INCOMPLETE
             | Planned_Unavailable _ \<Rightarrow> Some PLANNED_UNAVAILABLE)
            (case actual of
               Weighted_Complete _ \<Rightarrow> None
             | Weighted_Incomplete _ \<Rightarrow> Some ACTUAL_INCOMPLETE
             | Weighted_Unavailable _ \<Rightarrow> Some ACTUAL_UNAVAILABLE))"

section \<open>Lemmas\<close>

definition later_point :: "string \<Rightarrow> curve_point option \<Rightarrow> curve_point \<Rightarrow> curve_point option" where
  "later_point boundary candidate point =
     (if point_period_end_date point \<le> boundary \<and>
         (case candidate of None \<Rightarrow> True
          | Some c \<Rightarrow> point_period_end_date point > point_period_end_date c)
      then Some point else candidate)"

lemma latest_point_at_eq: "latest_point_at points b = foldl (later_point b) None points"
  by (simp add: latest_point_at_def later_point_def [abs_def])

lemma foldl_later_point_cong:
  assumes "\<forall>p \<in> set points. point_period_end_date p \<le> b \<longleftrightarrow> point_period_end_date p \<le> b'"
  shows "foldl (later_point b) c points = foldl (later_point b') c points"
  using assms by (induction points arbitrary: c) (simp_all add: later_point_def)

text \<open>The candidate is the earliest listed of the points with the greatest date up to the boundary.\<close>

lemma latest_point_at_Some:
  assumes "latest_point_at points b = Some p"
  shows "p \<in> set points" "point_period_end_date p \<le> b"
    "\<forall>q \<in> set points. point_period_end_date q \<le> b \<longrightarrow> point_period_end_date q \<le> point_period_end_date p"
proof -
  have gen: "\<forall>p. foldl (later_point b) c points = Some p \<longrightarrow>
      (p \<in> set points \<or> c = Some p) \<and> (point_period_end_date p \<le> b) \<and>
      (\<forall>q \<in> set points. point_period_end_date q \<le> b \<longrightarrow> point_period_end_date q \<le> point_period_end_date p) \<and>
      (\<forall>q. c = Some q \<longrightarrow> point_period_end_date q \<le> point_period_end_date p)"
    if "\<forall>q. c = Some q \<longrightarrow> point_period_end_date q \<le> b" for c
    using that
  proof (induction points arbitrary: c)
    case (Cons x xs)
    have n: "\<forall>q. later_point b c x = Some q \<longrightarrow> point_period_end_date q \<le> b"
      using Cons.prems by (simp add: later_point_def)
    have le: "point_period_end_date x \<le> b \<longrightarrow> (\<exists>q. later_point b c x = Some q \<and> point_period_end_date x \<le> point_period_end_date q)"
      and mono: "\<forall>q. c = Some q \<longrightarrow> (\<exists>q'. later_point b c x = Some q' \<and> point_period_end_date q \<le> point_period_end_date q')"
      and src: "later_point b c x = Some x \<or> later_point b c x = c"
      by (cases c; simp add: later_point_def not_less less_imp_le)+
    show ?case
    proof (intro allI impI)
      fix p assume "foldl (later_point b) c (x # xs) = Some p"
      then have f: "foldl (later_point b) (later_point b c x) xs = Some p" by simp
      note ih = Cons.IH [OF n, rule_format, OF f]
      have up: "\<exists>q. later_point b c x = Some q \<and> d \<le> point_period_end_date q \<Longrightarrow> d \<le> point_period_end_date p" for d
        using ih by (metis order_trans)
      have "point_period_end_date x \<le> b \<longrightarrow> point_period_end_date x \<le> point_period_end_date p"
        using up [OF le [rule_format]] by simp
      moreover have "\<forall>q. c = Some q \<longrightarrow> point_period_end_date q \<le> point_period_end_date p"
        using up [OF mono [rule_format]] by simp
      moreover have "p \<in> set (x # xs) \<or> c = Some p" using ih src by auto
      ultimately show "(p \<in> set (x # xs) \<or> c = Some p) \<and> point_period_end_date p \<le> b \<and>
          (\<forall>q \<in> set (x # xs). point_period_end_date q \<le> b \<longrightarrow> point_period_end_date q \<le> point_period_end_date p) \<and>
          (\<forall>q. c = Some q \<longrightarrow> point_period_end_date q \<le> point_period_end_date p)"
        using ih by auto
    qed
  qed auto
  then show "p \<in> set points" "point_period_end_date p \<le> b"
    "\<forall>q \<in> set points. point_period_end_date q \<le> b \<longrightarrow> point_period_end_date q \<le> point_period_end_date p"
    using assms gen [of None] unfolding latest_point_at_eq by auto
qed

lemma latest_point_at_None: "latest_point_at points b = None \<longleftrightarrow> (\<forall>p \<in> set points. \<not> point_period_end_date p \<le> b)"
proof -
  have "foldl (later_point b) c points = None \<longleftrightarrow> c = None \<and> (\<forall>p \<in> set points. \<not> point_period_end_date p \<le> b)" for c
    by (induction points arbitrary: c) (auto simp: later_point_def split: option.splits)
  then show ?thesis by (simp add: latest_point_at_eq)
qed

lemma comparison_boundaries_props:
  "set (progress_comparison_boundaries curve bs cutoff) =
    insert cutoff {d \<in> point_period_end_date ` set (curve_points curve) \<union> set bs. d \<le> cutoff}"
  "sorted_wrt (<) (progress_comparison_boundaries curve bs cutoff)"
  "last (progress_comparison_boundaries curve bs cutoff) = cutoff"
proof -
  show set: "set (progress_comparison_boundaries curve bs cutoff) =
      insert cutoff {d \<in> point_period_end_date ` set (curve_points curve) \<union> set bs. d \<le> cutoff}"
    by (auto simp: progress_comparison_boundaries_def foldl_set_add simp del: foldl_append)
  have s: "sorted_wrt (\<le>) (progress_comparison_boundaries curve bs cutoff)"
    unfolding progress_comparison_boundaries_def by (rule sorted_stable_sort_by) auto
  have "distinct (progress_comparison_boundaries curve bs cutoff)"
    unfolding progress_comparison_boundaries_def
    using distinct_map_stable_sort_by [of "\<lambda>x :: string. x"] foldl_set_add(2) [of "[]"]
    by (simp del: foldl_append)
  then show "sorted_wrt (<) (progress_comparison_boundaries curve bs cutoff)"
    using s by (simp add: strict_sorted_iff)
  show "last (progress_comparison_boundaries curve bs cutoff) = cutoff"
    using s set by (intro sorted_distinct_last) auto
qed

text \<open>Dates with the same points before them read the same planned value.\<close>

lemma planned_at_cong:
  assumes "\<forall>p \<in> set (curve_points curve). point_period_end_date p \<le> b \<longleftrightarrow> point_period_end_date p \<le> b'"
  shows "project_planned_progress_at_boundary D curve b = project_planned_progress_at_boundary D curve b'"
proof -
  have "latest_planned_value_at D curve b = latest_planned_value_at D curve b'"
    using foldl_later_point_cong [OF assms]
    by (simp add: latest_planned_value_at_def latest_point_at_eq)
  then show ?thesis by (cases curve) (simp_all add: project_planned_progress_at_boundary_def)
qed

lemma actual_at_cong:
  assumes "\<forall>f \<in> set (governed_fact_list g). dated_by b f \<longleftrightarrow> dated_by b' f"
    and "project_business_date_wire (JStr b) \<noteq> None" "project_business_date_wire (JStr b') \<noteq> None"
  shows "project_actual_temporal_official_quantity D g b = project_actual_temporal_official_quantity D g b'"
proof -
  have "filter (dated_by b) (governed_fact_list g) = filter (dated_by b') (governed_fact_list g)"
    using assms(1) by (auto intro: filter_cong)
  then show ?thesis
    using assms(2,3)
    by (cases g) (simp_all add: project_actual_temporal_official_quantity_def project_complete_or_incomplete_eq)
qed

section \<open>Properties\<close>

text \<open>The planned value at a date is the value of the latest point of the curve. It is zero before
  the first point; from then on it is the value of the point with the greatest date that is not
  after the boundary, whatever the order of the points.\<close>

theorem planned_value_is_latest_point:
  assumes "latest_planned_value_at D curve boundary = Inr v"
  shows "if \<exists>p \<in> set (curve_points curve). point_period_end_date p \<le> boundary
    then \<exists>p \<in> set (curve_points curve). point_period_end_date p \<le> boundary \<and>
      d_parse D (point_known_percent p) = Some v \<and>
      (\<forall>q \<in> set (curve_points curve). point_period_end_date q \<le> boundary \<longrightarrow>
        point_period_end_date q \<le> point_period_end_date p)
    else v = d_of_int D 0"
proof (cases "latest_point_at (curve_points curve) boundary")
  case None
  then show ?thesis using assms latest_point_at_None [of "curve_points curve" boundary]
    by (simp add: latest_planned_value_at_def)
next
  case (Some p)
  note p = latest_point_at_Some [OF Some]
  have "d_parse D (point_known_percent p) = Some v"
    using assms Some by (simp add: latest_planned_value_at_def split: option.splits)
  then show ?thesis using p by auto
qed

text \<open>C26: the dates of the comparison are enough. Take a business date up to the cutoff and the last
  of the comparison's dates that is not after it. The planned progress and the actual quantity of
  every item are the same at both dates: nothing happens between two dates of the comparison.\<close>

theorem comparison_boundaries_suffice:
  assumes "actual_temporal_series_boundaries gs cutoff = Inr actual"
    and "b \<in> set (progress_comparison_boundaries curve actual cutoff)" and "b \<le> date" and "date \<le> cutoff"
    and "\<forall>c \<in> set (progress_comparison_boundaries curve actual cutoff). c \<le> date \<longrightarrow> c \<le> b"
    and "project_business_date_wire (JStr b) \<noteq> None" and "project_business_date_wire (JStr date) \<noteq> None"
    and "g \<in> set gs"
  shows "project_planned_progress_at_boundary D curve date = project_planned_progress_at_boundary D curve b \<and>
    project_actual_temporal_official_quantity E g date = project_actual_temporal_official_quantity E g b"
proof -
  have facts: "set actual = insert cutoff {w. \<exists>g \<in> set gs. \<exists>f \<in> set (governed_fact_list g). fact_wire f = Some w \<and> w \<le> cutoff}"
    using series_boundaries_set [OF assms(1)] .
  have "\<forall>p \<in> set (curve_points curve). point_period_end_date p \<le> date \<longleftrightarrow> point_period_end_date p \<le> b"
    using assms(3-5) order_trans unfolding comparison_boundaries_props(1) by blast
  moreover have "dated_by date f \<longleftrightarrow> dated_by b f" if f: "f \<in> set (governed_fact_list g)" for f
  proof (cases "fact_wire f")
    case (Some w)
    have "w \<le> date \<longleftrightarrow> w \<le> b"
    proof
      assume "w \<le> date"
      then have "w \<in> set actual" using facts assms(4,8) f Some order_trans by blast
      then show "w \<le> b"
        using assms(4,5) \<open>w \<le> date\<close> order_trans unfolding comparison_boundaries_props(1) by blast
    qed (use assms(3) order_trans in blast)
    then show ?thesis using Some by (simp add: dated_by_def)
  qed (simp add: dated_by_def)
  ultimately show ?thesis using planned_at_cong actual_at_cong assms(6,7) by blast
qed

section \<open>Witnesses\<close>

definition sample_curve_points :: planned_curve where
  "sample_curve_points = Curve_Complete None
     [\<lparr>point_period_end_date = ''2026-02-15'', point_known_percent = ''40''\<rparr>,
      \<lparr>point_period_end_date = ''2026-02-20'', point_known_percent = ''100''\<rparr>]"

lemma sample_point_order: "''2026-02-15'' \<le> ''2026-02-18''" "\<not> ''2026-02-20'' \<le> ''2026-02-18''"
  "''2026-02-18'' \<le> ''2026-02-20''" "''2026-02-15'' \<le> ''2026-02-20''" "\<not> ''2026-02-20'' \<le> ''2026-02-15''"
  "''2026-02-10'' \<le> ''2026-02-15''" "''2026-02-10'' \<le> ''2026-02-20''" "\<not> ''2026-02-15'' \<le> ''2026-02-10''"
  by code_simp+

lemma sample_latest: "latest_planned_value_at decimal20 sample_curve_points ''2026-02-18'' = Inr (Some 40)"
proof -
  have "parse_fixed ''40'' = Some 40" by code_simp
  then show ?thesis
    using sample_point_order
    by (simp add: latest_planned_value_at_def sample_curve_points_def latest_point_at_def decimal20_simps)
qed

theorem planned_value_is_latest_point_witness:
  "\<exists>p \<in> set (curve_points sample_curve_points). point_period_end_date p \<le> ''2026-02-18'' \<and>
    d_parse decimal20 (point_known_percent p) = Some (Some 40)"
  using planned_value_is_latest_point [OF sample_latest] sample_point_order
  by (simp add: sample_curve_points_def split: if_splits)

lemma sample_comparison:
  "progress_comparison_boundaries sample_curve_points [''2026-02-10'', ''2026-02-20''] ''2026-02-20'' =
    [''2026-02-10'', ''2026-02-15'', ''2026-02-20'']"
  using sample_point_order
  by (simp add: progress_comparison_boundaries_def sample_curve_points_def set_add_def)

theorem comparison_boundaries_suffice_witness:
  "project_planned_progress_at_boundary decimal20 sample_curve_points ''2026-02-18'' =
    project_planned_progress_at_boundary decimal20 sample_curve_points ''2026-02-15'' \<and>
   project_actual_temporal_official_quantity decimal20 (Facts_Complete sample_facts) ''2026-02-18'' =
    project_actual_temporal_official_quantity decimal20 (Facts_Complete sample_facts) ''2026-02-15''"
proof (rule comparison_boundaries_suffice [OF sample_boundaries])
  show "project_business_date_wire (JStr ''2026-02-15'') \<noteq> None"
    "project_business_date_wire (JStr ''2026-02-18'') \<noteq> None" by code_simp+
qed (use sample_point_order in \<open>simp_all add: sample_comparison\<close>)

end
