(* ===== verification/PeriodWindow.thy ===== *)
theory PeriodWindow
  imports TemporalSlices PlannedComparison
begin

text \<open>
  \<open>progress/progress-period-window.policy.ts\<close>: the planned and the actual quantity of one work
  item in an inclusive window of business dates.

  A distribution is credited in full at its end date, a fact at its work date; a date that is
  no business date makes the result incomplete. The lemmas give the loops as filters; the
  properties show that a month's facts and credits are those of its week slices, each once.
\<close>

section \<open>Definitions\<close>

definition validate_project_business_date_window :: "js_value \<Rightarrow> js_value \<Rightarrow> window_validity" where
  "validate_project_business_date_window start end_value =
     (case project_business_date_wire start of
        None \<Rightarrow> Window_Invalid INVALID_PERIOD_WINDOW_START_DATE
      | Some valid_start_date \<Rightarrow>
          (case project_business_date_wire end_value of
             None \<Rightarrow> Window_Invalid INVALID_PERIOD_WINDOW_END_DATE
           | Some valid_end_date \<Rightarrow>
               if valid_start_date > valid_end_date then Window_Invalid PERIOD_WINDOW_START_AFTER_END
               else Window_Valid \<lparr>start_date = valid_start_date, end_date = valid_end_date\<rparr>))"

datatype 'd planned_item_quantity =
    Item_Complete 'd
  | Item_Incomplete string 'd
  | Item_Unavailable string

record 'd planned_item_window =
  period_quantity :: "'d planned_item_quantity"
  cumulative_quantity_through_end_date :: "'d planned_item_quantity"

fun planned_window_loop ::
    "'d decimal_ops \<Rightarrow> string \<Rightarrow> date_window \<Rightarrow> 'd plan_distribution list \<Rightarrow> 'd \<Rightarrow> 'd \<Rightarrow> bool \<Rightarrow> 'd \<times> 'd \<times> bool" where
  "planned_window_loop D k window [] period cumulative unplaceable = (period, cumulative, unplaceable)"
| "planned_window_loop D k window (distribution # distributions) period cumulative unplaceable =
     (if distribution_boq_item_id distribution \<noteq> k
      then planned_window_loop D k window distributions period cumulative unplaceable
      else
        (case work_date_wire (Some (Date_Time (period_end_date distribution))) of
           None \<Rightarrow> planned_window_loop D k window distributions period cumulative True
         | Some credit_date \<Rightarrow>
             planned_window_loop D k window distributions
               (if credit_date \<ge> start_date window \<and> credit_date \<le> end_date window
                then d_plus D period (planned_incremental_quantity distribution) else period)
               (if credit_date \<le> end_date window
                then d_plus D cumulative (planned_incremental_quantity distribution) else cumulative)
               unplaceable))"

definition project_planned_item_period_window ::
    "'d decimal_ops \<Rightarrow> string \<Rightarrow> date_window \<Rightarrow> planned_curve \<Rightarrow> 'd plan_distribution list \<Rightarrow> 'd planned_item_window" where
  "project_planned_item_period_window D k window curve distributions =
     (let (period, cumulative, unplaceable) =
            planned_window_loop D k window distributions (d_of_int D 0) (d_of_int D 0) False;
          incomplete = (\<lambda>curve_reason.
            let reason = (if unplaceable then ''INVALID_DISTRIBUTION_DATE''
                          else (case curve_reason of None \<Rightarrow> ''KNOWN_SUBTOTAL_ONLY'' | Some r \<Rightarrow> r))
            in \<lparr>period_quantity = Item_Incomplete reason period,
                cumulative_quantity_through_end_date = Item_Incomplete reason cumulative\<rparr>)
      in case curve of
           Curve_Unavailable reason _ \<Rightarrow>
             \<lparr>period_quantity = Item_Unavailable reason,
              cumulative_quantity_through_end_date = Item_Unavailable reason\<rparr>
         | Curve_Incomplete reason _ \<Rightarrow> incomplete reason
         | Curve_Complete reason _ \<Rightarrow>
             if unplaceable then incomplete reason
             else \<lparr>period_quantity = Item_Complete period,
                   cumulative_quantity_through_end_date = Item_Complete cumulative\<rparr>)"

fun period_facts_loop ::
    "date_window \<Rightarrow> ('d, 'a semantic_entry_scheme) official_fact list
      \<Rightarrow> ('d, 'a semantic_entry_scheme) official_fact list \<Rightarrow> bool
      \<Rightarrow> ('d, 'a semantic_entry_scheme) official_fact list \<times> bool" where
  "period_facts_loop window [] facts unplaceable = (facts, unplaceable)"
| "period_facts_loop window (f # fs) facts unplaceable =
     (case work_date_wire (work_date (fact_entry f)) of
        None \<Rightarrow> period_facts_loop window fs facts True
      | Some wire \<Rightarrow>
          if wire \<ge> start_date window \<and> wire \<le> end_date window
          then period_facts_loop window fs (facts @ [f]) unplaceable
          else period_facts_loop window fs facts unplaceable)"

definition project_actual_item_period_official_facts ::
    "('d, 'a semantic_entry_scheme) governed_facts \<Rightarrow> date_window \<Rightarrow> ('d, 'a semantic_entry_scheme) governed_facts" where
  "project_actual_item_period_official_facts governed window =
     (case governed of
        Facts_Incomplete eligible \<Rightarrow> Facts_Incomplete (fst (period_facts_loop window eligible [] False))
      | Facts_Complete eligible \<Rightarrow>
          (let (facts, unplaceable) = period_facts_loop window eligible [] False
           in if unplaceable then Facts_Incomplete facts else Facts_Complete facts)
      | _ \<Rightarrow> governed)"

definition project_actual_item_period_window ::
    "'d decimal_ops \<Rightarrow> ('d, 'a semantic_entry_scheme) governed_facts \<Rightarrow> date_window \<Rightarrow> 'd official_quantity" where
  "project_actual_item_period_window D governed window =
     (case project_actual_item_period_official_facts governed window of
        Facts_Not_Yet_Recorded \<Rightarrow> Quantity_Not_Yet_Recorded
      | Facts_No_Eligible_Current_Fact \<Rightarrow> Quantity_No_Eligible_Current_Fact
      | Facts_Invalid_Lineage reason \<Rightarrow> Quantity_Invalid_Lineage reason
      | Facts_Invalid_Numeric_Fact \<Rightarrow> Quantity_Invalid_Numeric_Fact
      | Facts_Semantics_Unproven \<Rightarrow> Quantity_Semantics_Unproven
      | Facts_Incomplete facts \<Rightarrow> Quantity_Incomplete (sum_facts D facts)
      | Facts_Complete facts \<Rightarrow> Quantity_Complete (sum_facts D facts))"

section \<open>The loops as filters\<close>

definition in_window :: "date_window \<Rightarrow> string option \<Rightarrow> bool" where
  "in_window window wire \<longleftrightarrow> (case wire of None \<Rightarrow> False | Some w \<Rightarrow> start_date window \<le> w \<and> w \<le> end_date window)"

definition credit_date :: "'d plan_distribution \<Rightarrow> string option" where
  "credit_date d = work_date_wire (Some (Date_Time (period_end_date d)))"

definition credited :: "string \<Rightarrow> date_window \<Rightarrow> 'd plan_distribution list \<Rightarrow> 'd plan_distribution list" where
  "credited k window distributions =
     filter (\<lambda>d. distribution_boq_item_id d = k \<and> in_window window (credit_date d)) distributions"

definition credited_through :: "string \<Rightarrow> string \<Rightarrow> 'd plan_distribution list \<Rightarrow> 'd plan_distribution list" where
  "credited_through k last_date distributions =
     filter (\<lambda>d. distribution_boq_item_id d = k \<and> (\<exists>w. credit_date d = Some w \<and> w \<le> last_date)) distributions"

lemma period_facts_loop_eq:
  "period_facts_loop window fs facts unplaceable =
    (facts @ filter (\<lambda>f. in_window window (fact_wire f)) fs, unplaceable \<or> (\<exists>f \<in> set fs. fact_wire f = None))"
  by (induction fs arbitrary: facts unplaceable) (auto simp: in_window_def fact_wire_def split: option.splits)

lemma planned_window_loop_eq:
  "planned_window_loop D k window ds period cumulative unplaceable =
    (foldl (\<lambda>c d. d_plus D c (planned_incremental_quantity d)) period (credited k window ds),
     foldl (\<lambda>c d. d_plus D c (planned_incremental_quantity d)) cumulative (credited_through k (end_date window) ds),
     unplaceable \<or> (\<exists>d \<in> set ds. distribution_boq_item_id d = k \<and> credit_date d = None))"
proof (induction ds arbitrary: period cumulative unplaceable)
  case (Cons d ds)
  show ?case
  proof (cases "credit_date d")
    case None
    then show ?thesis using Cons
      by (auto simp: credited_def credited_through_def in_window_def credit_date_def)
  next
    case (Some w)
    then show ?thesis using Cons
      by (simp add: credited_def credited_through_def in_window_def credit_date_def)
  qed
qed (simp add: credited_def credited_through_def)

lemma period_window_quantities:
  "project_planned_item_period_window D k window curve ds =
    (let period = planned_total D (credited k window ds);
         cumulative = planned_total D (credited_through k (end_date window) ds);
         unplaceable = (\<exists>d \<in> set ds. distribution_boq_item_id d = k \<and> credit_date d = None)
     in case curve of
          Curve_Unavailable reason _ \<Rightarrow>
            \<lparr>period_quantity = Item_Unavailable reason, cumulative_quantity_through_end_date = Item_Unavailable reason\<rparr>
        | Curve_Incomplete reason _ \<Rightarrow>
            (let r = (if unplaceable then ''INVALID_DISTRIBUTION_DATE''
                      else (case reason of None \<Rightarrow> ''KNOWN_SUBTOTAL_ONLY'' | Some r \<Rightarrow> r))
             in \<lparr>period_quantity = Item_Incomplete r period, cumulative_quantity_through_end_date = Item_Incomplete r cumulative\<rparr>)
        | Curve_Complete _ _ \<Rightarrow>
            if unplaceable
            then \<lparr>period_quantity = Item_Incomplete ''INVALID_DISTRIBUTION_DATE'' period,
                  cumulative_quantity_through_end_date = Item_Incomplete ''INVALID_DISTRIBUTION_DATE'' cumulative\<rparr>
            else \<lparr>period_quantity = Item_Complete period, cumulative_quantity_through_end_date = Item_Complete cumulative\<rparr>)"
  by (simp add: project_planned_item_period_window_def planned_window_loop_eq planned_total_def Let_def
      split: planned_curve.splits)

lemma governed_fact_list_period:
  "governed_fact_list (project_actual_item_period_official_facts g window) =
    filter (\<lambda>f. in_window window (fact_wire f)) (governed_fact_list g)"
  by (cases g) (simp_all add: project_actual_item_period_official_facts_def period_facts_loop_eq)

lemma period_window_actual:
  "project_actual_item_period_window D g window =
    (case g of
       Facts_Complete facts \<Rightarrow>
         (if \<exists>f \<in> set facts. fact_wire f = None
          then Quantity_Incomplete (sum_facts D (filter (\<lambda>f. in_window window (fact_wire f)) facts))
          else Quantity_Complete (sum_facts D (filter (\<lambda>f. in_window window (fact_wire f)) facts)))
     | Facts_Incomplete facts \<Rightarrow>
         Quantity_Incomplete (sum_facts D (filter (\<lambda>f. in_window window (fact_wire f)) facts))
     | _ \<Rightarrow> calculate_current_official_quantity_from_governed D g)"
  by (cases g) (simp_all add: project_actual_item_period_window_def
      project_actual_item_period_official_facts_def period_facts_loop_eq)

section \<open>The windows of a month's slices\<close>

definition slice_window :: "week_slice \<Rightarrow> date_window" where
  "slice_window s = \<lparr>start_date = slice_start_date s, end_date = slice_end_date s\<rparr>"

definition period_window :: "temporal_period \<Rightarrow> date_window" where
  "period_window p = \<lparr>start_date = start_date p, end_date = end_date p\<rparr>"

definition is_wire :: "string option \<Rightarrow> bool" where
  "is_wire w \<longleftrightarrow> (\<forall>s. w = Some s \<longrightarrow> (\<exists>n. business_day n \<and> s = iso_date_part n))"

lemma is_wire_work_date [simp]: "is_wire (work_date_wire d)"
  by (auto simp: is_wire_def work_date_wire_Some_iff)

lemma is_wire_fact [simp]: "is_wire (fact_wire f)" "is_wire (credit_date d)"
  by (simp_all add: fact_wire_def credit_date_def)

lemma in_window_days:
  assumes "is_wire w" "business_day p" "business_day q"
  shows "in_window \<lparr>start_date = iso_date_part p, end_date = iso_date_part q\<rparr> w \<longleftrightarrow>
    (\<exists>n. business_day n \<and> w = Some (iso_date_part n) \<and> p \<le> n \<and> n \<le> q)"
proof (cases w)
  case (Some s)
  then obtain n where "business_day n" "s = iso_date_part n" using assms(1) by (auto simp: is_wire_def)
  then show ?thesis using Some assms(2,3) by (auto simp: in_window_def date_order)
qed (simp add: in_window_def)

text \<open>A date of the month lies in exactly one of its slices.\<close>

lemma slices_partition:
  assumes wire: "\<forall>x \<in> set xs. is_wire (wire x)"
    and "slices_tile c l slices" "business_day c" "business_day l"
  shows "mset (filter (in_window \<lparr>start_date = iso_date_part c, end_date = iso_date_part l\<rparr> \<circ> wire) xs) =
    (\<Sum>s \<leftarrow> slices. mset (filter (in_window (slice_window s) \<circ> wire) xs))"
  using assms(2-4)
proof (induction slices arbitrary: c)
  case Nil
  then have "\<not> in_window \<lparr>start_date = iso_date_part c, end_date = iso_date_part l\<rparr> (wire x)"
    if "x \<in> set xs" for x
    using wire that by (simp add: in_window_days)
  then show ?case by (simp add: filter_False)
next
  case (Cons s ss)
  define e where "e = wire_day (slice_end_date s)"
  have s: "slice_start_date s = iso_date_part c" "slice_end_date s = iso_date_part e" "c \<le> e" "e \<le> l"
    "slices_tile (e + 1) l ss"
    using Cons(2) unfolding e_def by simp_all
  have e: "business_day e" using business_day_between [OF Cons(3,4) s(3,4)] .
  show ?case
  proof (cases "ss = []")
    case True
    then have "e = l" using s(5) by simp
    then have "slice_window s = \<lparr>start_date = iso_date_part c, end_date = iso_date_part l\<rparr>"
      using s by (simp add: slice_window_def)
    then show ?thesis using True by simp
  next
    case False
    then obtain t ts where "ss = t # ts" by (cases ss) auto
    then have le: "e + 1 \<le> l" using s(5) by simp
    have e1: "business_day (e + 1)" using business_day_between [OF e Cons(4)] le by simp
    let ?r = "\<lparr>start_date = iso_date_part (e + 1), end_date = iso_date_part l\<rparr>"
    have sw: "slice_window s = \<lparr>start_date = iso_date_part c, end_date = iso_date_part e\<rparr>"
      using s by (simp add: slice_window_def)
    have split: "(in_window \<lparr>start_date = iso_date_part c, end_date = iso_date_part l\<rparr> (wire x) \<longleftrightarrow>
        in_window (slice_window s) (wire x) \<or> in_window ?r (wire x)) \<and>
      \<not> (in_window (slice_window s) (wire x) \<and> in_window ?r (wire x))" if x: "x \<in> set xs" for x
    proof (cases "wire x")
      case (Some w)
      then obtain n where n: "business_day n" "wire x = Some (iso_date_part n)"
        using wire x by (auto simp: is_wire_def)
      then show ?thesis using e e1 Cons(3,4) s(3,4) le by (auto simp: sw in_window_def date_order)
    qed (simp add: in_window_def)
    have "mset (filter (in_window \<lparr>start_date = iso_date_part c, end_date = iso_date_part l\<rparr> \<circ> wire) xs) =
        mset (filter (in_window (slice_window s) \<circ> wire) xs) + mset (filter (in_window ?r \<circ> wire) xs)"
      using split by (induction xs) auto
    then show ?thesis using Cons(1) [OF s(5) e1 Cons(4)] by simp
  qed
qed

lemma month_slices_partition:
  assumes "canonical_week_slices_for_month b anchor reference_date = Some (Inr (Slices_Resolved month slices))"
    and "\<forall>x \<in> set xs. is_wire (wire x)"
  shows "mset (filter (in_window (period_window month) \<circ> wire) xs) =
    (\<Sum>s \<leftarrow> slices. mset (filter (in_window (slice_window s) \<circ> wire) xs))"
proof -
  obtain f l where fl: "start_date month = iso_date_part f" "end_date month = iso_date_part l"
    "business_day f" "business_day l" "slices_tile f l slices"
    using assms(1) by (rule resolved_month_slices_tile)
  then show ?thesis using slices_partition [OF assms(2) fl(5,3,4)] by (simp add: period_window_def)
qed

section \<open>Properties\<close>

text \<open>The weekly slices of a month split its actual facts: the facts counted in the month's
  window are those counted in the windows of its slices, each fact in exactly one slice.\<close>

theorem weekly_slices_split_the_actual_facts:
  assumes "canonical_week_slices_for_month b anchor reference_date = Some (Inr (Slices_Resolved month slices))"
  shows "mset (governed_fact_list (project_actual_item_period_official_facts g (period_window month))) =
    (\<Sum>s \<leftarrow> slices. mset (governed_fact_list (project_actual_item_period_official_facts g (slice_window s))))"
  using month_slices_partition [OF assms, of "governed_fact_list g" fact_wire]
  by (simp add: governed_fact_list_period comp_def)

section \<open>Witnesses\<close>

theorem weekly_slices_split_the_actual_facts_witness:
  "\<exists>month slices.
    canonical_week_slices_for_month CALENDAR None (iso_date_part 20494) = Some (Inr (Slices_Resolved month slices)) \<and>
    mset (governed_fact_list (project_actual_item_period_official_facts (Facts_Complete sample_facts) (period_window month))) =
    (\<Sum>s \<leftarrow> slices. mset (governed_fact_list
      (project_actual_item_period_official_facts (Facts_Complete sample_facts) (slice_window s))))"
proof -
  obtain month slices where
    m: "canonical_week_slices_for_month CALENDAR None (iso_date_part 20494) = Some (Inr (Slices_Resolved month slices))"
    using month_slices_exist [of CALENDAR None 0 20494] february_days by (auto simp: anchored_def period_covered_def)
  then show ?thesis using weekly_slices_split_the_actual_facts [OF m] by blast
qed

end
