(* ===== verification/WorkPeriodAnchor.thy ===== *)
theory WorkPeriodAnchor
  imports TemporalSlices OfficialQuantity ExecutionPlan
begin

text \<open>
  \<open>project/work-period-anchor.policy.ts\<close>: the governed first day of a project's work periods,
  proved by the audit trail, and the four gates that keep facts from before that day out.

  The query that loads the audit events is database access; its result is the argument
  \<open>events\<close>. A project's start date and the dates of plans and facts are \<open>Date\<close> values, and
  writing the instant of an event throws when that is no valid date.

  The properties: an anchor is proven exactly by unanimous lawful events that agree with the
  start date; the gates report the earliest offending date, and what passes them has a work
  period.
\<close>

section \<open>The anchor\<close>

definition WORK_PERIOD_ANCHOR_POLICY_VERSION :: string where
  "WORK_PERIOD_ANCHOR_POLICY_VERSION = ''MON04_WORK_PERIOD_ANCHOR_V1''"

definition WORK_PERIOD_ANCHOR_ACTIVATED :: string where
  "WORK_PERIOD_ANCHOR_ACTIVATED = ''PROJECT_WORK_PERIOD_ANCHOR_ACTIVATED''"

definition WORK_PERIOD_ANCHOR_CONFIRMED :: string where
  "WORK_PERIOD_ANCHOR_CONFIRMED = ''PROJECT_WORK_PERIOD_ANCHOR_CONFIRMED''"

record anchor_proof_metadata =
  apm_anchor_date :: string
  apm_previous_start_date :: "string option"
  apm_actor_assignment_id :: string

record anchor_audit_candidate =
  anchor_event_id :: string
  anchor_project_id :: string
  target_entity_type :: "string option"
  target_entity_id :: "string option"
  anchor_action :: string
  anchor_outcome :: progress_audit_outcome
  anchor_actor_account_id :: string
  anchor_actor_membership_id :: string
  anchor_reason :: "string option"
  anchor_metadata :: js_value
  anchor_occurred_at :: js_date

datatype anchor_invalid_reason =
    GOVERNANCE_PROOF_INVALID
  | CONFLICTING_GOVERNANCE_PROOFS
  | GOVERNED_ANCHOR_START_DATE_MISMATCH

record anchor_provenance =
  provenance_event_id :: string
  provenance_action :: string
  provenance_actor_account_id :: string
  provenance_actor_membership_id :: string
  provenance_actor_assignment_id :: string
  provenance_occurred_at :: string
  provenance_reason :: "string option"

text \<open>The second component is the candidate date; for a proven anchor it is the anchor itself.\<close>

datatype canonical_work_period_anchor =
    Anchor_Not_Proven "string option"
  | Anchor_Invalid_Provenance "string option" anchor_invalid_reason
  | Anchor_Proven string anchor_provenance

definition is_anchor_action :: "string \<Rightarrow> bool" where
  "is_anchor_action value \<longleftrightarrow>
     value = WORK_PERIOD_ANCHOR_ACTIVATED \<or> value = WORK_PERIOD_ANCHOR_CONFIRMED"

definition anchor_proof_metadata_of :: "js_value \<Rightarrow> anchor_proof_metadata option" where
  "anchor_proof_metadata_of value =
     (case value of
        JObj metadata \<Rightarrow>
          if js_prop metadata ''policyVersion'' \<noteq> JStr WORK_PERIOD_ANCHOR_POLICY_VERSION then None
          else
            (case (project_business_date_wire (js_prop metadata ''anchorDate''),
                   js_as_string (js_prop metadata ''actorAssignmentId'')) of
               (Some anchor_date, Some assignment) \<Rightarrow>
                 if (js_prop metadata ''previousStartDate'' \<noteq> JNull \<and>
                      \<not> js_is_string (js_prop metadata ''previousStartDate''))
                    \<or> js_prop metadata ''explicitConfirmation'' \<noteq> JBool True
                 then None
                 else Some \<lparr>apm_anchor_date = anchor_date,
                   apm_previous_start_date = js_as_string (js_prop metadata ''previousStartDate''),
                   apm_actor_assignment_id = assignment\<rparr>
             | _ \<Rightarrow> None)
      | _ \<Rightarrow> None)"

definition anchor_event_invalid :: "string \<Rightarrow> anchor_audit_candidate \<Rightarrow> bool" where
  "anchor_event_invalid project event \<longleftrightarrow>
     anchor_project_id event \<noteq> project \<or>
     target_entity_type event \<noteq> Some ''PROJECT'' \<or>
     target_entity_id event \<noteq> Some project \<or>
     anchor_outcome event \<noteq> SUCCESS \<or>
     \<not> is_anchor_action (anchor_action event) \<or>
     anchor_proof_metadata_of (anchor_metadata event) = None"

definition instant_iso :: "js_date \<Rightarrow> js_error + string" where
  "instant_iso d = (case d of Invalid_Date \<Rightarrow> Inl (Plain_Error ''Invalid time value'') | Date_Time t \<Rightarrow> Inr (to_iso_string t))"

definition event_anchor :: "anchor_audit_candidate \<Rightarrow> string" where
  "event_anchor event = apm_anchor_date (the (anchor_proof_metadata_of (anchor_metadata event)))"

definition read_canonical_work_period_anchor ::
    "string \<Rightarrow> js_date option \<Rightarrow> anchor_audit_candidate list \<Rightarrow> js_error + canonical_work_period_anchor" where
  "read_canonical_work_period_anchor project start events =
     (let candidate_date = work_date_wire start
      in if events = [] then Inr (Anchor_Not_Proven candidate_date)
         else if \<exists>event \<in> set events. anchor_event_invalid project event
         then Inr (Anchor_Invalid_Provenance candidate_date GOVERNANCE_PROOF_INVALID)
         else
           (let anchors = foldl set_add [] (map event_anchor events)
            in if length anchors \<noteq> 1
               then Inr (Anchor_Invalid_Provenance candidate_date CONFLICTING_GOVERNANCE_PROOFS)
               else
                 (let anchor_date = event_anchor (hd events)
                  in if candidate_date \<noteq> Some anchor_date
                     then Inr (Anchor_Invalid_Provenance candidate_date GOVERNED_ANCHOR_START_DATE_MISMATCH)
                     else
                       (let latest = last events
                        in rbind (instant_iso (anchor_occurred_at latest)) (\<lambda>occurred.
                          Inr (Anchor_Proven anchor_date
                            \<lparr>provenance_event_id = anchor_event_id latest,
                             provenance_action = anchor_action latest,
                             provenance_actor_account_id = anchor_actor_account_id latest,
                             provenance_actor_membership_id = anchor_actor_membership_id latest,
                             provenance_actor_assignment_id = apm_actor_assignment_id
                               (the (anchor_proof_metadata_of (anchor_metadata latest))),
                             provenance_occurred_at = occurred,
                             provenance_reason = anchor_reason latest\<rparr>))))))"

section \<open>The gates\<close>

datatype anchor_conflict_code =
    WORK_PERIOD_ANCHOR_PLANNED_FACT_BEFORE_ANCHOR
  | WORK_PERIOD_ANCHOR_ACTUAL_FACT_BEFORE_ANCHOR

datatype anchor_source = PLANNED_SOURCE | ACTUAL_SOURCE

record anchor_conflict =
  conflict_code :: anchor_conflict_code
  conflict_baseline_id :: string
  conflict_boq_item_id :: string
  earliest_conflicting_date :: string
  conflict_plan_version_id :: "string option"

datatype anchor_compatibility =
    Compatible
  | Conflict anchor_conflict
  | Unproven anchor_source string "string option"

text \<open>
  The loop of the gates: over pairs of an item and the date of its fact, the first earliest
  date before the anchor; \<open>Inl\<close> is the item of a date that cannot be placed.
\<close>

fun earliest_before ::
    "string \<Rightarrow> (string \<times> string option) list \<Rightarrow> (string \<times> string) option \<Rightarrow> string + (string \<times> string) option" where
  "earliest_before anchor_date [] conflict = Inr conflict"
| "earliest_before anchor_date ((boq_item, date) # rest) conflict =
     (case date of
        None \<Rightarrow> Inl boq_item
      | Some d \<Rightarrow>
          earliest_before anchor_date rest
            (if d < anchor_date \<and> (case conflict of None \<Rightarrow> True | Some c \<Rightarrow> d < snd c)
             then Some (boq_item, d) else conflict))"

record ('d) planned_anchor_context =
  pac_baseline_id :: string
  pac_plan_version_id :: string
  pac_distributions :: "'d plan_distribution list"

datatype 'd planned_anchor_compatibility_context =
    No_Locked_Plan
  | Plan_Unproven string
  | Plan_Authoritative "'d planned_anchor_context"

definition assess_planned_anchor_compatibility ::
    "string \<Rightarrow> 'd planned_anchor_compatibility_context \<Rightarrow> anchor_compatibility" where
  "assess_planned_anchor_compatibility anchor_date plan =
     (case plan of
        No_Locked_Plan \<Rightarrow> Compatible
      | Plan_Unproven reason \<Rightarrow> Unproven PLANNED_SOURCE reason None
      | Plan_Authoritative p \<Rightarrow>
          (case earliest_before anchor_date
                  (map (\<lambda>d. (distribution_boq_item_id d, work_date_wire (Some (Date_Time (period_end_date d)))))
                    (pac_distributions p)) None of
             Inl boq_item \<Rightarrow> Unproven PLANNED_SOURCE ''INVALID_DISTRIBUTION_DATE'' (Some boq_item)
           | Inr None \<Rightarrow> Compatible
           | Inr (Some (boq_item, date)) \<Rightarrow>
               Conflict \<lparr>conflict_code = WORK_PERIOD_ANCHOR_PLANNED_FACT_BEFORE_ANCHOR,
                 conflict_baseline_id = pac_baseline_id p, conflict_boq_item_id = boq_item,
                 earliest_conflicting_date = date, conflict_plan_version_id = Some (pac_plan_version_id p)\<rparr>))"

record execution_start_conflict =
  esc_baseline_id :: string
  esc_plan_version_id :: string
  esc_boq_item_id :: string
  esc_earliest_period_start_date :: string
  esc_anchor_date :: string

datatype execution_start_compatibility =
    Start_Compatible
  | Start_Conflict execution_start_conflict
  | Start_Unproven string string string

definition assess_execution_start_anchor_compatibility ::
    "string \<Rightarrow> 'd planned_anchor_context \<Rightarrow> execution_start_compatibility" where
  "assess_execution_start_anchor_compatibility anchor_date p =
     (case earliest_before anchor_date
             (map (\<lambda>d. (distribution_boq_item_id d, work_date_wire (Some (Date_Time (period_start_date d)))))
               (pac_distributions p)) None of
        Inl boq_item \<Rightarrow> Start_Unproven (pac_baseline_id p) (pac_plan_version_id p) boq_item
      | Inr None \<Rightarrow> Start_Compatible
      | Inr (Some (boq_item, date)) \<Rightarrow>
          Start_Conflict \<lparr>esc_baseline_id = pac_baseline_id p, esc_plan_version_id = pac_plan_version_id p,
            esc_boq_item_id = boq_item, esc_earliest_period_start_date = date,
            esc_anchor_date = anchor_date\<rparr>)"

text \<open>\<open>Inl\<close> is the reason and the item of an unproven context.\<close>

fun actual_conflict ::
    "string \<Rightarrow> (string \<times> ('d, 'a semantic_entry_scheme) governed_facts) list \<Rightarrow> (string \<times> string) option
      \<Rightarrow> (string \<times> string) + (string \<times> string) option" where
  "actual_conflict anchor_date [] conflict = Inr conflict"
| "actual_conflict anchor_date ((boq_item, governed) # contexts) conflict =
     (case governed of
        Facts_Not_Yet_Recorded \<Rightarrow> actual_conflict anchor_date contexts conflict
      | Facts_No_Eligible_Current_Fact \<Rightarrow> actual_conflict anchor_date contexts conflict
      | Facts_Invalid_Lineage _ \<Rightarrow> Inl (''INVALID_LINEAGE'', boq_item)
      | Facts_Invalid_Numeric_Fact \<Rightarrow> Inl (''INVALID_NUMERIC_FACT'', boq_item)
      | Facts_Semantics_Unproven \<Rightarrow> Inl (''SEMANTICS_UNPROVEN'', boq_item)
      | Facts_Incomplete _ \<Rightarrow> Inl (''INCOMPLETE'', boq_item)
      | Facts_Complete facts \<Rightarrow>
          (case earliest_before anchor_date
                  (map (\<lambda>f. (boq_item, work_date_wire (work_date (fact_entry f)))) facts) conflict of
             Inl _ \<Rightarrow> Inl (''UNPLACEABLE_CURRENT_WORK_DATE'', boq_item)
           | Inr conflict' \<Rightarrow> actual_conflict anchor_date contexts conflict'))"

definition assess_actual_anchor_compatibility ::
    "string \<Rightarrow> string \<Rightarrow> (string \<times> ('d, 'a semantic_entry_scheme) governed_facts) list \<Rightarrow> anchor_compatibility" where
  "assess_actual_anchor_compatibility anchor_date baseline contexts =
     (case actual_conflict anchor_date contexts None of
        Inl (reason, boq_item) \<Rightarrow> Unproven ACTUAL_SOURCE reason (Some boq_item)
      | Inr None \<Rightarrow> Compatible
      | Inr (Some (boq_item, date)) \<Rightarrow>
          Conflict \<lparr>conflict_code = WORK_PERIOD_ANCHOR_ACTUAL_FACT_BEFORE_ANCHOR,
            conflict_baseline_id = baseline, conflict_boq_item_id = boq_item,
            earliest_conflicting_date = date, conflict_plan_version_id = None\<rparr>)"

definition assess_actual_promotion_anchor_compatibility ::
    "string \<Rightarrow> string \<Rightarrow> string \<Rightarrow> js_date option \<Rightarrow> anchor_compatibility" where
  "assess_actual_promotion_anchor_compatibility anchor_date baseline boq_item date =
     (case work_date_wire date of
        None \<Rightarrow> Unproven ACTUAL_SOURCE ''UNPLACEABLE_CURRENT_WORK_DATE'' (Some boq_item)
      | Some fact_date \<Rightarrow>
          if fact_date < anchor_date
          then Conflict \<lparr>conflict_code = WORK_PERIOD_ANCHOR_ACTUAL_FACT_BEFORE_ANCHOR,
                 conflict_baseline_id = baseline, conflict_boq_item_id = boq_item,
                 earliest_conflicting_date = fact_date, conflict_plan_version_id = None\<rparr>
          else Compatible)"

section \<open>Lemmas\<close>

lemma length_distinct_one:
  assumes "distinct ys" "set ys = set xs" "xs \<noteq> []"
  shows "length ys = 1 \<longleftrightarrow> (\<forall>x \<in> set xs. x = hd xs)"
proof -
  have "length ys = card (set xs)" using distinct_card [OF assms(1)] assms(2) by simp
  moreover have "card (set xs) = 1 \<longleftrightarrow> (\<forall>x \<in> set xs. x = hd xs)"
  proof
    assume "card (set xs) = 1"
    then obtain z where "set xs = {z}" by (auto simp: card_1_singleton_iff)
    then show "\<forall>x \<in> set xs. x = hd xs" using assms(3) hd_in_set [of xs] by simp
  next
    assume "\<forall>x \<in> set xs. x = hd xs"
    then have "set xs = {hd xs}" using assms(3) hd_in_set [of xs] by blast
    then show "card (set xs) = 1" by simp
  qed
  ultimately show ?thesis by simp
qed

lemma set_add_foldl: "set (foldl set_add bs xs) = set bs \<union> set xs" "distinct bs \<Longrightarrow> distinct (foldl set_add bs xs)"
  by (induction xs arbitrary: bs) (auto simp: set_add_properties)

lemma earliest_before_Inr:
  "earliest_before a xs conflict = Inr r \<longleftrightarrow>
    (\<forall>(k, d) \<in> set xs. d \<noteq> None) \<and>
    r = foldl (\<lambda>c (k, d). if the d < a \<and> (case c of None \<Rightarrow> True | Some c \<Rightarrow> the d < snd c) then Some (k, the d) else c) conflict xs"
  by (induction xs arbitrary: conflict) (auto split: option.splits)

text \<open>What the loop returns: the minimum of the dates before the anchor, with an item that has it.\<close>

definition earliest_is ::
    "string \<Rightarrow> (string \<times> string option) list \<Rightarrow> (string \<times> string) option \<Rightarrow> bool" where
  "earliest_is a xs r \<longleftrightarrow>
     (case r of
        None \<Rightarrow> \<forall>(k, d) \<in> set xs. \<forall>w. d = Some w \<longrightarrow> a \<le> w
      | Some (k, w) \<Rightarrow> (k, Some w) \<in> set xs \<and> w < a \<and> (\<forall>(k', d) \<in> set xs. \<forall>w'. d = Some w' \<longrightarrow> w \<le> w'))"

lemma earliest_before_min:
  assumes "earliest_before a xs conflict = Inr r"
    and "earliest_is a ys conflict"
  shows "earliest_is a (ys @ xs) r"
  using assms
proof (induction xs arbitrary: ys conflict)
  case (Cons x xs)
  obtain k d where x: "x = (k, Some d)"
    using Cons.prems(1) by (cases x; cases "snd x") (auto split: option.splits)
  let ?c = "if d < a \<and> (case conflict of None \<Rightarrow> True | Some c \<Rightarrow> d < snd c) then Some (k, d) else conflict"
  have run: "earliest_before a xs ?c = Inr r" using Cons.prems(1) by (simp add: x)
  have "earliest_is a (ys @ [x]) ?c"
    using Cons.prems(2) unfolding earliest_is_def x
    by (cases conflict) (force simp: not_less intro: order_trans less_imp_le)+
  then have "earliest_is a ((ys @ [x]) @ xs) r" by (rule Cons.IH [OF run])
  then show ?case by simp
qed simp

lemma earliest_before_dated: "earliest_before a xs conflict = Inr r \<Longrightarrow> (k, d) \<in> set xs \<Longrightarrow> d \<noteq> None"
  by (auto simp: earliest_before_Inr)

lemma earliest_before_undated:
  "earliest_before a (map (\<lambda>f. (k, work_date_wire (work_date (fact_entry f)))) facts) conflict = Inl i \<Longrightarrow>
    \<exists>f \<in> set facts. fact_wire f = None"
  by (induction facts arbitrary: conflict) (auto simp: fact_wire_def split: option.splits)

lemma actual_conflict_min:
  assumes "actual_conflict a contexts conflict = Inr r" and "earliest_is a ys conflict"
  shows "earliest_is a (ys @ concat (map (\<lambda>(k, g). map (\<lambda>f. (k, fact_wire f)) (governed_fact_list g)) contexts)) r \<and>
    (\<forall>(k, g) \<in> set contexts. \<forall>f \<in> set (governed_fact_list g). fact_wire f \<noteq> None)"
  using assms
proof (induction contexts arbitrary: ys conflict)
  case (Cons x contexts)
  obtain k g where x: "x = (k, g)" by (cases x)
  show ?case
  proof (cases g)
    case (Facts_Complete facts)
    let ?xs = "map (\<lambda>f. (k, fact_wire f)) facts"
    obtain c where c: "earliest_before a ?xs conflict = Inr c" "actual_conflict a contexts c = Inr r"
      using Cons.prems(1) by (auto simp: x Facts_Complete fact_wire_def split: sum.splits)
    have "earliest_is a (ys @ ?xs) c" using earliest_before_min [OF c(1) Cons.prems(2)] .
    then have "earliest_is a ((ys @ ?xs) @ concat (map (\<lambda>(k, g). map (\<lambda>f. (k, fact_wire f)) (governed_fact_list g)) contexts)) r \<and>
      (\<forall>(k, g) \<in> set contexts. \<forall>f \<in> set (governed_fact_list g). fact_wire f \<noteq> None)"
      using Cons.IH [OF c(2)] by blast
    moreover have "\<forall>f \<in> set facts. fact_wire f \<noteq> None"
    proof
      fix f assume "f \<in> set facts"
      then have "(k, fact_wire f) \<in> set ?xs" by simp
      then show "fact_wire f \<noteq> None" by (rule earliest_before_dated [OF c(1)])
    qed
    ultimately show ?thesis by (simp add: x Facts_Complete)
  qed (use Cons x in auto)
qed simp

lemma actual_conflict_unproven:
  "actual_conflict a contexts conflict = Inl (reason, k) \<Longrightarrow>
    \<exists>g. (k, g) \<in> set contexts \<and> g \<noteq> Facts_Not_Yet_Recorded \<and> g \<noteq> Facts_No_Eligible_Current_Fact \<and>
      (\<forall>facts. g = Facts_Complete facts \<longrightarrow> (\<exists>f \<in> set facts. fact_wire f = None))"
proof (induction contexts arbitrary: conflict)
  case (Cons x contexts)
  obtain k' g where x: "x = (k', g)" by (cases x)
  show ?case
  proof (cases g)
    case (Facts_Complete facts)
    let ?run = "earliest_before a (map (\<lambda>f. (k', work_date_wire (work_date (fact_entry f)))) facts) conflict"
    show ?thesis
    proof (cases ?run)
      case (Inl i)
      then have "\<exists>f \<in> set facts. fact_wire f = None" by (rule earliest_before_undated)
      then show ?thesis using Cons.prems Inl by (auto simp: x Facts_Complete)
    next
      case (Inr c)
      then have "actual_conflict a contexts c = Inl (reason, k)"
        using Cons.prems by (simp add: x Facts_Complete)
      then show ?thesis using Cons.IH by (auto simp: x)
    qed
  qed (use Cons x in auto)
qed simp

lemma before_anchor_is_earlier:
  assumes "resolve_at WORK_PERIOD gr (Some a) w =
    Inr (Period_Unavailable REFERENCE_DATE_BEFORE_GOVERNED_WORK_PERIOD_ANCHOR)"
  shows "w < a"
proof -
  obtain n m where n: "business_day n" "w = iso_date_part n" and m: "business_day m" "a = iso_date_part m"
    and "n < m"
    using assms
    by (auto simp: resolve_at_def resolve_canonical_temporal_period_def project_business_date_Some_iff
        compare_dates_def rbind_eq_Inr_iff split: option.splits if_splits)
  then show ?thesis by (simp add: date_order business_day_four_digit)
qed

lemma proven_read:
  assumes "events \<noteq> []" "\<forall>e \<in> set events. \<not> anchor_event_invalid project e"
    and "length (foldl set_add [] (map event_anchor events)) = 1"
  shows "(\<exists>pr. read_canonical_work_period_anchor project start events = Inr (Anchor_Proven d pr)) \<longleftrightarrow>
    work_date_wire start = Some d \<and> event_anchor (hd events) = d \<and> anchor_occurred_at (last events) \<noteq> Invalid_Date"
proof (cases "work_date_wire start = Some (event_anchor (hd events))")
  case True
  then show ?thesis
    using assms(1,2)
    by (cases "anchor_occurred_at (last events)")
      (auto simp: read_canonical_work_period_anchor_def Let_def assms(3) instant_iso_def simp del: length_map)
next
  case False
  have "\<not> (\<exists>e \<in> set events. anchor_event_invalid project e)" using assms(2) by blast
  then have "read_canonical_work_period_anchor project start events =
      Inr (Anchor_Invalid_Provenance (work_date_wire start) GOVERNED_ANCHOR_START_DATE_MISMATCH)"
    using False by (simp add: read_canonical_work_period_anchor_def Let_def assms(1) assms(3))
  then show ?thesis using False by auto
qed

section \<open>Properties\<close>

text \<open>C34: when the anchor is proven. Exactly when there is at least one event, every event is a lawful
  proof for this project, all of them name one date, the project's start date is that date, and
  the instant of the last event is a valid date.\<close>

theorem anchor_proven_iff:
  "(\<exists>pr. read_canonical_work_period_anchor project start events = Inr (Anchor_Proven d pr)) \<longleftrightarrow>
    events \<noteq> [] \<and> (\<forall>e \<in> set events. \<not> anchor_event_invalid project e \<and> event_anchor e = d) \<and>
    work_date_wire start = Some d \<and> anchor_occurred_at (last events) \<noteq> Invalid_Date"
proof (cases "events = [] \<or> (\<exists>e \<in> set events. anchor_event_invalid project e)")
  case False
  then have ne: "map event_anchor events \<noteq> []" and hd: "hd (map event_anchor events) = event_anchor (hd events)"
    and lawful: "\<forall>e \<in> set events. \<not> anchor_event_invalid project e" and ne': "events \<noteq> []"
    by (simp_all add: hd_map)
  have one: "length (foldl set_add [] (map event_anchor events)) = 1 \<longleftrightarrow>
      (\<forall>e \<in> set events. event_anchor e = event_anchor (hd events))"
    using length_distinct_one [OF _ _ ne, of "foldl set_add [] (map event_anchor events)"]
      set_add_foldl [of "[]" "map event_anchor events"] by (simp add: hd)
  have h: "hd events \<in> set events" using ne' by simp
  show ?thesis
  proof (cases "\<forall>e \<in> set events. event_anchor e = event_anchor (hd events)")
    case True
    then have l: "length (foldl set_add [] (map event_anchor events)) = 1" using one by blast
    have "(\<forall>e \<in> set events. event_anchor e = d) \<longleftrightarrow> event_anchor (hd events) = d"
      using True h by metis
    then show ?thesis using proven_read [OF ne' lawful l, of start d] ne' lawful by blast
  next
    case neq: False
    then have l: "length (foldl set_add [] (map event_anchor events)) \<noteq> 1" using one by blast
    have "read_canonical_work_period_anchor project start events =
        Inr (Anchor_Invalid_Provenance (work_date_wire start) CONFLICTING_GOVERNANCE_PROOFS)"
      using False l by (simp add: read_canonical_work_period_anchor_def Let_def)
    moreover have "\<not> (\<forall>e \<in> set events. event_anchor e = d)" using neq h by metis
    ultimately show ?thesis by auto
  qed
qed (auto simp: read_canonical_work_period_anchor_def Let_def)

text \<open>The gate on actual facts. When it lets an anchor pass, every counted fact of every item has a
  business date on or after the anchor, and so the resolver never refuses that date for lying
  before the work periods; when it reports a conflict, the date reported is before the anchor,
  belongs to a counted fact of the item it names, and no counted fact is earlier; when it answers
  unproven, the item it names has facts it could not read.\<close>

theorem actual_gate_is_exact:
  "case assess_actual_anchor_compatibility anchor_date baseline contexts of
     Compatible \<Rightarrow>
       (\<forall>(k, g) \<in> set contexts. \<forall>f \<in> set (governed_fact_list g).
          \<exists>w. fact_wire f = Some w \<and> anchor_date \<le> w \<and>
            resolve_at WORK_PERIOD gr (Some anchor_date) w \<noteq>
              Inr (Period_Unavailable REFERENCE_DATE_BEFORE_GOVERNED_WORK_PERIOD_ANCHOR))
   | Conflict c \<Rightarrow>
       earliest_conflicting_date c < anchor_date \<and>
       (\<exists>g f. (conflict_boq_item_id c, g) \<in> set contexts \<and> f \<in> set (governed_fact_list g) \<and>
          fact_wire f = Some (earliest_conflicting_date c)) \<and>
       (\<forall>(k, g) \<in> set contexts. \<forall>f \<in> set (governed_fact_list g). \<forall>w. fact_wire f = Some w \<longrightarrow>
          earliest_conflicting_date c \<le> w)
   | Unproven source reason boq_item \<Rightarrow>
       source = ACTUAL_SOURCE \<and> (\<exists>k g. (k, g) \<in> set contexts \<and> boq_item = Some k \<and>
         g \<noteq> Facts_Not_Yet_Recorded \<and> g \<noteq> Facts_No_Eligible_Current_Fact \<and>
         (\<forall>facts. g = Facts_Complete facts \<longrightarrow> (\<exists>f \<in> set facts. fact_wire f = None)))"
proof (cases "actual_conflict anchor_date contexts None")
  case (Inl i)
  then show ?thesis
    using actual_conflict_unproven [of anchor_date contexts None "fst i" "snd i"]
    by (cases i) (auto simp: assess_actual_anchor_compatibility_def)
next
  case (Inr r)
  have "earliest_is anchor_date [] None" by (simp add: earliest_is_def)
  then have min: "earliest_is anchor_date
      (concat (map (\<lambda>(k, g). map (\<lambda>f. (k, fact_wire f)) (governed_fact_list g)) contexts)) r"
    and dated: "\<forall>(k, g) \<in> set contexts. \<forall>f \<in> set (governed_fact_list g). fact_wire f \<noteq> None"
    using actual_conflict_min [OF Inr, of "[]"] by simp_all
  show ?thesis
  proof (cases r)
    case None
    have "\<exists>w. fact_wire f = Some w \<and> anchor_date \<le> w \<and>
        resolve_at WORK_PERIOD gr (Some anchor_date) w \<noteq>
          Inr (Period_Unavailable REFERENCE_DATE_BEFORE_GOVERNED_WORK_PERIOD_ANCHOR)"
      if "(k, g) \<in> set contexts" "f \<in> set (governed_fact_list g)" for k g f
    proof -
      have "fact_wire f \<noteq> None" using dated that by fastforce
      then obtain w where w: "fact_wire f = Some w" by blast
      then have "anchor_date \<le> w" using min that None by (fastforce simp: earliest_is_def)
      then show ?thesis using w before_anchor_is_earlier [of gr anchor_date w] by auto
    qed
    then show ?thesis using Inr None by (auto simp: assess_actual_anchor_compatibility_def)
  next
    case (Some kw)
    obtain k w where kw: "kw = (k, w)" by (cases kw)
    have least: "w \<le> w'" if "(k', g) \<in> set contexts" "f \<in> set (governed_fact_list g)" "fact_wire f = Some w'" for k' g f w'
      using min that by (fastforce simp: earliest_is_def Some kw)
    have "w < anchor_date" "\<exists>g f. (k, g) \<in> set contexts \<and> f \<in> set (governed_fact_list g) \<and> fact_wire f = Some w"
      using min by (fastforce simp: earliest_is_def Some kw)+
    then show ?thesis using Inr Some kw least by (auto simp: assess_actual_anchor_compatibility_def)
  qed
qed

section \<open>Witnesses\<close>

definition sample_anchor_event :: anchor_audit_candidate where
  "sample_anchor_event =
     \<lparr>anchor_event_id = ''E'', anchor_project_id = ''P'', target_entity_type = Some ''PROJECT'',
      target_entity_id = Some ''P'', anchor_action = WORK_PERIOD_ANCHOR_CONFIRMED, anchor_outcome = SUCCESS,
      anchor_actor_account_id = ''acc'', anchor_actor_membership_id = ''mem'', anchor_reason = None,
      anchor_metadata = JObj [(''policyVersion'', JStr WORK_PERIOD_ANCHOR_POLICY_VERSION),
        (''anchorDate'', JStr ''2026-02-15''), (''previousStartDate'', JNull),
        (''actorAssignmentId'', JStr ''asg''), (''explicitConfirmation'', JBool True)],
      anchor_occurred_at = Date_Time 0\<rparr>"

lemma sample_anchor_metadata:
  "anchor_proof_metadata_of (anchor_metadata sample_anchor_event) =
    Some \<lparr>apm_anchor_date = ''2026-02-15'', apm_previous_start_date = None, apm_actor_assignment_id = ''asg''\<rparr>"
  by (simp add: sample_anchor_event_def anchor_proof_metadata_of_def js_prop_def sample_dates)

lemma sample_start: "work_date_wire (Some (Date_Time 1771113600000)) = Some ''2026-02-15''"
  by code_simp

theorem anchor_proven_iff_witness:
  "\<exists>pr. read_canonical_work_period_anchor ''P'' (Some (Date_Time 1771113600000)) [sample_anchor_event] =
    Inr (Anchor_Proven ''2026-02-15'' pr)"
proof -
  have "\<not> anchor_event_invalid ''P'' sample_anchor_event"
    using sample_anchor_metadata by (simp add: anchor_event_invalid_def)
      (simp add: sample_anchor_event_def is_anchor_action_def)
  moreover have "event_anchor sample_anchor_event = ''2026-02-15''"
    using sample_anchor_metadata by (simp add: event_anchor_def)
  moreover have "anchor_occurred_at sample_anchor_event = Date_Time 0" by (simp add: sample_anchor_event_def)
  ultimately show ?thesis
    using anchor_proven_iff [of "''P''" "Some (Date_Time 1771113600000)" "[sample_anchor_event]" "''2026-02-15''"]
      sample_start by simp
qed

lemma sample_before: "''2026-02-10'' < ''2026-02-15''" "\<not> ''2026-02-20'' < ''2026-02-15''" "\<not> ''2026-02-20'' < ''2026-02-10''"
  by code_simp+

lemma sample_gate:
  "assess_actual_anchor_compatibility ''2026-02-15'' ''B'' [(''I'', Facts_Complete sample_facts)] =
    Conflict \<lparr>conflict_code = WORK_PERIOD_ANCHOR_ACTUAL_FACT_BEFORE_ANCHOR, conflict_baseline_id = ''B'',
      conflict_boq_item_id = ''I'', earliest_conflicting_date = ''2026-02-10'', conflict_plan_version_id = None\<rparr>"
  using sample_before
  by (simp add: assess_actual_anchor_compatibility_def sample_facts_def sample_entry_def sample_wires)

theorem actual_gate_is_exact_witness:
  "\<exists>c. assess_actual_anchor_compatibility ''2026-02-15'' ''B'' [(''I'', Facts_Complete sample_facts)] = Conflict c \<and>
    earliest_conflicting_date c < ''2026-02-15'' \<and>
    (\<forall>f \<in> set sample_facts. \<forall>w. fact_wire f = Some w \<longrightarrow> earliest_conflicting_date c \<le> w)"
  using actual_gate_is_exact [where anchor_date = "''2026-02-15''" and baseline = "''B''" and gr = WEEK
      and contexts = "[(''I'', Facts_Complete sample_facts)]"]
  unfolding sample_gate by simp

end
