(* ===== verification/TemporalLens.thy ===== *)
theory TemporalLens
  imports PeriodWindow WorkPeriodAnchor
begin

text \<open>
  \<open>progress/progress-temporal-lens.policy.ts\<close>: the query of the temporal lens, the period it
  shows with its week slices, and the recap of the quantities of the slices.

  The properties: the query is read in the order of the file's checks and enabled exactly
  on a complete, unambiguous lens; a resolved month carries slices that tile it; the recap of
  the slices' quantities is the quantity of the month whenever sums are exact.
\<close>

section \<open>The query\<close>

record temporal_lens_input =
  lens_basis :: temporal_basis
  lens_granularity :: temporal_granularity
  lens_reference_date :: string

datatype temporal_lens_query_error =
    AMBIGUOUS_TEMPORAL_LENS
  | INVALID_INCLUDE_TEMPORAL_LENS
  | TEMPORAL_LENS_FIELDS_REQUIRE_OPT_IN
  | TEMPORAL_LENS_REQUIRES_BASIS_GRANULARITY_REFERENCE
  | INVALID_TEMPORAL_BASIS
  | INVALID_TEMPORAL_GRANULARITY
  | INVALID_TEMPORAL_REFERENCE_PROJECT_BUSINESS_DATE
  | TEMPORAL_LENS_EXPLICIT_PERIOD_WINDOW_CONFLICT
  | TEMPORAL_LENS_CUTOFF_CONTEXT_CONFLICT

datatype temporal_lens_query_resolution =
    Lens_Disabled
  | Lens_Enabled temporal_lens_input
  | Lens_Invalid temporal_lens_query_error

definition temporal_lens_query_keys :: "string list" where
  "temporal_lens_query_keys =
     [''includeTemporalLens'', ''temporalBasis'', ''temporalGranularity'', ''temporalReferenceDate'']"

definition temporal_basis_of_string :: "string \<Rightarrow> temporal_basis option" where
  "temporal_basis_of_string s =
     (if s = ''CALENDAR'' then Some CALENDAR else if s = ''WORK_PERIOD'' then Some WORK_PERIOD else None)"

definition temporal_granularity_of_string :: "string \<Rightarrow> temporal_granularity option" where
  "temporal_granularity_of_string s =
     (if s = ''WEEK'' then Some WEEK else if s = ''MONTH'' then Some MONTH else None)"

definition has_bracketed_key :: "string list \<Rightarrow> (string \<times> js_value) list \<Rightarrow> bool" where
  "has_bracketed_key names query \<longleftrightarrow>
     (\<exists>key \<in> set (map fst query). \<exists>field \<in> set names. js_starts_with key (field @ ''[''))"

text \<open>The part of the parser behind the opt-in: the lens fields themselves.\<close>

definition parse_lens_fields :: "(string \<times> js_value) list \<Rightarrow> temporal_lens_query_resolution" where
  "parse_lens_fields query =
     (if js_prop query ''temporalBasis'' = JUndefined \<or> js_prop query ''temporalGranularity'' = JUndefined
         \<or> js_prop query ''temporalReferenceDate'' = JUndefined
      then Lens_Invalid TEMPORAL_LENS_REQUIRES_BASIS_GRANULARITY_REFERENCE
      else
        (case (js_as_string (js_prop query ''temporalBasis''), js_as_string (js_prop query ''temporalGranularity''),
               js_as_string (js_prop query ''temporalReferenceDate'')) of
           (Some basis_text, Some granularity_text, Some reference_text) \<Rightarrow>
             (case temporal_basis_of_string basis_text of
                None \<Rightarrow> Lens_Invalid INVALID_TEMPORAL_BASIS
              | Some basis \<Rightarrow>
                  (case temporal_granularity_of_string granularity_text of
                     None \<Rightarrow> Lens_Invalid INVALID_TEMPORAL_GRANULARITY
                   | Some granularity \<Rightarrow>
                       (case project_business_date_wire (JStr reference_text) of
                          None \<Rightarrow> Lens_Invalid INVALID_TEMPORAL_REFERENCE_PROJECT_BUSINESS_DATE
                        | Some reference_date \<Rightarrow>
                            Lens_Enabled \<lparr>lens_basis = basis, lens_granularity = granularity,
                              lens_reference_date = reference_date\<rparr>)))
         | _ \<Rightarrow> Lens_Invalid AMBIGUOUS_TEMPORAL_LENS))"

definition parse_monitoring_temporal_lens_query ::
    "(string \<times> js_value) list \<Rightarrow> temporal_lens_query_resolution" where
  "parse_monitoring_temporal_lens_query query =
     (let include_value = js_prop query ''includeTemporalLens'' in
      if has_bracketed_key temporal_lens_query_keys query then Lens_Invalid AMBIGUOUS_TEMPORAL_LENS
      else if include_value \<noteq> JUndefined \<and> \<not> js_is_string include_value
      then Lens_Invalid AMBIGUOUS_TEMPORAL_LENS
      else if include_value \<noteq> JUndefined \<and> include_value \<noteq> JStr ''true'' \<and> include_value \<noteq> JStr ''false''
      then Lens_Invalid INVALID_INCLUDE_TEMPORAL_LENS
      else if include_value \<noteq> JStr ''true''
      then
        (if js_prop query ''temporalBasis'' \<noteq> JUndefined \<or> js_prop query ''temporalGranularity'' \<noteq> JUndefined
            \<or> js_prop query ''temporalReferenceDate'' \<noteq> JUndefined
         then Lens_Invalid TEMPORAL_LENS_FIELDS_REQUIRE_OPT_IN
         else Lens_Disabled)
      else if js_prop query ''includePeriodWindow'' = JStr ''true''
        \<or> js_prop query ''periodStartDate'' \<noteq> JUndefined \<or> js_prop query ''periodEndDate'' \<noteq> JUndefined
      then Lens_Invalid TEMPORAL_LENS_EXPLICIT_PERIOD_WINDOW_CONFLICT
      else if js_prop query ''cutoffDate'' \<noteq> JUndefined \<or> js_prop query ''includeActualSeries'' = JStr ''true''
      then Lens_Invalid TEMPORAL_LENS_CUTOFF_CONTEXT_CONFLICT
      else parse_lens_fields query)"

section \<open>The period of the lens\<close>

datatype temporal_lens_unavailable_reason =
    Lens_Period_Reason temporal_period_unavailable_reason
  | WORK_PERIOD_ANCHOR_PROVENANCE_INVALID

record weekly_recap_slice =
  week_period_key :: string
  week_period_index :: int
  week_start_date :: string
  week_end_date :: string
  recap_slice_start_date :: string
  recap_slice_end_date :: string

record weekly_recap =
  slice_count :: nat
  recap_slices :: "weekly_recap_slice list"

datatype temporal_lens_boundary =
    Lens_Resolved temporal_period "weekly_recap option"
  | Lens_Unavailable temporal_lens_unavailable_reason

definition recap_slice :: "week_slice \<Rightarrow> weekly_recap_slice" where
  "recap_slice slice =
     \<lparr>week_period_key = period_key (slice_week slice), week_period_index = period_index (slice_week slice),
      week_start_date = start_date (slice_week slice), week_end_date = end_date (slice_week slice),
      recap_slice_start_date = slice_start_date slice, recap_slice_end_date = slice_end_date slice\<rparr>"

definition lens_boundary_from ::
    "temporal_lens_input \<Rightarrow> string option \<Rightarrow> (js_error + temporal_lens_boundary) option" where
  "lens_boundary_from lens anchor =
     (case resolve_at (lens_basis lens) (lens_granularity lens) anchor (lens_reference_date lens) of
        Inl e \<Rightarrow> Some (Inl e)
      | Inr (Period_Unavailable reason) \<Rightarrow> Some (Inr (Lens_Unavailable (Lens_Period_Reason reason)))
      | Inr (Period_Resolved period) \<Rightarrow>
          if lens_granularity lens = WEEK then Some (Inr (Lens_Resolved period None))
          else
            (case canonical_week_slices_for_month (lens_basis lens) anchor (lens_reference_date lens) of
               None \<Rightarrow> None
             | Some (Inl e) \<Rightarrow> Some (Inl e)
             | Some (Inr (Slices_Unavailable reason)) \<Rightarrow>
                 Some (Inr (Lens_Unavailable (Lens_Period_Reason reason)))
             | Some (Inr (Slices_Resolved _ slices)) \<Rightarrow>
                 Some (Inr (Lens_Resolved period
                   (Some \<lparr>slice_count = length slices, recap_slices = map recap_slice slices\<rparr>)))))"

definition resolve_monitoring_temporal_lens_boundary ::
    "temporal_lens_input \<Rightarrow> canonical_work_period_anchor option \<Rightarrow> (js_error + temporal_lens_boundary) option" where
  "resolve_monitoring_temporal_lens_boundary lens governed_anchor =
     (if lens_basis lens = WORK_PERIOD then
        (case governed_anchor of
           None \<Rightarrow> Some (Inr (Lens_Unavailable (Lens_Period_Reason GOVERNED_WORK_PERIOD_ANCHOR_REQUIRED)))
         | Some (Anchor_Not_Proven _) \<Rightarrow>
             Some (Inr (Lens_Unavailable (Lens_Period_Reason GOVERNED_WORK_PERIOD_ANCHOR_REQUIRED)))
         | Some (Anchor_Invalid_Provenance _ _) \<Rightarrow>
             Some (Inr (Lens_Unavailable WORK_PERIOD_ANCHOR_PROVENANCE_INVALID))
         | Some (Anchor_Proven anchor_date _) \<Rightarrow> lens_boundary_from lens (Some anchor_date))
      else lens_boundary_from lens None)"

section \<open>The recap of the week slices\<close>

fun recap_planned_loop ::
    "'d decimal_ops \<Rightarrow> 'd planned_item_quantity list \<Rightarrow> 'd \<Rightarrow> string option \<Rightarrow> 'd \<times> string option" where
  "recap_planned_loop D [] subtotal reason = (subtotal, reason)"
| "recap_planned_loop D (Item_Complete q # quantities) subtotal reason =
     recap_planned_loop D quantities (d_plus D subtotal q) reason"
| "recap_planned_loop D (Item_Incomplete r q # quantities) subtotal reason =
     recap_planned_loop D quantities (d_plus D subtotal q) (case reason of None \<Rightarrow> Some r | Some _ \<Rightarrow> reason)"
| "recap_planned_loop D (Item_Unavailable r # quantities) subtotal reason =
     recap_planned_loop D quantities subtotal reason"

fun is_unavailable :: "'d planned_item_quantity \<Rightarrow> bool" where
  "is_unavailable (Item_Unavailable _) = True"
| "is_unavailable _ = False"

definition recap_planned_weekly_slice_period_quantities ::
    "'d decimal_ops \<Rightarrow> 'd planned_item_quantity list \<Rightarrow> js_error + 'd planned_item_quantity" where
  "recap_planned_weekly_slice_period_quantities D quantities =
     (if quantities = [] then Inl (Plain_Error ''TEMPORAL_LENS_WEEK_SLICE_RECAP_REQUIRED'')
      else
        (case find is_unavailable quantities of
           Some unavailable \<Rightarrow> Inr unavailable
         | None \<Rightarrow>
             (case recap_planned_loop D quantities (d_of_int D 0) None of
                (subtotal, None) \<Rightarrow> Inr (Item_Complete subtotal)
              | (subtotal, Some reason) \<Rightarrow> Inr (Item_Incomplete reason subtotal))))"

fun recap_actual_loop :: "'d decimal_ops \<Rightarrow> 'd official_quantity list \<Rightarrow> 'd \<Rightarrow> bool \<Rightarrow> 'd \<times> bool" where
  "recap_actual_loop D [] subtotal incomplete = (subtotal, incomplete)"
| "recap_actual_loop D (Quantity_Complete q # quantities) subtotal incomplete =
     recap_actual_loop D quantities (d_plus D subtotal q) incomplete"
| "recap_actual_loop D (Quantity_Incomplete q # quantities) subtotal incomplete =
     recap_actual_loop D quantities (d_plus D subtotal q) True"
| "recap_actual_loop D (_ # quantities) subtotal incomplete =
     recap_actual_loop D quantities subtotal incomplete"

fun is_terminal_quantity :: "'d official_quantity \<Rightarrow> bool" where
  "is_terminal_quantity (Quantity_Complete _) = False"
| "is_terminal_quantity (Quantity_Incomplete _) = False"
| "is_terminal_quantity _ = True"

definition recap_actual_weekly_slice_period_quantities ::
    "'d decimal_ops \<Rightarrow> 'd official_quantity list \<Rightarrow> js_error + 'd official_quantity" where
  "recap_actual_weekly_slice_period_quantities D quantities =
     (if quantities = [] then Inl (Plain_Error ''TEMPORAL_LENS_WEEK_SLICE_RECAP_REQUIRED'')
      else
        (case find is_terminal_quantity quantities of
           Some terminal \<Rightarrow> Inr terminal
         | None \<Rightarrow>
             (case recap_actual_loop D quantities (d_of_int D 0) False of
                (subtotal, incomplete) \<Rightarrow>
                  Inr (if incomplete then Quantity_Incomplete subtotal else Quantity_Complete subtotal))))"

section \<open>Lemmas on the query\<close>

lemma temporal_basis_of_string_simps [simp]:
  "temporal_basis_of_string ''CALENDAR'' = Some CALENDAR" "temporal_basis_of_string ''WORK_PERIOD'' = Some WORK_PERIOD"
  "temporal_granularity_of_string ''WEEK'' = Some WEEK" "temporal_granularity_of_string ''MONTH'' = Some MONTH"
  by (simp_all add: temporal_basis_of_string_def temporal_granularity_of_string_def)

fun basis_text :: "temporal_basis \<Rightarrow> string" where
  "basis_text CALENDAR = ''CALENDAR''"
| "basis_text WORK_PERIOD = ''WORK_PERIOD''"

fun granularity_text :: "temporal_granularity \<Rightarrow> string" where
  "granularity_text WEEK = ''WEEK''"
| "granularity_text MONTH = ''MONTH''"

lemma temporal_basis_of_string_iff [simp]: "temporal_basis_of_string s = Some b \<longleftrightarrow> s = basis_text b"
  by (cases b) (auto simp: temporal_basis_of_string_def)

lemma temporal_granularity_of_string_iff [simp]: "temporal_granularity_of_string s = Some g \<longleftrightarrow> s = granularity_text g"
  by (cases g) (auto simp: temporal_granularity_of_string_def)

lemma js_as_string_Some_iff [simp]: "js_as_string v = Some s \<longleftrightarrow> v = JStr s"
  by (cases v) auto

lemma parse_lens_fields_Enabled_iff:
  "parse_lens_fields query = Lens_Enabled i \<longleftrightarrow>
    js_prop query ''temporalBasis'' = JStr (basis_text (lens_basis i)) \<and>
    js_prop query ''temporalGranularity'' = JStr (granularity_text (lens_granularity i)) \<and>
    js_prop query ''temporalReferenceDate'' = JStr (lens_reference_date i) \<and>
    (\<exists>n. business_day n \<and> lens_reference_date i = iso_date_part n)" (is "_ = ?lens")
proof
  assume "parse_lens_fields query = Lens_Enabled i"
  then show ?lens
    by (auto simp: parse_lens_fields_def project_business_date_wire_iff split: if_splits option.splits)
next
  assume l: ?lens
  then have "project_business_date_wire (JStr (lens_reference_date i)) = Some (lens_reference_date i)"
    by (auto simp: project_business_date_wire_iff)
  moreover have "temporal_basis_of_string (basis_text (lens_basis i)) = Some (lens_basis i)"
    "temporal_granularity_of_string (granularity_text (lens_granularity i)) = Some (lens_granularity i)" by simp_all
  ultimately show "parse_lens_fields query = Lens_Enabled i"
    using l by (simp add: parse_lens_fields_def del: temporal_basis_of_string_iff temporal_granularity_of_string_iff)
qed

definition lens_context_clear :: "(string \<times> js_value) list \<Rightarrow> bool" where
  "lens_context_clear query \<longleftrightarrow>
     js_prop query ''includePeriodWindow'' \<noteq> JStr ''true'' \<and> js_prop query ''periodStartDate'' = JUndefined \<and>
     js_prop query ''periodEndDate'' = JUndefined \<and> js_prop query ''cutoffDate'' = JUndefined \<and>
     js_prop query ''includeActualSeries'' \<noteq> JStr ''true''"

section \<open>Lemmas on the recap\<close>

fun quantity_amount :: "'d official_quantity \<Rightarrow> 'd option" where
  "quantity_amount (Quantity_Complete q) = Some q"
| "quantity_amount (Quantity_Incomplete q) = Some q"
| "quantity_amount _ = None"

fun item_amount :: "'d planned_item_quantity \<Rightarrow> 'd option" where
  "item_amount (Item_Complete q) = Some q"
| "item_amount (Item_Incomplete _ q) = Some q"
| "item_amount (Item_Unavailable _) = None"

context decimal_arith
begin

text \<open>A sum of group totals is the sum over the groups together.\<close>

lemma foldl_groups_exact:
  assumes "d_is_finite D (foldl (d_plus D) a (map (foldl (d_plus D) (d_of_int D 0)) gs))"
    and "val a = (\<Sum>q \<in># A. val q)" "exact_sums rnd val (A + (\<Sum>g \<leftarrow> gs. mset g))"
  shows "val (foldl (d_plus D) a (map (foldl (d_plus D) (d_of_int D 0)) gs)) = (\<Sum>q \<in># A + (\<Sum>g \<leftarrow> gs. mset g). val q)"
  using assms
proof (induction gs arbitrary: a A)
  case (Cons g gs)
  let ?t = "foldl (d_plus D) (d_of_int D 0) g"
  have fin: "d_is_finite D (d_plus D a ?t)" using Cons.prems(1) by (auto dest: fin_foldl_plus)
  have sub: "mset g \<subseteq># A + (\<Sum>g \<leftarrow> g # gs. mset g)" "A + mset g \<subseteq># A + (\<Sum>g \<leftarrow> g # gs. mset g)"
    by (simp_all add: add.assoc [symmetric] add.commute)
  have t: "val ?t = (\<Sum>q \<in># mset g. val q)"
    using foldl_plus_exact [of "d_of_int D 0" g "{#}"] plus_law [OF fin] exact_sums_mono [OF Cons.prems(3) sub(1)] by simp
  have "rnd (\<Sum>q \<in># A + mset g. val q) = (\<Sum>q \<in># A + mset g. val q)"
    using Cons.prems(3) sub(2) unfolding exact_sums_def by blast
  then have "val (d_plus D a ?t) = (\<Sum>q \<in># A + mset g. val q)"
    using plus_law [OF fin] Cons.prems(2) t by simp
  then have "val (foldl (d_plus D) (d_plus D a ?t) (map (foldl (d_plus D) (d_of_int D 0)) gs)) =
      (\<Sum>q \<in># (A + mset g) + (\<Sum>g \<leftarrow> gs. mset g). val q)"
    using Cons.prems by (intro Cons.IH) (simp_all add: add.assoc)
  then show ?case by (simp add: add.assoc)
qed simp

lemma recap_total:
  assumes "mset month = (\<Sum>s \<leftarrow> slices. mset (amounts s))" "exact_sums rnd val (mset month)"
    and "d_is_finite D (foldl (d_plus D) (d_of_int D 0) (map (\<lambda>s. foldl (d_plus D) (d_of_int D 0) (amounts s)) slices))"
    and "d_is_finite D (foldl (d_plus D) (d_of_int D 0) month)"
  shows "val (foldl (d_plus D) (d_of_int D 0) (map (\<lambda>s. foldl (d_plus D) (d_of_int D 0) (amounts s)) slices)) =
    val (foldl (d_plus D) (d_of_int D 0) month)"
  using foldl_groups_exact [of "d_of_int D 0" "map amounts slices" "{#}"] foldl_plus_exact [of "d_of_int D 0" month "{#}"]
    assms by (simp add: comp_def)

end

definition actual_recap_agrees :: "('d \<Rightarrow> rat) \<Rightarrow> 'd official_quantity \<Rightarrow> 'd official_quantity \<Rightarrow> bool" where
  "actual_recap_agrees val q r \<longleftrightarrow>
     (case (q, r) of
        (Quantity_Complete a, Quantity_Complete b) \<Rightarrow> val a = val b
      | (Quantity_Incomplete a, Quantity_Incomplete b) \<Rightarrow> val a = val b
      | _ \<Rightarrow> q = r)"

definition planned_recap_agrees :: "('d \<Rightarrow> rat) \<Rightarrow> 'd planned_item_quantity \<Rightarrow> 'd planned_item_quantity \<Rightarrow> bool" where
  "planned_recap_agrees val q r \<longleftrightarrow>
     (case (q, r) of
        (Item_Complete a, Item_Complete b) \<Rightarrow> val a = val b
      | (Item_Incomplete s a, Item_Incomplete t b) \<Rightarrow> s = t \<and> val a = val b
      | _ \<Rightarrow> q = r)"

lemma recap_agrees_refl [simp]: "actual_recap_agrees val q q" "planned_recap_agrees val i i"
  by (cases q; simp add: actual_recap_agrees_def) (cases i; simp add: planned_recap_agrees_def)

lemma recap_actual_complete:
  "recap_actual_loop D (map (\<lambda>s. Quantity_Complete (f s)) ss) a b = (foldl (d_plus D) a (map f ss), b)"
  "recap_actual_loop D (map (\<lambda>s. Quantity_Incomplete (f s)) ss) a b = (foldl (d_plus D) a (map f ss), b \<or> ss \<noteq> [])"
  "find is_terminal_quantity (map (\<lambda>s. Quantity_Complete (f s)) ss) = None"
  "find is_terminal_quantity (map (\<lambda>s. Quantity_Incomplete (f s)) ss) = None"
  by (induction ss arbitrary: a b) auto

lemma recap_actual_same:
  "ss \<noteq> [] \<Longrightarrow> recap_actual_weekly_slice_period_quantities D (map (\<lambda>s. Quantity_Complete (f s)) ss) =
    Inr (Quantity_Complete (foldl (d_plus D) (d_of_int D 0) (map f ss)))"
  "ss \<noteq> [] \<Longrightarrow> recap_actual_weekly_slice_period_quantities D (map (\<lambda>s. Quantity_Incomplete (f s)) ss) =
    Inr (Quantity_Incomplete (foldl (d_plus D) (d_of_int D 0) (map f ss)))"
  "ss \<noteq> [] \<Longrightarrow> is_terminal_quantity q \<Longrightarrow> recap_actual_weekly_slice_period_quantities D (map (\<lambda>s. q) ss) = Inr q"
  by (simp_all add: recap_actual_weekly_slice_period_quantities_def recap_actual_complete)
    (cases ss, simp_all)

lemma recap_planned_complete:
  "recap_planned_loop D (map (\<lambda>s. Item_Complete (f s)) ss) a b = (foldl (d_plus D) a (map f ss), b)"
  "recap_planned_loop D (map (\<lambda>s. Item_Incomplete r (f s)) ss) a (Some r) = (foldl (d_plus D) a (map f ss), Some r)"
  "find is_unavailable (map (\<lambda>s. Item_Complete (f s)) ss) = None"
  "find is_unavailable (map (\<lambda>s. Item_Incomplete r (f s)) ss) = None"
  by (induction ss arbitrary: a) auto

lemma recap_planned_same:
  "ss \<noteq> [] \<Longrightarrow> recap_planned_weekly_slice_period_quantities D (map (\<lambda>s. Item_Complete (f s)) ss) =
    Inr (Item_Complete (foldl (d_plus D) (d_of_int D 0) (map f ss)))"
  "ss \<noteq> [] \<Longrightarrow> recap_planned_weekly_slice_period_quantities D (map (\<lambda>s. Item_Incomplete r (f s)) ss) =
    Inr (Item_Incomplete r (foldl (d_plus D) (d_of_int D 0) (map f ss)))"
  "ss \<noteq> [] \<Longrightarrow> recap_planned_weekly_slice_period_quantities D (map (\<lambda>s. Item_Unavailable r) ss) = Inr (Item_Unavailable r)"
  by (cases ss; simp add: recap_planned_weekly_slice_period_quantities_def recap_planned_complete)+

lemma month_has_slices:
  "canonical_week_slices_for_month b anchor reference_date = Some (Inr (Slices_Resolved month slices)) \<Longrightarrow> slices \<noteq> []"
  by (auto elim!: resolved_month_slices_tile)

section \<open>The recap of the slices of a month\<close>

lemma sum_facts_amounts: "sum_facts D facts = foldl (d_plus D) (d_of_int D 0) (map fact_quantity facts)"
  by (simp add: sum_facts_def foldl_map)

lemma planned_total_amounts:
  "planned_total D rows = foldl (d_plus D) (d_of_int D 0) (map planned_incremental_quantity rows)"
  by (simp add: planned_total_def foldl_map)

lemma mset_sum_list_map: "mset (map f (concat xss)) = (\<Sum>xs \<leftarrow> xss. mset (map f xs))"
  by (induction xss) simp_all

lemma month_amounts:
  assumes "mset xs = (\<Sum>s \<leftarrow> slices. mset (g s))"
  shows "mset (map f xs) = (\<Sum>s \<leftarrow> slices. mset (map f (g s)))"
proof -
  have "image_mset f (\<Sum>s \<leftarrow> slices. mset (g s)) = (\<Sum>s \<leftarrow> slices. mset (map f (g s)))"
    by (induction slices) simp_all
  then show ?thesis using assms by simp
qed

text \<open>The facts and the credits of an item inside a window.\<close>

definition window_facts ::
    "('d, 'a semantic_entry_scheme) governed_facts \<Rightarrow> date_window \<Rightarrow> ('d, 'a semantic_entry_scheme) official_fact list" where
  "window_facts g window = filter (\<lambda>f. in_window window (fact_wire f)) (governed_fact_list g)"

lemma window_facts_partition:
  assumes "canonical_week_slices_for_month b anchor reference_date = Some (Inr (Slices_Resolved month slices))"
  shows "mset (window_facts g (period_window month)) = (\<Sum>s \<leftarrow> slices. mset (window_facts g (slice_window s)))"
  using month_slices_partition [OF assms, of "governed_fact_list g" fact_wire] by (simp add: window_facts_def comp_def)

lemma credited_partition:
  assumes "canonical_week_slices_for_month b anchor reference_date = Some (Inr (Slices_Resolved month slices))"
  shows "mset (credited k (period_window month) ds) = (\<Sum>s \<leftarrow> slices. mset (credited k (slice_window s) ds))"
proof -
  have "credited k window ds = filter (in_window window \<circ> credit_date) (filter (\<lambda>d. distribution_boq_item_id d = k) ds)"
    for window by (simp add: credited_def comp_def conj_commute)
  then show ?thesis
    using month_slices_partition [OF assms, of "filter (\<lambda>d. distribution_boq_item_id d = k) ds" credit_date] by simp
qed

lemma weekly_recap_actual:
  assumes "decimal_arith D val rnd"
    and slices: "canonical_week_slices_for_month b anchor reference_date = Some (Inr (Slices_Resolved month slices))"
    and exact: "exact_sums rnd val (mset (map fact_quantity (window_facts g (period_window month))))"
    and r: "recap_actual_weekly_slice_period_quantities D
      (map (\<lambda>s. project_actual_item_period_window D g (slice_window s)) slices) = Inr r"
    and fin: "\<forall>q. quantity_amount r = Some q \<longrightarrow> d_is_finite D q"
      "\<forall>q. quantity_amount (project_actual_item_period_window D g (period_window month)) = Some q \<longrightarrow> d_is_finite D q"
  shows "actual_recap_agrees val r (project_actual_item_period_window D g (period_window month))"
proof -
  note ne = month_has_slices [OF slices]
  note part = month_amounts [OF window_facts_partition [OF slices, of g], of fact_quantity]
  note sums = decimal_arith.recap_total [OF assms(1) part exact]
  note w = period_window_actual [of D, unfolded sum_facts_amounts]
  show ?thesis
  proof (cases g)
    case (Facts_Complete facts)
    show ?thesis
      using r fin sums ne
      by (cases "\<exists>f \<in> set facts. fact_wire f = None")
        (auto simp: w Facts_Complete window_facts_def recap_actual_same actual_recap_agrees_def)
  next
    case (Facts_Incomplete facts)
    then show ?thesis using r fin sums ne
      by (auto simp: w window_facts_def recap_actual_same actual_recap_agrees_def)
  qed (use r ne in \<open>auto simp: w recap_actual_same\<close>)
qed

lemma weekly_recap_planned:
  assumes "decimal_arith D val rnd"
    and slices: "canonical_week_slices_for_month b anchor reference_date = Some (Inr (Slices_Resolved month slices))"
    and exact: "exact_sums rnd val (mset (map planned_incremental_quantity (credited k (period_window month) ds)))"
    and r: "recap_planned_weekly_slice_period_quantities D
      (map (\<lambda>s. period_quantity (project_planned_item_period_window D k (slice_window s) curve ds)) slices) = Inr r"
    and fin: "\<forall>q. item_amount r = Some q \<longrightarrow> d_is_finite D q"
      "\<forall>q. item_amount (period_quantity (project_planned_item_period_window D k (period_window month) curve ds)) = Some q
        \<longrightarrow> d_is_finite D q"
  shows "planned_recap_agrees val r (period_quantity (project_planned_item_period_window D k (period_window month) curve ds))"
proof -
  note ne = month_has_slices [OF slices]
  note part = month_amounts [OF credited_partition [OF slices, of k ds], of planned_incremental_quantity]
  note sums = decimal_arith.recap_total [OF assms(1) part exact]
  define u where "u \<longleftrightarrow> (\<exists>d \<in> set ds. distribution_boq_item_id d = k \<and> credit_date d = None)"
  note w = period_window_quantities [of D k _ _ ds, folded u_def, unfolded planned_total_amounts Let_def]
  show ?thesis
  proof (cases curve)
    case (Curve_Complete reason points)
    show ?thesis
      using r fin sums ne
      by (cases u) (auto simp: w Curve_Complete recap_planned_same planned_recap_agrees_def)
  next
    case (Curve_Incomplete reason points)
    show ?thesis using r fin sums ne
      by (auto simp: w Curve_Incomplete recap_planned_same planned_recap_agrees_def)
  qed (use r ne in \<open>auto simp: w recap_planned_same\<close>)
qed

section \<open>Properties\<close>

text \<open>The query of the lens. The lens is enabled exactly when no key is bracketed, the opt-in is
  the string \<open>true\<close>, no explicit window or cutoff is asked for, and the three lens fields are strings
  that name a basis, a granularity and a business date, which it returns; it is disabled exactly
  when the opt-in is absent or \<open>false\<close> and no lens field is given.\<close>

theorem lens_query_reading:
  "(parse_monitoring_temporal_lens_query query = Lens_Enabled i \<longleftrightarrow>
     \<not> has_bracketed_key temporal_lens_query_keys query \<and>
     js_prop query ''includeTemporalLens'' = JStr ''true'' \<and> lens_context_clear query \<and>
     js_prop query ''temporalBasis'' = JStr (basis_text (lens_basis i)) \<and>
     js_prop query ''temporalGranularity'' = JStr (granularity_text (lens_granularity i)) \<and>
     js_prop query ''temporalReferenceDate'' = JStr (lens_reference_date i) \<and>
     (\<exists>n. business_day n \<and> lens_reference_date i = iso_date_part n)) \<and>
   (parse_monitoring_temporal_lens_query query = Lens_Disabled \<longleftrightarrow>
     \<not> has_bracketed_key temporal_lens_query_keys query \<and>
     js_prop query ''includeTemporalLens'' \<in> {JUndefined, JStr ''false''} \<and>
     js_prop query ''temporalBasis'' = JUndefined \<and> js_prop query ''temporalGranularity'' = JUndefined \<and>
     js_prop query ''temporalReferenceDate'' = JUndefined)"
proof (cases "has_bracketed_key temporal_lens_query_keys query")
  case False
  show ?thesis
  proof (cases "js_prop query ''includeTemporalLens'' = JStr ''true'' \<and> lens_context_clear query")
    case True
    then have "parse_monitoring_temporal_lens_query query = parse_lens_fields query"
      using False by (simp add: parse_monitoring_temporal_lens_query_def lens_context_clear_def)
    moreover have "parse_lens_fields query \<noteq> Lens_Disabled"
      by (simp add: parse_lens_fields_def split: option.splits)
    ultimately show ?thesis using True False by (simp add: parse_lens_fields_Enabled_iff)
  next
    case off: False
    let ?i = "js_prop query ''includeTemporalLens''"
    let ?p = "parse_monitoring_temporal_lens_query query"
    show ?thesis
    proof (cases "?i = JStr ''true''")
      case True
      then have "?p = Lens_Invalid TEMPORAL_LENS_EXPLICIT_PERIOD_WINDOW_CONFLICT \<or>
          ?p = Lens_Invalid TEMPORAL_LENS_CUTOFF_CONTEXT_CONFLICT"
        using off False by (auto simp: parse_monitoring_temporal_lens_query_def lens_context_clear_def Let_def)
      then have "?p \<noteq> Lens_Enabled i" "?p \<noteq> Lens_Disabled" by auto
      then show ?thesis using True off by simp
    next
      case not_true: False
      have "?p \<noteq> Lens_Enabled i"
        using not_true by (simp add: parse_monitoring_temporal_lens_query_def Let_def)
      moreover have "?p = Lens_Disabled \<longleftrightarrow> ?i \<in> {JUndefined, JStr ''false''} \<and>
          js_prop query ''temporalBasis'' = JUndefined \<and> js_prop query ''temporalGranularity'' = JUndefined \<and>
          js_prop query ''temporalReferenceDate'' = JUndefined"
        using not_true False by (cases ?i) (simp_all add: parse_monitoring_temporal_lens_query_def Let_def)
      ultimately show ?thesis using not_true False by simp
    qed
  qed
qed (simp add: parse_monitoring_temporal_lens_query_def)

text \<open>What a resolved lens shows. On the work-period basis it needs a proven anchor; its period is
  the resolver's for that anchor; a week carries no recap, and a month carries the week slices
  that tile its days.\<close>

theorem resolved_lens:
  assumes "resolve_monitoring_temporal_lens_boundary lens governed_anchor = Some (Inr (Lens_Resolved p recap))"
  shows "\<exists>anchor. (lens_basis lens = CALENDAR \<or> (\<exists>d pr. governed_anchor = Some (Anchor_Proven d pr) \<and> anchor = Some d)) \<and>
    resolve_at (lens_basis lens) (lens_granularity lens) anchor (lens_reference_date lens) = Inr (Period_Resolved p) \<and>
    (case recap of
       None \<Rightarrow> lens_granularity lens = WEEK
     | Some r \<Rightarrow> lens_granularity lens = MONTH \<and>
         (\<exists>slices. r = \<lparr>slice_count = length slices, recap_slices = map recap_slice slices\<rparr> \<and>
           slices_tile (wire_day (start_date p)) (wire_day (end_date p)) slices))"
proof -
  obtain anchor where a: "lens_basis lens = CALENDAR \<or> (\<exists>d pr. governed_anchor = Some (Anchor_Proven d pr) \<and> anchor = Some d)"
    and run: "lens_boundary_from lens anchor = Some (Inr (Lens_Resolved p recap))"
    using assms by (cases "lens_basis lens")
      (auto simp: resolve_monitoring_temporal_lens_boundary_def split: option.splits canonical_work_period_anchor.splits)
  have p: "resolve_at (lens_basis lens) (lens_granularity lens) anchor (lens_reference_date lens) = Inr (Period_Resolved p)"
    using run by (auto simp: lens_boundary_from_def split: sum.splits temporal_period_resolution.splits
        if_splits option.splits week_slices_resolution.splits)
  show ?thesis
  proof (cases "lens_granularity lens")
    case WEEK
    then show ?thesis using run p a by (auto simp: lens_boundary_from_def)
  next
    case MONTH
    then obtain m slices where
      s: "canonical_week_slices_for_month (lens_basis lens) anchor (lens_reference_date lens) = Some (Inr (Slices_Resolved m slices))"
      and recap: "recap = Some \<lparr>slice_count = length slices, recap_slices = map recap_slice slices\<rparr>"
      using run p by (auto simp: lens_boundary_from_def split: option.splits sum.splits week_slices_resolution.splits)
    obtain f l where "resolve_at (lens_basis lens) MONTH anchor (lens_reference_date lens) = Inr (Period_Resolved m)"
      "start_date m = iso_date_part f" "end_date m = iso_date_part l" "business_day f" "business_day l"
      "slices_tile f l slices"
      using s by (rule resolved_month_slices_tile)
    then have "slices_tile (wire_day (start_date p)) (wire_day (end_date p)) slices" using p MONTH by simp
    then show ?thesis using a p MONTH recap by auto
  qed
qed

text \<open>C29: the recap of the actual quantities. When no sum of the month's facts is rounded, the recap
  of the quantities of the week slices is the quantity of the month: the same state, and the
  same value where it has one.\<close>

theorem weekly_recap_of_actual_is_the_month:
  assumes "decimal_arith D val rnd"
    and "canonical_week_slices_for_month b anchor reference_date = Some (Inr (Slices_Resolved month slices))"
    and "exact_sums rnd val (mset (map fact_quantity (window_facts g (period_window month))))"
    and "recap_actual_weekly_slice_period_quantities D
      (map (\<lambda>s. project_actual_item_period_window D g (slice_window s)) slices) = Inr r"
    and "\<forall>q. quantity_amount r = Some q \<longrightarrow> d_is_finite D q"
    and "\<forall>q. quantity_amount (project_actual_item_period_window D g (period_window month)) = Some q \<longrightarrow> d_is_finite D q"
  shows "actual_recap_agrees val r (project_actual_item_period_window D g (period_window month))"
  using assms by (rule weekly_recap_actual)

text \<open>The recap of the planned quantities. When no sum of the month's credits is rounded, the recap
  of the planned quantities of the week slices is the planned quantity of the month, with the
  same state, reason and value.\<close>

theorem weekly_recap_of_planned_is_the_month:
  assumes "decimal_arith D val rnd"
    and "canonical_week_slices_for_month b anchor reference_date = Some (Inr (Slices_Resolved month slices))"
    and "exact_sums rnd val (mset (map planned_incremental_quantity (credited k (period_window month) ds)))"
    and "recap_planned_weekly_slice_period_quantities D
      (map (\<lambda>s. period_quantity (project_planned_item_period_window D k (slice_window s) curve ds)) slices) = Inr r"
    and "\<forall>q. item_amount r = Some q \<longrightarrow> d_is_finite D q"
    and "\<forall>q. item_amount (period_quantity (project_planned_item_period_window D k (period_window month) curve ds)) = Some q
      \<longrightarrow> d_is_finite D q"
  shows "planned_recap_agrees val r (period_quantity (project_planned_item_period_window D k (period_window month) curve ds))"
  using assms by (rule weekly_recap_planned)

section \<open>Witnesses\<close>

lemma sample_month:
  obtains month slices where
    "canonical_week_slices_for_month CALENDAR None (iso_date_part 20494) = Some (Inr (Slices_Resolved month slices))"
    "resolve_at CALENDAR MONTH None (iso_date_part 20494) = Inr (Period_Resolved month)"
  using month_slices_exist [of CALENDAR None 0 20494] february_days by (auto simp: anchored_def period_covered_def)

theorem resolved_lens_witness:
  "\<exists>p recap. resolve_monitoring_temporal_lens_boundary
      \<lparr>lens_basis = CALENDAR, lens_granularity = MONTH, lens_reference_date = iso_date_part 20494\<rparr> None =
      Some (Inr (Lens_Resolved p (Some recap))) \<and>
    (\<exists>slices. recap = \<lparr>slice_count = length slices, recap_slices = map recap_slice slices\<rparr> \<and>
      slices_tile (wire_day (start_date p)) (wire_day (end_date p)) slices)"
proof -
  obtain month slices where
    s: "canonical_week_slices_for_month CALENDAR None (iso_date_part 20494) = Some (Inr (Slices_Resolved month slices))"
    and m: "resolve_at CALENDAR MONTH None (iso_date_part 20494) = Inr (Period_Resolved month)"
    by (rule sample_month)
  let ?lens = "\<lparr>lens_basis = CALENDAR, lens_granularity = MONTH, lens_reference_date = iso_date_part 20494\<rparr>"
  let ?recap = "\<lparr>slice_count = length slices, recap_slices = map recap_slice slices\<rparr>"
  have run: "resolve_monitoring_temporal_lens_boundary ?lens None = Some (Inr (Lens_Resolved month (Some ?recap)))"
    by (simp add: resolve_monitoring_temporal_lens_boundary_def lens_boundary_from_def s m)
  then show ?thesis using resolved_lens [OF run] by auto
qed

lemma sub_add_mset: "N \<subseteq># add_mset a M \<Longrightarrow> N \<subseteq># M \<or> (\<exists>N'. N = add_mset a N' \<and> N' \<subseteq># M)"
proof (cases "a \<in># N")
  case True
  then obtain N' where "N = add_mset a N'" by (blast dest: multi_member_split)
  then show "N \<subseteq># add_mset a M \<Longrightarrow> ?thesis" by simp
next
  case False
  assume "N \<subseteq># add_mset a M"
  then have "N - {#a#} \<subseteq># M" by (simp add: subset_eq_diff_conv)
  then show ?thesis using False by simp
qed

lemma sample_sums:
  "round20 (\<Sum>q \<in># {#}. val20 q) = (\<Sum>q \<in># {#}. val20 q)"
  "round20 (\<Sum>q \<in># {#Some 5#}. val20 q) = (\<Sum>q \<in># {#Some 5#}. val20 q)"
  "round20 (\<Sum>q \<in># {#Some 3#}. val20 q) = (\<Sum>q \<in># {#Some 3#}. val20 q)"
  "round20 (\<Sum>q \<in># {#Some 5, Some 3#}. val20 q) = (\<Sum>q \<in># {#Some 5, Some 3#}. val20 q)"
  by (simp_all add: val20_def round20_values)

lemma sample_exact: "exact_sums round20 val20 {#Some 5, Some 3#}"
proof -
  have "N = {#} \<or> N = {#Some 5#} \<or> N = {#Some 3#} \<or> N = {#Some 5, Some 3#}"
    if "N \<subseteq># {#Some 5, Some 3 :: rat option#}" for N
    using that by (auto dest!: sub_add_mset)
  then show ?thesis
    unfolding exact_sums_def by (metis (no_types, opaque_lifting) sample_sums)
qed

lemma sample_window_exact:
  "exact_sums round20 val20 (mset (map fact_quantity (window_facts (Facts_Complete sample_facts) window)))"
proof -
  have "mset (window_facts (Facts_Complete sample_facts) window) \<subseteq># mset sample_facts"
    by (simp add: window_facts_def)
  then have "image_mset fact_quantity (mset (window_facts (Facts_Complete sample_facts) window)) \<subseteq># image_mset fact_quantity (mset sample_facts)"
    by (rule image_mset_subseteq_mono)
  then show ?thesis using exact_sums_mono [OF sample_exact] by (simp add: sample_facts_def)
qed

lemma decimal20_sum_finite: "list_all (\<lambda>q. q \<noteq> None) qs \<Longrightarrow> foldl (d_plus decimal20) (Some a) qs \<noteq> None"
  by (induction qs arbitrary: a) (auto simp: decimal20_simps)

theorem weekly_recap_of_actual_is_the_month_witness:
  "\<exists>month slices r.
    canonical_week_slices_for_month CALENDAR None (iso_date_part 20494) = Some (Inr (Slices_Resolved month slices)) \<and>
    recap_actual_weekly_slice_period_quantities decimal20
      (map (\<lambda>s. project_actual_item_period_window decimal20 (Facts_Complete sample_facts) (slice_window s)) slices) = Inr r \<and>
    actual_recap_agrees val20 r
      (project_actual_item_period_window decimal20 (Facts_Complete sample_facts) (period_window month))"
proof -
  obtain month slices where
    s: "canonical_week_slices_for_month CALENDAR None (iso_date_part 20494) = Some (Inr (Slices_Resolved month slices))"
    by (rule sample_month)
  let ?q = "project_actual_item_period_window decimal20 (Facts_Complete sample_facts)"
  have q: "?q window = Quantity_Complete (sum_facts decimal20 (window_facts (Facts_Complete sample_facts) window))" for window
    using sample_dated by (auto simp: period_window_actual window_facts_def sample_facts_def fact_wire_def sample_entry_def sample_wires)
  have fin: "sum_facts decimal20 (window_facts (Facts_Complete sample_facts) window) \<noteq> None" for window
    unfolding sum_facts_amounts by (simp add: decimal20_simps(1) decimal20_sum_finite list_all_iff window_facts_def sample_facts_def)
  let ?r = "Quantity_Complete (foldl (d_plus decimal20) (d_of_int decimal20 0)
      (map (\<lambda>s. sum_facts decimal20 (window_facts (Facts_Complete sample_facts) (slice_window s))) slices))"
  have r: "recap_actual_weekly_slice_period_quantities decimal20 (map (\<lambda>s. ?q (slice_window s)) slices) = Inr ?r"
    using month_has_slices [OF s] by (simp add: q recap_actual_same)
  have "foldl (d_plus decimal20) (d_of_int decimal20 0)
      (map (\<lambda>s. sum_facts decimal20 (window_facts (Facts_Complete sample_facts) (slice_window s))) slices) \<noteq> None"
    using fin by (simp only: decimal20_simps(1)) (rule decimal20_sum_finite, simp add: list_all_iff)
  then have "actual_recap_agrees val20 ?r (?q (period_window month))"
    using fin by (intro weekly_recap_of_actual_is_the_month [OF decimal20_arith.decimal_arith_axioms s sample_window_exact r])
      (simp_all add: q decimal20_simps(4))
  then show ?thesis using s r by blast
qed

definition sample_credits :: "rat option plan_distribution list" where
  "sample_credits = [sample_distribution ''d'' 20490 20494 5, sample_distribution ''e'' 20500 20504 3]"

lemma sample_credits:
  "set (credited ''i'' window sample_credits) \<subseteq> set sample_credits"
  "mset (map planned_incremental_quantity (credited ''i'' window sample_credits)) \<subseteq># {#Some 5, Some 3#}"
  "\<forall>d \<in> set sample_credits. credit_date d \<noteq> None"
proof -
  show "set (credited ''i'' window sample_credits) \<subseteq> set sample_credits" by (auto simp: credited_def)
  have "image_mset planned_incremental_quantity (mset (credited ''i'' window sample_credits)) \<subseteq>#
      image_mset planned_incremental_quantity (mset sample_credits)"
    by (rule image_mset_subseteq_mono) (simp add: credited_def)
  then show "mset (map planned_incremental_quantity (credited ''i'' window sample_credits)) \<subseteq># {#Some 5, Some 3#}"
    by (simp add: sample_credits_def sample_distribution_def)
  show "\<forall>d \<in> set sample_credits. credit_date d \<noteq> None"
    by (simp add: sample_credits_def sample_distribution_def credit_date_def sample_wires)
qed

theorem weekly_recap_of_planned_is_the_month_witness:
  "\<exists>month slices r.
    canonical_week_slices_for_month CALENDAR None (iso_date_part 20494) = Some (Inr (Slices_Resolved month slices)) \<and>
    recap_planned_weekly_slice_period_quantities decimal20
      (map (\<lambda>s. period_quantity (project_planned_item_period_window decimal20 ''i'' (slice_window s)
        (Curve_Complete None []) sample_credits)) slices) = Inr r \<and>
    planned_recap_agrees val20 r
      (period_quantity (project_planned_item_period_window decimal20 ''i'' (period_window month)
        (Curve_Complete None []) sample_credits))"
proof -
  obtain month slices where
    s: "canonical_week_slices_for_month CALENDAR None (iso_date_part 20494) = Some (Inr (Slices_Resolved month slices))"
    by (rule sample_month)
  let ?q = "\<lambda>window. period_quantity (project_planned_item_period_window decimal20 ''i'' window
    (Curve_Complete None []) sample_credits)"
  let ?total = "\<lambda>window. planned_total decimal20 (credited ''i'' window sample_credits)"
  have q: "?q window = Item_Complete (?total window)" for window
    using sample_credits(3) by (auto simp: period_window_quantities Let_def)
  have "\<forall>d \<in> set sample_credits. planned_incremental_quantity d \<noteq> None"
    by (simp add: sample_credits_def sample_distribution_def)
  then have fin: "?total window \<noteq> None" for window
    unfolding planned_total_amounts using sample_credits(1) [of window]
    by (simp only: decimal20_simps(1)) (rule decimal20_sum_finite, auto simp: list_all_iff)
  let ?r = "Item_Complete (foldl (d_plus decimal20) (d_of_int decimal20 0) (map (\<lambda>s. ?total (slice_window s)) slices))"
  have r: "recap_planned_weekly_slice_period_quantities decimal20 (map (\<lambda>s. ?q (slice_window s)) slices) = Inr ?r"
    using month_has_slices [OF s] by (simp add: q recap_planned_same)
  have exact: "exact_sums round20 val20 (mset (map planned_incremental_quantity
      (credited ''i'' (period_window month) sample_credits)))"
    by (rule exact_sums_mono [OF sample_exact sample_credits(2)])
  have "foldl (d_plus decimal20) (d_of_int decimal20 0) (map (\<lambda>s. ?total (slice_window s)) slices) \<noteq> None"
    using fin by (simp only: decimal20_simps(1)) (rule decimal20_sum_finite, simp add: list_all_iff)
  then have "planned_recap_agrees val20 ?r (?q (period_window month))"
    using fin by (intro weekly_recap_of_planned_is_the_month [OF decimal20_arith.decimal_arith_axioms s exact r])
      (simp_all add: q decimal20_simps(4))
  then show ?thesis using s r by blast
qed

end
