(* ===== verification/ProjectTimeZone.thy ===== *)
theory ProjectTimeZone
  imports JsDate
begin

text \<open>
  \<open>common/project-time-zone.util.ts\<close>: Project Business Today, the civil date of an instant in
  the project's time zone.

  \<open>Intl.DateTimeFormat\<close> belongs to the runtime: whether it accepts a zone and the parts it
  formats are the two fields of \<open>intl\<close>. What the code relies on of it (ECMA-402: with the
  Gregorian calendar and Latin digits the parts are the numbers of the civil date, and the
  era of a year after 1 BC is AD) is the locale \<open>civil_calendar\<close>. A part is read with
  \<open>Number\<close>; texts other than optionally signed decimal digits, which Intl does not produce
  for these parts, read as no integer.

  The properties: the result is the wire of the local civil day, which is the UTC day or one
  of its neighbours; every unusable input is refused with its reason.
\<close>

section \<open>Definitions\<close>

record intl =
  intl_accepts :: "string \<Rightarrow> bool"
  intl_parts :: "string \<Rightarrow> int \<Rightarrow> (string \<times> string) list option"

definition is_supported_project_time_zone :: "intl \<Rightarrow> string \<Rightarrow> bool" where
  "is_supported_project_time_zone I value = intl_accepts I value"

datatype business_date_unavailable_reason =
    PROJECT_TIME_ZONE_NOT_SET
  | INVALID_PROJECT_TIME_ZONE
  | INVALID_INSTANT

datatype business_date_resolution =
    Business_Date string
  | Business_Date_Unavailable business_date_unavailable_reason

text \<open>\<open>Number(s)\<close>, when it is an integer.\<close>

definition js_integer_text :: "string \<Rightarrow> int option" where
  "js_integer_text s =
     (case js_trim s of
        [] \<Rightarrow> Some 0
      | c # ds \<Rightarrow>
          if c = CHR ''-'' \<and> ds \<noteq> [] then map_option uminus (digits_number 0 ds)
          else if c = CHR ''+'' \<and> ds \<noteq> [] then digits_number 0 ds
          else digits_number 0 (c # ds))"

definition pad :: "int \<Rightarrow> nat \<Rightarrow> string" where
  "pad value len = pad_start_zero len (int_to_string value)"

definition part_value :: "(string \<times> string) list \<Rightarrow> string \<Rightarrow> string option" where
  "part_value parts type_name = map_option snd (find (\<lambda>part. fst part = type_name) parts)"

definition business_date_of_parts :: "(string \<times> string) list \<Rightarrow> business_date_resolution" where
  "business_date_of_parts parts =
     (case (part_value parts ''year'', part_value parts ''month'', part_value parts ''day'') of
        (Some year, Some month, Some day) \<Rightarrow>
          if part_value parts ''era'' \<noteq> None \<and> part_value parts ''era'' \<noteq> Some ''AD''
          then Business_Date_Unavailable INVALID_INSTANT
          else
            (case (js_integer_text year, js_integer_text month, js_integer_text day) of
               (Some y, Some m, Some d) \<Rightarrow>
                 if y < 1 \<or> y > 9999 then Business_Date_Unavailable INVALID_INSTANT
                 else Business_Date (pad y 4 @ ''-'' @ pad m 2 @ ''-'' @ pad d 2)
             | _ \<Rightarrow> Business_Date_Unavailable INVALID_INSTANT)
      | _ \<Rightarrow> Business_Date_Unavailable INVALID_PROJECT_TIME_ZONE)"

definition project_business_date_at_instant :: "intl \<Rightarrow> js_date \<Rightarrow> string option \<Rightarrow> business_date_resolution" where
  "project_business_date_at_instant I instant project_time_zone =
     (case instant of
        Invalid_Date \<Rightarrow> Business_Date_Unavailable INVALID_INSTANT
      | Date_Time t \<Rightarrow>
          (let zone = (case project_time_zone of None \<Rightarrow> [] | Some z \<Rightarrow> js_trim z) in
           if zone = [] then Business_Date_Unavailable PROJECT_TIME_ZONE_NOT_SET
           else if \<not> is_supported_project_time_zone I zone
           then Business_Date_Unavailable INVALID_PROJECT_TIME_ZONE
           else
             (case intl_parts I zone t of
                None \<Rightarrow> Business_Date_Unavailable INVALID_PROJECT_TIME_ZONE
              | Some parts \<Rightarrow> business_date_of_parts parts)))"

section \<open>Padded numbers\<close>

lemma dec_digits_0: "dec_digits k 0 = replicate k (CHR ''0'')"
proof (induction k)
  case (Suc k)
  have "digit_char 0 = CHR ''0''" by code_simp
  then show ?case using Suc by (simp add: replicate_append_same)
qed simp

lemma pad_digits: "0 \<le> n \<Longrightarrow> n < 10 ^ k \<Longrightarrow> 0 < k \<Longrightarrow> pad n k = dec_digits k n"
proof (induction k arbitrary: n)
  case (Suc k)
  show ?case
  proof (cases "n < 10")
    case True
    then have "nat n < 10" by linarith
    then have "int_to_string n = [digit_char n]"
      using Suc.prems(1) by (simp add: int_to_string_def nat_to_string.simps [of "nat n"])
    then show ?thesis using True Suc.prems(1) by (simp add: pad_def pad_start_zero_def dec_digits_0)
  next
    case False
    then have k: "0 < k" using Suc.prems(2) by (cases k) simp_all
    have "n div 10 < 10 ^ k" using Suc.prems(2) by auto
    then have ih: "pad (n div 10) k = dec_digits k (n div 10)" using Suc.IH Suc.prems(1) k by simp
    have "\<not> nat n < 10" using False by linarith
    then have "nat_to_string (nat n) = nat_to_string (nat (n div 10)) @ [digit_char (n mod 10)]"
      using False Suc.prems(1) by (simp add: nat_to_string.simps [of "nat n"] nat_div_distrib zmod_int)
    then have "int_to_string n = int_to_string (n div 10) @ [digit_char (n mod 10)]"
      using Suc.prems(1) by (simp add: int_to_string_def)
    then show ?thesis using ih by (simp add: pad_def pad_start_zero_def)
  qed
qed simp

lemma dropWhile_none: "\<forall>x \<in> set xs. \<not> P x \<Longrightarrow> dropWhile P xs = xs"
  by (cases xs) auto

lemma js_trim_digits: "digits_number 0 s = Some n \<Longrightarrow> js_trim s = s"
proof -
  have "\<not> js_space c" if "c \<in> set s" "digits_number a s = Some n" for a c
    using that
  proof (induction s arbitrary: a)
    case (Cons d s)
    then obtain v where v: "digit_value d = Some v" "digits_number (10 * a + v) s = Some n"
      by (auto split: option.splits)
    have "\<not> js_space d" using digit_value_SomeD [OF v(1)] by (simp add: js_space_def of_char_digit_char)
    then show ?case using Cons v(2) by auto
  qed simp
  moreover assume "digits_number 0 s = Some n"
  ultimately have s: "\<forall>c \<in> set s. \<not> js_space c" by blast
  then have "\<forall>c \<in> set (rev s). \<not> js_space c" by simp
  with s show "js_trim s = s" unfolding js_trim_def by (simp only: dropWhile_none rev_rev_ident)
qed

lemma js_integer_digits:
  assumes "digits_number 0 s = Some n"
  shows "js_integer_text s = Some n"
proof (cases s)
  case (Cons c ds)
  then obtain v where "digit_value c = Some v" using assms by (auto split: option.splits)
  then have "c \<noteq> CHR ''-''" "c \<noteq> CHR ''+''"
    by (auto simp: digit_value_def)
  then show ?thesis using assms js_trim_digits [OF assms] Cons by (simp add: js_integer_text_def)
qed (use assms in \<open>simp add: js_integer_text_def\<close>)

section \<open>The civil date\<close>

text \<open>
  The documented behaviour of \<open>Intl.DateTimeFormat\<close>: \<open>offset zone t\<close> is the offset of the zone
  at instant \<open>t\<close>, less than a day.
\<close>

definition civil_day :: "(string \<Rightarrow> int \<Rightarrow> int) \<Rightarrow> string \<Rightarrow> int \<Rightarrow> int" where
  "civil_day offset zone t = (t + offset zone t) div ms_per_day"

locale civil_calendar =
  fixes I :: intl and offset :: "string \<Rightarrow> int \<Rightarrow> int"
  assumes offset_bound: "intl_accepts I zone \<Longrightarrow> \<bar>offset zone t\<bar> < ms_per_day"
    and parts_law: "intl_accepts I zone \<Longrightarrow> d = civil_day offset zone t \<Longrightarrow> 1 \<le> year_from_day d \<Longrightarrow>
      \<exists>ps y m dt. intl_parts I zone t = Some ps \<and> part_value ps ''year'' = Some y \<and> part_value ps ''month'' = Some m \<and>
        part_value ps ''day'' = Some dt \<and> part_value ps ''era'' = Some ''AD'' \<and>
        digits_number 0 y = Some (year_from_day d) \<and> digits_number 0 m = Some (month_of_day d + 1) \<and>
        digits_number 0 dt = Some (date_of_day d)"
begin

lemma civil_day_near:
  assumes "intl_accepts I zone"
  shows "t div ms_per_day - 1 \<le> civil_day offset zone t" "civil_day offset zone t \<le> t div ms_per_day + 1"
proof -
  let ?q = "t div ms_per_day"
  have q: "ms_per_day * ?q \<le> t" "t < ms_per_day * ?q + ms_per_day"
    using mult_div_mod_eq [of ms_per_day t] pos_mod_bound [OF ms_per_day_pos(1), of t] pos_mod_sign [OF ms_per_day_pos(1), of t]
    by linarith+
  have o: "- ms_per_day < offset zone t" "offset zone t < ms_per_day" using offset_bound [OF assms, of t] by linarith+
  have "(?q - 1) * ms_per_day \<le> t + offset zone t" using q o by (simp add: algebra_simps)
  then have "((?q - 1) * ms_per_day) div ms_per_day \<le> civil_day offset zone t"
    unfolding civil_day_def by (rule zdiv_mono1 [OF _ ms_per_day_pos(1)])
  then show "?q - 1 \<le> civil_day offset zone t" by simp
  have less: "t + offset zone t < (?q + 2) * ms_per_day" using q o by (simp add: algebra_simps)
  have "ms_per_day * civil_day offset zone t \<le> t + offset zone t"
    unfolding civil_day_def using mult_div_mod_eq [of ms_per_day "t + offset zone t"]
      pos_mod_sign [OF ms_per_day_pos(1), of "t + offset zone t"] by linarith
  then have "ms_per_day * civil_day offset zone t < ms_per_day * (?q + 2)" using less by (simp only: mult.commute)
  then have "civil_day offset zone t < ?q + 2" by (simp only: midnight_less_iff)
  then show "civil_day offset zone t \<le> ?q + 1" by simp
qed

lemma business_date_of_instant:
  assumes "intl_accepts I (js_trim zone)" "js_trim zone \<noteq> []" "1 \<le> year_from_day (civil_day offset (js_trim zone) t)"
    "year_from_day (civil_day offset (js_trim zone) t) \<le> 9999"
  shows "project_business_date_at_instant I (Date_Time t) (Some zone) =
    Business_Date (iso_date_part (civil_day offset (js_trim zone) t))"
proof -
  let ?d = "civil_day offset (js_trim zone) t"
  obtain ps y m dt where ps: "intl_parts I (js_trim zone) t = Some ps" "part_value ps ''year'' = Some y"
    "part_value ps ''month'' = Some m" "part_value ps ''day'' = Some dt" "part_value ps ''era'' = Some ''AD''"
    "digits_number 0 y = Some (year_from_day ?d)" "digits_number 0 m = Some (month_of_day ?d + 1)"
    "digits_number 0 dt = Some (date_of_day ?d)"
    using parts_law [OF assms(1) refl, of t] assms(3) by blast
  have "pad (year_from_day ?d) 4 = dec_digits 4 (year_from_day ?d)"
    "pad (month_of_day ?d + 1) 2 = dec_digits 2 (month_of_day ?d + 1)"
    "pad (date_of_day ?d) 2 = dec_digits 2 (date_of_day ?d)"
    using assms(3,4) month_of_day_range [of ?d] date_of_day_range(1) [of ?d] date_of_day_le [of ?d]
    by (simp_all add: pad_digits)
  moreover have "four_digit_day ?d" using assms(3,4) by (simp add: four_digit_day_def)
  ultimately show ?thesis
    using ps assms
    by (simp add: project_business_date_at_instant_def is_supported_project_time_zone_def business_date_of_parts_def
        js_integer_digits iso_date_part_four_digit Let_def)
qed

end

section \<open>An instance: the zones of Indonesia\<close>

definition indonesian_offset :: "string \<Rightarrow> int \<Rightarrow> int" where
  "indonesian_offset zone t =
     (if zone = ''Asia/Jakarta'' then 7 else if zone = ''Asia/Makassar'' then 8
      else if zone = ''Asia/Jayapura'' then 9 else 0) * 3600000"

definition indonesian_intl :: intl where
  "indonesian_intl =
     \<lparr>intl_accepts = (\<lambda>zone. zone \<in> {''UTC'', ''Asia/Jakarta'', ''Asia/Makassar'', ''Asia/Jayapura''}),
      intl_parts = (\<lambda>zone t.
        let d = civil_day indonesian_offset zone t
        in Some [(''month'', dec_digits 2 (month_of_day d + 1)), (''literal'', ''/''),
             (''day'', dec_digits 2 (date_of_day d)), (''literal'', ''/''),
             (''year'', int_to_string (year_from_day d)), (''literal'', '' ''),
             (''era'', if 1 \<le> year_from_day d then ''AD'' else ''BC'')])\<rparr>"

lemma digits_number_nat_to_string: "digits_number 0 (nat_to_string n) = Some (int n)"
proof (induction n rule: nat_to_string.induct)
  case (1 n)
  show ?case
  proof (cases "n < 10")
    case True
    then show ?thesis by (simp add: nat_to_string.simps [of n])
  next
    case False
    have "int (n mod 10) \<le> 9" using pos_mod_bound [of 10 "int n"] by (simp add: zmod_int)
    then have "digit_value (digit_char (int (n mod 10))) = Some (int (n mod 10))"
      by (intro digit_value_digit_char) simp_all
    moreover have "10 * int (n div 10) + int (n mod 10) = int n" by presburger
    ultimately show ?thesis using 1 False by (simp add: nat_to_string.simps [of n] digits_number_append)
  qed
qed

interpretation indonesian: civil_calendar indonesian_intl indonesian_offset
proof
  fix zone t
  show "\<bar>indonesian_offset zone t\<bar> < ms_per_day" by (simp add: indonesian_offset_def ms_per_day_def)
next
  fix zone t d
  assume d: "d = civil_day indonesian_offset zone t" "1 \<le> year_from_day d"
  have "digits_number 0 (int_to_string (year_from_day d)) = Some (year_from_day d)"
    using d(2) digits_number_nat_to_string [of "nat (year_from_day d)"] by (simp add: int_to_string_def)
  then show "\<exists>ps y m dt. intl_parts indonesian_intl zone t = Some ps \<and> part_value ps ''year'' = Some y \<and>
      part_value ps ''month'' = Some m \<and> part_value ps ''day'' = Some dt \<and> part_value ps ''era'' = Some ''AD'' \<and>
      digits_number 0 y = Some (year_from_day d) \<and> digits_number 0 m = Some (month_of_day d + 1) \<and>
      digits_number 0 dt = Some (date_of_day d)"
    using d field_digits(2,3) [of d] by (simp add: indonesian_intl_def Let_def part_value_def)
qed

section \<open>Properties\<close>

text \<open>C35: Project Business Today. In a zone the runtime accepts, the date is the wire of the local civil
  day, which is the UTC day of the instant or a neighbour of it. It is a date the rest of the
  program accepts exactly from the year 100 on: for the years 1 to 99 this function answers a
  text that the date-only parser refuses.\<close>

theorem project_business_today:
  assumes "civil_calendar I offset" and "intl_accepts I (js_trim zone)" and "js_trim zone \<noteq> []"
    and "1 \<le> year_from_day (civil_day offset (js_trim zone) t)"
    and "year_from_day (civil_day offset (js_trim zone) t) \<le> 9999"
  shows "project_business_date_at_instant I (Date_Time t) (Some zone) =
      Business_Date (iso_date_part (civil_day offset (js_trim zone) t)) \<and>
    \<bar>civil_day offset (js_trim zone) t - t div ms_per_day\<bar> \<le> 1 \<and>
    (project_business_date_wire (JStr (iso_date_part (civil_day offset (js_trim zone) t))) \<noteq> None \<longleftrightarrow>
      100 \<le> year_from_day (civil_day offset (js_trim zone) t))"
proof -
  let ?d = "civil_day offset (js_trim zone) t"
  have "four_digit_day ?d" using assms(4,5) by (simp add: four_digit_day_def)
  then have "project_business_date_wire (JStr (iso_date_part ?d)) \<noteq> None \<longleftrightarrow> business_day ?d"
    by (auto simp: project_business_date_wire_iff date_order)
  moreover have "business_day ?d \<longleftrightarrow> 100 \<le> year_from_day ?d" using assms(5) by (simp add: business_day_def)
  ultimately show ?thesis
    using civil_calendar.business_date_of_instant [OF assms(1-5)] civil_calendar.civil_day_near [OF assms(1,2), of t]
    by (simp add: abs_le_iff)
qed

lemma sample_zone:
  "js_trim '' Asia/Jakarta'' = ''Asia/Jakarta''" "civil_day indonesian_offset ''Asia/Jakarta'' 1770742800000 = 20495"
  "year_from_day 20495 = 2026" "iso_date_part 20495 = ''2026-02-11''"
  by code_simp+

lemma sample_today:
  "project_business_date_at_instant indonesian_intl (Date_Time 1770742800000) (Some '' Asia/Jakarta'') =
    Business_Date (iso_date_part 20495)"
  using indonesian.business_date_of_instant [of "'' Asia/Jakarta''" 1770742800000]
  unfolding sample_zone by (simp add: indonesian_intl_def)

theorem project_business_today_witness:
  "project_business_date_at_instant indonesian_intl (Date_Time 1770742800000) (Some '' Asia/Jakarta'') =
      Business_Date ''2026-02-11'' \<and>
    (1770742800000 :: int) div ms_per_day = 20494"
proof -
  have "intl_accepts indonesian_intl ''Asia/Jakarta''" by (simp add: indonesian_intl_def)
  then show ?thesis
    using project_business_today [OF indonesian.civil_calendar_axioms, of "'' Asia/Jakarta''" 1770742800000]
    unfolding sample_zone by (simp add: ms_per_day_def)
qed

end
