(* ===== verification/PeriodNavigator.thy ===== *)
theory PeriodNavigator
  imports PeriodPages TemporalLens ProjectTimeZone
begin

text \<open>
  \<open>progress/progress-period-navigator.policy.ts\<close> around the paged enumeration: where the
  calendar horizon starts, the query, the project statuses that report, and the composition
  that answers one page of periods for a project.

  The properties: the start of the horizon is taken from the strongest source and a broken
  source is never skipped; the composition serves only periods that have begun by Project
  Business Today, and it accepts the cursors it hands out.
\<close>

section \<open>The start of the calendar horizon\<close>

datatype plan_start_unavailable_reason =
    AMBIGUOUS_EXECUTION_PLAN_CONTEXT
  | BASELINE_BINDING_MISMATCH

datatype locked_plan_navigator_start =
    Plan_Start_Absent
  | Plan_Start_Resolved string
  | Plan_Start_Unavailable plan_start_unavailable_reason

datatype actual_start_unavailable_reason =
    ACTUAL_TRUTH_INCOMPLETE
  | ACTUAL_LINEAGE_INVALID
  | ACTUAL_NUMERIC_FACT_INVALID
  | ACTUAL_SEMANTICS_UNPROVEN
  | ACTUAL_WORK_DATE_MISSING

datatype governed_actual_navigator_start =
    Actual_Start_Absent
  | Actual_Start_Resolved string
  | Actual_Start_Unavailable actual_start_unavailable_reason

datatype work_period_anchor_navigator_start =
    Navigator_Anchor_Proven string
  | Navigator_Anchor_Not_Proven
  | Navigator_Anchor_Invalid_Provenance

datatype calendar_start_unavailable_reason =
    CALENDAR_WORK_PERIOD_ANCHOR_PROVENANCE_INVALID
  | Calendar_Plan_Reason plan_start_unavailable_reason
  | Calendar_Actual_Reason actual_start_unavailable_reason
  | EARLIEST_AUTHORITATIVE_EXECUTION_DATE_UNAVAILABLE

datatype calendar_navigator_start =
    Calendar_Start_Resolved string
  | Calendar_Start_Unavailable calendar_start_unavailable_reason

definition resolve_calendar_navigator_start ::
    "work_period_anchor_navigator_start \<Rightarrow> locked_plan_navigator_start \<Rightarrow> governed_actual_navigator_start
      \<Rightarrow> calendar_navigator_start" where
  "resolve_calendar_navigator_start anchor plan actual =
     (case anchor of
        Navigator_Anchor_Invalid_Provenance \<Rightarrow>
          Calendar_Start_Unavailable CALENDAR_WORK_PERIOD_ANCHOR_PROVENANCE_INVALID
      | Navigator_Anchor_Proven anchor_date \<Rightarrow> Calendar_Start_Resolved anchor_date
      | Navigator_Anchor_Not_Proven \<Rightarrow>
          (case plan of
             Plan_Start_Unavailable reason \<Rightarrow> Calendar_Start_Unavailable (Calendar_Plan_Reason reason)
           | Plan_Start_Resolved start \<Rightarrow> Calendar_Start_Resolved start
           | Plan_Start_Absent \<Rightarrow>
               (case actual of
                  Actual_Start_Unavailable reason \<Rightarrow> Calendar_Start_Unavailable (Calendar_Actual_Reason reason)
                | Actual_Start_Resolved date \<Rightarrow> Calendar_Start_Resolved date
                | Actual_Start_Absent \<Rightarrow>
                    Calendar_Start_Unavailable EARLIEST_AUTHORITATIVE_EXECUTION_DATE_UNAVAILABLE)))"

text \<open>The inner loop over the facts of one item; \<open>None\<close> stands for a missing work date.\<close>

fun earliest_work_date ::
    "('d, 'a semantic_entry_scheme) official_fact list \<Rightarrow> string option \<Rightarrow> string option option" where
  "earliest_work_date [] earliest = Some earliest"
| "earliest_work_date (f # facts) earliest =
     (case work_date_wire (work_date (fact_entry f)) of
        None \<Rightarrow> None
      | Some wire \<Rightarrow>
          earliest_work_date facts
            (case earliest of None \<Rightarrow> Some wire | Some e \<Rightarrow> if wire < e then Some wire else earliest))"

fun earliest_governed_loop ::
    "('d, 'a semantic_entry_scheme) governed_facts list \<Rightarrow> string option \<Rightarrow> governed_actual_navigator_start" where
  "earliest_governed_loop [] earliest =
     (case earliest of None \<Rightarrow> Actual_Start_Absent | Some date \<Rightarrow> Actual_Start_Resolved date)"
| "earliest_governed_loop (result # results) earliest =
     (case result of
        Facts_Not_Yet_Recorded \<Rightarrow> earliest_governed_loop results earliest
      | Facts_No_Eligible_Current_Fact \<Rightarrow> earliest_governed_loop results earliest
      | Facts_Invalid_Lineage _ \<Rightarrow> Actual_Start_Unavailable ACTUAL_LINEAGE_INVALID
      | Facts_Invalid_Numeric_Fact \<Rightarrow> Actual_Start_Unavailable ACTUAL_NUMERIC_FACT_INVALID
      | Facts_Semantics_Unproven \<Rightarrow> Actual_Start_Unavailable ACTUAL_SEMANTICS_UNPROVEN
      | Facts_Incomplete _ \<Rightarrow> Actual_Start_Unavailable ACTUAL_TRUTH_INCOMPLETE
      | Facts_Complete facts \<Rightarrow>
          (case earliest_work_date facts earliest of
             None \<Rightarrow> Actual_Start_Unavailable ACTUAL_WORK_DATE_MISSING
           | Some earliest' \<Rightarrow> earliest_governed_loop results earliest'))"

definition resolve_earliest_governed_actual_work_date ::
    "('d, 'a semantic_entry_scheme) governed_facts list \<Rightarrow> governed_actual_navigator_start" where
  "resolve_earliest_governed_actual_work_date results = earliest_governed_loop results None"

section \<open>The query\<close>

record period_navigator_input =
  navigator_basis :: temporal_basis
  navigator_granularity :: temporal_granularity
  navigator_cursor :: "string option"

datatype period_navigator_query_error =
    AMBIGUOUS_PERIOD_NAVIGATOR
  | INVALID_INCLUDE_PERIOD_NAVIGATOR
  | PERIOD_NAVIGATOR_FIELDS_REQUIRE_OPT_IN
  | PERIOD_NAVIGATOR_REQUIRES_GRANULARITY
  | INVALID_PERIOD_NAVIGATOR_GRANULARITY
  | PERIOD_NAVIGATOR_REQUIRES_BASIS
  | INVALID_PERIOD_NAVIGATOR_BASIS
  | INVALID_PERIOD_NAVIGATOR_CURSOR

datatype period_navigator_query_resolution =
    Navigator_Disabled
  | Navigator_Enabled period_navigator_input
  | Navigator_Invalid period_navigator_query_error

definition period_navigator_query_keys :: "string list" where
  "period_navigator_query_keys =
     [''includePeriodNavigator'', ''periodNavigatorGranularity'', ''periodNavigatorBasis'', ''periodNavigatorCursor'']"

definition parse_navigator_cursor ::
    "temporal_basis \<Rightarrow> temporal_granularity \<Rightarrow> js_value \<Rightarrow> period_navigator_query_resolution" where
  "parse_navigator_cursor basis granularity cursor_value =
     (if cursor_value = JUndefined
      then Navigator_Enabled \<lparr>navigator_basis = basis, navigator_granularity = granularity, navigator_cursor = None\<rparr>
      else
        (case js_as_string cursor_value of
           None \<Rightarrow> Navigator_Invalid AMBIGUOUS_PERIOD_NAVIGATOR
         | Some cursor \<Rightarrow>
             if \<not> is_project_business_date_wire cursor_value
             then Navigator_Invalid INVALID_PERIOD_NAVIGATOR_CURSOR
             else Navigator_Enabled \<lparr>navigator_basis = basis, navigator_granularity = granularity,
               navigator_cursor = Some cursor\<rparr>))"

definition parse_navigator_fields :: "(string \<times> js_value) list \<Rightarrow> period_navigator_query_resolution" where
  "parse_navigator_fields query =
     (if js_prop query ''periodNavigatorGranularity'' = JUndefined
      then Navigator_Invalid PERIOD_NAVIGATOR_REQUIRES_GRANULARITY
      else
        (case js_as_string (js_prop query ''periodNavigatorGranularity'') of
           None \<Rightarrow> Navigator_Invalid AMBIGUOUS_PERIOD_NAVIGATOR
         | Some granularity_value \<Rightarrow>
             (case temporal_granularity_of_string granularity_value of
                None \<Rightarrow> Navigator_Invalid INVALID_PERIOD_NAVIGATOR_GRANULARITY
              | Some granularity \<Rightarrow>
                  if js_prop query ''periodNavigatorBasis'' = JUndefined
                  then Navigator_Invalid PERIOD_NAVIGATOR_REQUIRES_BASIS
                  else
                    (case js_as_string (js_prop query ''periodNavigatorBasis'') of
                       None \<Rightarrow> Navigator_Invalid AMBIGUOUS_PERIOD_NAVIGATOR
                     | Some basis_value \<Rightarrow>
                         (case temporal_basis_of_string basis_value of
                            None \<Rightarrow> Navigator_Invalid INVALID_PERIOD_NAVIGATOR_BASIS
                          | Some basis \<Rightarrow>
                              parse_navigator_cursor basis granularity (js_prop query ''periodNavigatorCursor''))))))"

definition parse_monitoring_period_navigator_query ::
    "(string \<times> js_value) list \<Rightarrow> period_navigator_query_resolution" where
  "parse_monitoring_period_navigator_query query =
     (let include_value = js_prop query ''includePeriodNavigator'' in
      if has_bracketed_key period_navigator_query_keys query
      then Navigator_Invalid AMBIGUOUS_PERIOD_NAVIGATOR
      else if include_value \<noteq> JUndefined \<and> \<not> js_is_string include_value
      then Navigator_Invalid AMBIGUOUS_PERIOD_NAVIGATOR
      else if include_value \<noteq> JUndefined \<and> include_value \<noteq> JStr ''true'' \<and> include_value \<noteq> JStr ''false''
      then Navigator_Invalid INVALID_INCLUDE_PERIOD_NAVIGATOR
      else if include_value \<noteq> JStr ''true''
      then
        (if js_prop query ''periodNavigatorGranularity'' \<noteq> JUndefined
            \<or> js_prop query ''periodNavigatorBasis'' \<noteq> JUndefined
            \<or> js_prop query ''periodNavigatorCursor'' \<noteq> JUndefined
         then Navigator_Invalid PERIOD_NAVIGATOR_FIELDS_REQUIRE_OPT_IN
         else Navigator_Disabled)
      else parse_navigator_fields query)"

section \<open>The statuses that report\<close>

datatype navigator_status_unavailable_reason =
    REPORTING_NOT_STARTED_FOR_PLANNED_PROJECT
  | TERMINAL_PROJECT_BUSINESS_DATE_NOT_AVAILABLE
  | ARCHIVED_PROJECT_TERMINAL_SEMANTICS_NOT_RATIFIED
  | PROJECT_STATUS_NOT_SUPPORTED

datatype navigator_status_support =
    Status_Supported
  | Status_Unavailable navigator_status_unavailable_reason

definition monitoring_period_navigator_status_support :: "string \<Rightarrow> navigator_status_support" where
  "monitoring_period_navigator_status_support status =
     (if status = ''ACTIVE'' \<or> status = ''ON_HOLD'' then Status_Supported
      else if status = ''PLANNED'' then Status_Unavailable REPORTING_NOT_STARTED_FOR_PLANNED_PROJECT
      else if status = ''COMPLETED'' \<or> status = ''CANCELLED''
      then Status_Unavailable TERMINAL_PROJECT_BUSINESS_DATE_NOT_AVAILABLE
      else if status = ''ARCHIVED'' then Status_Unavailable ARCHIVED_PROJECT_TERMINAL_SEMANTICS_NOT_RATIFIED
      else Status_Unavailable PROJECT_STATUS_NOT_SUPPORTED)"

section \<open>The composition\<close>

datatype navigator_unavailable_reason =
    Navigator_Status_Reason navigator_status_unavailable_reason
  | Navigator_Enumeration_Reason enumeration_unavailable_reason
  | Navigator_Calendar_Reason calendar_start_unavailable_reason
  | PROJECT_NOT_FOUND
  | NO_ACTIVE_BASELINE_CONTEXT
  | Navigator_Business_Date_Reason business_date_unavailable_reason
  | NAVIGATOR_WORK_PERIOD_ANCHOR_PROVENANCE_INVALID
  | NAVIGATOR_GOVERNED_WORK_PERIOD_ANCHOR_REQUIRED
  | PERIOD_NAVIGATOR_CURSOR_AFTER_PROJECT_BUSINESS_TODAY
  | PERIOD_NAVIGATOR_CURSOR_BEFORE_HORIZON_START

datatype navigator_state =
    Navigator_Resolved "temporal_period list" bool "string option"
  | Navigator_Unavailable navigator_unavailable_reason

record navigator_projection =
  projection_basis :: temporal_basis
  projection_granularity :: temporal_granularity
  projection_state :: navigator_state

definition period_navigator_unavailable ::
    "temporal_basis \<Rightarrow> temporal_granularity \<Rightarrow> navigator_unavailable_reason \<Rightarrow> navigator_projection" where
  "period_navigator_unavailable basis granularity reason =
     \<lparr>projection_basis = basis, projection_granularity = granularity,
      projection_state = Navigator_Unavailable reason\<rparr>"

record navigator_project =
  navigator_project_status :: string
  navigator_project_time_zone :: "string option"

record resolve_navigator_input =
  rni_basis :: temporal_basis
  rni_granularity :: temporal_granularity
  rni_cursor :: "string option"
  rni_request_instant :: js_date
  rni_project :: "navigator_project option"
  rni_has_active_baseline_context :: bool
  rni_work_period_anchor :: work_period_anchor_navigator_start
  rni_locked_plan_start :: locked_plan_navigator_start
  rni_earliest_governed_actual :: governed_actual_navigator_start
  rni_business_date_at_instant :: "js_date \<Rightarrow> string option \<Rightarrow> business_date_resolution"

text \<open>The start of the horizon and the governed anchor of the basis, or the reason for having none.\<close>

definition navigator_horizon ::
    "resolve_navigator_input \<Rightarrow> navigator_unavailable_reason + string \<times> string option" where
  "navigator_horizon input =
     (if rni_basis input = WORK_PERIOD then
        (case rni_work_period_anchor input of
           Navigator_Anchor_Not_Proven \<Rightarrow> Inl NAVIGATOR_GOVERNED_WORK_PERIOD_ANCHOR_REQUIRED
         | Navigator_Anchor_Invalid_Provenance \<Rightarrow> Inl NAVIGATOR_WORK_PERIOD_ANCHOR_PROVENANCE_INVALID
         | Navigator_Anchor_Proven anchor_date \<Rightarrow> Inr (anchor_date, Some anchor_date))
      else
        (case resolve_calendar_navigator_start (rni_work_period_anchor input) (rni_locked_plan_start input)
                (rni_earliest_governed_actual input) of
           Calendar_Start_Unavailable reason \<Rightarrow> Inl (Navigator_Calendar_Reason reason)
         | Calendar_Start_Resolved start \<Rightarrow> Inr (start, None)))"

text \<open>The untrusted cursor against Today and the horizon.\<close>

definition navigator_page_end ::
    "string option \<Rightarrow> string \<Rightarrow> string \<Rightarrow> navigator_unavailable_reason + string" where
  "navigator_page_end cursor today horizon_start =
     (case cursor of
        None \<Rightarrow> Inr today
      | Some c \<Rightarrow>
          if c > today then Inl PERIOD_NAVIGATOR_CURSOR_AFTER_PROJECT_BUSINESS_TODAY
          else if c < horizon_start then Inl PERIOD_NAVIGATOR_CURSOR_BEFORE_HORIZON_START
          else Inr c)"

definition navigator_page ::
    "temporal_basis \<Rightarrow> temporal_granularity \<Rightarrow> string option \<Rightarrow> string \<Rightarrow> string \<Rightarrow> js_error + navigator_projection" where
  "navigator_page basis granularity anchor horizon_start page_end =
     rbind (enumerate_canonical_temporal_period_page basis granularity anchor horizon_start page_end) (\<lambda>page.
       case page of
         Page_Unavailable reason \<Rightarrow>
           Inr (period_navigator_unavailable basis granularity (Navigator_Enumeration_Reason reason))
       | Page_Resolved periods has_more_older older_cursor \<Rightarrow>
           Inr \<lparr>projection_basis = basis, projection_granularity = granularity,
             projection_state = Navigator_Resolved periods has_more_older older_cursor\<rparr>)"

definition resolve_monitoring_period_navigator :: "resolve_navigator_input \<Rightarrow> js_error + navigator_projection" where
  "resolve_monitoring_period_navigator input =
     (let basis = rni_basis input; granularity = rni_granularity input;
          unavailable = (\<lambda>reason. Inr (period_navigator_unavailable basis granularity reason))
      in case rni_project input of
           None \<Rightarrow> unavailable PROJECT_NOT_FOUND
         | Some project \<Rightarrow>
             (case monitoring_period_navigator_status_support (navigator_project_status project) of
                Status_Unavailable reason \<Rightarrow> unavailable (Navigator_Status_Reason reason)
              | Status_Supported \<Rightarrow>
                  if \<not> rni_has_active_baseline_context input then unavailable NO_ACTIVE_BASELINE_CONTEXT
                  else
                    (case rni_business_date_at_instant input (rni_request_instant input)
                            (navigator_project_time_zone project) of
                       Business_Date_Unavailable reason \<Rightarrow> unavailable (Navigator_Business_Date_Reason reason)
                     | Business_Date today \<Rightarrow>
                         (case navigator_horizon input of
                            Inl reason \<Rightarrow> unavailable reason
                          | Inr (horizon_start, anchor) \<Rightarrow>
                              (case navigator_page_end (rni_cursor input) today horizon_start of
                                 Inl reason \<Rightarrow> unavailable reason
                               | Inr page_end \<Rightarrow> navigator_page basis granularity anchor horizon_start page_end)))))"

section \<open>Lemmas\<close>

text \<open>An item whose official picture is settled: nothing recorded, or all of it counted and dated.\<close>

definition settled_facts :: "('d, 'a semantic_entry_scheme) governed_facts \<Rightarrow> bool" where
  "settled_facts g \<longleftrightarrow> g = Facts_Not_Yet_Recorded \<or> g = Facts_No_Eligible_Current_Fact \<or>
     (\<exists>facts. g = Facts_Complete facts \<and> (\<forall>f \<in> set facts. fact_wire f \<noteq> None))"

definition fact_dates :: "('d, 'a semantic_entry_scheme) governed_facts list \<Rightarrow> string set" where
  "fact_dates results = {w. \<exists>g \<in> set results. \<exists>f \<in> set (governed_fact_list g). fact_wire f = Some w}"

text \<open>\<open>e\<close> is the least of a set of dates, \<open>None\<close> for the empty set.\<close>

definition least_date :: "string set \<Rightarrow> string option \<Rightarrow> bool" where
  "least_date S e \<longleftrightarrow> (case e of None \<Rightarrow> S = {} | Some w \<Rightarrow> w \<in> S \<and> (\<forall>w' \<in> S. w \<le> w'))"

lemma least_date_insert:
  "least_date S e \<Longrightarrow>
    least_date (insert w S) (case e of None \<Rightarrow> Some w | Some e \<Rightarrow> if w < e then Some w else Some e)"
  by (cases e) (fastforce simp: least_date_def not_less)+

lemma least_date_unique: "least_date S e \<Longrightarrow> least_date S e' \<Longrightarrow> e = e'"
proof (cases e)
  case (Some w)
  assume e: "least_date S e" "least_date S e'"
  then have "S \<noteq> {}" using Some by (auto simp: least_date_def)
  then obtain w' where w': "e' = Some w'" using e(2) by (cases e') (simp_all add: least_date_def)
  have "w \<in> S" "w' \<in> S" "\<forall>v \<in> S. w \<le> v" "\<forall>v \<in> S. w' \<le> v"
    using e by (simp_all add: least_date_def Some w')
  then have "w \<le> w'" "w' \<le> w" by simp_all
  then show ?thesis using Some w' by (simp add: order_antisym)
qed (cases e', auto simp: least_date_def)

lemma earliest_work_date_Some_iff:
  "(\<exists>e'. earliest_work_date facts e = Some e') \<longleftrightarrow> (\<forall>f \<in> set facts. fact_wire f \<noteq> None)"
  by (induction facts arbitrary: e) (auto simp: fact_wire_def split: option.splits)

lemma earliest_work_date_least:
  assumes "earliest_work_date facts e = Some e'" "least_date S e"
  shows "least_date (S \<union> {w. \<exists>f \<in> set facts. fact_wire f = Some w}) e'"
  using assms
proof (induction facts arbitrary: S e)
  case (Cons f facts)
  then obtain w where w: "fact_wire f = Some w" by (auto simp: fact_wire_def split: option.splits)
  let ?e = "case e of None \<Rightarrow> Some w | Some e' \<Rightarrow> if w < e' then Some w else Some e'"
  have run: "earliest_work_date facts ?e = Some e'"
    using Cons.prems(1) w by (cases e) (simp_all add: fact_wire_def split: if_splits)
  have "S \<union> {v. \<exists>f' \<in> set (f # facts). fact_wire f' = Some v} =
      insert w S \<union> {v. \<exists>f \<in> set facts. fact_wire f = Some v}" using w by auto
  then show ?case using Cons.IH [OF run least_date_insert [OF Cons.prems(2)]] by simp
qed simp

lemma fact_dates_Nil [simp]: "fact_dates [] = {}"
  by (simp add: fact_dates_def)

lemma fact_dates_Cons: "fact_dates (g # results) = {w. \<exists>f \<in> set (governed_fact_list g). fact_wire f = Some w} \<union> fact_dates results"
  by (auto simp: fact_dates_def)

lemma earliest_governed_loop_Resolved_iff:
  assumes "least_date S e"
  shows "earliest_governed_loop results e = Actual_Start_Resolved d \<longleftrightarrow>
    (\<forall>g \<in> set results. settled_facts g) \<and> least_date (S \<union> fact_dates results) (Some d)"
  using assms
proof (induction results arbitrary: S e)
  case Nil
  have "earliest_governed_loop [] e = Actual_Start_Resolved d \<longleftrightarrow> e = Some d" by (cases e) simp_all
  moreover have "least_date S (Some d) \<longleftrightarrow> e = Some d" using least_date_unique [OF Nil] Nil by metis
  ultimately show ?case by simp
next
  case (Cons g results)
  show ?case
  proof (cases g)
    case (Facts_Complete facts)
    show ?thesis
    proof (cases "earliest_work_date facts e")
      case None
      then have "\<not> settled_facts g"
        using earliest_work_date_Some_iff [of facts e] by (auto simp: settled_facts_def Facts_Complete)
      then show ?thesis using None by (simp add: Facts_Complete)
    next
      case (Some e')
      have "settled_facts g"
        using earliest_work_date_Some_iff [of facts e] Some by (auto simp: settled_facts_def Facts_Complete)
      then show ?thesis
        using Cons.IH [OF earliest_work_date_least [OF Some Cons.prems]] Some
        by (simp add: Facts_Complete fact_dates_Cons Un_assoc)
    qed
  qed (use Cons in \<open>simp_all add: settled_facts_def fact_dates_Cons\<close>)
qed

lemma calendar_start_Resolved_iff:
  "resolve_calendar_navigator_start anchor plan actual = Calendar_Start_Resolved d \<longleftrightarrow>
    anchor = Navigator_Anchor_Proven d \<or>
    anchor = Navigator_Anchor_Not_Proven \<and>
      (plan = Plan_Start_Resolved d \<or> plan = Plan_Start_Absent \<and> actual = Actual_Start_Resolved d)"
  by (cases anchor; cases plan; cases actual; simp add: resolve_calendar_navigator_start_def)

lemma navigator_horizon_anchor:
  "navigator_horizon input = Inr (h, anchor) \<Longrightarrow> rni_basis input = CALENDAR \<or> anchor = Some h"
  by (auto simp: navigator_horizon_def split: if_splits work_period_anchor_navigator_start.splits
      calendar_navigator_start.splits) (metis temporal_basis.exhaust)

lemma navigator_page_servedD:
  "navigator_page b g anchor h e = Inr pr \<Longrightarrow> projection_state pr = Navigator_Resolved ps older cur \<Longrightarrow>
    enumerate_canonical_temporal_period_page b g anchor h e = Inr (Page_Resolved ps older cur)"
  by (cases "enumerate_canonical_temporal_period_page b g anchor h e")
    (auto simp: navigator_page_def period_navigator_unavailable_def split: period_page.split_asm)

text \<open>What a request that is served went through.\<close>

lemma navigator_servedD:
  assumes "resolve_monitoring_period_navigator input = Inr pr" "projection_state pr = Navigator_Resolved ps older cur"
  obtains project today h anchor page_end where
    "rni_project input = Some project"
    "monitoring_period_navigator_status_support (navigator_project_status project) = Status_Supported"
    "rni_has_active_baseline_context input"
    "rni_business_date_at_instant input (rni_request_instant input) (navigator_project_time_zone project) = Business_Date today"
    "navigator_horizon input = Inr (h, anchor)"
    "navigator_page_end (rni_cursor input) today h = Inr page_end" "page_end \<le> today"
    "enumerate_canonical_temporal_period_page (rni_basis input) (rni_granularity input) anchor h page_end =
      Inr (Page_Resolved ps older cur)"
proof -
  obtain project where p: "rni_project input = Some project"
    "monitoring_period_navigator_status_support (navigator_project_status project) = Status_Supported"
    using assms by (auto simp: resolve_monitoring_period_navigator_def period_navigator_unavailable_def Let_def
        split: option.splits navigator_status_support.splits)
  then have b: "rni_has_active_baseline_context input"
    using assms by (auto simp: resolve_monitoring_period_navigator_def period_navigator_unavailable_def Let_def split: if_splits)
  obtain today where today: "rni_business_date_at_instant input (rni_request_instant input)
      (navigator_project_time_zone project) = Business_Date today"
    using assms p b by (cases "rni_business_date_at_instant input (rni_request_instant input)
      (navigator_project_time_zone project)")
      (auto simp: resolve_monitoring_period_navigator_def period_navigator_unavailable_def Let_def)
  obtain h anchor where h: "navigator_horizon input = Inr (h, anchor)"
    using assms p b today by (cases "navigator_horizon input")
      (auto simp: resolve_monitoring_period_navigator_def period_navigator_unavailable_def Let_def)
  obtain page_end where e: "navigator_page_end (rni_cursor input) today h = Inr page_end"
    using assms p b today h by (cases "navigator_page_end (rni_cursor input) today h")
      (auto simp: resolve_monitoring_period_navigator_def period_navigator_unavailable_def Let_def)
  have "page_end \<le> today"
    using e by (auto simp: navigator_page_end_def not_less split: option.splits if_splits)
  moreover have "navigator_page (rni_basis input) (rni_granularity input) anchor h page_end = Inr pr"
    using assms(1) p b today h e by (simp add: resolve_monitoring_period_navigator_def Let_def)
  ultimately show ?thesis using that p b today h e navigator_page_servedD assms(2) by blast
qed

lemma parse_navigator_cursor_iff:
  "parse_navigator_cursor basis granularity v = Navigator_Enabled i \<longleftrightarrow>
    navigator_basis i = basis \<and> navigator_granularity i = granularity \<and>
    (case navigator_cursor i of
       None \<Rightarrow> v = JUndefined
     | Some c \<Rightarrow> v = JStr c \<and> (\<exists>n. business_day n \<and> c = iso_date_part n))"
  "parse_navigator_cursor basis granularity v \<noteq> Navigator_Disabled"
  by (cases v; cases i; auto simp: parse_navigator_cursor_def is_project_business_date_wire_iff split: option.splits)+

lemma parse_navigator_fields_iff:
  "parse_navigator_fields query = Navigator_Enabled i \<longleftrightarrow>
    js_prop query ''periodNavigatorGranularity'' = JStr (granularity_text (navigator_granularity i)) \<and>
    js_prop query ''periodNavigatorBasis'' = JStr (basis_text (navigator_basis i)) \<and>
    parse_navigator_cursor (navigator_basis i) (navigator_granularity i) (js_prop query ''periodNavigatorCursor'') =
      Navigator_Enabled i" (is "_ = ?fields")
  "parse_navigator_fields query \<noteq> Navigator_Disabled"
proof -
  show "parse_navigator_fields query \<noteq> Navigator_Disabled"
    by (simp add: parse_navigator_fields_def parse_navigator_cursor_iff(2) split: option.splits)
  show "parse_navigator_fields query = Navigator_Enabled i \<longleftrightarrow> ?fields"
  proof
    assume e: "parse_navigator_fields query = Navigator_Enabled i"
    then obtain g b where f: "js_prop query ''periodNavigatorGranularity'' = JStr (granularity_text g)"
      "js_prop query ''periodNavigatorBasis'' = JStr (basis_text b)"
      "parse_navigator_cursor b g (js_prop query ''periodNavigatorCursor'') = Navigator_Enabled i"
      by (auto simp: parse_navigator_fields_def split: if_splits option.splits)
    moreover from f(3) have "navigator_basis i = b" "navigator_granularity i = g"
      by (simp_all add: parse_navigator_cursor_iff(1))
    ultimately show ?fields by simp
  next
    assume f: ?fields
    have "temporal_basis_of_string (basis_text (navigator_basis i)) = Some (navigator_basis i)"
      "temporal_granularity_of_string (granularity_text (navigator_granularity i)) = Some (navigator_granularity i)"
      by simp_all
    then show "parse_navigator_fields query = Navigator_Enabled i"
      using f by (simp add: parse_navigator_fields_def del: temporal_basis_of_string_iff temporal_granularity_of_string_iff)
  qed
qed

lemma parse_navigator_query:
  "(parse_monitoring_period_navigator_query query = Navigator_Enabled i \<longleftrightarrow>
     \<not> has_bracketed_key period_navigator_query_keys query \<and>
     js_prop query ''includePeriodNavigator'' = JStr ''true'' \<and>
     js_prop query ''periodNavigatorGranularity'' = JStr (granularity_text (navigator_granularity i)) \<and>
     js_prop query ''periodNavigatorBasis'' = JStr (basis_text (navigator_basis i)) \<and>
     (case navigator_cursor i of
        None \<Rightarrow> js_prop query ''periodNavigatorCursor'' = JUndefined
      | Some c \<Rightarrow> js_prop query ''periodNavigatorCursor'' = JStr c \<and> (\<exists>n. business_day n \<and> c = iso_date_part n))) \<and>
   (parse_monitoring_period_navigator_query query = Navigator_Disabled \<longleftrightarrow>
     \<not> has_bracketed_key period_navigator_query_keys query \<and>
     js_prop query ''includePeriodNavigator'' \<in> {JUndefined, JStr ''false''} \<and>
     js_prop query ''periodNavigatorGranularity'' = JUndefined \<and> js_prop query ''periodNavigatorBasis'' = JUndefined \<and>
     js_prop query ''periodNavigatorCursor'' = JUndefined)"
proof (cases "has_bracketed_key period_navigator_query_keys query")
  case clear: False
  let ?p = "parse_monitoring_period_navigator_query query" and ?i = "js_prop query ''includePeriodNavigator''"
  show ?thesis
  proof (cases "?i = JStr ''true''")
    case True
    then have "?p = parse_navigator_fields query"
      using clear by (simp add: parse_monitoring_period_navigator_query_def Let_def)
    then show ?thesis
      using True clear parse_navigator_fields_iff [of query] by (simp add: parse_navigator_cursor_iff(1))
  next
    case False
    then have "?p \<noteq> Navigator_Enabled i" by (simp add: parse_monitoring_period_navigator_query_def Let_def)
    moreover have "?p = Navigator_Disabled \<longleftrightarrow> ?i \<in> {JUndefined, JStr ''false''} \<and>
        js_prop query ''periodNavigatorGranularity'' = JUndefined \<and> js_prop query ''periodNavigatorBasis'' = JUndefined \<and>
        js_prop query ''periodNavigatorCursor'' = JUndefined"
      using False clear by (cases ?i) (simp_all add: parse_monitoring_period_navigator_query_def Let_def)
    ultimately show ?thesis using False clear by simp
  qed
qed (simp add: parse_monitoring_period_navigator_query_def Let_def)

lemma navigator_request:
  assumes "rni_project input = Some project"
    "monitoring_period_navigator_status_support (navigator_project_status project) = Status_Supported"
    "rni_has_active_baseline_context input"
    "rni_business_date_at_instant input (rni_request_instant input) (navigator_project_time_zone project) = Business_Date today"
    "navigator_horizon input = Inr (h, anchor)" "h \<le> c" "c \<le> today"
  shows "resolve_monitoring_period_navigator (input\<lparr>rni_cursor := Some c\<rparr>) =
    navigator_page (rni_basis input) (rni_granularity input) anchor h c"
proof -
  have "navigator_horizon (input\<lparr>rni_cursor := Some c\<rparr>) = navigator_horizon input"
    by (simp add: navigator_horizon_def)
  moreover have "\<not> today < c" "\<not> c < h" using assms(6,7) by (simp_all add: not_less)
  ultimately show ?thesis
    using assms(1-5) by (simp add: resolve_monitoring_period_navigator_def Let_def navigator_page_end_def)
qed

text \<open>Inside a lawful horizon the resolver refuses no date.\<close>

lemma horizon_date_not_unavailable:
  assumes "b = CALENDAR \<or> anchor = Some (iso_date_part i)" "business_day i" "business_day m" "i \<le> m"
  shows "resolve_at b g anchor (iso_date_part m) \<noteq> Inr (Period_Unavailable q)"
proof -
  have a: "anchored b anchor i" using assms(1,2) by (simp add: anchored_def)
  have "period_covered b i m" using assms(4) by (cases b) (simp_all add: period_covered_def)
  then show ?thesis
    using resolve_at_covered [OF a assms(3)] by (cases "period_code b g i (iso_date_part i) m") simp_all
qed

lemma enumerate_inside_horizon:
  assumes "b = CALENDAR \<or> anchor = Some h" "h = iso_date_part i" "business_day i" "c = iso_date_part n" "business_day n" "i \<le> n"
  shows "enumerate_canonical_temporal_period_page b g anchor h c \<noteq> Inr (Page_Unavailable r)"
proof
  assume run: "enumerate_canonical_temporal_period_page b g anchor h c = Inr (Page_Unavailable r)"
  have "is_project_business_date_wire (JStr h)" "is_project_business_date_wire (JStr c)" "\<not> c < h"
    using assms(2-) by (auto simp: is_project_business_date_wire_iff date_order)
  then have "page_loop (resolve_at b g anchor) (iso_date_part i) c [] = Inr (Page_Unavailable r)"
    using run assms(2) by (simp add: enumerate_canonical_temporal_period_page_def)
  then obtain m q where "business_day m" "i \<le> m" "resolve_at b g anchor (iso_date_part m) = Inr (Period_Unavailable q)"
    using code_resolver.page_loop_unavailable [OF assms(3,4) business_day_four_digit [OF assms(5)]] by blast
  then show False using horizon_date_not_unavailable [of b anchor i m g q] assms(1-3) by blast
qed

section \<open>Properties\<close>

text \<open>The start of the calendar horizon. It is the proven anchor; without one the start of the
  locked plan; without that the earliest date of the governed actual facts, and then the facts
  of every item must be settled and dated. A broken source answers no date: it is not skipped.\<close>

theorem calendar_horizon_start:
  "resolve_calendar_navigator_start anchor plan (resolve_earliest_governed_actual_work_date results) =
      Calendar_Start_Resolved d \<longleftrightarrow>
    anchor = Navigator_Anchor_Proven d \<or>
    anchor = Navigator_Anchor_Not_Proven \<and>
      (plan = Plan_Start_Resolved d \<or>
       plan = Plan_Start_Absent \<and> (\<forall>g \<in> set results. settled_facts g) \<and>
         d \<in> fact_dates results \<and> (\<forall>d' \<in> fact_dates results. d \<le> d'))"
proof -
  have "least_date {} None" by (simp add: least_date_def)
  then have "resolve_earliest_governed_actual_work_date results = Actual_Start_Resolved d \<longleftrightarrow>
      (\<forall>g \<in> set results. settled_facts g) \<and> d \<in> fact_dates results \<and> (\<forall>d' \<in> fact_dates results. d \<le> d')"
    using earliest_governed_loop_Resolved_iff [of "{}" None results d]
    by (simp add: resolve_earliest_governed_actual_work_date_def least_date_def)
  then show ?thesis by (simp only: calendar_start_Resolved_iff)
qed

text \<open>What a served page means. The project exists, its status reports, it has an active baseline
  and a Project Business Today; on the work-period basis its anchor is proven; and every
  period offered has begun by Today and reaches into the horizon: no future period is offered.\<close>

theorem navigator_serves_begun_periods:
  assumes "resolve_monitoring_period_navigator input = Inr pr"
    and "projection_state pr = Navigator_Resolved ps older cur"
  shows "\<exists>project today h anchor. rni_project input = Some project \<and>
    navigator_project_status project \<in> {''ACTIVE'', ''ON_HOLD''} \<and> rni_has_active_baseline_context input \<and>
    rni_business_date_at_instant input (rni_request_instant input) (navigator_project_time_zone project) =
      Business_Date today \<and>
    navigator_horizon input = Inr (h, anchor) \<and>
    (rni_basis input = WORK_PERIOD \<longrightarrow> rni_work_period_anchor input = Navigator_Anchor_Proven h) \<and>
    ps \<noteq> [] \<and> (\<forall>p \<in> set ps. start_date p \<le> today \<and> h \<le> end_date p \<and>
      resolve_at (rni_basis input) (rni_granularity input) anchor (start_date p) = Inr (Period_Resolved p))"
proof -
  obtain project today h anchor e where s: "rni_project input = Some project"
    "monitoring_period_navigator_status_support (navigator_project_status project) = Status_Supported"
    "rni_has_active_baseline_context input"
    "rni_business_date_at_instant input (rni_request_instant input) (navigator_project_time_zone project) = Business_Date today"
    "navigator_horizon input = Inr (h, anchor)" "e \<le> today"
    "enumerate_canonical_temporal_period_page (rni_basis input) (rni_granularity input) anchor h e =
      Inr (Page_Resolved ps older cur)"
    using assms by (rule navigator_servedD)
  have page: "ps \<noteq> []" "start_date (hd ps) \<le> e" "contiguous_back ps"
    "\<forall>p \<in> set ps. resolve_at (rni_basis input) (rni_granularity input) anchor (start_date p) = Inr (Period_Resolved p) \<and> h \<le> end_date p"
    using page_contract [OF s(7)] by simp_all
  have "start_date p \<le> today" if "p \<in> set ps" for p
    using code_resolver.contiguous_starts_le [OF page(3) _ that] page(2,4) s(6) order_trans by metis
  moreover have "navigator_project_status project \<in> {''ACTIVE'', ''ON_HOLD''}"
    using s(2) by (simp add: monitoring_period_navigator_status_support_def split: if_splits)
  moreover have "rni_work_period_anchor input = Navigator_Anchor_Proven h" if "rni_basis input = WORK_PERIOD"
    using s(5) that by (simp add: navigator_horizon_def split: work_period_anchor_navigator_start.splits)
  ultimately show ?thesis using s page by blast
qed

text \<open>The cursors the navigator hands out are lawful. Sent back with the same request, a served
  cursor is never refused: the answer is the next page, which continues the previous one with no
  gap and no overlap, or the exception of a date outside the years 0100..9999.\<close>

theorem navigator_accepts_its_cursor:
  assumes "resolve_monitoring_period_navigator input = Inr pr"
    and "projection_state pr = Navigator_Resolved ps older (Some c)"
  shows "case resolve_monitoring_period_navigator (input\<lparr>rni_cursor := Some c\<rparr>) of
      Inl e \<Rightarrow> e = Plain_Error ''TEMPORAL_BOUNDARY_DATE_WIRE_INVARIANT_VIOLATION''
    | Inr pr' \<Rightarrow> \<exists>qs older' cur'. projection_state pr' = Navigator_Resolved qs older' cur' \<and> contiguous_back (ps @ qs)"
proof -
  let ?b = "rni_basis input" and ?g = "rni_granularity input"
  obtain project today h anchor e where s: "rni_project input = Some project"
    "monitoring_period_navigator_status_support (navigator_project_status project) = Status_Supported"
    "rni_has_active_baseline_context input"
    "rni_business_date_at_instant input (rni_request_instant input) (navigator_project_time_zone project) = Business_Date today"
    "navigator_horizon input = Inr (h, anchor)" "e \<le> today"
    "enumerate_canonical_temporal_period_page ?b ?g anchor h e = Inr (Page_Resolved ps older (Some c))"
    using assms by (rule navigator_servedD)
  have c: "h \<le> c" "c < e" "day_before (start_date (last ps)) = Some c"
    and resumes: "\<And>qs older' cur'. enumerate_canonical_temporal_period_page ?b ?g anchor h c = Inr (Page_Resolved qs older' cur') \<Longrightarrow>
      contiguous_back (ps @ qs)"
    using page_resumes [OF s(7)] by simp_all
  obtain i where i: "h = iso_date_part i" "business_day i" using s(7) by (rule enumerate_ResolvedD)
  have "resolve_at ?b ?g anchor (start_date (last ps)) = Inr (Period_Resolved (last ps))"
    using page_contract [OF s(7)] by simp
  then obtain lo where lo: "c = iso_date_part (lo - 1)" "four_digit_day (lo - 1)"
    by (rule code_resolver.day_before_resolved) (use c(3) that in auto)
  have n: "i \<le> lo - 1" using c(1) i lo by (simp add: date_order)
  then have "business_day (lo - 1)"
    using i(2) lo(2) year_from_day_mono [OF n] by (simp add: business_day_def four_digit_day_def)
  then have "enumerate_canonical_temporal_period_page ?b ?g anchor h c \<noteq> Inr (Page_Unavailable r)" for r
    using enumerate_inside_horizon [OF navigator_horizon_anchor [OF s(5)] i lo(1) _ n] by blast
  moreover have "resolve_monitoring_period_navigator (input\<lparr>rni_cursor := Some c\<rparr>) = navigator_page ?b ?g anchor h c"
    using navigator_request [OF s(1-5) c(1)] c(2) s(6) by (simp add: less_imp_le order_trans)
  ultimately show ?thesis
    using resumes enumerate_error
    by (cases "enumerate_canonical_temporal_period_page ?b ?g anchor h c")
      (auto simp: navigator_page_def split: period_page.splits)
qed

text \<open>The query of the navigator. It is enabled exactly when no key is bracketed, the opt-in is
  the string \<open>true\<close>, granularity and basis name a granularity and a basis, and the cursor is absent or
  a business date, which is passed on as it is; it is disabled exactly when the opt-in is absent
  or \<open>false\<close> and no navigator field is given.\<close>

theorem navigator_query_reading:
  "(parse_monitoring_period_navigator_query query = Navigator_Enabled i \<longleftrightarrow>
     \<not> has_bracketed_key period_navigator_query_keys query \<and>
     js_prop query ''includePeriodNavigator'' = JStr ''true'' \<and>
     js_prop query ''periodNavigatorGranularity'' = JStr (granularity_text (navigator_granularity i)) \<and>
     js_prop query ''periodNavigatorBasis'' = JStr (basis_text (navigator_basis i)) \<and>
     (case navigator_cursor i of
        None \<Rightarrow> js_prop query ''periodNavigatorCursor'' = JUndefined
      | Some c \<Rightarrow> js_prop query ''periodNavigatorCursor'' = JStr c \<and> (\<exists>n. business_day n \<and> c = iso_date_part n))) \<and>
   (parse_monitoring_period_navigator_query query = Navigator_Disabled \<longleftrightarrow>
     \<not> has_bracketed_key period_navigator_query_keys query \<and>
     js_prop query ''includePeriodNavigator'' \<in> {JUndefined, JStr ''false''} \<and>
     js_prop query ''periodNavigatorGranularity'' = JUndefined \<and> js_prop query ''periodNavigatorBasis'' = JUndefined \<and>
     js_prop query ''periodNavigatorCursor'' = JUndefined)"
  by (rule parse_navigator_query)

section \<open>Witnesses\<close>

text \<open>A project in Jakarta whose work periods start 700 days before Today.\<close>

definition sample_request :: "temporal_granularity \<Rightarrow> resolve_navigator_input" where
  "sample_request g =
     \<lparr>rni_basis = CALENDAR, rni_granularity = g, rni_cursor = None, rni_request_instant = Date_Time 1770742800000,
      rni_project = Some \<lparr>navigator_project_status = ''ACTIVE'', navigator_project_time_zone = Some '' Asia/Jakarta''\<rparr>,
      rni_has_active_baseline_context = True,
      rni_work_period_anchor = Navigator_Anchor_Proven (iso_date_part 19795),
      rni_locked_plan_start = Plan_Start_Absent, rni_earliest_governed_actual = Actual_Start_Absent,
      rni_business_date_at_instant = project_business_date_at_instant indonesian_intl\<rparr>"

lemma sample_request_page:
  "resolve_monitoring_period_navigator (sample_request g) =
    navigator_page CALENDAR g None (iso_date_part 19795) (iso_date_part 20495)"
  by (simp add: resolve_monitoring_period_navigator_def sample_request_def sample_today navigator_horizon_def
      resolve_calendar_navigator_start_def navigator_page_end_def monitoring_period_navigator_status_support_def Let_def)

lemma weeks_back:
  assumes "business_day (n + 7)" "business_day (n - 7 * int k - 7)" "length ps + k = PERIOD_NAVIGATOR_PAGE_SIZE"
    and "h \<le> iso_date_part (n - 7 * int k)"
  shows "\<exists>qs m. n - 7 * int k \<le> m \<and> m \<le> n \<and>
    page_loop (resolve_at CALENDAR WEEK None) h (iso_date_part n) ps =
      Inr (Page_Resolved qs (h \<le> iso_date_part m) (if h \<le> iso_date_part m then Some (iso_date_part m) else None))"
  using assms
proof (induction k arbitrary: n ps)
  case 0
  then show ?case by (intro exI [of _ ps] exI [of _ n]) (simp add: page_loop.simps [of _ h "iso_date_part n" ps] Let_def)
next
  case (Suc k)
  have days: "business_day d" if "n - 7 * int (Suc k) - 7 \<le> d" "d \<le> n + 7" for d
    using business_day_between [OF Suc.prems(2,1)] that by simp
  have n: "business_day n" "business_day (n - 6)" "business_day (n + 6)" "business_day (n - 7 * int (Suc k))"
    by (simp_all add: days)
  have a: "anchored CALENDAR None n" "period_covered CALENDAR n n" using n by (simp_all add: anchored_def period_covered_def)
  obtain p where p: "resolve_at CALENDAR WEEK None (iso_date_part n) = Inr (Period_Resolved p)"
    using resolve_at_week_resolves [OF a n(2,3)] by blast
  obtain lo where lo: "start_date p = iso_date_part lo" "business_day lo" "lo \<le> n" "n - 6 \<le> lo"
  proof -
    obtain n' a' where r: "iso_date_part n = iso_date_part n'" "business_day n'" "period_covered CALENDAR a' n'"
      "start_date p = iso_date_part (period_first CALENDAR WEEK a' n')" "business_day (period_first CALENDAR WEEK a' n')"
      using p by (rule resolve_at_Resolved_days)
    then have "n' = n" using n(1) by (simp add: date_order)
    then show ?thesis
      using that [OF r(4,5)] r(3) period_days.lo_le [OF r(3), of WEEK] week_within_six(1) [OF r(3)] by simp
  qed
  have "h \<le> iso_date_part n"
    using Suc.prems(4) n by (auto simp: date_order intro: order_trans)
  then obtain w where w: "day_before (start_date p) = Some w"
    "page_loop (resolve_at CALENDAR WEEK None) h (iso_date_part n) ps =
      page_loop (resolve_at CALENDAR WEEK None) h w (ps @ [p])"
    using code_resolver.page_loop_step [OF _ _ p] Suc.prems(3) by (metis add_Suc_right less_add_Suc1)
  have w': "w = iso_date_part (lo - 1)" using w(1) lo day_before_business_day(1) [OF lo(2)] by simp
  have b: "business_day (lo - 1 + 7)" "business_day (lo - 1 - 7 * int k - 7)" "business_day (lo - 1 - 7 * int k)"
    using lo(3,4) by (simp_all add: days)
  have "iso_date_part (n - 7 * int (Suc k)) \<le> iso_date_part (lo - 1 - 7 * int k)"
    using n(4) b(3) lo(4) by (simp add: date_order)
  then have h: "h \<le> iso_date_part (lo - 1 - 7 * int k)" using Suc.prems(4) order_trans by blast
  obtain qs m where "lo - 1 - 7 * int k \<le> m" "m \<le> lo - 1"
    "page_loop (resolve_at CALENDAR WEEK None) h (iso_date_part (lo - 1)) (ps @ [p]) =
      Inr (Page_Resolved qs (h \<le> iso_date_part m) (if h \<le> iso_date_part m then Some (iso_date_part m) else None))"
    using Suc.IH [OF b(1,2) _ h, of "ps @ [p]"] Suc.prems(3) by auto
  then show ?case using lo(3,4) w(2) w' by (intro exI [of _ qs] exI [of _ m]) simp
qed

lemma sample_days: "business_day 20495" "business_day 20502" "business_day 20040" "business_day 20047" "business_day 19795"
  by code_simp+

lemma sample_full_page:
  obtains pr ps c where "resolve_monitoring_period_navigator (sample_request WEEK) = Inr pr"
    "projection_state pr = Navigator_Resolved ps True (Some c)"
proof -
  have le: "iso_date_part 19795 \<le> iso_date_part m" if "20047 \<le> m" "m \<le> 20495" for m
    using that sample_days business_day_between [OF sample_days(4,1), of m] by (simp add: date_order)
  obtain qs m where m: "20047 \<le> m" "m \<le> 20495"
    "page_loop (resolve_at CALENDAR WEEK None) (iso_date_part 19795) (iso_date_part 20495) [] =
      Inr (Page_Resolved qs (iso_date_part 19795 \<le> iso_date_part m)
        (if iso_date_part 19795 \<le> iso_date_part m then Some (iso_date_part m) else None))"
    using weeks_back [of 20495 64 "[]" "iso_date_part 19795"] sample_days le [of 20047]
    by (auto simp: PERIOD_NAVIGATOR_PAGE_SIZE_def)
  moreover have "\<not> iso_date_part 20495 < iso_date_part 19795" using le [of 20495] by simp
  ultimately have "enumerate_canonical_temporal_period_page CALENDAR WEEK None (iso_date_part 19795) (iso_date_part 20495) =
      Inr (Page_Resolved qs True (Some (iso_date_part m)))"
    using le [OF m(1,2)] sample_days
    by (auto simp: enumerate_canonical_temporal_period_page_def is_project_business_date_wire_iff)
  then show ?thesis using that by (simp add: sample_request_page navigator_page_def)
qed

theorem calendar_horizon_start_witness:
  "resolve_calendar_navigator_start Navigator_Anchor_Not_Proven Plan_Start_Absent
    (resolve_earliest_governed_actual_work_date [Facts_Not_Yet_Recorded, Facts_Complete sample_facts]) =
    Calendar_Start_Resolved ''2026-02-10''"
proof -
  have "fact_dates [Facts_Not_Yet_Recorded, Facts_Complete sample_facts] = {''2026-02-10'', ''2026-02-20''}"
    by (auto simp: fact_dates_def sample_facts_def fact_wire_def sample_entry_def sample_wires)
  moreover have "settled_facts (Facts_Complete sample_facts)"
    by (simp add: settled_facts_def sample_facts_def fact_wire_def sample_entry_def sample_wires)
  moreover have "settled_facts (Facts_Not_Yet_Recorded :: (rat option, law1_entry) governed_facts)"
    by (simp add: settled_facts_def)
  ultimately show ?thesis
    using calendar_horizon_start [of Navigator_Anchor_Not_Proven Plan_Start_Absent
        "[Facts_Not_Yet_Recorded, Facts_Complete sample_facts]" "''2026-02-10''"] sample_order(3) by simp
qed

theorem navigator_serves_begun_periods_witness:
  "\<exists>pr ps c. resolve_monitoring_period_navigator (sample_request WEEK) = Inr pr \<and>
    projection_state pr = Navigator_Resolved ps True (Some c) \<and> (\<forall>p \<in> set ps. start_date p \<le> ''2026-02-11'')"
proof -
  obtain pr ps c where r: "resolve_monitoring_period_navigator (sample_request WEEK) = Inr pr"
    "projection_state pr = Navigator_Resolved ps True (Some c)" by (rule sample_full_page)
  then show ?thesis
    using navigator_serves_begun_periods [OF r] by (simp add: sample_request_def sample_today sample_zone) blast
qed

theorem navigator_accepts_its_cursor_witness:
  "\<exists>pr ps c. resolve_monitoring_period_navigator (sample_request WEEK) = Inr pr \<and>
    projection_state pr = Navigator_Resolved ps True (Some c) \<and>
    (case resolve_monitoring_period_navigator (sample_request WEEK\<lparr>rni_cursor := Some c\<rparr>) of
       Inl e \<Rightarrow> e = Plain_Error ''TEMPORAL_BOUNDARY_DATE_WIRE_INVARIANT_VIOLATION''
     | Inr pr' \<Rightarrow> \<exists>qs older' cur'. projection_state pr' = Navigator_Resolved qs older' cur' \<and> contiguous_back (ps @ qs))"
proof -
  obtain pr ps c where r: "resolve_monitoring_period_navigator (sample_request WEEK) = Inr pr"
    "projection_state pr = Navigator_Resolved ps True (Some c)" by (rule sample_full_page)
  then show ?thesis using navigator_accepts_its_cursor [OF r] by blast
qed

end
