(* ===== verification/RabStructure.thy ===== *)
theory RabStructure
  imports Complex_Main "HOL-Library.Multiset" Prelude
begin

text \<open>
  \<open>project/rab-structure-preflight.ts\<close>: the server validates the whole structure of a draft
  RAB before anything is written, and emits it parent-first.

  A row's identity and its parent reference arrive as untyped values; a \<open>Map\<close> keyed by them is
  an association list in insertion order. The three-colour walk marks keys in a state map; the
  depth-first walk from the roots keeps a stack, whose top is the head of a list, and may in
  general not end (\<open>None\<close>).

  The properties: the payloads accepted are exactly the lawful forests, every payload is
  answered, and the order returned is a permutation of the rows with every parent before its
  children and siblings by their effective order.
\<close>

section \<open>Definitions\<close>

record structural_row =
  temp_id :: js_value
  parent_temp_id :: js_value
  row_item_type :: string
  sort_order :: "rat option"

record 'r ordered_row =
  source_row :: 'r
  payload_index :: nat
  effective_sort_order :: rat

type_synonym 'a rab_entry = "'a structural_row_scheme ordered_row"

definition PARENT_CAPABLE_ITEM_TYPES :: "string list" where
  "PARENT_CAPABLE_ITEM_TYPES = [''FOLDER'']"

definition resolve_effective_sort_order :: "'a structural_row_scheme \<Rightarrow> nat \<Rightarrow> rat" where
  "resolve_effective_sort_order row index = (case sort_order row of None \<Rightarrow> of_nat index | Some s \<Rightarrow> s)"

definition index_rows :: "'a structural_row_scheme list \<Rightarrow> 'a rab_entry list" where
  "index_rows rows =
     map (\<lambda>(i, row). \<lparr>source_row = row, payload_index = i,
            effective_sort_order = resolve_effective_sort_order row i\<rparr>) (enumerate 0 rows)"

definition is_blank_id :: "js_value \<Rightarrow> bool" where
  "is_blank_id v = (case v of JStr s \<Rightarrow> js_trim s = [] | _ \<Rightarrow> True)"

definition entry_key :: "'a rab_entry \<Rightarrow> js_value" where
  "entry_key entry = temp_id (source_row entry)"

fun index_by_temp_id ::
    "'a rab_entry list \<Rightarrow> (js_value \<times> 'a rab_entry) list \<Rightarrow> js_error + (js_value \<times> 'a rab_entry) list" where
  "index_by_temp_id [] by_temp_id = Inr by_temp_id"
| "index_by_temp_id (entry # entries) by_temp_id =
     (if is_blank_id (entry_key entry) then Inl (BadRequestException ''RAB_STRUCTURE_BLANK_TEMP_ID'')
      else if map_of by_temp_id (entry_key entry) \<noteq> None then Inl (ConflictException ''DUPLICATE_TEMP_ID'')
      else index_by_temp_id entries (by_temp_id @ [(entry_key entry, entry)]))"

definition parent_reference_of :: "'a rab_entry \<Rightarrow> js_value option" where
  "parent_reference_of entry =
     (case parent_temp_id (source_row entry) of JNull \<Rightarrow> None | JUndefined \<Rightarrow> None | v \<Rightarrow> Some v)"

fun check_parents :: "(js_value \<times> 'a rab_entry) list \<Rightarrow> 'a rab_entry list \<Rightarrow> js_error + unit" where
  "check_parents by_temp_id [] = Inr ()"
| "check_parents by_temp_id (entry # entries) =
     (case parent_reference_of entry of
        None \<Rightarrow> check_parents by_temp_id entries
      | Some parent_id \<Rightarrow>
          if parent_id = entry_key entry then Inl (BadRequestException ''RAB_STRUCTURE_SELF_PARENT'')
          else
            (case map_of by_temp_id parent_id of
               None \<Rightarrow> Inl (BadRequestException ''RAB_STRUCTURE_PARENT_NOT_FOUND'')
             | Some parent \<Rightarrow>
                 if row_item_type (source_row parent) \<notin> set PARENT_CAPABLE_ITEM_TYPES
                 then Inl (BadRequestException ''RAB_STRUCTURE_INVALID_PARENT_TYPE'')
                 else check_parents by_temp_id entries))"

text \<open>A key that is not in the state map is unvisited.\<close>

datatype walk_state = On_Path | Settled

lemma marking_shrinks:
  assumes "map_of m c = Some e" "state c = None"
  shows "length (filter (\<lambda>(k, _). (state(c \<mapsto> v)) k = None) m) < length (filter (\<lambda>(k, _). state k = None) m)"
proof -
  have le: "length (filter (\<lambda>(k, _). (state(c \<mapsto> v)) k = None) xs) \<le> length (filter (\<lambda>(k, _). state k = None) xs)" for xs
    by (induction xs) (auto split: if_splits)
  have "(c, e) \<in> set m" using assms(1) by (rule map_of_SomeD)
  then show ?thesis
  proof (induction m)
    case (Cons x xs)
    then show ?case using le [of xs] assms(2) by (cases "x = (c, e)") (auto simp: less_Suc_eq_le split: if_splits)
  qed simp
qed

function walk_to_root ::
    "(js_value \<times> 'a rab_entry) list \<Rightarrow> (js_value \<Rightarrow> walk_state option) \<Rightarrow> js_value option \<Rightarrow> js_value list
      \<Rightarrow> js_error + (js_value \<Rightarrow> walk_state option) \<times> js_value list" where
  "walk_to_root by_temp_id state cursor path =
     (case cursor of
        None \<Rightarrow> Inr (state, path)
      | Some c \<Rightarrow>
          if state c = Some Settled then Inr (state, path)
          else if state c = Some On_Path then Inl (BadRequestException ''RAB_STRUCTURE_CYCLE'')
          else
            (case map_of by_temp_id c of
               None \<Rightarrow> Inl (Plain_Error ''Cannot read properties of undefined (reading row)'')
             | Some entry \<Rightarrow>
                 walk_to_root by_temp_id (state(c \<mapsto> On_Path)) (parent_reference_of entry) (path @ [c])))"
  by pat_completeness auto
termination
proof (relation "measure (\<lambda>(by_temp_id, state, _, _). length (filter (\<lambda>(k, _). state k = None) by_temp_id))")
  fix by_temp_id :: "(js_value \<times> 'a rab_entry) list" and state cursor c entry and path :: "js_value list"
  assume c: "\<not> state c = Some Settled" "\<not> state c = Some On_Path" and e: "map_of by_temp_id c = Some entry"
  have "state c = None" using c walk_state.exhaust by (cases "state c") auto
  then show "((by_temp_id, state(c \<mapsto> On_Path), parent_reference_of entry, path @ [c]), by_temp_id, state, cursor, path)
    \<in> measure (\<lambda>(by_temp_id, state, _, _). length (filter (\<lambda>(k, _). state k = None) by_temp_id))"
    using marking_shrinks [OF e, of state] by simp
qed simp

declare walk_to_root.simps [simp del]

fun walk_rows ::
    "(js_value \<times> 'a rab_entry) list \<Rightarrow> 'a rab_entry list \<Rightarrow> (js_value \<Rightarrow> walk_state option) \<Rightarrow> js_error + unit" where
  "walk_rows by_temp_id [] state = Inr ()"
| "walk_rows by_temp_id (entry # entries) state =
     (if state (entry_key entry) = Some Settled then walk_rows by_temp_id entries state
      else
        rbind (walk_to_root by_temp_id state (Some (entry_key entry)) []) (\<lambda>(state', path).
          walk_rows by_temp_id entries (foldl (\<lambda>st k. st(k \<mapsto> Settled)) state' path)))"

fun add_to_group ::
    "(js_value option \<times> 'a rab_entry list) list \<Rightarrow> js_value option \<Rightarrow> 'a rab_entry
      \<Rightarrow> (js_value option \<times> 'a rab_entry list) list" where
  "add_to_group [] k entry = [(k, [entry])]"
| "add_to_group ((k', es) # groups) k entry =
     (if k = k' then (k', es @ [entry]) # groups else (k', es) # add_to_group groups k entry)"

definition group_siblings :: "'a rab_entry list \<Rightarrow> (js_value option \<times> 'a rab_entry list) list" where
  "group_siblings entries = foldl (\<lambda>groups entry. add_to_group groups (parent_reference_of entry) entry) [] entries"

fun position_taken_twice :: "'a rab_entry list \<Rightarrow> rat set \<Rightarrow> bool" where
  "position_taken_twice [] taken = False"
| "position_taken_twice (entry # siblings) taken =
     (effective_sort_order entry \<in> taken \<or>
      position_taken_twice siblings (insert (effective_sort_order entry) taken))"

definition before_sibling :: "'a rab_entry \<Rightarrow> 'a rab_entry \<Rightarrow> bool" where
  "before_sibling a b \<longleftrightarrow>
     effective_sort_order a < effective_sort_order b \<or>
     effective_sort_order a = effective_sort_order b \<and> payload_index a \<le> payload_index b"

definition children_in ::
    "(js_value option \<times> 'a rab_entry list) list \<Rightarrow> js_value option \<Rightarrow> 'a rab_entry list" where
  "children_in groups k = (case map_of groups k of None \<Rightarrow> [] | Some es \<Rightarrow> es)"

partial_function (option) emit_forest ::
    "(js_value option \<times> 'a rab_entry list) list \<Rightarrow> 'a rab_entry list \<Rightarrow> 'a rab_entry list
      \<Rightarrow> 'a rab_entry list option" where
  "emit_forest groups stack ordered =
     (case stack of
        [] \<Rightarrow> Some ordered
      | entry # rest \<Rightarrow>
          emit_forest groups (children_in groups (Some (entry_key entry)) @ rest) (ordered @ [entry]))"

definition validate_and_order_rab_structure ::
    "'a structural_row_scheme list \<Rightarrow> (js_error + 'a rab_entry list) option" where
  "validate_and_order_rab_structure rows =
     (let indexed = index_rows rows in
      case rbind (index_by_temp_id indexed []) (\<lambda>by_temp_id.
             rbind (check_parents by_temp_id indexed) (\<lambda>_. walk_rows by_temp_id indexed Map.empty)) of
        Inl e \<Rightarrow> Some (Inl e)
      | Inr _ \<Rightarrow>
          (let groups = group_siblings indexed in
           if \<exists>(_, siblings) \<in> set groups. position_taken_twice siblings {}
           then Some (Inl (BadRequestException ''RAB_STRUCTURE_AMBIGUOUS_ORDER''))
           else
             (let sorted = map (\<lambda>(k, siblings). (k, stable_sort_by before_sibling siblings)) groups in
              case emit_forest sorted (children_in sorted None) [] of
                None \<Rightarrow> None
              | Some ordered \<Rightarrow>
                  Some (if length ordered \<noteq> length indexed
                        then Inl (BadRequestException ''RAB_STRUCTURE_CYCLE'')
                        else Inr ordered))))"

section \<open>Identities and parents\<close>

definition key_index :: "'a rab_entry list \<Rightarrow> (js_value \<times> 'a rab_entry) list" where
  "key_index es = map (\<lambda>e. (entry_key e, e)) es"

lemma index_by_temp_id_iff:
  "index_by_temp_id es m = Inr m' \<longleftrightarrow>
    (\<forall>e \<in> set es. \<not> is_blank_id (entry_key e)) \<and> distinct (map entry_key es) \<and>
    entry_key ` set es \<inter> fst ` set m = {} \<and> m' = m @ key_index es"
proof (induction es arbitrary: m)
  case (Cons e es)
  have "map_of m (entry_key e) \<noteq> None \<longleftrightarrow> entry_key e \<in> fst ` set m" by (simp add: map_of_eq_None_iff)
  then show ?case using Cons [of "m @ [(entry_key e, e)]"] by (auto simp: key_index_def)
qed (auto simp: key_index_def)

lemma map_of_key_index:
  "distinct (map entry_key es) \<Longrightarrow> map_of (key_index es) k = Some e \<longleftrightarrow> e \<in> set es \<and> entry_key e = k"
  by (subst map_of_eq_Some_iff) (auto simp: key_index_def comp_def)

definition lawful_parent :: "'a rab_entry list \<Rightarrow> 'a rab_entry \<Rightarrow> bool" where
  "lawful_parent es e \<longleftrightarrow>
     (\<forall>p. parent_reference_of e = Some p \<longrightarrow> p \<noteq> entry_key e \<and>
       (\<exists>q \<in> set es. entry_key q = p \<and> row_item_type (source_row q) \<in> set PARENT_CAPABLE_ITEM_TYPES))"

lemma check_parents_iff:
  assumes "distinct (map entry_key es)"
  shows "check_parents (key_index es) xs = Inr () \<longleftrightarrow> (\<forall>e \<in> set xs. lawful_parent es e)"
proof (induction xs)
  case (Cons e xs)
  show ?case
  proof (cases "parent_reference_of e")
    case (Some p)
    show ?thesis
    proof (cases "map_of (key_index es) p")
      case None
      then have "\<not> (\<exists>q \<in> set es. entry_key q = p)"
        using map_of_key_index [OF assms, of p] by (metis not_Some_eq)
      then show ?thesis using Some None by (auto simp: lawful_parent_def)
    next
      case q: (Some q)
      then have "q \<in> set es" "entry_key q = p" using map_of_key_index [OF assms] by blast+
      moreover have "q' = q" if "q' \<in> set es" "entry_key q' = p" for q'
        using map_of_key_index [OF assms, of p q'] q that by simp
      ultimately have "lawful_parent es e \<longleftrightarrow>
          p \<noteq> entry_key e \<and> row_item_type (source_row q) \<in> set PARENT_CAPABLE_ITEM_TYPES"
        unfolding lawful_parent_def Some by blast
      then show ?thesis using Some q Cons by simp
    qed
  qed (use Cons in \<open>simp add: lawful_parent_def\<close>)
qed simp

section \<open>The walk to the root\<close>

inductive reaches_root :: "'a rab_entry list \<Rightarrow> js_value \<Rightarrow> bool" for es where
  at_root: "e \<in> set es \<Longrightarrow> parent_reference_of e = None \<Longrightarrow> reaches_root es (entry_key e)"
| to_parent: "e \<in> set es \<Longrightarrow> parent_reference_of e = Some p \<Longrightarrow> reaches_root es p \<Longrightarrow> reaches_root es (entry_key e)"

definition parent_step :: "'a rab_entry list \<Rightarrow> (js_value \<times> js_value) set" where
  "parent_step es = {(k, p). \<exists>e \<in> set es. entry_key e = k \<and> parent_reference_of e = Some p}"

lemma same_entry:
  "distinct (map entry_key es) \<Longrightarrow> e \<in> set es \<Longrightarrow> f \<in> set es \<Longrightarrow> entry_key e = entry_key f \<Longrightarrow> e = f"
  by (auto simp: distinct_map inj_on_def)

lemma parent_step_unique:
  "distinct (map entry_key es) \<Longrightarrow> e \<in> set es \<Longrightarrow> (entry_key e, q) \<in> parent_step es \<Longrightarrow> parent_reference_of e = Some q"
  using same_entry by (fastforce simp: parent_step_def)

lemma reaches_root_iff:
  assumes "distinct (map entry_key es)" "e \<in> set es"
  shows "reaches_root es (entry_key e) \<longleftrightarrow> (\<forall>p. parent_reference_of e = Some p \<longrightarrow> reaches_root es p)"
proof
  assume "reaches_root es (entry_key e)"
  then show "\<forall>p. parent_reference_of e = Some p \<longrightarrow> reaches_root es p"
    by cases (use same_entry [OF assms(1)] assms(2) in fastforce)+
next
  assume "\<forall>p. parent_reference_of e = Some p \<longrightarrow> reaches_root es p"
  then show "reaches_root es (entry_key e)"
    using reaches_root.intros [OF assms(2)] by (cases "parent_reference_of e") auto
qed

lemma reaches_root_no_cycle:
  assumes "distinct (map entry_key es)" "reaches_root es k"
  shows "(k, k) \<notin> (parent_step es)\<^sup>+"
  using assms(2)
proof induction
  case (at_root e)
  then show ?case using parent_step_unique [OF assms(1) at_root(1)] by (metis converse_tranclE option.distinct(1))
next
  case (to_parent e p)
  show ?case
  proof
    assume "(entry_key e, entry_key e) \<in> (parent_step es)\<^sup>+"
    then obtain q where q: "(entry_key e, q) \<in> parent_step es" "(q, entry_key e) \<in> (parent_step es)\<^sup>*"
      by (metis converse_tranclE rtrancl.rtrancl_refl trancl_into_rtrancl)
    then have "q = p" using parent_step_unique [OF assms(1) to_parent(1) q(1)] to_parent(2) by simp
    then have "(p, p) \<in> (parent_step es)\<^sup>+" using q by (metis rtrancl_into_trancl1)
    then show False using to_parent.IH by simp
  qed
qed

lemma reaches_root_back:
  assumes "(k, c) \<in> (parent_step es)\<^sup>*" "reaches_root es c"
  shows "reaches_root es k"
  using assms
  by (induction rule: converse_rtrancl_induct) (auto simp: parent_step_def intro: reaches_root.to_parent)

text \<open>The state of the walk: settled keys reach a root, the keys on the path lead to the cursor.\<close>

definition walk_ok ::
    "'a rab_entry list \<Rightarrow> (js_value \<Rightarrow> walk_state option) \<Rightarrow> js_value list \<Rightarrow> bool" where
  "walk_ok es state path \<longleftrightarrow>
     (\<forall>k. state k = Some Settled \<longrightarrow> reaches_root es k) \<and> (\<forall>k. state k = Some On_Path \<longleftrightarrow> k \<in> set path)"

definition leads_to :: "'a rab_entry list \<Rightarrow> js_value list \<Rightarrow> js_value option \<Rightarrow> bool" where
  "leads_to es path cursor \<longleftrightarrow>
     (case cursor of
        None \<Rightarrow> \<forall>k \<in> set path. reaches_root es k
      | Some c \<Rightarrow> \<forall>k \<in> set path. (k, c) \<in> (parent_step es)\<^sup>+)"

definition closed_parents :: "'a rab_entry list \<Rightarrow> bool" where
  "closed_parents es \<longleftrightarrow> (\<forall>e \<in> set es. \<forall>p. parent_reference_of e = Some p \<longrightarrow> p \<in> entry_key ` set es)"

lemma leads_to_step:
  assumes "e \<in> set es" "entry_key e = c" "leads_to es path (Some c)"
  shows "leads_to es (path @ [c]) (parent_reference_of e)"
proof (cases "parent_reference_of e")
  case None
  then have "reaches_root es c" using reaches_root.at_root [OF assms(1)] assms(2) by simp
  then show ?thesis
    using assms(3) None reaches_root_back [OF trancl_into_rtrancl, of _ c es] by (auto simp: leads_to_def)
next
  case (Some p)
  then have "(c, p) \<in> parent_step es" using assms(1,2) by (auto simp: parent_step_def)
  then show ?thesis using assms(3) Some by (auto simp: leads_to_def intro: trancl_into_trancl)
qed

lemma walk_to_root_outcome:
  assumes d: "distinct (map entry_key es)" and closed: "closed_parents es"
    and "walk_ok es state path" "leads_to es path cursor" "\<forall>c. cursor = Some c \<longrightarrow> c \<in> entry_key ` set es"
  shows "case walk_to_root (key_index es) state cursor path of
      Inl err \<Rightarrow> err = BadRequestException ''RAB_STRUCTURE_CYCLE'' \<and> (\<exists>c. cursor = Some c \<and> \<not> reaches_root es c)
    | Inr (state', path') \<Rightarrow> walk_ok es state' path' \<and> (\<forall>k \<in> set path'. reaches_root es k) \<and>
        (\<forall>c. cursor = Some c \<longrightarrow> reaches_root es c)"
  using assms(3-)
proof (induction "length (filter (\<lambda>(k, _). state k = None) (key_index es))" arbitrary: state cursor path rule: less_induct)
  case less
  show ?case
  proof (cases cursor)
    case None
    show ?thesis using less(2,3) unfolding None by (simp add: walk_to_root.simps [of _ state None path] leads_to_def)
  next
    case (Some c)
    obtain e where e: "e \<in> set es" "entry_key e = c" using less(4) Some by auto
    show ?thesis
    proof (cases "state c")
      case None
      have m: "map_of (key_index es) c = Some e" using map_of_key_index [OF d] e by simp
      let ?st = "state(c \<mapsto> On_Path)" and ?cur = "parent_reference_of e"
      have run: "walk_to_root (key_index es) state cursor path = walk_to_root (key_index es) ?st ?cur (path @ [c])"
        using Some None m by (simp add: walk_to_root.simps [of _ state "Some c" path])
      have "walk_ok es ?st (path @ [c])" using less(2) None by (auto simp: walk_ok_def)
      moreover have "leads_to es (path @ [c]) ?cur" using leads_to_step [OF e] less(3) Some by simp
      moreover have "\<forall>p. ?cur = Some p \<longrightarrow> p \<in> entry_key ` set es" using closed e(1) by (simp add: closed_parents_def)
      ultimately have rec: "case walk_to_root (key_index es) ?st ?cur (path @ [c]) of
          Inl err \<Rightarrow> err = BadRequestException ''RAB_STRUCTURE_CYCLE'' \<and> (\<exists>c. ?cur = Some c \<and> \<not> reaches_root es c)
        | Inr (state', path') \<Rightarrow> walk_ok es state' path' \<and> (\<forall>k \<in> set path'. reaches_root es k) \<and>
            (\<forall>c. ?cur = Some c \<longrightarrow> reaches_root es c)"
        using marking_shrinks [of "key_index es" c e state On_Path, OF m None] by (intro less(1)) auto
      have up: "reaches_root es c \<longleftrightarrow> (\<forall>p. ?cur = Some p \<longrightarrow> reaches_root es p)"
        using reaches_root_iff [OF d e(1)] e(2) by simp
      show ?thesis
        using rec Some up unfolding run by (auto split: sum.splits)
    next
      case s: (Some v)
      show ?thesis
      proof (cases v)
        case On_Path
        then have "c \<in> set path" using s less(2) by (simp add: walk_ok_def)
        then have "(c, c) \<in> (parent_step es)\<^sup>+" using less(3) Some by (simp add: leads_to_def)
        then have "\<not> reaches_root es c" using reaches_root_no_cycle [OF d] by blast
        then show ?thesis using Some s On_Path e by (auto simp: walk_to_root.simps [of _ state "Some c" path])
      next
        case Settled
        then have "reaches_root es c" using s less(2) by (simp add: walk_ok_def)
        then show ?thesis
          using Some s Settled less(2,3) reaches_root_back [OF trancl_into_rtrancl, of _ c es]
          by (auto simp: walk_to_root.simps [of _ state "Some c" path] leads_to_def)
      qed
    qed
  qed
qed

lemma settle_path: "foldl (\<lambda>st k. st(k \<mapsto> Settled)) state path k = (if k \<in> set path then Some Settled else state k)"
  by (induction path arbitrary: state) auto

lemma walk_rows_iff:
  assumes d: "distinct (map entry_key es)" and closed: "closed_parents es"
    and "set xs \<subseteq> set es" "walk_ok es state []"
  shows "if \<forall>e \<in> set xs. reaches_root es (entry_key e) then walk_rows (key_index es) xs state = Inr ()
    else walk_rows (key_index es) xs state = Inl (BadRequestException ''RAB_STRUCTURE_CYCLE'')"
  using assms(3-)
proof (induction xs arbitrary: state)
  case (Cons e xs)
  show ?case
  proof (cases "state (entry_key e) = Some Settled")
    case True
    then have "reaches_root es (entry_key e)" using Cons(3) by (simp add: walk_ok_def)
    then show ?thesis using True Cons by simp
  next
    case False
    have out: "case walk_to_root (key_index es) state (Some (entry_key e)) [] of
        Inl err \<Rightarrow> err = BadRequestException ''RAB_STRUCTURE_CYCLE'' \<and> (\<exists>c. Some (entry_key e) = Some c \<and> \<not> reaches_root es c)
      | Inr (state', path') \<Rightarrow> walk_ok es state' path' \<and> (\<forall>k \<in> set path'. reaches_root es k) \<and>
          (\<forall>c. Some (entry_key e) = Some c \<longrightarrow> reaches_root es c)"
      using Cons(2,3) by (intro walk_to_root_outcome [OF d closed]) (auto simp: leads_to_def)
    show ?thesis
    proof (cases "walk_to_root (key_index es) state (Some (entry_key e)) []")
      case (Inl err)
      then show ?thesis using out False by auto
    next
      case (Inr sp)
      obtain st path where sp: "sp = (st, path)" by (cases sp)
      have "walk_ok es (foldl (\<lambda>st k. st(k \<mapsto> Settled)) st path) []"
        using out Inr sp by (auto simp: walk_ok_def settle_path)
      then show ?thesis using Cons(1,2) False Inr sp out by simp
    qed
  qed
qed simp

section \<open>Sibling groups\<close>

definition siblings_of :: "'a rab_entry list \<Rightarrow> js_value option \<Rightarrow> 'a rab_entry list" where
  "siblings_of es k = filter (\<lambda>e. parent_reference_of e = k) es"

lemma keys_add_to_group:
  "fst ` set (add_to_group gs k e) = insert k (fst ` set gs)"
  "distinct (map fst gs) \<Longrightarrow> distinct (map fst (add_to_group gs k e))"
proof -
  show keys: "fst ` set (add_to_group gs k e) = insert k (fst ` set gs)" for gs
  proof (induction gs)
    case (Cons g gs)
    obtain k' es where g: "g = (k', es)" by (cases g)
    show ?case
    proof (cases "k = k'")
      case False
      then have "fst ` set (add_to_group (g # gs) k e) = insert k' (fst ` set (add_to_group gs k e))" by (simp add: g)
      then show ?thesis unfolding Cons by (simp add: g insert_commute)
    qed (simp add: g)
  qed simp
  show "distinct (map fst gs) \<Longrightarrow> distinct (map fst (add_to_group gs k e))"
  proof (induction gs)
    case (Cons g gs)
    obtain k' es where g: "g = (k', es)" by (cases g)
    have "k' \<notin> fst ` set gs" using Cons.prems g by (simp add: image_iff)
    then have "k \<noteq> k' \<Longrightarrow> k' \<notin> fst ` set (add_to_group gs k e)" unfolding keys by simp
    then show ?case using Cons g by simp
  qed simp
qed

lemma map_of_add_to_group:
  "map_of (add_to_group gs k e) k' =
    (if k' = k then Some ((case map_of gs k of None \<Rightarrow> [] | Some es \<Rightarrow> es) @ [e]) else map_of gs k')"
  by (induction gs) auto

lemma group_siblings_props:
  "distinct (map fst (group_siblings es)) \<and>
    map_of (group_siblings es) k = (if siblings_of es k = [] then None else Some (siblings_of es k))"
proof (induction es arbitrary: k rule: rev_induct)
  case (snoc e es)
  have "group_siblings (es @ [e]) = add_to_group (group_siblings es) (parent_reference_of e) e"
    by (simp add: group_siblings_def)
  then show ?case using snoc by (auto simp: map_of_add_to_group keys_add_to_group siblings_of_def)
qed (simp add: group_siblings_def siblings_of_def)

lemma set_group_siblings: "(k, sib) \<in> set (group_siblings es) \<Longrightarrow> sib = siblings_of es k"
  using group_siblings_props [of es k] by (metis map_of_is_SomeI option.distinct(1) option.inject)

lemma position_taken_twice_iff:
  "position_taken_twice xs taken \<longleftrightarrow>
    \<not> (distinct (map effective_sort_order xs) \<and> effective_sort_order ` set xs \<inter> taken = {})"
  by (induction xs arbitrary: taken) auto

lemma ambiguous_iff:
  "(\<exists>(_, siblings) \<in> set (group_siblings es). position_taken_twice siblings {}) \<longleftrightarrow>
    (\<exists>k. \<not> distinct (map effective_sort_order (siblings_of es k)))"
proof
  assume "\<exists>(_, siblings) \<in> set (group_siblings es). position_taken_twice siblings {}"
  then show "\<exists>k. \<not> distinct (map effective_sort_order (siblings_of es k))"
    by (auto simp: position_taken_twice_iff dest!: set_group_siblings)
next
  assume "\<exists>k. \<not> distinct (map effective_sort_order (siblings_of es k))"
  then obtain k where k: "\<not> distinct (map effective_sort_order (siblings_of es k))" by blast
  then have "siblings_of es k \<noteq> []" by auto
  then have "(k, siblings_of es k) \<in> set (group_siblings es)"
    using group_siblings_props [of es k] by (auto dest: map_of_SomeD)
  then show "\<exists>(_, siblings) \<in> set (group_siblings es). position_taken_twice siblings {}"
    using k by (force simp: position_taken_twice_iff)
qed

definition sorted_groups :: "'a rab_entry list \<Rightarrow> (js_value option \<times> 'a rab_entry list) list" where
  "sorted_groups es = map (\<lambda>(k, siblings). (k, stable_sort_by before_sibling siblings)) (group_siblings es)"

lemma children_in_sorted_groups:
  "children_in (sorted_groups es) k = stable_sort_by before_sibling (siblings_of es k)"
proof -
  have "map_of (sorted_groups es) k = map_option (stable_sort_by before_sibling) (map_of (group_siblings es) k)"
    by (simp add: sorted_groups_def map_of_map)
  then show ?thesis using group_siblings_props [of es k] by (simp add: children_in_def)
qed

definition sibling_order :: "'a rab_entry \<Rightarrow> 'a rab_entry \<Rightarrow> bool" where
  "sibling_order a b \<longleftrightarrow> (parent_reference_of a = parent_reference_of b \<longrightarrow> effective_sort_order a < effective_sort_order b)"

lemma strictly_sorted_siblings:
  "sorted_wrt before_sibling xs \<Longrightarrow> distinct (map effective_sort_order xs) \<Longrightarrow> sorted_wrt sibling_order xs"
proof (induction xs)
  case (Cons x xs)
  have "sibling_order x y" if "y \<in> set xs" for y
  proof -
    have "before_sibling x y" using Cons.prems(1) that by simp
    moreover have "effective_sort_order x \<noteq> effective_sort_order y" using Cons.prems(2) that by (auto simp: image_iff)
    ultimately show ?thesis by (simp add: before_sibling_def sibling_order_def)
  qed
  then show ?case using Cons by simp
qed simp

lemma sorted_children:
  assumes "distinct (map effective_sort_order (siblings_of es k))"
  shows "sorted_wrt sibling_order (children_in (sorted_groups es) k)"
proof -
  let ?c = "children_in (sorted_groups es) k"
  have "sorted_wrt before_sibling ?c"
    unfolding children_in_sorted_groups by (rule sorted_stable_sort_by) (auto simp: before_sibling_def)
  moreover have "distinct (map effective_sort_order ?c)" using assms by (simp add: children_in_sorted_groups)
  ultimately show ?thesis by (rule strictly_sorted_siblings)
qed

lemma set_children: "set (children_in (sorted_groups es) k) = {e \<in> set es. parent_reference_of e = k}"
  by (auto simp: children_in_sorted_groups siblings_of_def)

lemma distinct_children:
  assumes "distinct (map entry_key es)"
  shows "distinct (map entry_key (children_in (sorted_groups es) k))"
  using assms by (simp add: children_in_sorted_groups siblings_of_def distinct_map_filter)

section \<open>The walk from the roots\<close>

fun parents_precede :: "js_value set \<Rightarrow> 'a rab_entry list \<Rightarrow> bool" where
  "parents_precede seen [] = True"
| "parents_precede seen (e # es) \<longleftrightarrow>
     (case parent_reference_of e of None \<Rightarrow> True | Some p \<Rightarrow> p \<in> seen) \<and> parents_precede (insert (entry_key e) seen) es"

lemma parents_precede_snoc:
  "parents_precede seen (es @ [e]) \<longleftrightarrow> parents_precede seen es \<and>
    (case parent_reference_of e of None \<Rightarrow> True | Some p \<Rightarrow> p \<in> seen \<union> entry_key ` set es)"
  by (induction es arbitrary: seen) (auto split: option.splits)

definition forest_inv :: "'a rab_entry list \<Rightarrow> 'a rab_entry list \<Rightarrow> 'a rab_entry list \<Rightarrow> bool" where
  "forest_inv es ordered stack \<longleftrightarrow>
     distinct (map entry_key (ordered @ stack)) \<and> set (ordered @ stack) \<subseteq> set es \<and>
     (\<forall>e \<in> set (ordered @ stack). \<forall>p. parent_reference_of e = Some p \<longrightarrow> p \<in> entry_key ` set ordered) \<and>
     {e \<in> set es. parent_reference_of e = None} \<subseteq> set (ordered @ stack) \<and>
     (\<forall>o' \<in> set ordered. {e \<in> set es. parent_reference_of e = Some (entry_key o')} \<subseteq> set (ordered @ stack)) \<and>
     sorted_wrt sibling_order (ordered @ stack) \<and> parents_precede {} ordered"

lemma forest_inv_step:
  assumes d: "distinct (map entry_key es)" and o: "\<And>k. distinct (map effective_sort_order (siblings_of es k))"
    and inv: "forest_inv es ordered (e # rest)"
  shows "forest_inv es (ordered @ [e]) (children_in (sorted_groups es) (Some (entry_key e)) @ rest)"
proof -
  let ?ch = "children_in (sorted_groups es) (Some (entry_key e))"
  have inv': "distinct (map entry_key (ordered @ e # rest))" "set (ordered @ e # rest) \<subseteq> set es"
    "\<And>x p. x \<in> set (ordered @ e # rest) \<Longrightarrow> parent_reference_of x = Some p \<Longrightarrow> p \<in> entry_key ` set ordered"
    "{x \<in> set es. parent_reference_of x = None} \<subseteq> set (ordered @ e # rest)"
    "\<And>o'. o' \<in> set ordered \<Longrightarrow> {x \<in> set es. parent_reference_of x = Some (entry_key o')} \<subseteq> set (ordered @ e # rest)"
    "sorted_wrt sibling_order (ordered @ e # rest)" "parents_precede {} ordered"
    using inv unfolding forest_inv_def by blast+
  have new: "parent_reference_of x \<noteq> Some (entry_key e)" if "x \<in> set (ordered @ e # rest)" for x
    using inv'(3) [OF that] inv'(1) by force
  have ch: "set ?ch = {x \<in> set es. parent_reference_of x = Some (entry_key e)}" by (rule set_children)
  have disj: "entry_key ` set ?ch \<inter> entry_key ` set (ordered @ e # rest) = {}"
  proof -
    have "entry_key x \<noteq> entry_key y" if "x \<in> set ?ch" "y \<in> set (ordered @ e # rest)" for x y
    proof
      assume "entry_key x = entry_key y"
      then have "x = y" using same_entry [OF d, of x y] that ch inv'(2) by blast
      then show False using new [OF that(2)] that(1) ch by simp
    qed
    then show ?thesis by blast
  qed
  have "distinct (map entry_key ((ordered @ [e]) @ ?ch @ rest))"
  proof -
    have "distinct (map entry_key ?ch)" by (rule distinct_children [OF d])
    then show ?thesis using inv'(1) disj by (simp only: map_append list.map distinct_append distinct.simps set_append
          set_map list.set append.simps append_assoc) blast
  qed
  moreover have "set ((ordered @ [e]) @ ?ch @ rest) \<subseteq> set es" using inv'(2) ch by auto
  moreover have "\<forall>x \<in> set ((ordered @ [e]) @ ?ch @ rest). \<forall>p. parent_reference_of x = Some p \<longrightarrow>
      p \<in> entry_key ` set (ordered @ [e])"
  proof (intro ballI allI impI)
    fix x p assume x: "x \<in> set ((ordered @ [e]) @ ?ch @ rest)" "parent_reference_of x = Some p"
    show "p \<in> entry_key ` set (ordered @ [e])"
    proof (cases "x \<in> set ?ch")
      case False
      then have "x \<in> set (ordered @ e # rest)" using x(1) by auto
      then show ?thesis using inv'(3) x(2) by auto
    qed (use ch x(2) in auto)
  qed
  moreover have "{x \<in> set es. parent_reference_of x = None} \<subseteq> set ((ordered @ [e]) @ ?ch @ rest)" using inv'(4) by auto
  moreover have "\<forall>o' \<in> set (ordered @ [e]). {x \<in> set es. parent_reference_of x = Some (entry_key o')} \<subseteq>
      set ((ordered @ [e]) @ ?ch @ rest)"
  proof
    fix o' assume "o' \<in> set (ordered @ [e])"
    then show "{x \<in> set es. parent_reference_of x = Some (entry_key o')} \<subseteq> set ((ordered @ [e]) @ ?ch @ rest)"
      using inv'(5) [of o'] ch by (cases "o' = e") auto
  qed
  moreover have "sorted_wrt sibling_order ((ordered @ [e]) @ ?ch @ rest)"
  proof -
    have "sibling_order x y" if "x \<in> set ?ch" "y \<in> set rest" for x y
      using new [of y] that ch by (auto simp: sibling_order_def)
    moreover have "sibling_order y x" if "x \<in> set ?ch" "y \<in> set (ordered @ [e])" for x y
      using new [of y] that ch by (auto simp: sibling_order_def)
    ultimately show ?thesis using inv'(6) sorted_children [OF o, of "Some (entry_key e)"] by (auto simp: sorted_wrt_append)
  qed
  moreover have "parents_precede {} (ordered @ [e])"
    using inv'(3) [of e] inv'(7) by (auto simp: parents_precede_snoc split: option.splits)
  ultimately show ?thesis unfolding forest_inv_def by blast
qed

lemma emit_forest_returns:
  assumes d: "distinct (map entry_key es)" and o: "\<And>k. distinct (map effective_sort_order (siblings_of es k))"
    and "forest_inv es ordered stack"
  shows "\<exists>out. emit_forest (sorted_groups es) stack ordered = Some out \<and> forest_inv es out []"
  using assms(3)
proof (induction "length es - length ordered" arbitrary: ordered stack rule: less_induct)
  case less
  show ?case
  proof (cases stack)
    case Nil
    then show ?thesis using less(2) by (subst emit_forest.simps) simp
  next
    case (Cons e rest)
    have step: "forest_inv es (ordered @ [e]) (children_in (sorted_groups es) (Some (entry_key e)) @ rest)"
      using forest_inv_step [OF d o] less(2) Cons by blast
    have "distinct (ordered @ [e])" "set (ordered @ [e]) \<subseteq> set es" "distinct es"
      using step d by (auto simp: forest_inv_def distinct_map)
    then have "length (ordered @ [e]) \<le> length es"
      by (metis card_mono distinct_card finite_set)
    then have "length es - length (ordered @ [e]) < length es - length ordered" by simp
    then obtain out where "emit_forest (sorted_groups es) (children_in (sorted_groups es) (Some (entry_key e)) @ rest)
        (ordered @ [e]) = Some out" "forest_inv es out []"
      using less(1) [OF _ step] by blast
    then show ?thesis using Cons by (subst emit_forest.simps) simp
  qed
qed

lemma forest_start:
  assumes "distinct (map entry_key es)" "\<And>k. distinct (map effective_sort_order (siblings_of es k))"
  shows "forest_inv es [] (children_in (sorted_groups es) None)"
  using distinct_children [OF assms(1), of None] sorted_children [OF assms(2), of None] set_children [of es None]
  by (auto simp: forest_inv_def)

lemma forest_complete:
  assumes d: "distinct (map entry_key es)" and inv: "forest_inv es out []"
    and root: "\<forall>e \<in> set es. reaches_root es (entry_key e)"
  shows "mset out = mset es"
proof -
  have "e \<in> set out" if "reaches_root es k" "e \<in> set es" "entry_key e = k" for k e
    using that
  proof (induction arbitrary: e)
    case (at_root f)
    then have "e = f" using same_entry [OF d] by blast
    then show ?case using inv at_root by (auto simp: forest_inv_def)
  next
    case (to_parent f p)
    then have ef: "e = f" using same_entry [OF d] by blast
    obtain q where q: "q \<in> set es" "entry_key q = p" using to_parent(3) by cases auto
    then have "q \<in> set out" using to_parent.IH by blast
    then show ?case using inv to_parent(1,2) q ef by (auto simp: forest_inv_def)
  qed
  then have "set out = set es" using root inv by (auto simp: forest_inv_def)
  moreover have "distinct out" "distinct es" using d inv by (auto simp: forest_inv_def distinct_map)
  ultimately show ?thesis by (simp add: set_eq_iff_mset_eq_distinct)
qed

section \<open>The validator as a whole\<close>

definition lawful_rab_structure :: "'a structural_row_scheme list \<Rightarrow> bool" where
  "lawful_rab_structure rows \<longleftrightarrow>
     (let es = index_rows rows in
      (\<forall>e \<in> set es. \<not> is_blank_id (entry_key e)) \<and> distinct (map entry_key es) \<and>
      (\<forall>e \<in> set es. lawful_parent es e) \<and> (\<forall>e \<in> set es. reaches_root es (entry_key e)) \<and>
      (\<forall>k. distinct (map effective_sort_order (siblings_of es k))))"

lemma validation_steps:
  fixes es :: "'a rab_entry list"
  shows "(\<exists>u. rbind (index_by_temp_id es []) (\<lambda>m. rbind (check_parents m es) (\<lambda>_. walk_rows m es Map.empty)) = Inr u) \<longleftrightarrow>
    (\<forall>e \<in> set es. \<not> is_blank_id (entry_key e)) \<and> distinct (map entry_key es) \<and>
    (\<forall>e \<in> set es. lawful_parent es e) \<and> (\<forall>e \<in> set es. reaches_root es (entry_key e))"
proof (cases "(\<forall>e \<in> set es. \<not> is_blank_id (entry_key e)) \<and> distinct (map entry_key es)")
  case False
  then have "index_by_temp_id es [] \<noteq> Inr m" for m using index_by_temp_id_iff [of es "[]" m] by auto
  then have "rbind (index_by_temp_id es []) f \<noteq> Inr u" for f and u :: unit by (cases "index_by_temp_id es []") auto
  then show ?thesis using False by auto
next
  case True
  then have ix: "index_by_temp_id es [] = Inr (key_index es)" using index_by_temp_id_iff [of es "[]" "key_index es"] by simp
  show ?thesis
  proof (cases "\<forall>e \<in> set es. lawful_parent es e")
    case False
    then have "check_parents (key_index es) es \<noteq> Inr ()" using check_parents_iff [of es es] True by simp
    then have "rbind (check_parents (key_index es) es) f \<noteq> Inr u" for f and u :: unit
      by (cases "check_parents (key_index es) es") auto
    then show ?thesis using False ix by auto
  next
    case parents: True
    then have "check_parents (key_index es) es = Inr ()" using check_parents_iff [of es es] True by simp
    moreover have "closed_parents es" using parents by (fastforce simp: closed_parents_def lawful_parent_def)
    ultimately show ?thesis
      using walk_rows_iff [of es es Map.empty] ix parents True by (simp add: walk_ok_def split: if_splits)
  qed
qed

lemma validate_and_order_cases:
  "(lawful_rab_structure rows \<and>
     (\<exists>ordered. validate_and_order_rab_structure rows = Some (Inr ordered) \<and>
       forest_inv (index_rows rows) ordered [] \<and> mset ordered = mset (index_rows rows))) \<or>
   (\<not> lawful_rab_structure rows \<and> (\<exists>e. validate_and_order_rab_structure rows = Some (Inl e)))"
proof -
  define es where "es = index_rows rows"
  let ?steps = "rbind (index_by_temp_id es []) (\<lambda>m. rbind (check_parents m es) (\<lambda>_. walk_rows m es Map.empty))"
  note def = validate_and_order_rab_structure_def [of rows, folded es_def, unfolded Let_def, folded sorted_groups_def]
  show ?thesis
  proof (cases ?steps)
    case (Inl e)
    then have "\<not> lawful_rab_structure rows"
      using validation_steps [of es] by (auto simp: lawful_rab_structure_def es_def Let_def)
    then show ?thesis using Inl by (simp add: def)
  next
    case (Inr u)
    then have v: "distinct (map entry_key es)" "\<forall>e \<in> set es. reaches_root es (entry_key e)"
      and l: "lawful_rab_structure rows \<longleftrightarrow> (\<forall>k. distinct (map effective_sort_order (siblings_of es k)))"
      using validation_steps [of es] by (auto simp: lawful_rab_structure_def es_def Let_def)
    show ?thesis
    proof (cases "\<exists>k. \<not> distinct (map effective_sort_order (siblings_of es k))")
      case True
      then show ?thesis using Inr l ambiguous_iff [of es] by (simp add: def)
    next
      case False
      then have o: "\<And>k. distinct (map effective_sort_order (siblings_of es k))" by blast
      obtain out where out: "emit_forest (sorted_groups es) (children_in (sorted_groups es) None) [] = Some out"
        "forest_inv es out []"
        using emit_forest_returns [OF v(1) o forest_start [OF v(1) o]] by blast
      have m: "mset out = mset es" using forest_complete [OF v(1) out(2) v(2)] .
      then have "length out = length es" by (metis size_mset)
      then have "validate_and_order_rab_structure rows = Some (Inr out)"
        using Inr out(1) ambiguous_iff [of es] o by (simp add: def)
      then show ?thesis using l o out(2) m by (simp add: es_def)
    qed
  qed
qed

section \<open>Properties\<close>

text \<open>C36: what is accepted. Every payload is answered, and it is accepted exactly when it is a lawful
  forest: identities are nonblank and distinct, each parent is another row of the payload that
  may own children, every parent chain ends at a root, and no two siblings land on one
  position. The final length check therefore never fires.\<close>

theorem rab_structure_accepts_lawful_forests:
  "\<exists>r. validate_and_order_rab_structure rows = Some r \<and> ((\<exists>ordered. r = Inr ordered) \<longleftrightarrow> lawful_rab_structure rows)"
  using validate_and_order_cases [of rows] by auto

text \<open>The order of an accepted payload. It is a permutation of the rows with the order values the
  validator computed, every parent comes before its children, and siblings appear by strictly
  increasing effective order.\<close>

theorem rab_structure_order:
  assumes "validate_and_order_rab_structure rows = Some (Inr ordered)"
  shows "mset ordered = mset (index_rows rows) \<and> parents_precede {} ordered \<and> sorted_wrt sibling_order ordered"
  using validate_and_order_cases [of rows] assms by (auto simp: forest_inv_def)

section \<open>Witnesses\<close>

text \<open>A payload that lists a child before its folder.\<close>

definition sample_payload :: "structural_row list" where
  "sample_payload =
     [\<lparr>temp_id = JStr ''c'', parent_temp_id = JStr ''f'', row_item_type = ''WORK_ITEM'', sort_order = None\<rparr>,
      \<lparr>temp_id = JStr ''f'', parent_temp_id = JNull, row_item_type = ''FOLDER'', sort_order = Some 0\<rparr>]"

lemma sample_payload_lawful: "lawful_rab_structure sample_payload"
proof -
  let ?c = "\<lparr>source_row = sample_payload ! 0, payload_index = 0, effective_sort_order = 0\<rparr>"
  let ?f = "\<lparr>source_row = sample_payload ! 1, payload_index = 1, effective_sort_order = 0\<rparr>"
  have es: "index_rows sample_payload = [?c, ?f]"
    by (simp add: index_rows_def sample_payload_def resolve_effective_sort_order_def)
  have k: "entry_key ?c = JStr ''c''" "entry_key ?f = JStr ''f''"
    "parent_reference_of ?c = Some (JStr ''f'')" "parent_reference_of ?f = None"
    "row_item_type (source_row ?f) = ''FOLDER''"
    by (simp_all add: entry_key_def sample_payload_def parent_reference_of_def)
  have b: "\<not> is_blank_id (JStr ''c'')" "\<not> is_blank_id (JStr ''f'')" by code_simp+
  have f: "reaches_root [?c, ?f] (JStr ''f'')" using reaches_root.at_root [of ?f "[?c, ?f]"] k by simp
  then have "reaches_root [?c, ?f] (JStr ''c'')" using reaches_root.to_parent [of ?c "[?c, ?f]" "JStr ''f''"] k by simp
  moreover have "distinct (map effective_sort_order (siblings_of [?c, ?f] p))" for p
    using k by (simp add: siblings_of_def)
  ultimately show ?thesis
    using f k b by (simp add: lawful_rab_structure_def es lawful_parent_def PARENT_CAPABLE_ITEM_TYPES_def)
qed

theorem rab_structure_order_witness:
  "\<exists>ordered. validate_and_order_rab_structure sample_payload = Some (Inr ordered) \<and>
    mset ordered = mset (index_rows sample_payload) \<and> parents_precede {} ordered \<and> sorted_wrt sibling_order ordered"
proof -
  obtain ordered where "validate_and_order_rab_structure sample_payload = Some (Inr ordered)"
    using validate_and_order_cases [of sample_payload] sample_payload_lawful by blast
  then show ?thesis using rab_structure_order by blast
qed

end
