(* ===== verification/UnitKernel.thy ===== *)
theory UnitKernel
  imports Complex_Main "HOL-Library.Multiset" Decimal
begin

text \<open>
  The unit dictionary: \<open>unit-kernel/unit-normalization.ts\<close>, \<open>unit-kernel/unit-kernel.contracts.ts\<close>
  and \<open>unit-kernel/unit-kernel.service.ts\<close>.

  A raw spelling is normalized and looked up among the active aliases; the alias eligibility law
  (\<open>select_eligible_aliases\<close>) decides which of the rows may answer in the trusted context, and
  \<open>alias_problem\<close> names the refusal. \<open>resolve_canonical_unit_identities\<close> answers which unit each
  spelling denotes, \<open>resolve_units\<close> whether the price of one unit may be carried to another.

  The tables of aliases and of conversion rules are arguments, lists in the order the database
  happens to return them; a query is a filter of its table. Unicode compatibility normalization
  (NFKC) is the parameter \<open>nfkc\<close>: its tables are data outside the repository. The sentence
  \<open>explanation\<close> of a result, which is read by people only, is not modelled.
\<close>

section \<open>Spellings\<close>

text \<open>\<open>toLowerCase\<close> (and \<open>toLocaleLowerCase('en-US')\<close>) on the code units below 256.\<close>

definition js_lower_char :: "char \<Rightarrow> char" where
  "js_lower_char c =
     (let n = (of_char c :: nat)
      in if 65 \<le> n \<and> n \<le> 90 \<or> 192 \<le> n \<and> n \<le> 222 \<and> n \<noteq> 215 then char_of (n + 32) else c)"

definition js_lower :: "string \<Rightarrow> string" where
  "js_lower s = map js_lower_char s"

text \<open>
  \<open>toUpperCase\<close>. The upper case of the code units 181 and 255 lies above 255; they are kept,
  which no comparison with an ASCII word can observe.
\<close>

definition js_upper_char :: "char \<Rightarrow> string" where
  "js_upper_char c =
     (let n = (of_char c :: nat)
      in if 97 \<le> n \<and> n \<le> 122 \<or> 224 \<le> n \<and> n \<le> 254 \<and> n \<noteq> 247 then [char_of (n - 32)]
         else if n = 223 then ''SS'' else [c])"

definition js_upper :: "string \<Rightarrow> string" where
  "js_upper s = concat (map js_upper_char s)"

text \<open>\<open>replace(/\s+/g, ' ')\<close>: every run of white space becomes one blank.\<close>

fun collapse_spaces :: "bool \<Rightarrow> string \<Rightarrow> string" where
  "collapse_spaces in_run [] = []"
| "collapse_spaces in_run (c # cs) =
     (if js_space c then (if in_run then collapse_spaces True cs else CHR '' '' # collapse_spaces True cs)
      else c # collapse_spaces False cs)"

definition normalize_unit_alias :: "(string \<Rightarrow> string) \<Rightarrow> string \<Rightarrow> string" where
  "normalize_unit_alias nfkc raw = collapse_spaces False (js_lower (js_trim (nfkc raw)))"

section \<open>The contracts\<close>

datatype unit_alias_context = MATERIAL | LABOR | EQUIPMENT

fun context_name :: "unit_alias_context \<Rightarrow> string" where
  "context_name MATERIAL = ''MATERIAL''"
| "context_name LABOR = ''LABOR''"
| "context_name EQUIPMENT = ''EQUIPMENT''"

definition trusted_unit_context :: "string option \<Rightarrow> unit_alias_context option" where
  "trusted_unit_context resource_class =
     (case resource_class of
        None \<Rightarrow> None
      | Some c \<Rightarrow>
          let upper = js_upper (js_trim c)
          in find (\<lambda>k. context_name k = upper) [MATERIAL, LABOR, EQUIPMENT])"

definition unit_dimension_allowed_for_price_display ::
    "string option \<Rightarrow> unit_alias_context option \<Rightarrow> bool" where
  "unit_dimension_allowed_for_price_display dimension ctx =
     (case (dimension, ctx) of
        (Some d, Some c) \<Rightarrow>
          if d = [] then False
          else if c = LABOR then d = ''PERSON_TIME''
          else if c = MATERIAL then d \<noteq> ''PERSON_TIME'' \<and> d \<noteq> ''EQUIPMENT_TIME''
          else d = ''EQUIPMENT_TIME'' \<or> d = ''COUNT''
      | _ \<Rightarrow> False)"

datatype unit_resolution_status = RESOLVED | NEEDS_REVIEW | NOT_CONVERTIBLE

datatype unit_reason =
    EXACT_UNIT_IDENTITY | EXACT_UNIT_ALIAS_EQUIVALENCE | CONTEXT_SCOPED_UNIT_ALIAS
  | CONTEXT_REQUIRED_UNIT_ALIAS | FOREIGN_CONTEXT_UNIT_ALIAS | RESOURCE_TYPE_UNIT_INCOMPATIBLE
  | UNKNOWN_UNIT_ALIAS | AMBIGUOUS_UNIT_ALIAS | UNIQUE_EVIDENCE_BOUND_RULE | AMBIGUOUS_CONVERSION_RULE
  | CONVERSION_RULE_NOT_FOUND | PACKAGE_EVIDENCE_REQUIRED | RESOURCE_SCOPE_MISMATCH
  | INVALID_QUANTITY_FACTOR | NOT_CONVERTIBLE_PAIR | AHSP_OUTPUT_UNIT_UNRESOLVED | BOQ_UNIT_INCOMPATIBLE

datatype unit_price_operation = IDENTITY | DIVIDE_SOURCE_UNIT_PRICE_BY_QUANTITY_FACTOR

record unit_definition =
  ud_id :: string
  ud_code :: string
  ud_dimension :: string
  ud_is_active :: bool

record unit_alias =
  alias_id :: string
  normalized_alias :: string
  alias_is_active :: bool
  alias_context :: "string option"
  alias_unit :: unit_definition

record canonical_unit_identity =
  cui_raw_unit :: string
  cui_status :: unit_resolution_status
  cui_unit_definition :: "unit_definition option"
  cui_matched_alias_ids :: "string list"
  cui_context_scoped :: bool
  cui_resolved_context :: "unit_alias_context option"
  cui_reason_code :: unit_reason

record unit_resolution_result =
  urr_status :: unit_resolution_status
  urr_raw_source_unit :: string
  urr_raw_target_unit :: string
  urr_source_unit_definition :: "unit_definition option"
  urr_target_unit_definition :: "unit_definition option"
  urr_matched_source_alias_ids :: "string list"
  urr_matched_target_alias_ids :: "string list"
  urr_conversion_rule_id :: "string option"
  urr_conversion_rule_version :: "int option"
  urr_quantity_factor :: "string option"
  urr_conversion_type :: "string option"
  urr_price_operation :: "unit_price_operation option"
  urr_reason_codes :: "unit_reason list"

section \<open>The alias eligibility law\<close>

record eligible_aliases =
  ea_rows :: "unit_alias list"
  ea_context_scoped :: bool
  ea_context_required :: bool
  ea_ambiguous_without_context :: bool
  ea_foreign_context :: bool

definition select_eligible_aliases :: "unit_alias list \<Rightarrow> unit_alias_context option \<Rightarrow> eligible_aliases" where
  "select_eligible_aliases rows ctx =
     (let context_free = filter (\<lambda>a. alias_context a = None) rows;
          contextual = filter (\<lambda>a. alias_context a \<noteq> None) rows
      in case ctx of
           None \<Rightarrow>
             \<lparr>ea_rows = context_free, ea_context_scoped = False,
              ea_context_required = (context_free = [] \<and> length contextual = 1),
              ea_ambiguous_without_context = (context_free = [] \<and> length contextual > 1),
              ea_foreign_context = False\<rparr>
         | Some c \<Rightarrow>
             (let exact = filter (\<lambda>a. alias_context a = Some (context_name c)) rows
              in if exact \<noteq> []
                 then \<lparr>ea_rows = exact, ea_context_scoped = True, ea_context_required = False,
                       ea_ambiguous_without_context = False, ea_foreign_context = False\<rparr>
                 else \<lparr>ea_rows = context_free, ea_context_scoped = False, ea_context_required = False,
                       ea_ambiguous_without_context = False,
                       ea_foreign_context = (context_free = [] \<and> contextual \<noteq> [])\<rparr>))"

definition resource_type_rejects_dimension :: "string \<Rightarrow> unit_alias_context option \<Rightarrow> bool" where
  "resource_type_rejects_dimension dimension ctx =
     (case ctx of
        None \<Rightarrow> False
      | Some c \<Rightarrow>
          if dimension = [] then False
          else if dimension = ''PERSON_TIME'' then c \<noteq> LABOR
          else if dimension = ''EQUIPMENT_TIME'' then c \<noteq> EQUIPMENT
          else False)"

definition alias_problem :: "eligible_aliases \<Rightarrow> unit_reason option" where
  "alias_problem match =
     (if ea_rows match = [] then
        Some (if ea_context_required match then CONTEXT_REQUIRED_UNIT_ALIAS
              else if ea_ambiguous_without_context match then AMBIGUOUS_UNIT_ALIAS
              else if ea_foreign_context match then FOREIGN_CONTEXT_UNIT_ALIAS
              else UNKNOWN_UNIT_ALIAS)
      else if length (ea_rows match) > 1 then Some AMBIGUOUS_UNIT_ALIAS
      else None)"

text \<open>The rows a query for a set of normalized spellings returns.\<close>

definition active_alias :: "unit_alias \<Rightarrow> bool" where
  "active_alias a \<longleftrightarrow> alias_is_active a \<and> ud_is_active (alias_unit a)"

definition aliases_of ::
    "(string \<Rightarrow> string) \<Rightarrow> unit_alias list \<Rightarrow> string \<Rightarrow> unit_alias_context option \<Rightarrow> eligible_aliases" where
  "aliases_of nfkc table raw ctx =
     select_eligible_aliases
       (filter (\<lambda>a. normalized_alias a = normalize_unit_alias nfkc raw \<and> active_alias a) table) ctx"

section \<open>Many spellings in one query\<close>

text \<open>\<open>byNormalized\<close>: the rows of the query, bucketed in a \<open>Map\<close> by normalized spelling.\<close>

fun add_to_bucket :: "(string \<times> unit_alias list) list \<Rightarrow> unit_alias \<Rightarrow> (string \<times> unit_alias list) list" where
  "add_to_bucket [] row = [(normalized_alias row, [row])]"
| "add_to_bucket ((k, bucket) # buckets) row =
     (if k = normalized_alias row then (k, bucket @ [row]) # buckets
      else (k, bucket) # add_to_bucket buckets row)"

definition canonical_identity_of ::
    "unit_alias_context option \<Rightarrow> string \<Rightarrow> eligible_aliases \<Rightarrow> canonical_unit_identity" where
  "canonical_identity_of ctx raw_unit match =
     (let review = (\<lambda>scoped resolved reason.
            \<lparr>cui_raw_unit = raw_unit, cui_status = NEEDS_REVIEW, cui_unit_definition = None,
             cui_matched_alias_ids = stable_sort_by (\<le>) (map alias_id (ea_rows match)),
             cui_context_scoped = scoped, cui_resolved_context = resolved, cui_reason_code = reason\<rparr>);
          resolved_context = (if ea_context_scoped match then ctx else None)
      in case alias_problem match of
           Some problem \<Rightarrow> review (ea_context_scoped match) resolved_context problem
         | None \<Rightarrow>
             (let unit_def = alias_unit (hd (ea_rows match))
              in if resource_type_rejects_dimension (ud_dimension unit_def) ctx
                 then review False None RESOURCE_TYPE_UNIT_INCOMPATIBLE
                 else \<lparr>cui_raw_unit = raw_unit, cui_status = RESOLVED, cui_unit_definition = Some unit_def,
                       cui_matched_alias_ids = stable_sort_by (\<le>) (map alias_id (ea_rows match)),
                       cui_context_scoped = ea_context_scoped match,
                       cui_resolved_context = resolved_context,
                       cui_reason_code =
                         (if ea_context_scoped match then CONTEXT_SCOPED_UNIT_ALIAS
                          else EXACT_UNIT_IDENTITY)\<rparr>))"

definition resolve_canonical_unit_identities ::
    "(string \<Rightarrow> string) \<Rightarrow> unit_alias list \<Rightarrow> string list \<Rightarrow> unit_alias_context option
      \<Rightarrow> canonical_unit_identity list" where
  "resolve_canonical_unit_identities nfkc table raw_units ctx =
     (let distinct_units = foldl set_add [] raw_units;
          wanted = foldl set_add [] (map (normalize_unit_alias nfkc) distinct_units);
          rows = (if wanted = [] then []
                  else filter (\<lambda>a. normalized_alias a \<in> set wanted \<and> active_alias a) table);
          by_normalized = foldl add_to_bucket [] rows
      in map (\<lambda>raw_unit.
            canonical_identity_of ctx raw_unit
              (select_eligible_aliases
                (case map_of by_normalized (normalize_unit_alias nfkc raw_unit) of None \<Rightarrow> [] | Some b \<Rightarrow> b)
                ctx))
          distinct_units)"

section \<open>Carrying a price from one unit to another\<close>

record 'd conversion_rule =
  rule_id :: string
  rule_version :: int
  rule_source_unit_id :: string
  rule_target_unit_id :: string
  rule_status :: string
  rule_resource_catalog_id :: "string option"
  rule_quantity_factor :: 'd
  rule_conversion_type :: string
  rule_evidence_reference :: "string option"
  rule_evidence_hash :: "string option"
  rule_evidence_payload :: js_value

definition rule_applies :: "unit_definition \<Rightarrow> unit_definition \<Rightarrow> string option \<Rightarrow> 'd conversion_rule \<Rightarrow> bool" where
  "rule_applies source target resource_catalog_id rule \<longleftrightarrow>
     rule_source_unit_id rule = ud_id source \<and> rule_target_unit_id rule = ud_id target \<and>
     rule_status rule = ''ACTIVE'' \<and>
     (rule_resource_catalog_id rule = None \<or>
      truthy resource_catalog_id \<and> rule_resource_catalog_id rule = resource_catalog_id)"

definition without_evidence :: "'d conversion_rule \<Rightarrow> bool" where
  "without_evidence rule \<longleftrightarrow>
     \<not> truthy (rule_evidence_reference rule) \<and> \<not> truthy (rule_evidence_hash rule) \<and>
     (rule_evidence_payload rule = JNull \<or> rule_evidence_payload rule = JUndefined)"

definition resolve_units ::
    "'d decimal_ops \<Rightarrow> (string \<Rightarrow> string) \<Rightarrow> unit_alias list \<Rightarrow> 'd conversion_rule list
      \<Rightarrow> string \<Rightarrow> string \<Rightarrow> string option \<Rightarrow> unit_alias_context option \<Rightarrow> unit_resolution_result" where
  "resolve_units D nfkc table rule_table raw_source raw_target resource_catalog_id ctx =
     (let source_match = aliases_of nfkc table raw_source ctx;
          target_match = aliases_of nfkc table raw_target ctx;
          source_aliases = ea_rows source_match;
          target_aliases = ea_rows target_match;
          context_scoped = (ea_context_scoped source_match \<or> ea_context_scoped target_match);
          held = (\<lambda>status source target reasons.
            \<lparr>urr_status = status, urr_raw_source_unit = raw_source, urr_raw_target_unit = raw_target,
             urr_source_unit_definition = source, urr_target_unit_definition = target,
             urr_matched_source_alias_ids = map alias_id source_aliases,
             urr_matched_target_alias_ids = map alias_id target_aliases,
             urr_conversion_rule_id = None, urr_conversion_rule_version = None,
             urr_quantity_factor = None, urr_conversion_type = None, urr_price_operation = None,
             urr_reason_codes = reasons\<rparr>);
          bad = (case alias_problem source_match of
                   Some problem \<Rightarrow> Some problem
                 | None \<Rightarrow> alias_problem target_match)
      in case bad of
           Some problem \<Rightarrow>
             held NEEDS_REVIEW
               (if length source_aliases = 1 then Some (alias_unit (hd source_aliases)) else None)
               (if length target_aliases = 1 then Some (alias_unit (hd target_aliases)) else None) [problem]
         | None \<Rightarrow>
             (let source = alias_unit (hd source_aliases); target = alias_unit (hd target_aliases);
                  review = (\<lambda>reason. held NEEDS_REVIEW (Some source) (Some target) [reason]);
                  scoped = (\<lambda>reasons. if context_scoped then CONTEXT_SCOPED_UNIT_ALIAS # reasons else reasons)
              in if resource_type_rejects_dimension (ud_dimension source) ctx
                    \<or> resource_type_rejects_dimension (ud_dimension target) ctx
                 then held NEEDS_REVIEW None None [RESOURCE_TYPE_UNIT_INCOMPATIBLE]
                 else if ud_id source = ud_id target
                 then (held RESOLVED (Some source) (Some target)
                         (scoped [EXACT_UNIT_ALIAS_EQUIVALENCE, EXACT_UNIT_IDENTITY]))
                        \<lparr>urr_quantity_factor := Some ''1'', urr_price_operation := Some IDENTITY\<rparr>
                 else
                   (let rules = filter (rule_applies source target resource_catalog_id) rule_table
                    in if length rules > 1 then review AMBIGUOUS_CONVERSION_RULE
                       else if rules = [] then review CONVERSION_RULE_NOT_FOUND
                       else
                         (let rule = hd rules; factor = rule_quantity_factor rule
                          in if \<not> d_greater_than D factor (d_of_int D 0) then review INVALID_QUANTITY_FACTOR
                             else if (rule_conversion_type rule = ''PACKAGE_CONTENT''
                                 \<or> rule_conversion_type rule = ''RESOURCE_SPECIFIC'') \<and> without_evidence rule
                             then review PACKAGE_EVIDENCE_REQUIRED
                             else if rule_conversion_type rule = ''NOT_CONVERTIBLE''
                             then (held NOT_CONVERTIBLE (Some source) (Some target) [NOT_CONVERTIBLE_PAIR])
                                    \<lparr>urr_conversion_rule_id := Some (rule_id rule),
                                     urr_conversion_rule_version := Some (rule_version rule),
                                     urr_conversion_type := Some (rule_conversion_type rule)\<rparr>
                             else (held RESOLVED (Some source) (Some target) (scoped [UNIQUE_EVIDENCE_BOUND_RULE]))
                                    \<lparr>urr_conversion_rule_id := Some (rule_id rule),
                                     urr_conversion_rule_version := Some (rule_version rule),
                                     urr_quantity_factor := Some (d_to_string D factor),
                                     urr_conversion_type := Some (rule_conversion_type rule),
                                     urr_price_operation :=
                                       Some DIVIDE_SOURCE_UNIT_PRICE_BY_QUANTITY_FACTOR\<rparr>))))"

section \<open>Lemmas\<close>

lemma add_to_bucket_lookup:
  "map_of (add_to_bucket buckets row) k =
     (if k = normalized_alias row then Some (case map_of buckets k of None \<Rightarrow> [row] | Some b \<Rightarrow> b @ [row])
      else map_of buckets k)"
  by (induction buckets row rule: add_to_bucket.induct) auto

lemma buckets_lookup:
  "(case map_of (foldl add_to_bucket buckets rows) k of None \<Rightarrow> [] | Some b \<Rightarrow> b) =
     (case map_of buckets k of None \<Rightarrow> [] | Some b \<Rightarrow> b) @ filter (\<lambda>a. normalized_alias a = k) rows"
proof (induction rows arbitrary: buckets)
  case (Cons row rows)
  show ?case
    unfolding foldl_Cons Cons [of "add_to_bucket buckets row"]
    by (simp add: add_to_bucket_lookup split: option.splits)
qed simp

text \<open>Each spelling is answered from exactly the rows the single lookup would read.\<close>

lemma resolve_identities_eq:
  "resolve_canonical_unit_identities nfkc table raw_units ctx =
     map (\<lambda>raw. canonical_identity_of ctx raw (aliases_of nfkc table raw ctx)) (foldl set_add [] raw_units)"
proof -
  have "filter (\<lambda>a. normalized_alias a = normalize_unit_alias nfkc raw)
      (filter (\<lambda>a. normalized_alias a \<in> set (foldl set_add [] (map (normalize_unit_alias nfkc) (foldl set_add [] raw_units)))
        \<and> active_alias a) table) =
    filter (\<lambda>a. normalized_alias a = normalize_unit_alias nfkc raw \<and> active_alias a) table"
    if "raw \<in> set raw_units" for raw
    using that by (auto simp: foldl_set_add(1) intro!: filter_cong)
  then show ?thesis
    by (auto simp: resolve_canonical_unit_identities_def aliases_of_def Let_def buckets_lookup foldl_set_add(1)
      dest: arg_cong [where f = set])
qed

section \<open>What a resolved spelling means\<close>

text \<open>The alias that governs a spelling: alone among the active aliases of its own context, and of the trusted
  context if that has any, else of no context.\<close>

definition governing_alias ::
    "(string \<Rightarrow> string) \<Rightarrow> unit_alias list \<Rightarrow> string \<Rightarrow> unit_alias_context option \<Rightarrow> unit_alias \<Rightarrow> bool" where
  "governing_alias nfkc table raw ctx a \<longleftrightarrow>
     (let candidates = filter (\<lambda>b. normalized_alias b = normalize_unit_alias nfkc raw \<and> active_alias b) table;
          scoped = filter (\<lambda>b. \<exists>c. ctx = Some c \<and> alias_context b = Some (context_name c)) candidates
      in if scoped = [] then filter (\<lambda>b. alias_context b = None) candidates = [a] else scoped = [a])"

lemma eligible_rows:
  "ea_rows (select_eligible_aliases rows ctx) =
     (let scoped = filter (\<lambda>b. \<exists>c. ctx = Some c \<and> alias_context b = Some (context_name c)) rows
      in if scoped = [] then filter (\<lambda>b. alias_context b = None) rows else scoped)"
  by (cases ctx) (simp_all add: select_eligible_aliases_def Let_def)

lemma alias_problem_None: "alias_problem match = None \<longleftrightarrow> (\<exists>a. ea_rows match = [a])"
  by (cases "ea_rows match" rule: remdups_adj.cases) (simp_all add: alias_problem_def)

lemma governing_alias_iff: "governing_alias nfkc table raw ctx a \<longleftrightarrow> ea_rows (aliases_of nfkc table raw ctx) = [a]"
  unfolding governing_alias_def aliases_of_def eligible_rows Let_def by simp

lemma no_problem_iff: "alias_problem (aliases_of nfkc table raw ctx) = None \<longleftrightarrow> (\<exists>a. governing_alias nfkc table raw ctx a)"
  by (simp add: alias_problem_None governing_alias_iff)

definition denotes ::
    "(string \<Rightarrow> string) \<Rightarrow> unit_alias list \<Rightarrow> unit_alias_context option \<Rightarrow> string \<Rightarrow> unit_definition \<Rightarrow> bool" where
  "denotes nfkc table ctx raw u \<longleftrightarrow>
     (\<exists>a. governing_alias nfkc table raw ctx a \<and> u = alias_unit a) \<and>
     \<not> resource_type_rejects_dimension (ud_dimension u) ctx"

lemma canonical_identity_cases:
  "(cui_status (canonical_identity_of ctx raw match) = RESOLVED \<and>
      cui_unit_definition (canonical_identity_of ctx raw match) = Some u) \<longleftrightarrow>
    (\<exists>a. ea_rows match = [a] \<and> u = alias_unit a) \<and> \<not> resource_type_rejects_dimension (ud_dimension u) ctx"
proof (cases "alias_problem match")
  case None
  then obtain a where "ea_rows match = [a]" using alias_problem_None by blast
  with None show ?thesis by (auto simp: canonical_identity_of_def Let_def split: if_splits)
next
  case (Some problem)
  then have "\<not> (\<exists>a. ea_rows match = [a])" using alias_problem_None [of match] by simp
  with Some show ?thesis by (simp add: canonical_identity_of_def)
qed

lemma raw_unit_of_canonical [simp]: "cui_raw_unit (canonical_identity_of ctx raw match) = raw"
  by (simp add: canonical_identity_of_def Let_def split: option.splits)

text \<open>A list of spellings gets one answer per distinct spelling, in the order of first mention, and an answer names
  the unit \<open>u\<close> exactly when one single active alias of the spelling governs in the trusted context, that alias stands
  for \<open>u\<close>, and the dimension of \<open>u\<close> belongs to the class of the resource. An alias of another context never answers.\<close>

theorem unit_identity_resolved_iff:
  "map cui_raw_unit (resolve_canonical_unit_identities nfkc table raw_units ctx) = foldl set_add [] raw_units \<and>
   (i < length (foldl set_add [] raw_units) \<longrightarrow>
     (cui_status (resolve_canonical_unit_identities nfkc table raw_units ctx ! i) = RESOLVED \<and>
       cui_unit_definition (resolve_canonical_unit_identities nfkc table raw_units ctx ! i) = Some u) =
     denotes nfkc table ctx (foldl set_add [] raw_units ! i) u)"
  by (simp add: resolve_identities_eq o_def canonical_identity_cases denotes_def governing_alias_iff)

section \<open>The order in which the database returns the rows\<close>

lemma sort_strings_cong:
  fixes xs ys :: "string list"
  assumes "mset xs = mset ys"
  shows "stable_sort_by (\<le>) xs = stable_sort_by (\<le>) ys"
proof -
  have "sorted (stable_sort_by (\<le>) zs)" "mset (stable_sort_by (\<le>) zs) = mset zs" for zs :: "string list"
    by (rule sorted_stable_sort_by, auto intro!: multiset_eqI simp: count_mset count_stable_sort_by)
  then have "sort xs = stable_sort_by (\<le>) xs" "sort xs = stable_sort_by (\<le>) ys"
    using assms by (intro properties_for_sort; simp)+
  then show ?thesis by simp
qed

lemma select_eligible_perm:
  assumes "mset rows = mset rows'"
  shows "mset (ea_rows (select_eligible_aliases rows ctx)) = mset (ea_rows (select_eligible_aliases rows' ctx))"
    and "select_eligible_aliases rows' ctx =
      select_eligible_aliases rows ctx \<lparr>ea_rows := ea_rows (select_eligible_aliases rows' ctx)\<rparr>"
proof -
  have f: "mset (filter P rows) = mset (filter P rows')" for P using assms by simp
  have e: "filter P rows = [] \<longleftrightarrow> filter P rows' = []" for P using f [of P] by (metis mset_zero_iff)
  have l: "length (filter P rows) = length (filter P rows')" for P using f [of P] by (metis size_mset)
  show "mset (ea_rows (select_eligible_aliases rows ctx)) = mset (ea_rows (select_eligible_aliases rows' ctx))"
    using assms by (simp add: eligible_rows Let_def e)
  show "select_eligible_aliases rows' ctx =
      select_eligible_aliases rows ctx \<lparr>ea_rows := ea_rows (select_eligible_aliases rows' ctx)\<rparr>"
    by (cases ctx) (simp_all add: select_eligible_aliases_def Let_def e l)
qed

lemma canonical_identity_perm:
  assumes "mset (ea_rows m) = mset (ea_rows m')" and "m' = m\<lparr>ea_rows := ea_rows m'\<rparr>"
  shows "canonical_identity_of ctx raw m = canonical_identity_of ctx raw m'"
proof -
  have flags: "ea_context_scoped m' = ea_context_scoped m" "ea_context_required m' = ea_context_required m"
    "ea_ambiguous_without_context m' = ea_ambiguous_without_context m" "ea_foreign_context m' = ea_foreign_context m"
    by (subst assms(2), simp)+
  have len: "length (ea_rows m) = length (ea_rows m')" using assms(1) by (metis size_mset)
  have ids: "stable_sort_by (\<le>) (map alias_id (ea_rows m)) = stable_sort_by (\<le>) (map alias_id (ea_rows m'))"
    using assms(1) by (intro sort_strings_cong) simp
  have problem: "alias_problem m = alias_problem m'"
    using len by (auto simp: alias_problem_def flags)
  show ?thesis
  proof (cases "alias_problem m")
    case None
    then obtain a where "ea_rows m = [a]" using alias_problem_None by blast
    with assms(1) have "ea_rows m' = [a]" by simp
    with None problem show ?thesis
      by (simp add: canonical_identity_of_def Let_def \<open>ea_rows m = [a]\<close> flags)
  next
    case (Some p)
    then show ?thesis using problem by (simp add: canonical_identity_of_def ids flags)
  qed
qed

text \<open>The answers do not depend on the order in which the database returns the alias rows: two tables with the same
  rows give the same answers, provenance included.\<close>

theorem unit_identity_ignores_row_order:
  assumes "mset table = mset table'"
  shows "resolve_canonical_unit_identities nfkc table raw_units ctx =
    resolve_canonical_unit_identities nfkc table' raw_units ctx"
proof -
  have "canonical_identity_of ctx raw (aliases_of nfkc table raw ctx) =
      canonical_identity_of ctx raw (aliases_of nfkc table' raw ctx)" for raw
    unfolding aliases_of_def
    by (intro canonical_identity_perm select_eligible_perm) (use assms in simp_all)
  then show ?thesis by (simp add: resolve_identities_eq)
qed

section \<open>Prices\<close>

text \<open>The single rule that carries one quantity of the source unit to the target unit.\<close>

definition conversion_between ::
    "'d decimal_ops \<Rightarrow> 'd conversion_rule list \<Rightarrow> unit_definition \<Rightarrow> unit_definition \<Rightarrow> string option
      \<Rightarrow> 'd conversion_rule \<Rightarrow> bool" where
  "conversion_between D rule_table source target resource rule \<longleftrightarrow>
     filter (rule_applies source target resource) rule_table = [rule] \<and>
     d_greater_than D (rule_quantity_factor rule) (d_of_int D 0) \<and>
     (rule_conversion_type rule \<in> {''PACKAGE_CONTENT'', ''RESOURCE_SPECIFIC''} \<longrightarrow> \<not> without_evidence rule) \<and>
     rule_conversion_type rule \<noteq> ''NOT_CONVERTIBLE''"

lemma denotes_unique: "denotes nfkc table ctx raw u \<Longrightarrow> denotes nfkc table ctx raw v \<Longrightarrow> u = v"
  by (auto simp: denotes_def governing_alias_iff)

lemma resolve_units_problem:
  assumes "\<not> ((\<exists>u. denotes nfkc table ctx raw_source u) \<and> (\<exists>u. denotes nfkc table ctx raw_target u))"
  shows "urr_status (resolve_units D nfkc table rule_table raw_source raw_target resource ctx) = NEEDS_REVIEW \<and>
    urr_price_operation (resolve_units D nfkc table rule_table raw_source raw_target resource ctx) = None"
proof (cases "alias_problem (aliases_of nfkc table raw_source ctx) = None \<and>
    alias_problem (aliases_of nfkc table raw_target ctx) = None")
  case True
  then obtain a b where "ea_rows (aliases_of nfkc table raw_source ctx) = [a]"
    "ea_rows (aliases_of nfkc table raw_target ctx) = [b]" using alias_problem_None by blast
  then show ?thesis using True assms
    by (auto simp: resolve_units_def denotes_def governing_alias_iff Let_def)
next
  case False
  then show ?thesis by (auto simp: resolve_units_def Let_def split: option.splits)
qed

lemma resolve_units_denoted:
  fixes D :: "'d decimal_ops" and rule_table resource
  assumes "denotes nfkc table ctx raw_source u" and "denotes nfkc table ctx raw_target v"
  defines "r \<equiv> resolve_units D nfkc table rule_table raw_source raw_target resource ctx"
  shows "urr_source_unit_definition r = Some u \<and> urr_target_unit_definition r = Some v"
    and "urr_price_operation r = Some IDENTITY \<longleftrightarrow> ud_id u = ud_id v"
    and "urr_price_operation r = Some IDENTITY \<Longrightarrow> urr_status r = RESOLVED \<and> urr_quantity_factor r = Some ''1''"
    and "(urr_status r = RESOLVED \<and> urr_price_operation r = Some DIVIDE_SOURCE_UNIT_PRICE_BY_QUANTITY_FACTOR \<and>
        urr_conversion_rule_id r = Some i \<and> urr_quantity_factor r = Some f) \<longleftrightarrow>
      ud_id u \<noteq> ud_id v \<and> (\<exists>rule. conversion_between D rule_table u v resource rule \<and> i = rule_id rule \<and>
        f = d_to_string D (rule_quantity_factor rule))"
proof -
  obtain a b where rows: "ea_rows (aliases_of nfkc table raw_source ctx) = [a]" "u = alias_unit a"
    "ea_rows (aliases_of nfkc table raw_target ctx) = [b]" "v = alias_unit b"
    using assms(1,2) by (auto simp: denotes_def governing_alias_iff)
  have ok: "alias_problem (aliases_of nfkc table raw_source ctx) = None"
    "alias_problem (aliases_of nfkc table raw_target ctx) = None"
    using rows alias_problem_None by blast+
  have dim: "\<not> resource_type_rejects_dimension (ud_dimension (alias_unit a)) ctx"
    "\<not> resource_type_rejects_dimension (ud_dimension (alias_unit b)) ctx"
    using assms(1,2) rows by (auto simp: denotes_def)
  note unfold = r_def resolve_units_def Let_def ok option.case dim rows de_Morgan_disj simp_thms if_False if_True
  show "urr_source_unit_definition r = Some u \<and> urr_target_unit_definition r = Some v"
    by (simp add: unfold)
  show "urr_price_operation r = Some IDENTITY \<longleftrightarrow> ud_id u = ud_id v" by (simp add: unfold)
  show "urr_price_operation r = Some IDENTITY \<Longrightarrow> urr_status r = RESOLVED \<and> urr_quantity_factor r = Some ''1''"
    by (simp add: unfold split: if_splits)
  show "(urr_status r = RESOLVED \<and> urr_price_operation r = Some DIVIDE_SOURCE_UNIT_PRICE_BY_QUANTITY_FACTOR \<and>
        urr_conversion_rule_id r = Some i \<and> urr_quantity_factor r = Some f) \<longleftrightarrow>
      ud_id u \<noteq> ud_id v \<and> (\<exists>rule. conversion_between D rule_table u v resource rule \<and> i = rule_id rule \<and>
        f = d_to_string D (rule_quantity_factor rule))"
  proof (cases "filter (rule_applies u v resource) rule_table" rule: remdups_adj.cases)
    case 1
    then show ?thesis by (simp add: unfold conversion_between_def)
  next
    case (2 rule)
    then show ?thesis by (auto simp: unfold conversion_between_def)
  next
    case (3 x y zs)
    then show ?thesis by (simp add: unfold conversion_between_def)
  qed
qed


section \<open>Samples\<close>

text \<open>NFKC on the code units below 256 whose image is below 256 as well.\<close>

definition latin_nfkc_char :: "char \<Rightarrow> char" where
  "latin_nfkc_char c =
     (case map_of [(160, CHR '' ''), (170, CHR ''a''), (178, CHR ''2''), (179, CHR ''3''), (185, CHR ''1''),
        (186, CHR ''o'')] (of_char c :: nat) of None \<Rightarrow> c | Some d \<Rightarrow> d)"

definition latin_nfkc :: "string \<Rightarrow> string" where
  "latin_nfkc s = map latin_nfkc_char s"

definition sample_unit :: "string \<Rightarrow> string \<Rightarrow> unit_definition" where
  "sample_unit code dimension = \<lparr>ud_id = code, ud_code = code, ud_dimension = dimension, ud_is_active = True\<rparr>"

definition sample_aliases :: "unit_alias list" where
  "sample_aliases =
     [\<lparr>alias_id = ''a1'', normalized_alias = ''jam'', alias_is_active = True, alias_context = Some ''LABOR'',
       alias_unit = sample_unit ''PERSON_HOUR'' ''PERSON_TIME''\<rparr>,
      \<lparr>alias_id = ''a2'', normalized_alias = ''jam'', alias_is_active = True, alias_context = Some ''EQUIPMENT'',
       alias_unit = sample_unit ''EQUIPMENT_HOUR'' ''EQUIPMENT_TIME''\<rparr>,
      \<lparr>alias_id = ''a3'', normalized_alias = ''m3'', alias_is_active = True, alias_context = None,
       alias_unit = sample_unit ''M3'' ''VOLUME''\<rparr>]"

theorem unit_identity_resolved_iff_witness:
  "denotes latin_nfkc sample_aliases (Some LABOR) '' Jam '' (sample_unit ''PERSON_HOUR'' ''PERSON_TIME'')"
proof -
  have "cui_status (resolve_canonical_unit_identities latin_nfkc sample_aliases ['' Jam ''] (Some LABOR) ! 0) = RESOLVED \<and>
    cui_unit_definition (resolve_canonical_unit_identities latin_nfkc sample_aliases ['' Jam ''] (Some LABOR) ! 0) =
      Some (sample_unit ''PERSON_HOUR'' ''PERSON_TIME'')"
    by code_simp
  then show ?thesis
    using unit_identity_resolved_iff [of latin_nfkc sample_aliases "['' Jam '']" "Some LABOR" 0
      "sample_unit ''PERSON_HOUR'' ''PERSON_TIME''"] by (simp add: set_add_def)
qed

theorem unit_identity_ignores_row_order_witness:
  "resolve_canonical_unit_identities latin_nfkc sample_aliases [''jam'', ''M3''] (Some EQUIPMENT) =
    resolve_canonical_unit_identities latin_nfkc (rev sample_aliases) [''jam'', ''M3''] (Some EQUIPMENT)"
  by (rule unit_identity_ignores_row_order) simp

end
