(* ===== verification/UnitPrice.thy ===== *)
theory UnitPrice
  imports UnitKernel
begin

text \<open>
  \<open>ahsp/price-resolution/proven-unit-price-adaptation.ts\<close>: the one place where a price is divided by a
  proven factor. Only a quotient that is a whole number of cents is admitted.
\<close>

record proven_unit_price_operation =
  pu_status :: unit_resolution_status
  pu_raw_source_unit :: string
  pu_raw_target_unit :: string
  pu_quantity_factor :: "string option"
  pu_price_operation :: "unit_price_operation option"
  pu_conversion_rule_id :: "string option"
  pu_conversion_rule_version :: "int option"

datatype adaptation_refusal =
    UNPROVEN_DIRECTION | UNPROVEN_PRICE_OPERATION | INVALID_AMOUNT_OR_FACTOR
  | RULE_PROVENANCE_REQUIRED | FRACTIONAL_CENT_NOT_ADMITTED

datatype adapted_unit_price =
    Adapted (source_price: string) (adapted_price: string) (adaptation_factor: string)
      (adaptation_rule_id: "string option") (adaptation_rule_version: "int option")
  | Adaptation_Held adaptation_refusal

text \<open>\<open>adapted.split('.')[0].replace('-', '').length\<close>; \<open>replace\<close> with a string removes one occurrence.\<close>

definition digits_before_decimal :: "string \<Rightarrow> nat" where
  "digits_before_decimal s = length (remove1 CHR ''-'' (takeWhile (\<lambda>c. c \<noteq> CHR ''.'') s))"

definition adapt_price_with_proven_unit_verdict ::
    "'d decimal_ops \<Rightarrow> string \<Rightarrow> string \<Rightarrow> string \<Rightarrow> 'a proven_unit_price_operation_scheme \<Rightarrow> adapted_unit_price" where
  "adapt_price_with_proven_unit_verdict D price source_unit target_unit proof =
     (if pu_status proof \<noteq> RESOLVED \<or> pu_raw_source_unit proof \<noteq> source_unit
          \<or> pu_raw_target_unit proof \<noteq> target_unit
      then Adaptation_Held UNPROVEN_DIRECTION
      else
        (let factor_text = (case pu_quantity_factor proof of None \<Rightarrow> [] | Some f \<Rightarrow> f)
         in case (d_parse D price, d_parse D factor_text) of
              (Some money, Some factor) \<Rightarrow>
                if \<not> d_is_finite D money \<or> d_is_negative D money \<or> \<not> d_is_finite D factor
                    \<or> \<not> d_greater_than D factor (d_of_int D 0)
                then Adaptation_Held INVALID_AMOUNT_OR_FACTOR
                else if pu_price_operation proof = Some IDENTITY \<and> d_equals D factor (d_of_int D 1)
                then Adapted price price factor_text (pu_conversion_rule_id proof) (pu_conversion_rule_version proof)
                else if pu_price_operation proof \<noteq> Some DIVIDE_SOURCE_UNIT_PRICE_BY_QUANTITY_FACTOR
                    \<or> d_equals D factor (d_of_int D 1)
                then Adaptation_Held UNPROVEN_PRICE_OPERATION
                else if \<not> truthy (pu_conversion_rule_id proof)
                    \<or> (case pu_conversion_rule_version proof of None \<Rightarrow> True | Some v \<Rightarrow> v < 1)
                then Adaptation_Held RULE_PROVENANCE_REQUIRED
                else if \<not> d_equals D (d_mod D (d_mul D money (d_of_int D 100)) factor) (d_of_int D 0)
                then Adaptation_Held FRACTIONAL_CENT_NOT_ADMITTED
                else
                  (let adapted = d_to_fixed D 2 (d_div D money factor)
                   in if digits_before_decimal adapted > 16 then Adaptation_Held INVALID_AMOUNT_OR_FACTOR
                      else Adapted price adapted factor_text
                             (pu_conversion_rule_id proof) (pu_conversion_rule_version proof))
            | _ \<Rightarrow> Adaptation_Held INVALID_AMOUNT_OR_FACTOR))"

section \<open>Whole cents\<close>

text \<open>
  What the arithmetic of prices adds to the documented arithmetic: amounts of at most \<open>10 ^ 18\<close> cents are
  represented exactly, no amount is rounded to zero, the remainder is that of a truncating division, and
  \<open>toFixed\<close> prints in ordinary notation.
\<close>

locale decimal_price = decimal_arith D val rnd
  for D :: "'d decimal_ops" and val :: "'d \<Rightarrow> rat" and rnd :: "rat \<Rightarrow> rat" +
  assumes rnd_cents: "\<bar>n\<bar> \<le> 10 ^ 18 \<Longrightarrow> rnd (of_int n / 100) = of_int n / 100"
    and rnd_eq_0: "rnd x = 0 \<Longrightarrow> x = 0"
    and mod_law: "d_is_finite D (d_mod D a b) \<Longrightarrow> d_is_finite D b \<Longrightarrow>
      d_is_finite D a \<and> val b \<noteq> 0 \<and> val (d_mod D a b) = rnd (remainder (val a) (val b))"
    and equals_finite: "d_equals D a b \<Longrightarrow> d_is_finite D b \<Longrightarrow> d_is_finite D a"
    and to_fixed_law: "d_is_finite D a \<Longrightarrow> 0 \<le> val a \<Longrightarrow> d_to_fixed D p a = fixed_text p (val a)"
begin

lemma rnd_cents_large:
  assumes "10 ^ 18 \<le> n"
  shows "10 ^ 16 \<le> rnd (of_int n / 100)"
proof -
  have "of_int (10 ^ 18) / 100 \<le> (of_int n / 100 :: rat)"
    using assms by (intro divide_right_mono) (simp_all only: of_int_le_iff zero_le_numeral)
  then have "rnd (of_int (10 ^ 18) / 100) \<le> rnd (of_int n / 100)" by (rule rnd_mono)
  then show ?thesis using rnd_cents [of "10 ^ 18"] by simp
qed

lemma whole_cents:
  assumes "d_equals D (d_mod D (d_mul D money (d_of_int D 100)) factor) (d_of_int D 0)"
    and "d_is_finite D factor" "0 < val factor" "0 \<le> val money" "rnd (val money * 100) = val money * 100"
  obtains n where "0 \<le> n" "val money = of_int n / 100 * val factor"
proof -
  let ?hundred = "d_mul D money (d_of_int D 100)"
  have finite: "d_is_finite D (d_mod D ?hundred factor)" using equals_finite [OF assms(1)] of_int_law [of 0] by simp
  have zero: "d_is_finite D (d_of_int D 0)" "val (d_of_int D 0) = 0" using of_int_law [of 0] by simp_all
  have "d_is_finite D ?hundred" and m: "val (d_mod D ?hundred factor) = rnd (remainder (val ?hundred) (val factor))"
    using mod_law [OF finite assms(2)] by simp_all
  then have h: "val ?hundred = val money * 100"
    using mul_law [of money "d_of_int D 100"] of_int_law [of 100] assms(5) by simp
  have "val (d_mod D ?hundred factor) = 0" using assms(1) equals_law [OF finite zero(1)] zero(2) by simp
  then have "remainder (val money * 100) (val factor) = 0" using m h rnd_eq_0 by simp
  then have "val money * 100 = val factor * of_int \<lfloor>val money * 100 / val factor\<rfloor>"
    using assms(3,4) by (simp add: remainder_def Let_def)
  then show ?thesis using that [of "\<lfloor>val money * 100 / val factor\<rfloor>"] assms(3,4) by (simp add: mult.commute)
qed

end

lemma length_nat_to_string: "10 ^ k \<le> n \<Longrightarrow> k < length (nat_to_string n)"
proof (induction k arbitrary: n)
  case (Suc k)
  have "10 * 1 \<le> 10 * (10 :: nat) ^ k" by (intro mult_le_mono2) simp
  also have "\<dots> \<le> n" using Suc.prems by simp
  finally have "10 \<le> n" by simp
  moreover have "10 ^ k \<le> n div 10" using Suc.prems by simp
  ultimately show ?case using Suc.IH [of "n div 10"] by (subst nat_to_string.simps) simp
qed (subst nat_to_string.simps, simp)

lemma digit_char_plain: "0 \<le> d \<Longrightarrow> d \<le> 9 \<Longrightarrow> digit_char d \<notin> {CHR ''.'', CHR ''-''}"
  using of_char_digit_char [of d] by auto

lemma nat_to_string_plain: "set (nat_to_string n) \<inter> {CHR ''.'', CHR ''-''} = {}"
proof (induction n rule: nat_to_string.induct)
  case (1 n)
  have "n mod 10 < 10" by simp
  then have "int (n mod 10) \<le> 9" by linarith
  then show ?case using 1 digit_char_plain [of "int n"] digit_char_plain [of "int (n mod 10)"]
    by (subst nat_to_string.simps) auto
qed

lemma digits_before_fixed:
  assumes "10 ^ 16 \<le> x"
  shows "16 < digits_before_decimal (fixed_text 2 x)"
proof -
  let ?n = "round_half_up (x * 10 ^ 2)"
  let ?digits = "nat_to_string (nat \<bar>?n\<bar>)"
  have n: "10 ^ 18 \<le> ?n"
  proof -
    have "of_int (10 ^ 18) \<le> x * 10 ^ 2 + 1 / 2" using assms by simp
    moreover have "0 \<le> x * 10 ^ 2" using assms by simp
    ultimately show ?thesis unfolding round_half_up_def by (simp only: le_floor_iff if_True)
  qed
  have long: "18 < length ?digits" using length_nat_to_string [of 18 "nat \<bar>?n\<bar>"] n by simp
  then have digits: "pad_start_zero (Suc 2) ?digits = ?digits" by (simp add: pad_start_zero_def)
  define k where "k = length ?digits - 2"
  have t: "fixed_text 2 x = take k ?digits @ CHR ''.'' # drop k ?digits"
    unfolding fixed_text_def Let_def digits using n by (simp add: k_def)
  have plain: "set (take k ?digits) \<inter> {CHR ''.'', CHR ''-''} = {}"
    using nat_to_string_plain [of "nat \<bar>?n\<bar>"] set_take_subset [of k ?digits] by blast
  then have "takeWhile (\<lambda>c. c \<noteq> CHR ''.'') (fixed_text 2 x) = take k ?digits"
    unfolding t by (subst takeWhile_append2) auto
  moreover have "remove1 (CHR ''-'') (take k ?digits) = take k ?digits"
    using plain by (intro remove1_idem) auto
  ultimately show ?thesis using long by (simp add: digits_before_decimal_def k_def)
qed

context decimal_price
begin

lemma adapted_exact:
  assumes "adapt_price_with_proven_unit_verdict D price source_unit target_unit proof = Adapted p a f i v"
    and "d_parse D price = Some money" and "d_parse D f = Some factor"
    and "rnd (val money * 100) = val money * 100" and "d_is_finite D (d_div D money factor)"
  shows "p = price \<and> pu_status proof = RESOLVED \<and> pu_raw_source_unit proof = source_unit \<and>
    pu_raw_target_unit proof = target_unit \<and> 0 \<le> val money \<and> 0 < val factor \<and>
    (a = price \<and> val factor = 1 \<or>
     (\<exists>cents. 0 \<le> cents \<and> cents < 10 ^ 18 \<and> a = fixed_text 2 (of_int cents / 100) \<and>
       val money = of_int cents / 100 * val factor))"
proof -
  let ?factor_text = "case pu_quantity_factor proof of None \<Rightarrow> [] | Some f \<Rightarrow> f"
  have one: "d_is_finite D (d_of_int D 1)" "val (d_of_int D 1) = 1" "d_is_finite D (d_of_int D 0)" "val (d_of_int D 0) = 0"
    using of_int_law [of 1] of_int_law [of 0] by simp_all
  have verdict: "pu_status proof = RESOLVED" "pu_raw_source_unit proof = source_unit" "pu_raw_target_unit proof = target_unit"
    using assms(1) by (auto simp: adapt_price_with_proven_unit_verdict_def split: if_splits)
  note adapt = assms(1) [unfolded adapt_price_with_proven_unit_verdict_def verdict Let_def, simplified]
  obtain factor' where factor': "d_parse D ?factor_text = Some factor'"
    using adapt by (auto simp: assms(2) split: option.splits)
  have f: "f = ?factor_text" "p = price"
    using adapt by (auto simp: assms(2) factor' Let_def split: if_splits)
  then have "factor' = factor" using factor' assms(3) by simp
  note adapt = adapt [unfolded assms(2) factor' this option.case prod.case]
  have finite: "d_is_finite D money" "d_is_finite D factor" "\<not> d_is_negative D money"
    "d_less_than D (d_of_int D 0) factor"
    using adapt by (auto simp: d_greater_than_def split: if_splits)
  have pos: "0 \<le> val money" "0 < val factor"
    using finite not_negative_law less_than_law [OF one(3)] one(4) by auto
  consider (same) "d_equals D factor (d_of_int D 1)" "a = price"
    | (divided) "d_equals D (d_mod D (d_mul D money (d_of_int D 100)) factor) (d_of_int D 0)"
      "a = d_to_fixed D 2 (d_div D money factor)" "digits_before_decimal a \<le> 16"
    using adapt by (auto simp: not_less split: if_splits)
  then show ?thesis
  proof cases
    case same
    then show ?thesis using equals_law [OF finite(2) one(1)] one(2) verdict f pos by simp
  next
    case divided
    obtain n where n: "0 \<le> n" "val money = of_int n / 100 * val factor"
      using whole_cents [OF divided(1) finite(2) pos(2,1) assms(4)] .
    have q: "val (d_div D money factor) = rnd (of_int n / 100)"
      using div_law [OF assms(5) finite(2)] n(2) pos(2) by simp
    have "0 \<le> rnd (of_int n / 100)" using n(1) by (intro rnd_nonneg) simp
    then have a: "a = fixed_text 2 (rnd (of_int n / 100))"
      using divided(2) to_fixed_law [OF assms(5), of 2] q by simp
    have "n < 10 ^ 18"
    proof (rule ccontr)
      assume "\<not> n < 10 ^ 18"
      then have "10 ^ 16 \<le> rnd (of_int n / 100)" by (intro rnd_cents_large) simp
      then show False using digits_before_fixed a divided(3) by fastforce
    qed
    then have "rnd (of_int n / 100) = of_int n / 100" using n(1) by (intro rnd_cents) simp
    with a have "a = fixed_text 2 (of_int n / 100)" by (simp only:)
    then show ?thesis using n verdict f pos \<open>n < 10 ^ 18\<close> by auto
  qed
qed

end

text \<open>An adapted price is exact. When the adaptation answers, either the factor is one and the price is returned as it
  was written, or the answer is the text of a whole number of cents below \<open>10 ^ 18\<close> whose product with the factor is the
  source price to the last digit: nothing was rounded, provided the source price itself is held without rounding.\<close>

theorem adapted_price_is_exact:
  assumes "decimal_price D val rnd"
    and adapted: "adapt_price_with_proven_unit_verdict D price source_unit target_unit proof = Adapted p a f i v"
    and "d_parse D price = Some money" and "d_parse D f = Some factor"
    and "rnd (val money * 100) = val money * 100" and "d_is_finite D (d_div D money factor)"
  shows "p = price \<and> pu_status proof = RESOLVED \<and> pu_raw_source_unit proof = source_unit \<and>
    pu_raw_target_unit proof = target_unit \<and> 0 \<le> val money \<and> 0 < val factor \<and>
    (a = price \<and> val factor = 1 \<or>
     (\<exists>cents. 0 \<le> cents \<and> cents < 10 ^ 18 \<and> a = fixed_text 2 (of_int cents / 100) \<and>
       val money = of_int cents / 100 * val factor))"
  using assms by (rule decimal_price.adapted_exact)

section \<open>The instance\<close>

lemma round_positive_cents:
  assumes "0 < n" "n \<le> 10 ^ 18"
  shows "round_positive (of_int n / 100) = of_int n / 100"
proof -
  let ?x = "of_int n / 100 :: rat"
  have x: "0 < ?x" using assms(1) by simp
  have "decimal_exponent ?x \<le> 16"
  proof (rule ccontr)
    assume "\<not> ?thesis"
    then have "ten_to 17 \<le> ten_to (decimal_exponent ?x)" by (intro ten_to_mono) simp
    then have "ten_to 17 \<le> ?x" using decimal_exponent_bounds(1) [OF x] by simp
    then have "of_int (10 ^ 19) \<le> (of_int n :: rat)" by (simp add: ten_to_def)
    then have "10 ^ 19 \<le> n" by (simp only: of_int_le_iff)
    then show False using assms(2) by simp
  qed
  then have k: "- 2 = decimal_exponent ?x - 19 + int k" if "k = nat (17 - decimal_exponent ?x)" for k
    using that by simp
  define k where "k = nat (17 - decimal_exponent ?x)"
  note k = k [OF k_def]
  have "1 / 100 = 10 ^ k * ten_to (decimal_exponent ?x - 19)"
    using ten_to_add_nat [of "decimal_exponent ?x - 19" k] by (simp add: k [symmetric] ten_to_def)
  then have "?x = of_int (n * 10 ^ k) * ten_to (decimal_exponent ?x - 19)" by simp
  then show ?thesis by (rule round_positive_multiple [OF x])
qed

lemma round20_cents: "\<bar>n\<bar> \<le> 10 ^ 18 \<Longrightarrow> round20 (of_int n / 100) = of_int n / 100"
  using round_positive_cents [of n] round_positive_cents [of "- n"] by (simp add: round20_def)

lemma round20_eq_0: "round20 x = 0 \<Longrightarrow> x = 0"
  using round_positive_pos [of x] round_positive_pos [of "- x"] by (auto simp: round20_def split: if_splits)

interpretation decimal20_price: decimal_price decimal20 val20 round20
proof unfold_locales
  fix a b
  show "d_is_finite decimal20 (d_mod decimal20 a b) \<Longrightarrow> d_is_finite decimal20 b \<Longrightarrow>
      d_is_finite decimal20 a \<and> val20 b \<noteq> 0 \<and> val20 (d_mod decimal20 a b) = round20 (remainder (val20 a) (val20 b))"
    using lift2_finite [of remainder a b] by (auto simp: decimal20_def val20_def split: if_splits option.splits)
  show "d_equals decimal20 a b \<Longrightarrow> d_is_finite decimal20 b \<Longrightarrow> d_is_finite decimal20 a"
    by (cases a) (simp_all add: decimal20_def)
qed (use round20_cents round20_eq_0 in \<open>auto simp: decimal20_def val20_def\<close>)

definition sack_to_kilogram :: proven_unit_price_operation where
  "sack_to_kilogram =
     \<lparr>pu_status = RESOLVED, pu_raw_source_unit = ''zak'', pu_raw_target_unit = ''kg'',
      pu_quantity_factor = Some ''50'', pu_price_operation = Some DIVIDE_SOURCE_UNIT_PRICE_BY_QUANTITY_FACTOR,
      pu_conversion_rule_id = Some ''r'', pu_conversion_rule_version = Some 1\<rparr>"

lemma price_sample_parse:
  "parse_fixed ''62500.50'' = Some (6250050 / 100)" "parse_fixed ''50'' = Some 50"
  by code_simp+

lemma sample_text: "fixed_text 2 (125001 / 100) = ''1250.01''"
  by code_simp

lemma sample_values:
  "round20 6250050 = 6250050" "round20 0 = 0" "round20 (125001 / 100) = 125001 / 100"
  "remainder 6250050 50 = 0"
  using round20_small_int [of 6250050] round20_small_int [of 0] round20_cents [of 125001]
  by (simp_all add: remainder_def Let_def)

lemma sample_adaptation:
  "adapt_price_with_proven_unit_verdict decimal20 ''62500.50'' ''zak'' ''kg'' sack_to_kilogram =
     Adapted ''62500.50'' ''1250.01'' ''50'' (Some ''r'') (Some 1)"
  "d_parse decimal20 ''62500.50'' = Some (Some (6250050 / 100))" "d_parse decimal20 ''50'' = Some (Some 50)"
proof -
  have "d_mod decimal20 (Some 6250050) (Some 50) = Some 0"
    by (simp add: decimal20_def sample_values)
  then show "adapt_price_with_proven_unit_verdict decimal20 ''62500.50'' ''zak'' ''kg'' sack_to_kilogram =
     Adapted ''62500.50'' ''1250.01'' ''50'' (Some ''r'') (Some 1)"
    by (simp add: sample_text sample_values Let_def adapt_price_with_proven_unit_verdict_def sack_to_kilogram_def price_sample_parse decimal20_simps
      digits_before_decimal_def)
qed (simp_all add: decimal20_simps price_sample_parse)

theorem adapted_price_is_exact_witness:
  "\<exists>cents. 0 \<le> cents \<and> cents < 10 ^ 18 \<and> ''1250.01'' = fixed_text 2 (of_int cents / 100) \<and>
    val20 (Some (6250050 / 100)) = of_int cents / 100 * val20 (Some 50)"
proof -
  have "round20 (val20 (Some (6250050 / 100)) * 100) = val20 (Some (6250050 / 100)) * 100"
    using round20_numeral [of "num.One"] round20_small_int [of 6250050] by (simp add: val20_def)
  moreover have "d_is_finite decimal20 (d_div decimal20 (Some (6250050 / 100)) (Some 50))"
    by (simp add: decimal20_simps)
  ultimately show ?thesis
    using adapted_price_is_exact [OF decimal20_price.decimal_price_axioms sample_adaptation] by auto
qed

end
