(* ===== verification/PriceResolution.thy ===== *)
theory PriceResolution
  imports UnitPrice
begin

text \<open>
  \<open>ahsp/price-resolution/ahsp-resource-price-resolution.kernel.ts\<close>: the price of one resource of a unit-price
  analysis, resolved from the catalog and the eligible prices it is handed. The kernel consumes the verdicts of the
  unit dictionary and never derives one.

  \<open>resolve_ahsp_resource_price\<close> settles the catalog row (step 1), \<open>price_against_catalog\<close> checks the unit verdict,
  filters the prices, chooses one (\<open>choose_price\<close>) and adapts it (steps 2 to 4). The sentence \<open>explanation\<close>, read by
  people only, is not modelled; every other field of a result is.

  The properties: what a resolved price rests on; the choice among several prices does not depend on the order in which
  they are handed over; and what the preference of a project means.
\<close>

section \<open>Inputs and results\<close>

record resource_catalog_candidate =
  rc_id :: string
  rc_code :: "string option"
  rc_name :: string
  rc_type :: unit_alias_context
  rc_base_unit :: string

record validated_unit_resolution =
  vu_status :: unit_resolution_status
  vu_canonical_unit_code :: "string option"
  vu_quantity_factor :: "string option"
  vu_raw_source_unit :: string
  vu_raw_target_unit :: string

record validated_basic_price_unit_resolution = validated_unit_resolution +
  vu_price_operation :: "unit_price_operation option"

datatype freshness_status = CURRENT | EXPIRING | EXPIRED

record basic_price_candidate =
  bp_id :: string
  bp_resource_id :: string
  bp_value :: string
  bp_source_origin :: string
  bp_unit :: string
  bp_freshness_status :: "freshness_status option"
  bp_unit_resolution :: validated_basic_price_unit_resolution

record direct_price_unit_resolution = proven_unit_price_operation +
  du_canonical_target_unit_code :: "string option"

datatype price_preference_mode = LOWEST | MIDDLE | HIGHEST

datatype reason_code =
    EXACT_RESOURCE_NAME_MATCH | EXACT_RESOURCE_NAME_MATCH_WITH_UNIT_CONTEXT | VERIFIED_MAPPING_REUSED
  | RESOURCE_CATALOG_ID_ACTIVE_AND_SCOPED | RESOURCE_TYPE_MATCH | LABOR_DAY_UNIT_EQUIVALENT
  | SAME_CANONICAL_UNIT | UNIT_CONVERSION_UNPROVED | PROVEN_DIRECTIONAL_PRICE_CONVERSION
  | SINGLE_ELIGIBLE_BASIC_PRICE | NO_CATALOG_CANDIDATE | MULTIPLE_CATALOG_CANDIDATES | RESOURCE_TYPE_MISMATCH
  | UNIT_NOT_SUPPORTED | NO_BASIC_PRICE_CANDIDATE | BASIC_PRICE_UNIT_NOT_SUPPORTED
  | ONLY_EXPIRED_BASIC_PRICE_CANDIDATES | MULTIPLE_BASIC_PRICE_CANDIDATES
  | PROJECT_PRICE_PREFERENCE price_preference_mode | MULTI_PRICE_COMPARABILITY_UNPROVEN
  | MULTI_PRICE_TIE_UNRESOLVED | MULTI_PRICE_MIDDLE_EVEN_UNRESOLVED

record base_context =
  bc_project_id :: string
  bc_ahsp_version_id :: string
  bc_ahsp_resource_id :: string
  bc_raw_resource_ref :: string

record ahsp_resource_resolution_input = base_context +
  ri_resource_type :: string
  ri_ahsp_unit :: string
  ri_resource_catalog_candidates :: "resource_catalog_candidate list"
  ri_eligible_basic_price_candidates :: "basic_price_candidate list"
  ri_price_selection_preference_mode :: "price_preference_mode option"
  ri_validated_unit_resolution :: validated_unit_resolution
  ri_direct_price_unit_resolution :: "direct_price_unit_resolution option"
  ri_resolved_identity :: "(resource_catalog_candidate \<times> reason_code) option"

record resolved_resolution =
  rr_context :: base_context
  rr_resolved_resource_catalog_id :: string
  rr_selected_basic_price_id :: string
  rr_source_origin :: string
  rr_source_price_value :: string
  rr_source_unit :: string
  rr_ahsp_unit :: string
  rr_canonical_unit :: "string option"
  rr_conversion_factor :: "string option"
  rr_adapted_price_value :: string
  rr_selection_status :: string
  rr_reason_codes :: "reason_code list"

datatype ahsp_resource_resolution_result =
    Price_Resolved resolved_resolution
  | Price_Unresolved base_context "reason_code list"
  | Price_Needs_Review base_context "reason_code list"

definition base_context_of :: "ahsp_resource_resolution_input \<Rightarrow> base_context" where
  "base_context_of input =
     \<lparr>bc_project_id = bc_project_id input, bc_ahsp_version_id = bc_ahsp_version_id input,
      bc_ahsp_resource_id = bc_ahsp_resource_id input, bc_raw_resource_ref = bc_raw_resource_ref input\<rparr>"

definition normalize_resource_name :: "string \<Rightarrow> string" where
  "normalize_resource_name raw = collapse_spaces False (js_lower (js_trim raw))"

section \<open>Choosing one of several prices\<close>

text \<open>\<open>/^(?:0|[1-9][0-9]{0,15})(?:[.][0-9]{1,2})?$/\<close>\<close>

definition all_digits :: "string \<Rightarrow> bool" where
  "all_digits s \<longleftrightarrow> list_all (\<lambda>c. digit_value c \<noteq> None) s"

definition lawful_money :: "string \<Rightarrow> bool" where
  "lawful_money s \<longleftrightarrow>
     (let whole = takeWhile (\<lambda>c. c \<noteq> CHR ''.'') s; rest = dropWhile (\<lambda>c. c \<noteq> CHR ''.'') s
      in (whole = ''0'' \<or>
          whole \<noteq> [] \<and> hd whole \<noteq> CHR ''0'' \<and> all_digits whole \<and> length whole \<le> 16) \<and>
         (rest = [] \<or> all_digits (tl rest) \<and> (length (tl rest) = 1 \<or> length (tl rest) = 2)))"

text \<open>\<open>new Prisma.Decimal(price.value)\<close>, which throws on a text that is not a number.\<close>

fun parse_prices :: "'d decimal_ops \<Rightarrow> basic_price_candidate list \<Rightarrow> js_error + ('d \<times> basic_price_candidate) list" where
  "parse_prices D [] = Inr []"
| "parse_prices D (p # ps) =
     (case d_parse D (bp_value p) of
        None \<Rightarrow> Inl (Plain_Error ''DecimalError'')
      | Some d \<Rightarrow> rbind (parse_prices D ps) (\<lambda>rest. Inr ((d, p) # rest)))"

definition preference_index :: "price_preference_mode \<Rightarrow> nat \<Rightarrow> nat" where
  "preference_index mode n = (case mode of LOWEST \<Rightarrow> 0 | HIGHEST \<Rightarrow> n - 1 | MIDDLE \<Rightarrow> n div 2)"

definition choose_price ::
    "'d decimal_ops \<Rightarrow> price_preference_mode option \<Rightarrow> basic_price_candidate list
      \<Rightarrow> js_error + (reason_code + basic_price_candidate \<times> reason_code)" where
  "choose_price D preference compatible =
     (if length compatible > 1 then
        (case preference of
           None \<Rightarrow> Inr (Inl MULTIPLE_BASIC_PRICE_CANDIDATES)
         | Some mode \<Rightarrow>
             if list_ex (\<lambda>p. bp_freshness_status p = Some EXPIRED \<or> \<not> lawful_money (bp_value p)) compatible
             then Inr (Inl MULTI_PRICE_COMPARABILITY_UNPROVEN)
             else if mode = MIDDLE \<and> length compatible mod 2 = 0
             then Inr (Inl MULTI_PRICE_MIDDLE_EVEN_UNRESOLVED)
             else
               rbind (parse_prices D compatible) (\<lambda>parsed.
                 let ordered = stable_sort_by (\<lambda>a b. d_less_equal D (fst a) (fst b)) parsed;
                     chosen = ordered ! preference_index mode (length ordered)
                 in if list_ex (\<lambda>other. bp_id (snd other) \<noteq> bp_id (snd chosen) \<and>
                          d_equals D (fst other) (fst chosen)) ordered
                    then Inr (Inl MULTI_PRICE_TIE_UNRESOLVED)
                    else Inr (Inr (snd chosen, PROJECT_PRICE_PREFERENCE mode))))
      else Inr (Inr (hd compatible, SINGLE_ELIGIBLE_BASIC_PRICE)))"

section \<open>Pricing a settled catalog row\<close>

definition legacy_unit_identity :: "ahsp_resource_resolution_input \<Rightarrow> resource_catalog_candidate \<Rightarrow> bool" where
  "legacy_unit_identity input catalog \<longleftrightarrow>
     (let v = ri_validated_unit_resolution input
      in vu_status v = RESOLVED \<and> vu_raw_source_unit v = ri_ahsp_unit input \<and>
         vu_raw_target_unit v = rc_base_unit catalog \<and> vu_canonical_unit_code v \<noteq> None \<and>
         vu_quantity_factor v = Some ''1'')"

text \<open>The direct verdict, when it is the one to use.\<close>

definition direct_unit_used ::
    "ahsp_resource_resolution_input \<Rightarrow> resource_catalog_candidate \<Rightarrow> direct_price_unit_resolution option" where
  "direct_unit_used input catalog =
     (case ri_direct_price_unit_resolution input of
        None \<Rightarrow> None
      | Some u \<Rightarrow>
          if \<not> legacy_unit_identity input catalog \<and> pu_status u = RESOLVED \<and>
             pu_raw_source_unit u = rc_base_unit catalog \<and> pu_raw_target_unit u = ri_ahsp_unit input \<and>
             du_canonical_target_unit_code u \<noteq> None
          then Some u else None)"

definition unit_proved_price :: "resource_catalog_candidate \<Rightarrow> basic_price_candidate \<Rightarrow> bool" where
  "unit_proved_price catalog price \<longleftrightarrow>
     (let v = bp_unit_resolution price
      in vu_status v = RESOLVED \<and> vu_raw_source_unit v = bp_unit price \<and>
         vu_raw_target_unit v = rc_base_unit catalog \<and> vu_canonical_unit_code v \<noteq> None)"

definition compatible_price :: "basic_price_candidate \<Rightarrow> bool" where
  "compatible_price price \<longleftrightarrow>
     vu_quantity_factor (bp_unit_resolution price) = Some ''1'' \<and>
     vu_price_operation (bp_unit_resolution price) = Some IDENTITY"

text \<open>The last step: the chosen price, carried to the unit of the analysis.\<close>

definition carry_chosen_price ::
    "'d decimal_ops \<Rightarrow> ahsp_resource_resolution_input \<Rightarrow> resource_catalog_candidate \<Rightarrow> reason_code \<Rightarrow> reason_code
      \<Rightarrow> basic_price_candidate \<times> reason_code \<Rightarrow> ahsp_resource_resolution_result" where
  "carry_chosen_price D input catalog identity_reason unit_reason choice =
     (let (selected, choice_reason) = choice;
          resolved = (\<lambda>adapted unit_code factor. Price_Resolved
            \<lparr>rr_context = base_context_of input, rr_resolved_resource_catalog_id = rc_id catalog,
             rr_selected_basic_price_id = bp_id selected,
             rr_source_origin = bp_source_origin selected,
             rr_source_price_value = bp_value selected, rr_source_unit = bp_unit selected,
             rr_ahsp_unit = ri_ahsp_unit input, rr_canonical_unit = unit_code,
             rr_conversion_factor = factor, rr_adapted_price_value = adapted,
             rr_selection_status = ''AUTO_SELECTED'',
             rr_reason_codes = [identity_reason, RESOURCE_TYPE_MATCH, unit_reason, choice_reason]\<rparr>)
      in case direct_unit_used input catalog of
           None \<Rightarrow>
             resolved (bp_value selected) (vu_canonical_unit_code (ri_validated_unit_resolution input))
               (vu_quantity_factor (ri_validated_unit_resolution input))
         | Some u \<Rightarrow>
             (case adapt_price_with_proven_unit_verdict D (bp_value selected) (bp_unit selected)
                     (ri_ahsp_unit input) u of
                Adaptation_Held _ \<Rightarrow>
                  Price_Needs_Review (base_context_of input)
                    [identity_reason, RESOURCE_TYPE_MATCH, UNIT_CONVERSION_UNPROVED]
              | Adapted _ adapted _ _ _ \<Rightarrow>
                  resolved adapted (du_canonical_target_unit_code u) (pu_quantity_factor u)))"

definition price_against_catalog ::
    "'d decimal_ops \<Rightarrow> ahsp_resource_resolution_input \<Rightarrow> resource_catalog_candidate \<Rightarrow> reason_code
      \<Rightarrow> js_error + ahsp_resource_resolution_result" where
  "price_against_catalog D input catalog identity_reason =
     (let context = base_context_of input;
          v = ri_validated_unit_resolution input;
          direct = direct_unit_used input catalog
      in if direct = None \<and> (vu_status v \<noteq> RESOLVED \<or> vu_raw_source_unit v \<noteq> ri_ahsp_unit input \<or>
              vu_raw_target_unit v \<noteq> rc_base_unit catalog \<or> vu_canonical_unit_code v = None)
         then Inr (Price_Unresolved context [UNIT_NOT_SUPPORTED])
         else if direct = None \<and> vu_quantity_factor v \<noteq> Some ''1''
         then Inr (Price_Needs_Review context [UNIT_CONVERSION_UNPROVED])
         else
           (let unit_reason =
                  (if direct \<noteq> None then PROVEN_DIRECTIONAL_PRICE_CONVERSION
                   else if js_upper (ri_resource_type input) = ''LABOR'' \<and>
                      vu_canonical_unit_code v = Some ''PERSON_DAY'' then LABOR_DAY_UNIT_EQUIVALENT
                   else SAME_CANONICAL_UNIT);
                known = [identity_reason, RESOURCE_TYPE_MATCH, unit_reason];
                matching = filter (\<lambda>p. bp_resource_id p = rc_id catalog) (ri_eligible_basic_price_candidates input);
                unit_proved = filter (unit_proved_price catalog) matching;
                compatible = filter compatible_price unit_proved
            in if matching = [] then Inr (Price_Unresolved context (known @ [NO_BASIC_PRICE_CANDIDATE]))
               else if compatible = [] then
                 (if unit_proved \<noteq> [] then Inr (Price_Needs_Review context (known @ [UNIT_CONVERSION_UNPROVED]))
                  else Inr (Price_Unresolved context (known @ [BASIC_PRICE_UNIT_NOT_SUPPORTED])))
               else if list_all (\<lambda>p. bp_freshness_status p = Some EXPIRED) compatible
               then Inr (Price_Needs_Review context (known @ [ONLY_EXPIRED_BASIC_PRICE_CANDIDATES]))
               else
                 rbind (choose_price D (ri_price_selection_preference_mode input) compatible) (\<lambda>choice.
                   Inr (case choice of
                          Inl reason \<Rightarrow> Price_Needs_Review context (known @ [reason])
                        | Inr selected \<Rightarrow>
                            carry_chosen_price D input catalog identity_reason unit_reason selected))))"

section \<open>The entry point\<close>

definition resolve_ahsp_resource_price ::
    "'d decimal_ops \<Rightarrow> ahsp_resource_resolution_input \<Rightarrow> js_error + ahsp_resource_resolution_result" where
  "resolve_ahsp_resource_price D input =
     (case ri_resolved_identity input of
        Some (catalog, reason) \<Rightarrow> price_against_catalog D input catalog reason
      | None \<Rightarrow>
          (let context = base_context_of input;
               normalized_ref = normalize_resource_name (bc_raw_resource_ref input);
               same_name = (\<lambda>c. normalize_resource_name (rc_name c) = normalized_ref);
               same_type = (\<lambda>c. js_upper (context_name (rc_type c)) = js_upper (ri_resource_type input));
               exact = filter (\<lambda>c. same_name c \<and> same_type c) (ri_resource_catalog_candidates input)
           in if exact = [] then
                (if filter same_name (ri_resource_catalog_candidates input) \<noteq> []
                 then Inr (Price_Unresolved context [RESOURCE_TYPE_MISMATCH])
                 else Inr (Price_Unresolved context [NO_CATALOG_CANDIDATE]))
              else if length exact > 1 then Inr (Price_Needs_Review context [MULTIPLE_CATALOG_CANDIDATES])
              else price_against_catalog D input (hd exact) EXACT_RESOURCE_NAME_MATCH))"

section \<open>What a choice returns\<close>

lemma parse_prices_Inr:
  "parse_prices D ps = Inr parsed \<longleftrightarrow>
     list_all (\<lambda>p. d_parse D (bp_value p) \<noteq> None) ps \<and> parsed = map (\<lambda>p. (the (d_parse D (bp_value p)), p)) ps"
  by (induction ps arbitrary: parsed) (auto simp: rbind_eq_Inr_iff split: option.splits)

lemma preference_index_less: "1 < n \<Longrightarrow> preference_index mode n < n"
  by (cases mode) (simp_all add: preference_index_def)

lemma chosen_is_candidate:
  assumes "choose_price D preference ps = Inr (Inr (p, reason))" and "ps \<noteq> []"
  shows "p \<in> set ps" and "\<forall>q \<in> set ps. length ps > 1 \<longrightarrow> bp_freshness_status q \<noteq> Some EXPIRED"
proof -
  show "p \<in> set ps"
  proof (cases "length ps > 1")
    case True
    then obtain mode parsed where parsed: "parse_prices D ps = Inr parsed"
      "p = snd (stable_sort_by (\<lambda>a b. d_less_equal D (fst a) (fst b)) parsed ! preference_index mode (length parsed))"
      using assms(1) by (auto simp: choose_price_def rbind_eq_Inr_iff Let_def split: option.splits if_splits)
    have "length parsed = length ps" using parsed(1) by (auto simp: parse_prices_Inr)
    then have "stable_sort_by (\<lambda>a b. d_less_equal D (fst a) (fst b)) parsed ! preference_index mode (length parsed) \<in> set parsed"
      using nth_mem [of "preference_index mode (length parsed)" "stable_sort_by (\<lambda>a b. d_less_equal D (fst a) (fst b)) parsed"]
        True preference_index_less [of "length parsed" mode] by simp
    then show ?thesis using parsed by (auto simp: parse_prices_Inr)
  next
    case False
    then show ?thesis using assms by (cases ps) (simp_all add: choose_price_def)
  qed
  show "\<forall>q \<in> set ps. length ps > 1 \<longrightarrow> bp_freshness_status q \<noteq> Some EXPIRED"
    using assms(1) by (auto simp: choose_price_def list_ex_iff split: option.splits if_splits)
qed

section \<open>What a resolved price rests on\<close>

text \<open>The catalog row a resolution settles on.\<close>

definition settled_catalog :: "ahsp_resource_resolution_input \<Rightarrow> resource_catalog_candidate \<Rightarrow> reason_code \<Rightarrow> bool" where
  "settled_catalog input catalog reason \<longleftrightarrow>
     (case ri_resolved_identity input of
        Some (c, r) \<Rightarrow> catalog = c \<and> reason = r
      | None \<Rightarrow> reason = EXACT_RESOURCE_NAME_MATCH \<and>
          filter (\<lambda>c. normalize_resource_name (rc_name c) = normalize_resource_name (bc_raw_resource_ref input) \<and>
            js_upper (context_name (rc_type c)) = js_upper (ri_resource_type input)) (ri_resource_catalog_candidates input)
            = [catalog])"

lemma resolved_has_catalog:
  assumes "resolve_ahsp_resource_price D input = Inr (Price_Resolved r)"
  obtains catalog reason where "settled_catalog input catalog reason"
    "price_against_catalog D input catalog reason = Inr (Price_Resolved r)"
proof (cases "ri_resolved_identity input")
  case (Some cr)
  then show ?thesis using assms that by (cases cr) (simp add: resolve_ahsp_resource_price_def settled_catalog_def)
next
  case None
  let ?exact = "filter (\<lambda>c. normalize_resource_name (rc_name c) = normalize_resource_name (bc_raw_resource_ref input) \<and>
    js_upper (context_name (rc_type c)) = js_upper (ri_resource_type input)) (ri_resource_catalog_candidates input)"
  have "?exact \<noteq> []" "\<not> length ?exact > 1"
    and r: "price_against_catalog D input (hd ?exact) EXACT_RESOURCE_NAME_MATCH = Inr (Price_Resolved r)"
    using assms by (auto simp: resolve_ahsp_resource_price_def None Let_def split: if_splits)
  then have "?exact = [hd ?exact]" by (cases ?exact) auto
  then have "settled_catalog input (hd ?exact) EXACT_RESOURCE_NAME_MATCH" by (simp add: settled_catalog_def None)
  then show ?thesis using r that by blast
qed

text \<open>How the price of one quantity of the catalog unit becomes the price of one quantity of the unit of the analysis.\<close>

definition price_carried ::
    "'d decimal_ops \<Rightarrow> ahsp_resource_resolution_input \<Rightarrow> resource_catalog_candidate \<Rightarrow> basic_price_candidate \<Rightarrow> string \<Rightarrow> bool" where
  "price_carried D input catalog p adapted \<longleftrightarrow>
     (case direct_unit_used input catalog of
        None \<Rightarrow> legacy_unit_identity input catalog \<and> adapted = bp_value p
      | Some u \<Rightarrow> \<exists>f i v. adapt_price_with_proven_unit_verdict D (bp_value p) (bp_unit p) (ri_ahsp_unit input) u =
          Adapted (bp_value p) adapted f i v)"

lemma adapted_source: "adapt_price_with_proven_unit_verdict D price s t proof = Adapted p a f i v \<Longrightarrow> p = price"
  by (auto simp: adapt_price_with_proven_unit_verdict_def Let_def split: if_splits option.splits)

lemma resolved_price_sound:
  assumes "price_against_catalog D input catalog reason = Inr (Price_Resolved r)"
  shows "\<exists>p \<in> set (ri_eligible_basic_price_candidates input).
    bp_resource_id p = rc_id catalog \<and> unit_proved_price catalog p \<and> compatible_price p \<and>
    bp_freshness_status p \<noteq> Some EXPIRED \<and>
    rr_resolved_resource_catalog_id r = rc_id catalog \<and> rr_selected_basic_price_id r = bp_id p \<and>
    rr_source_price_value r = bp_value p \<and> price_carried D input catalog p (rr_adapted_price_value r)"
proof -
  let ?compatible = "filter compatible_price (filter (unit_proved_price catalog)
    (filter (\<lambda>p. bp_resource_id p = rc_id catalog) (ri_eligible_basic_price_candidates input)))"
  note resolved = assms [unfolded price_against_catalog_def Let_def]
  have some: "?compatible \<noteq> []" "\<not> list_all (\<lambda>p. bp_freshness_status p = Some EXPIRED) ?compatible"
    using resolved by (auto split: if_splits)
  have "\<exists>known unit_reason. rbind (choose_price D (ri_price_selection_preference_mode input) ?compatible) (\<lambda>choice.
      Inr (case choice of
             Inl held \<Rightarrow> Price_Needs_Review (base_context_of input) (known @ [held])
           | Inr selected \<Rightarrow> carry_chosen_price D input catalog reason unit_reason selected)) = Inr (Price_Resolved r)"
    using resolved some by (simp split: if_split_asm) blast+
  then obtain choice unit_reason known
    where "choose_price D (ri_price_selection_preference_mode input) ?compatible = Inr choice"
      and "(case choice of
             Inl held \<Rightarrow> Price_Needs_Review (base_context_of input) (known @ [held])
           | Inr selected \<Rightarrow> carry_chosen_price D input catalog reason unit_reason selected) = Price_Resolved r"
    by (auto simp: rbind_eq_Inr_iff)
  then obtain p choice_reason
    where choice: "choose_price D (ri_price_selection_preference_mode input) ?compatible = Inr (Inr (p, choice_reason))"
      and carried: "carry_chosen_price D input catalog reason unit_reason (p, choice_reason) = Price_Resolved r"
    by (cases choice) auto
  have p: "p \<in> set ?compatible" using chosen_is_candidate(1) [OF choice some(1)] .
  have fresh: "bp_freshness_status p \<noteq> Some EXPIRED"
  proof (cases "length ?compatible > 1")
    case True
    then show ?thesis using chosen_is_candidate(2) [OF choice some(1)] p by blast
  next
    case False
    then have "?compatible = [p]" using p some(1)
      by (cases ?compatible) (auto simp del: set_filter filter_filter)
    then show ?thesis using some(2) by simp
  qed
  have legacy: "legacy_unit_identity input catalog" if "direct_unit_used input catalog = None"
    using resolved that by (auto simp: legacy_unit_identity_def Let_def split: if_splits)
  have "rr_resolved_resource_catalog_id r = rc_id catalog \<and> rr_selected_basic_price_id r = bp_id p \<and>
    rr_source_price_value r = bp_value p \<and> price_carried D input catalog p (rr_adapted_price_value r)"
    using carried legacy
    by (auto simp: carry_chosen_price_def price_carried_def split: option.splits adapted_unit_price.splits dest: adapted_source)
  then show ?thesis using p fresh by auto
qed

text \<open>C32: A price that is resolved without a human rests on evidence for every step: the catalog row was settled upstream or
  is the only one with the name and the class of the resource; the price is one of the eligible ones, belongs to that row,
  was proven to be in its unit, and is not expired; and it is carried to the unit of the analysis either unchanged, under
  a verdict for exactly this pair of units with factor one, or by the adaptation of the certified direct verdict.\<close>

theorem resolved_price_rests_on_evidence:
  assumes "resolve_ahsp_resource_price D input = Inr (Price_Resolved r)"
  shows "\<exists>catalog reason. settled_catalog input catalog reason \<and>
    (\<exists>p \<in> set (ri_eligible_basic_price_candidates input).
      bp_resource_id p = rc_id catalog \<and> unit_proved_price catalog p \<and> compatible_price p \<and>
      bp_freshness_status p \<noteq> Some EXPIRED \<and>
      rr_resolved_resource_catalog_id r = rc_id catalog \<and> rr_selected_basic_price_id r = bp_id p \<and>
      rr_source_price_value r = bp_value p \<and> price_carried D input catalog p (rr_adapted_price_value r))"
  using resolved_has_catalog [OF assms] resolved_price_sound by metis

section \<open>The order of the candidates\<close>

text \<open>The amount of a price.\<close>

definition price_amount :: "'d decimal_ops \<Rightarrow> ('d \<Rightarrow> rat) \<Rightarrow> basic_price_candidate \<Rightarrow> rat" where
  "price_amount D val p = val (the (d_parse D (bp_value p)))"

text \<open>
  What a text of lawful money means to the decimal library: it is read as a finite number.
\<close>

locale decimal_money = decimal_price D val rnd
  for D :: "'d decimal_ops" and val :: "'d \<Rightarrow> rat" and rnd :: "rat \<Rightarrow> rat" +
  assumes parse_money: "lawful_money s \<Longrightarrow> \<exists>d. d_parse D s = Some d \<and> d_is_finite D d"
begin

abbreviation amount :: "basic_price_candidate \<Rightarrow> rat" where
  "amount \<equiv> price_amount D val"

definition parsed :: "basic_price_candidate \<Rightarrow> 'd \<times> basic_price_candidate" where
  "parsed p = (the (d_parse D (bp_value p)), p)"

lemma parsed_simps [simp]: "snd (parsed p) = p" "val (fst (parsed p)) = amount p"
  by (simp_all add: parsed_def price_amount_def)

lemma parse_lawful:
  "list_all (\<lambda>p. lawful_money (bp_value p)) ps \<Longrightarrow> parse_prices D ps = Inr (map parsed ps)"
  using parse_money by (fastforce simp: parse_prices_Inr parsed_def list_all_iff)

lemma finite_parsed: "lawful_money (bp_value p) \<Longrightarrow> d_is_finite D (fst (parsed p))"
  using parse_money [of "bp_value p"] by (auto simp: parsed_def)

text \<open>The ranking: the candidates by amount, in the order handed over where amounts are equal.\<close>

definition ranking :: "basic_price_candidate list \<Rightarrow> basic_price_candidate list" where
  "ranking ps = stable_sort_by (\<lambda>a b. amount a \<le> amount b) ps"

lemma ranking_props [simp]:
  "mset (ranking ps) = mset ps" "set (ranking ps) = set ps" "length (ranking ps) = length ps"
  by (auto simp: ranking_def intro!: multiset_eqI simp: count_mset count_stable_sort_by)

lemma sorted_ranking: "sorted (map amount (ranking ps))"
proof -
  have "sorted_wrt (\<lambda>a b. amount a \<le> amount b) (ranking ps)"
    unfolding ranking_def by (rule sorted_stable_sort_by) auto
  then show ?thesis by (simp add: sorted_map)
qed

lemma sort_parsed:
  assumes "list_all (\<lambda>p. lawful_money (bp_value p)) ps"
  shows "stable_sort_by (\<lambda>a b. d_less_equal D (fst a) (fst b)) (map parsed ps) = map parsed (ranking ps)"
  using assms
proof (induction ps)
  case (Cons p ps)
  have "insert_by (\<lambda>a b. d_less_equal D (fst a) (fst b)) (parsed p) (map parsed qs) =
      map parsed (insert_by (\<lambda>a b. amount a \<le> amount b) p qs)"
    if "list_all (\<lambda>p. lawful_money (bp_value p)) qs" for qs
    using that Cons.prems by (induction qs) (auto simp: less_equal_law finite_parsed)
  moreover have "list_all (\<lambda>p. lawful_money (bp_value p)) (ranking ps)" using Cons.prems by (simp add: list_all_iff)
  ultimately show ?case using Cons by (simp add: ranking_def)
qed (simp add: ranking_def)

text \<open>A choice among several, in terms of amounts.\<close>

definition chosen_at :: "price_preference_mode \<Rightarrow> basic_price_candidate list \<Rightarrow> basic_price_candidate" where
  "chosen_at mode ps = ranking ps ! preference_index mode (length ps)"

lemma choose_price_eq:
  assumes "1 < length ps" "list_all (\<lambda>p. bp_freshness_status p \<noteq> Some EXPIRED \<and> lawful_money (bp_value p)) ps"
  shows "choose_price D (Some mode) ps =
    (if mode = MIDDLE \<and> length ps mod 2 = 0 then Inr (Inl MULTI_PRICE_MIDDLE_EVEN_UNRESOLVED)
     else if \<exists>q \<in> set ps. bp_id q \<noteq> bp_id (chosen_at mode ps) \<and> amount q = amount (chosen_at mode ps)
     then Inr (Inl MULTI_PRICE_TIE_UNRESOLVED)
     else Inr (Inr (chosen_at mode ps, PROJECT_PRICE_PREFERENCE mode)))"
proof -
  have lawful: "list_all (\<lambda>p. lawful_money (bp_value p)) ps" using assms(2) by (simp add: list_all_iff)
  have ok: "\<not> list_ex (\<lambda>p. bp_freshness_status p = Some EXPIRED \<or> \<not> lawful_money (bp_value p)) ps"
    using assms(2) by (auto simp: list_all_iff list_ex_iff)
  have i: "preference_index mode (length ps) < length (ranking ps)" using preference_index_less [OF assms(1)] by simp
  then have chosen: "map parsed (ranking ps) ! preference_index mode (length ps) = parsed (chosen_at mode ps)"
    by (simp add: chosen_at_def)
  have "chosen_at mode ps \<in> set ps" using nth_mem [OF i] by (simp add: chosen_at_def)
  then have "d_equals D (fst (parsed q)) (fst (parsed (chosen_at mode ps))) \<longleftrightarrow> amount q = amount (chosen_at mode ps)"
    if "q \<in> set ps" for q using that lawful by (simp add: equals_law finite_parsed list_all_iff)
  then have tie: "list_ex (\<lambda>other. bp_id (snd other) \<noteq> bp_id (chosen_at mode ps) \<and>
      d_equals D (fst other) (fst (parsed (chosen_at mode ps)))) (map parsed (ranking ps)) \<longleftrightarrow>
    (\<exists>q \<in> set ps. bp_id q \<noteq> bp_id (chosen_at mode ps) \<and> amount q = amount (chosen_at mode ps))"
    by (auto simp: list_ex_iff)
  show ?thesis
    using assms(1) by (simp add: choose_price_def ok parse_lawful [OF lawful] Let_def sort_parsed [OF lawful] chosen tie)
qed

lemma chosen_amount_perm:
  assumes "mset ps = mset qs" "1 < length ps"
  shows "amount (chosen_at mode ps) = amount (chosen_at mode qs)"
proof -
  have "mset (map amount (ranking ps)) = mset (map amount (ranking qs))" using assms(1) by simp
  then have "map amount (ranking ps) = map amount (ranking qs)"
    using sorted_ranking properties_for_sort by metis
  moreover have "length ps = length qs" using assms(1) by (metis size_mset)
  ultimately show ?thesis
    using preference_index_less [OF assms(2), of mode] unfolding chosen_at_def
    by (metis length_map nth_map ranking_props(3))
qed

lemma choose_price_perm:
  assumes "mset ps = mset qs" "distinct (map bp_id ps)" "ps \<noteq> []"
  shows "choose_price D preference ps = choose_price D preference qs"
proof (cases "length ps > 1")
  case False
  then obtain p where "ps = [p]" using assms(3) by (cases ps) auto
  then show ?thesis using assms(1) by simp
next
  case True
  have len: "length ps = length qs" and sets: "set ps = set qs" using assms(1) by (metis size_mset, metis set_mset_mset)
  show ?thesis
  proof (cases preference)
    case None
    then show ?thesis using True len by (simp add: choose_price_def)
  next
    case (Some mode)
    show ?thesis
    proof (cases "list_all (\<lambda>p. bp_freshness_status p \<noteq> Some EXPIRED \<and> lawful_money (bp_value p)) ps")
      case False
      then show ?thesis using True len sets Some by (auto simp: choose_price_def list_all_iff list_ex_iff)
    next
      case lawful: True
      let ?p = "chosen_at mode ps" and ?q = "chosen_at mode qs"
      have in_ps: "?p \<in> set ps" "?q \<in> set ps"
        using True len sets nth_mem [of "preference_index mode (length ps)" "ranking ps"]
          nth_mem [of "preference_index mode (length qs)" "ranking qs"] preference_index_less [of "length ps" mode]
        by (simp_all add: chosen_at_def)
      have same: "amount ?p = amount ?q" using chosen_amount_perm [OF assms(1) True] .
      have inj: "a = b" if "a \<in> set ps" "b \<in> set ps" "bp_id a = bp_id b" for a b
        using that assms(2) by (auto simp: distinct_map dest: inj_onD)
      have "(\<exists>x \<in> set ps. bp_id x \<noteq> bp_id ?p \<and> amount x = amount ?p) \<longleftrightarrow>
          (\<exists>x \<in> set ps. bp_id x \<noteq> bp_id ?q \<and> amount x = amount ?q)"
        using in_ps same by metis
      moreover have "?p = ?q" if "\<not> (\<exists>x \<in> set ps. bp_id x \<noteq> bp_id ?p \<and> amount x = amount ?p)"
        using that in_ps same inj by metis
      moreover have "list_all (\<lambda>p. bp_freshness_status p \<noteq> Some EXPIRED \<and> lawful_money (bp_value p)) qs" "1 < length qs"
        using lawful sets True len by (simp_all add: list_all_iff)
      ultimately show ?thesis using choose_price_eq [OF True lawful, of mode] choose_price_eq [of qs mode] Some len sets
        by simp
    qed
  qed
qed

end

lemma mset_singleton: "mset [c] = mset ys \<Longrightarrow> ys = [c]"
  by (metis mset_single_iff_right mset.simps)

lemma mset_eq_same:
  assumes "mset xs = mset ys"
  shows "xs = [] \<longleftrightarrow> ys = []" "length xs = length ys" "list_all P xs \<longleftrightarrow> list_all P ys"
  using assms by (metis mset_zero_iff, metis size_mset, metis list_all_iff set_mset_mset)

context decimal_money
begin

lemma price_against_catalog_perm:
  assumes "mset es = mset (ri_eligible_basic_price_candidates input)" "distinct (map bp_id es)"
  shows "price_against_catalog D (input\<lparr>ri_eligible_basic_price_candidates := es, ri_resource_catalog_candidates := cs\<rparr>)
      catalog reason = price_against_catalog D input catalog reason"
proof -
  define matching where "matching xs = filter (\<lambda>p. bp_resource_id p = rc_id catalog) xs" for xs :: "basic_price_candidate list"
  define proved where "proved xs = filter (unit_proved_price catalog) (matching xs)" for xs
  define compatible where "compatible xs = filter compatible_price (proved xs)" for xs
  let ?xs = "ri_eligible_basic_price_candidates input"
  have m: "mset (matching es) = mset (matching ?xs)" "mset (proved es) = mset (proved ?xs)"
    "mset (compatible es) = mset (compatible ?xs)"
    using assms(1) by (simp_all add: matching_def proved_def compatible_def)
  have "distinct (map bp_id (compatible es))"
    using assms(2) by (simp add: compatible_def proved_def matching_def distinct_map_filter)
  then have choice: "compatible ?xs \<noteq> [] \<Longrightarrow> choose_price D preference (compatible es) = choose_price D preference (compatible ?xs)"
    for preference using choose_price_perm [OF m(3)] mset_eq_same(1) [OF m(3)] by blast
  have others: "base_context_of (input\<lparr>ri_eligible_basic_price_candidates := es, ri_resource_catalog_candidates := cs\<rparr>) = base_context_of input"
    "direct_unit_used (input\<lparr>ri_eligible_basic_price_candidates := es, ri_resource_catalog_candidates := cs\<rparr>) catalog = direct_unit_used input catalog"
    by (simp_all add: base_context_of_def direct_unit_used_def legacy_unit_identity_def split: option.split)
  then have carry: "carry_chosen_price D (input\<lparr>ri_eligible_basic_price_candidates := es, ri_resource_catalog_candidates := cs\<rparr>) catalog =
      carry_chosen_price D input catalog"
    by (intro ext) (simp add: carry_chosen_price_def split: option.split adapted_unit_price.split prod.split)
  let ?input = "input\<lparr>ri_eligible_basic_price_candidates := es, ri_resource_catalog_candidates := cs\<rparr>"
  have fields: "ri_validated_unit_resolution ?input = ri_validated_unit_resolution input"
    "ri_ahsp_unit ?input = ri_ahsp_unit input" "ri_resource_type ?input = ri_resource_type input"
    "ri_eligible_basic_price_candidates ?input = es"
    "ri_price_selection_preference_mode ?input = ri_price_selection_preference_mode input" by simp_all
  have same: "matching es = [] \<longleftrightarrow> matching ?xs = []" "proved es = [] \<longleftrightarrow> proved ?xs = []"
    "compatible es = [] \<longleftrightarrow> compatible ?xs = []" "list_all P (compatible es) \<longleftrightarrow> list_all P (compatible ?xs)" for P
    using mset_eq_same [OF m(1)] mset_eq_same [OF m(2)] mset_eq_same [OF m(3)] by blast+
  show ?thesis
  proof (cases "compatible ?xs = []")
    case True
    then have "compatible es = []" using same(3) by simp
    show ?thesis
      unfolding price_against_catalog_def Let_def others carry fields matching_def [symmetric]
      unfolding proved_def [symmetric] unfolding compatible_def [symmetric] same(1,2) True \<open>compatible es = []\<close> ..
  next
    case False
    show ?thesis
      unfolding price_against_catalog_def Let_def others carry fields matching_def [symmetric]
      unfolding proved_def [symmetric] unfolding compatible_def [symmetric] same choice [OF False] ..
  qed
qed

lemma resolve_price_perm:
  assumes "mset es = mset (ri_eligible_basic_price_candidates input)" "distinct (map bp_id es)"
    and "mset cs = mset (ri_resource_catalog_candidates input)"
  shows "resolve_ahsp_resource_price D (input\<lparr>ri_eligible_basic_price_candidates := es, ri_resource_catalog_candidates := cs\<rparr>) =
    resolve_ahsp_resource_price D input"
proof -
  let ?exact = "filter (\<lambda>c. normalize_resource_name (rc_name c) = normalize_resource_name (bc_raw_resource_ref input) \<and>
    js_upper (context_name (rc_type c)) = js_upper (ri_resource_type input))"
  let ?named = "filter (\<lambda>c. normalize_resource_name (rc_name c) = normalize_resource_name (bc_raw_resource_ref input))"
  have m: "mset (?exact cs) = mset (?exact (ri_resource_catalog_candidates input))"
    "mset (?named cs) = mset (?named (ri_resource_catalog_candidates input))"
    using assms(3) by simp_all
  have hd: "hd (?exact cs) = hd (?exact (ri_resource_catalog_candidates input))"
    if "?exact cs \<noteq> []" "\<not> length (?exact cs) > 1"
  proof -
    from that obtain c where "?exact cs = [c]" by (cases "?exact cs") auto
    then have "mset [c] = mset (?exact (ri_resource_catalog_candidates input))" using m(1) by (simp only:)
    then have "?exact (ri_resource_catalog_candidates input) = [c]" by (rule mset_singleton)
    then show ?thesis using \<open>?exact cs = [c]\<close> by (simp only:)
  qed
  have ctx: "base_context_of (input\<lparr>ri_eligible_basic_price_candidates := es, ri_resource_catalog_candidates := cs\<rparr>) = base_context_of input"
    by (simp add: base_context_of_def)
  show ?thesis
  proof (cases "ri_resolved_identity input")
    case None
    then show ?thesis
      using mset_eq_same [OF m(1)] mset_eq_same [OF m(2)] hd
      by (auto simp: resolve_ahsp_resource_price_def Let_def ctx price_against_catalog_perm [OF assms(1,2)])
  next
    case (Some cr)
    then show ?thesis
      by (cases cr) (simp add: resolve_ahsp_resource_price_def price_against_catalog_perm [OF assms(1,2)])
  qed
qed

end

text \<open>The result does not depend on the order in which the catalog rows and the prices are handed over, which is the
  order the database happened to return them in: with the same rows in any other order, and prices with identifiers of
  their own, the same price is selected or the same refusal is given.\<close>

theorem price_choice_ignores_order:
  assumes "decimal_money D val rnd"
    and "mset es = mset (ri_eligible_basic_price_candidates input)" and "distinct (map bp_id es)"
    and "mset cs = mset (ri_resource_catalog_candidates input)"
  shows "resolve_ahsp_resource_price D (input\<lparr>ri_eligible_basic_price_candidates := es, ri_resource_catalog_candidates := cs\<rparr>) =
    resolve_ahsp_resource_price D input"
  using assms by (rule decimal_money.resolve_price_perm)

section \<open>What a preference means\<close>

lemma sorted_unique_split:
  fixes xs :: "'a list" and f :: "'a \<Rightarrow> 'b :: linorder"
  assumes "sorted (map f xs)" "i < length xs" "\<forall>j < length xs. j \<noteq> i \<longrightarrow> f (xs ! j) \<noteq> f (xs ! i)"
  shows "length (filter (\<lambda>x. f x < f (xs ! i)) xs) = i" "length (filter (\<lambda>x. f (xs ! i) < f x) xs) = length xs - Suc i"
proof -
  have split: "xs = take i xs @ xs ! i # drop (Suc i) xs" using assms(2) by (rule id_take_nth_drop)
  have before: "f x < f (xs ! i)" if x: "x \<in> set (take i xs)" for x
  proof -
    obtain j where "j < length (take i xs)" "x = take i xs ! j" using x unfolding in_set_conv_nth by blast
    then have "j < i" "x = xs ! j" by simp_all
    then show ?thesis using assms sorted_nth_mono [OF assms(1), of j i] by (auto simp: order.strict_iff_order)
  qed
  have after: "f (xs ! i) < f x" if x: "x \<in> set (drop (Suc i) xs)" for x
  proof -
    obtain k where "k < length (drop (Suc i) xs)" "x = drop (Suc i) xs ! k" using x unfolding in_set_conv_nth by blast
    then have "i < Suc i + k" "Suc i + k < length xs" "x = xs ! (Suc i + k)" by simp_all
    then obtain j where "i < j" "j < length xs" "x = xs ! j" by blast
    then have "f (xs ! i) \<le> f x" "f x \<noteq> f (xs ! i)" using sorted_nth_mono [OF assms(1), of i j] assms(3) by auto
    then show ?thesis by simp
  qed
  have parts: "filter P xs = filter P (take i xs) @ filter P (xs ! i # drop (Suc i) xs)" for P
    using split filter_append by metis
  have low: "filter (\<lambda>x. f x < f (xs ! i)) (take i xs) = take i xs" "filter (\<lambda>x. f (xs ! i) < f x) (take i xs) = []"
    using before by (auto simp: filter_id_conv filter_empty_conv dest: less_imp_not_less)
  have high: "filter (\<lambda>x. f x < f (xs ! i)) (drop (Suc i) xs) = []"
    "filter (\<lambda>x. f (xs ! i) < f x) (drop (Suc i) xs) = drop (Suc i) xs"
    using after by (auto simp: filter_id_conv filter_empty_conv dest: less_imp_not_less)
  show "length (filter (\<lambda>x. f x < f (xs ! i)) xs) = i" using assms(2) by (subst parts) (simp add: low high)
  show "length (filter (\<lambda>x. f (xs ! i) < f x) xs) = length xs - Suc i" using assms(2) by (subst parts) (simp add: low high)
qed

text \<open>A function built of tests, sequencing and plain results answers.\<close>

lemma answers:
  "\<exists>r. Inr a = Inr r" "\<exists>r. x = Inr r \<Longrightarrow> \<exists>r. y = Inr r \<Longrightarrow> \<exists>r. (if c then x else y) = Inr r"
  "\<exists>r. z = Inr r \<Longrightarrow> (\<And>v. \<exists>r. f v = Inr r) \<Longrightarrow> \<exists>r. rbind z f = Inr r"
  by auto

context decimal_money
begin

lemma chosen_ranked:
  assumes "choose_price D (Some mode) ps = Inr (Inr (p, r))" "1 < length ps" "distinct (map bp_id ps)"
  shows "p \<in> set ps" "\<forall>q \<in> set ps. q \<noteq> p \<longrightarrow> amount q \<noteq> amount p"
    "length (filter (\<lambda>q. amount q < amount p) ps) = preference_index mode (length ps)"
    "length (filter (\<lambda>q. amount p < amount q) ps) = length ps - Suc (preference_index mode (length ps))"
    "mode = MIDDLE \<longrightarrow> odd (length ps)"
proof -
  let ?i = "preference_index mode (length ps)"
  have lawful: "list_all (\<lambda>p. bp_freshness_status p \<noteq> Some EXPIRED \<and> lawful_money (bp_value p)) ps"
    using assms(1,2) by (auto simp: choose_price_def list_all_iff list_ex_iff split: if_splits)
  note chosen = assms(1) [unfolded choose_price_eq [OF assms(2) lawful]]
  have p: "p = ranking ps ! ?i" "mode = MIDDLE \<longrightarrow> odd (length ps)"
    and no_tie: "\<And>q. q \<in> set ps \<Longrightarrow> bp_id q \<noteq> bp_id p \<Longrightarrow> amount q \<noteq> amount p"
    using chosen by (auto simp: chosen_at_def odd_iff_mod_2_eq_one split: if_splits)
  have i: "?i < length (ranking ps)" using preference_index_less [OF assms(2)] by simp
  show member: "p \<in> set ps" using nth_mem [OF i] p(1) by simp
  show "\<forall>q \<in> set ps. q \<noteq> p \<longrightarrow> amount q \<noteq> amount p"
    using no_tie member assms(3) by (auto simp: distinct_map dest: inj_onD)
  have "distinct (map bp_id (ranking ps))"
    using assms(3) mset_eq_imp_distinct_iff [of "map bp_id (ranking ps)" "map bp_id ps"] by simp
  then have "\<forall>j < length (ranking ps). j \<noteq> ?i \<longrightarrow> bp_id (ranking ps ! j) \<noteq> bp_id (ranking ps ! ?i)"
    using i by (simp add: distinct_conv_nth)
  then have others: "\<forall>j < length (ranking ps). j \<noteq> ?i \<longrightarrow> amount (ranking ps ! j) \<noteq> amount (ranking ps ! ?i)"
    using no_tie p(1) nth_mem [of _ "ranking ps"] by (metis ranking_props(2))
  have filter: "length (filter P (ranking ps)) = length (filter P ps)" for P
    by (metis mset_filter ranking_props(1) size_mset)
  show "length (filter (\<lambda>q. amount q < amount p) ps) = ?i"
    "length (filter (\<lambda>q. amount p < amount q) ps) = length ps - Suc ?i"
    using sorted_unique_split [OF sorted_ranking i others] by (simp_all add: p(1) filter)
  show "mode = MIDDLE \<longrightarrow> odd (length ps)" by (rule p(2))
qed

lemma chosen_by_preference:
  assumes "choose_price D (Some mode) ps = Inr (Inr (p, r))" "1 < length ps" "distinct (map bp_id ps)"
  shows "p \<in> set ps \<and> (\<forall>q \<in> set ps. q \<noteq> p \<longrightarrow> amount q \<noteq> amount p) \<and>
    (case mode of
       LOWEST \<Rightarrow> \<forall>q \<in> set ps. amount p \<le> amount q
     | HIGHEST \<Rightarrow> \<forall>q \<in> set ps. amount q \<le> amount p
     | MIDDLE \<Rightarrow> length (filter (\<lambda>q. amount q < amount p) ps) = length (filter (\<lambda>q. amount p < amount q) ps))"
proof (cases mode)
  case LOWEST
  then have "filter (\<lambda>q. amount q < amount p) ps = []" using chosen_ranked(3) [OF assms] by (simp add: preference_index_def)
  then show ?thesis using chosen_ranked(1,2) [OF assms] LOWEST by (auto simp: filter_empty_conv not_less)
next
  case MIDDLE
  then have "length ps - Suc (length ps div 2) = length ps div 2" using chosen_ranked(5) [OF assms] by presburger
  then show ?thesis using chosen_ranked(1-4) [OF assms] MIDDLE by (simp add: preference_index_def)
next
  case HIGHEST
  then have "filter (\<lambda>q. amount p < amount q) ps = []" using chosen_ranked(4) [OF assms] assms(2) by (simp add: preference_index_def)
  then show ?thesis using chosen_ranked(1,2) [OF assms] HIGHEST by (auto simp: filter_empty_conv not_less)
qed

lemma choose_price_total: "\<exists>choice. choose_price D preference ps = Inr choice"
proof (cases "length ps > 1 \<and> preference \<noteq> None \<and>
    list_all (\<lambda>p. bp_freshness_status p \<noteq> Some EXPIRED \<and> lawful_money (bp_value p)) ps")
  case True
  then show ?thesis using choose_price_eq [of ps] by auto
next
  case False
  then have "list_ex (\<lambda>p. bp_freshness_status p = Some EXPIRED \<or> \<not> lawful_money (bp_value p)) ps \<or>
      \<not> length ps > 1 \<or> preference = None"
    by (auto simp: list_all_iff list_ex_iff)
  then show ?thesis by (auto simp: choose_price_def split: option.splits)
qed

text \<open>The kernel never throws for an outcome of the domain.\<close>

lemma resolve_total: "\<exists>r. resolve_ahsp_resource_price D input = Inr r"
proof -
  have "\<exists>r. price_against_catalog D input catalog reason = Inr r" for catalog reason
    unfolding price_against_catalog_def Let_def by (intro answers choose_price_total)
  then show ?thesis by (auto simp: resolve_ahsp_resource_price_def Let_def split: option.split)
qed

end

text \<open>The preference of a project selects what it says. Among several comparable prices the selected one is no tie, and it
  is the lowest, the highest, or the one with as many cheaper offers as dearer ones.\<close>

theorem price_preference_meaning:
  assumes "decimal_money D val rnd"
    and "choose_price D (Some mode) ps = Inr (Inr (p, reason))" and "1 < length ps" and "distinct (map bp_id ps)"
  shows "p \<in> set ps \<and> (\<forall>q \<in> set ps. q \<noteq> p \<longrightarrow> price_amount D val q \<noteq> price_amount D val p) \<and>
    (case mode of
       LOWEST \<Rightarrow> \<forall>q \<in> set ps. price_amount D val p \<le> price_amount D val q
     | HIGHEST \<Rightarrow> \<forall>q \<in> set ps. price_amount D val q \<le> price_amount D val p
     | MIDDLE \<Rightarrow> length (filter (\<lambda>q. price_amount D val q < price_amount D val p) ps) =
         length (filter (\<lambda>q. price_amount D val p < price_amount D val q) ps))"
  using assms by (rule decimal_money.chosen_by_preference)

section \<open>The instance\<close>

lemma digits_number_all_digits: "all_digits s \<Longrightarrow> \<exists>n. digits_number k s = Some n"
  by (induction s arbitrary: k) (auto simp: all_digits_def)

lemma lawful_money_parses:
  assumes "lawful_money s"
  shows "parse_fixed s \<noteq> None"
proof -
  let ?whole = "takeWhile (\<lambda>c. c \<noteq> CHR ''.'') s" and ?rest = "dropWhile (\<lambda>c. c \<noteq> CHR ''.'') s"
  have zero: "digit_value CHR ''0'' = Some 0" by code_simp
  have minus: "digit_value CHR ''-'' = None" by code_simp
  have lawful: "?whole = ''0'' \<or> ?whole \<noteq> [] \<and> all_digits ?whole" "?rest = [] \<or> all_digits (tl ?rest)"
    using assms unfolding lawful_money_def Let_def by blast+
  have "all_digits ''0''" using zero by (simp add: all_digits_def)
  then have whole: "?whole \<noteq> []" "all_digits ?whole" using lawful(1) by (metis list.distinct(1), metis)
  have "all_digits (tl ?rest)"
  proof (cases "?rest = []")
    case True
    show ?thesis unfolding True by (simp add: all_digits_def)
  qed (use lawful(2) in blast)
  then have rest: "all_digits (drop 1 ?rest)" by (simp only: drop_Suc One_nat_def drop_0)
  have "take 1 s \<noteq> ''-''"
  proof
    assume "take 1 s = ''-''"
    then obtain t where "s = CHR ''-'' # t" by (cases s) auto
    then show False using whole(2) minus by (simp add: all_digits_def)
  qed
  moreover have "all_digits (?whole @ drop 1 ?rest)" using whole rest by (simp add: all_digits_def)
  then obtain n where "digits_number 0 (?whole @ drop 1 ?rest) = Some n" using digits_number_all_digits by blast
  ultimately show ?thesis using whole(1) by (simp add: parse_fixed_def Let_def)
qed

interpretation decimal20_money: decimal_money decimal20 val20 round20
proof unfold_locales
  fix s
  assume "lawful_money s"
  then show "\<exists>d. d_parse decimal20 s = Some d \<and> d_is_finite decimal20 d"
    using lawful_money_parses [of s] by (auto simp: decimal20_simps)
qed

section \<open>Samples\<close>

definition sample_price :: "string \<Rightarrow> string \<Rightarrow> basic_price_candidate" where
  "sample_price name amount_text =
     \<lparr>bp_id = name, bp_resource_id = ''c'', bp_value = amount_text, bp_source_origin = ''SUPPLIER'', bp_unit = ''kg'',
      bp_freshness_status = Some CURRENT,
      bp_unit_resolution = \<lparr>vu_status = RESOLVED, vu_canonical_unit_code = Some ''KG'', vu_quantity_factor = Some ''1'',
        vu_raw_source_unit = ''kg'', vu_raw_target_unit = ''kg'', vu_price_operation = Some IDENTITY\<rparr>\<rparr>"

definition sample_prices :: "basic_price_candidate list" where
  "sample_prices = [sample_price ''p1'' ''1500'', sample_price ''p2'' ''1250.5'', sample_price ''p3'' ''1400.25'']"

definition sample_input :: ahsp_resource_resolution_input where
  "sample_input =
     \<lparr>bc_project_id = ''p'', bc_ahsp_version_id = ''v'', bc_ahsp_resource_id = ''r'', bc_raw_resource_ref = ''Semen  Portland '',
      ri_resource_type = ''material'', ri_ahsp_unit = ''Kg'',
      ri_resource_catalog_candidates =
        [\<lparr>rc_id = ''c'', rc_code = None, rc_name = ''semen portland'', rc_type = MATERIAL, rc_base_unit = ''kg''\<rparr>],
      ri_eligible_basic_price_candidates = sample_prices,
      ri_price_selection_preference_mode = Some MIDDLE,
      ri_validated_unit_resolution = \<lparr>vu_status = RESOLVED, vu_canonical_unit_code = Some ''KG'',
        vu_quantity_factor = Some ''1'', vu_raw_source_unit = ''Kg'', vu_raw_target_unit = ''kg''\<rparr>,
      ri_direct_price_unit_resolution = None, ri_resolved_identity = None\<rparr>"

lemma sample_choice:
  "choose_price decimal20 (Some MIDDLE) sample_prices =
     Inr (Inr (sample_price ''p3'' ''1400.25'', PROJECT_PRICE_PREFERENCE MIDDLE))"
  by code_simp

lemma sample_resolution:
  "\<exists>r. resolve_ahsp_resource_price decimal20 sample_input = Inr (Price_Resolved r) \<and> rr_adapted_price_value r = ''1400.25''"
proof -
  have "(case resolve_ahsp_resource_price decimal20 sample_input of
      Inr (Price_Resolved r) \<Rightarrow> rr_adapted_price_value r = ''1400.25'' | _ \<Rightarrow> False)" by code_simp
  then show ?thesis by (auto split: sum.splits ahsp_resource_resolution_result.splits)
qed

theorem price_preference_meaning_witness:
  "length (filter (\<lambda>q. price_amount decimal20 val20 q < price_amount decimal20 val20 (sample_price ''p3'' ''1400.25'')) sample_prices) =
     length (filter (\<lambda>q. price_amount decimal20 val20 (sample_price ''p3'' ''1400.25'') < price_amount decimal20 val20 q) sample_prices)"
  using price_preference_meaning [OF decimal20_money.decimal_money_axioms sample_choice]
  by (simp add: sample_prices_def sample_price_def)

theorem price_choice_ignores_order_witness:
  "resolve_ahsp_resource_price decimal20 (sample_input\<lparr>ri_eligible_basic_price_candidates := rev sample_prices,
      ri_resource_catalog_candidates := rev (ri_resource_catalog_candidates sample_input)\<rparr>) =
    resolve_ahsp_resource_price decimal20 sample_input"
  by (rule price_choice_ignores_order [OF decimal20_money.decimal_money_axioms])
    (simp_all add: sample_input_def sample_prices_def sample_price_def)

theorem resolved_price_rests_on_evidence_witness:
  "\<exists>(r :: resolved_resolution) catalog reason. rr_adapted_price_value r = ''1400.25'' \<and> settled_catalog sample_input catalog reason \<and>
    (\<exists>p \<in> set sample_prices. rr_selected_basic_price_id r = bp_id p \<and>
      price_carried decimal20 sample_input catalog p (rr_adapted_price_value r))"
proof -
  obtain r where r: "resolve_ahsp_resource_price decimal20 sample_input = Inr (Price_Resolved r)"
    "rr_adapted_price_value r = ''1400.25''" using sample_resolution by blast
  have "ri_eligible_basic_price_candidates sample_input = sample_prices" by (simp add: sample_input_def)
  then obtain catalog reason p where "settled_catalog sample_input catalog reason" "p \<in> set sample_prices"
    "rr_selected_basic_price_id r = bp_id p" "price_carried decimal20 sample_input catalog p (rr_adapted_price_value r)"
    using resolved_price_rests_on_evidence [OF r(1)] by auto
  then show ?thesis using r(2) by blast
qed

end
