(* ===== verification/CostKernel.thy ===== *)
theory CostKernel
  imports UnitPrice
begin

text \<open>
  The cost of a line of a bill of quantities: \<open>project/cost-kernel.contracts.ts\<close>, \<open>project/monetary-unit-identity.ts\<close>,
  \<open>project/cost-kernel-resolution-price.ts\<close>, \<open>project/cost-kernel.kernel.ts\<close> and \<open>project/cost-kernel.service.ts\<close>.

  \<open>calculate_cost_kernel\<close> is the arithmetic on frozen facts, with its gates in the order of the code;
  \<open>calculate_boq_item\<close> and \<open>calculate_boq_items\<close> are the service around it, with the tables of the database as
  lists of rows and a query as a search in its table.

  The properties: the kernel calculates exactly when no gate refuses, and otherwise gives the reason of the first gate
  that does; the result is the exact product and sum whenever no intermediate amount is rounded; a batch gives each
  line the result it has alone, and the total is the sum of the calculated lines.
\<close>

section \<open>Contracts\<close>

datatype cost_calculation_reason =
    BOQ_ITEM_NOT_FOUND | BOQ_ITEM_NOT_WORK_ITEM | INVALID_VOLUME | MISSING_AHSP_VERSION | MISSING_AHSP_OUTPUT_UNIT
  | BOQ_AHSP_UNIT_MISMATCH | OCCURRENCE_NOT_FOUND | AMBIGUOUS_OCCURRENCE | OWNERSHIP_MISMATCH | EMPTY_RESOURCES
  | UNRESOLVED_RESOURCE | MISSING_ADAPTED_PRICE | INVALID_COEFFICIENT | RESOURCE_AHSP_VERSION_MISMATCH
  | INVALID_DECIMAL | INTERNAL_CALCULATION_ERROR

definition COST_CALCULATION_POLICY :: string where
  "COST_CALCULATION_POLICY = ''COST_KERNEL_GRADE_A_V1''"

record cost_kernel_resource_input =
  cr_ahsp_resource_id :: string
  cr_resolution_id :: string
  cr_status :: string
  cr_ahsp_version_id :: string
  cr_coefficient :: string
  cr_adapted_price_value :: "string option"

record frozen_monetary_unit_proof =
  fz_boq_unit_at_selection :: "string option"
  fz_ahsp_output_unit_at_selection :: "string option"
  fz_canonical_output_unit_definition_id :: "string option"

record cost_kernel_input =
  ci_boq_item_id :: string
  ci_ahsp_version_id :: "string option"
  ci_occurrence_id :: "string option"
  ci_occurrence_count :: nat
  ci_item_type :: string
  ci_volume :: string
  ci_boq_unit :: string
  ci_output_unit :: "string option"
  ci_frozen_output_unit_proof :: "frozen_monetary_unit_proof option"
  ci_ownership_matches :: bool
  ci_resources :: "cost_kernel_resource_input list"

record calculated_resource =
  cc_ahsp_resource_id :: string
  cc_resolution_id :: string
  cc_coefficient :: string
  cc_adapted_unit_price :: string
  cc_resource_cost :: string

record cost_calculation_success =
  cs_boq_item_id :: string
  cs_ahsp_version_id :: string
  cs_occurrence_id :: string
  cs_volume :: string
  cs_output_unit :: string
  cs_resources :: "calculated_resource list"
  cs_ahsp_unit_price :: string
  cs_line_total :: string
  cs_currency :: string
  cs_calculation_policy :: string

record cost_calculation_failure =
  cf_boq_item_id :: string
  cf_reason :: cost_calculation_reason
  cf_currency :: string
  cf_calculation_policy :: string

datatype cost_calculation_result = CALCULATED cost_calculation_success | FAIL_CLOSED cost_calculation_failure

definition fail_calculation :: "string \<Rightarrow> cost_calculation_reason \<Rightarrow> cost_calculation_result" where
  "fail_calculation item reason =
     FAIL_CLOSED \<lparr>cf_boq_item_id = item, cf_reason = reason, cf_currency = ''IDR'',
       cf_calculation_policy = COST_CALCULATION_POLICY\<rparr>"

section \<open>The monetary identity of two units\<close>

definition monetary_unit_identity ::
    "(string \<Rightarrow> string) \<Rightarrow> string \<Rightarrow> string option \<Rightarrow> frozen_monetary_unit_proof option
      \<Rightarrow> cost_calculation_reason + string" where
  "monetary_unit_identity nfkc boq_unit output_unit frozen =
     (case output_unit of
        None \<Rightarrow> Inl MISSING_AHSP_OUTPUT_UNIT
      | Some u \<Rightarrow>
          if js_trim u = [] then Inl MISSING_AHSP_OUTPUT_UNIT
          else if normalize_unit_alias nfkc boq_unit \<noteq> normalize_unit_alias nfkc u then
            (case frozen of
               None \<Rightarrow> Inl BOQ_AHSP_UNIT_MISMATCH
             | Some f \<Rightarrow>
                 if truthy (fz_canonical_output_unit_definition_id f) \<and>
                    fz_boq_unit_at_selection f = Some boq_unit \<and>
                    fz_ahsp_output_unit_at_selection f = Some u
                 then Inr u else Inl BOQ_AHSP_UNIT_MISMATCH)
          else Inr u)"

section \<open>The arithmetic\<close>

definition parse_positive_decimal :: "'d decimal_ops \<Rightarrow> string \<Rightarrow> 'd option" where
  "parse_positive_decimal D s =
     (case d_parse D s of
        None \<Rightarrow> None
      | Some d \<Rightarrow> if d_is_finite D d \<and> d_greater_than D d (d_of_int D 0) then Some d else None)"

definition parse_non_negative_decimal :: "'d decimal_ops \<Rightarrow> string \<Rightarrow> 'd option" where
  "parse_non_negative_decimal D s =
     (case d_parse D s of
        None \<Rightarrow> None
      | Some d \<Rightarrow> if d_is_finite D d \<and> d_greater_equal D d (d_of_int D 0) then Some d else None)"

fun sum_resolved_loop ::
    "'d decimal_ops \<Rightarrow> string \<Rightarrow> cost_kernel_resource_input list \<Rightarrow> 'd \<Rightarrow> calculated_resource list
      \<Rightarrow> cost_calculation_reason + 'd \<times> calculated_resource list" where
  "sum_resolved_loop D version [] sum_total resources = Inr (sum_total, resources)"
| "sum_resolved_loop D version (r # rs) sum_total resources =
     (if cr_ahsp_version_id r \<noteq> version then Inl RESOURCE_AHSP_VERSION_MISMATCH
      else if cr_status r \<noteq> ''RESOLVED'' then Inl UNRESOLVED_RESOURCE
      else
        (case cr_adapted_price_value r of
           None \<Rightarrow> Inl MISSING_ADAPTED_PRICE
         | Some price_text \<Rightarrow>
             (case parse_positive_decimal D (cr_coefficient r) of
                None \<Rightarrow> Inl INVALID_COEFFICIENT
              | Some coefficient \<Rightarrow>
                  (case parse_non_negative_decimal D price_text of
                     None \<Rightarrow> Inl INVALID_DECIMAL
                   | Some price \<Rightarrow>
                       (let resource_cost = d_mul D coefficient price
                        in sum_resolved_loop D version rs (d_plus D sum_total resource_cost)
                             (resources @ [\<lparr>cc_ahsp_resource_id = cr_ahsp_resource_id r,
                               cc_resolution_id = cr_resolution_id r,
                               cc_coefficient = d_to_string D coefficient,
                               cc_adapted_unit_price = d_to_string D price,
                               cc_resource_cost = d_to_string D resource_cost\<rparr>]))))))"

definition sum_resolved_resource_costs ::
    "'d decimal_ops \<Rightarrow> string \<Rightarrow> cost_kernel_resource_input list
      \<Rightarrow> cost_calculation_reason + 'd \<times> calculated_resource list" where
  "sum_resolved_resource_costs D version inputs = sum_resolved_loop D version inputs (d_of_int D 0) []"

definition calculate_cost_kernel ::
    "'d decimal_ops \<Rightarrow> (string \<Rightarrow> string) \<Rightarrow> cost_kernel_input \<Rightarrow> cost_calculation_result" where
  "calculate_cost_kernel D nfkc input =
     (let fail = fail_calculation (ci_boq_item_id input)
      in if ci_item_type input \<noteq> ''WORK_ITEM'' then fail BOQ_ITEM_NOT_WORK_ITEM
         else if \<not> ci_ownership_matches input then fail OWNERSHIP_MISMATCH
         else if \<not> truthy (ci_ahsp_version_id input) then fail MISSING_AHSP_VERSION
         else
           (let version = the (ci_ahsp_version_id input)
            in case monetary_unit_identity nfkc (ci_boq_unit input) (ci_output_unit input)
                   (ci_frozen_output_unit_proof input) of
              Inl refusal \<Rightarrow> fail refusal
            | Inr output_unit \<Rightarrow>
                if ci_occurrence_count input = 0 \<or> \<not> truthy (ci_occurrence_id input)
                then fail OCCURRENCE_NOT_FOUND
                else if ci_occurrence_count input \<noteq> 1 then fail AMBIGUOUS_OCCURRENCE
                else if ci_resources input = [] then fail EMPTY_RESOURCES
                else
                  (case parse_positive_decimal D (ci_volume input) of
                     None \<Rightarrow> fail INVALID_VOLUME
                   | Some volume \<Rightarrow>
                       (case sum_resolved_resource_costs D version (ci_resources input) of
                          Inl reason \<Rightarrow> fail reason
                        | Inr (ahsp_unit_price, resources) \<Rightarrow>
                            CALCULATED
                              \<lparr>cs_boq_item_id = ci_boq_item_id input,
                               cs_ahsp_version_id = version,
                               cs_occurrence_id = the (ci_occurrence_id input),
                               cs_volume = d_to_string D volume, cs_output_unit = output_unit,
                               cs_resources = resources,
                               cs_ahsp_unit_price = d_to_string D ahsp_unit_price,
                               cs_line_total = d_to_string D (d_mul D volume ahsp_unit_price),
                               cs_currency = ''IDR'', cs_calculation_policy = COST_CALCULATION_POLICY\<rparr>))))"

section \<open>The frozen price of a resolution\<close>

text \<open>An optional property of an object that may also be \<open>null\<close>.\<close>

datatype 'a nullable = Js_Undefined | Js_Null | Js_Val 'a

definition absent :: "'a nullable \<Rightarrow> bool" where
  "absent x \<longleftrightarrow> x = Js_Null \<or> x = Js_Undefined"

definition falsy_text :: "string nullable \<Rightarrow> bool" where
  "falsy_text x \<longleftrightarrow> absent x \<or> x = Js_Val []"

text \<open>\<open>toString\<close> of a decimal, a number or a string is the text it holds.\<close>

record frozen_resolution =
  fr_price_mode :: "string nullable"
  fr_adapted_price_value :: "string nullable"
  fr_selected_basic_price_id :: "string nullable"
  fr_source_price_value :: "string nullable"
  fr_estimate_policy_id :: "string nullable"
  fr_estimate_policy_version :: "int nullable"
  fr_estimate_percent :: "string nullable"
  fr_estimate_basis_amount :: "string nullable"
  fr_estimate_derived_amount :: "string nullable"
  fr_estimate_approval_reference :: "string nullable"
  fr_estimate_approved_by_account_id :: "string nullable"
  fr_estimate_approved_by_position_id :: "string nullable"
  fr_estimate_authority_code :: "string nullable"
  fr_estimate_approved_at :: "js_date nullable"

definition text_or_null :: "string nullable \<Rightarrow> string option" where
  "text_or_null x = (case x of Js_Val t \<Rightarrow> Some t | _ \<Rightarrow> None)"

definition frozen_kernel_adapted_price :: "'a frozen_resolution_scheme \<Rightarrow> string option" where
  "frozen_kernel_adapted_price resolution =
     (if fr_price_mode resolution \<noteq> Js_Val ''TEMPORARY_ESTIMATE''
      then text_or_null (fr_adapted_price_value resolution)
      else if fr_adapted_price_value resolution = Js_Null \<or>
         fr_selected_basic_price_id resolution \<noteq> Js_Null \<or>
         fr_source_price_value resolution \<noteq> Js_Null \<or>
         falsy_text (fr_estimate_policy_id resolution) \<or>
         absent (fr_estimate_policy_version resolution) \<or>
         absent (fr_estimate_percent resolution) \<or>
         absent (fr_estimate_basis_amount resolution) \<or>
         absent (fr_estimate_derived_amount resolution) \<or>
         falsy_text (fr_estimate_approval_reference resolution) \<or>
         falsy_text (fr_estimate_approved_by_account_id resolution) \<or>
         falsy_text (fr_estimate_approved_by_position_id resolution) \<or>
         falsy_text (fr_estimate_authority_code resolution) \<or>
         absent (fr_estimate_approved_at resolution)
      then None
      else text_or_null (fr_estimate_derived_amount resolution))"

section \<open>The service\<close>

record resolution_row = frozen_resolution +
  rw_ahsp_resource_id :: string
  rw_id :: string
  rw_status :: string
  rw_original_ahsp_version_id :: string
  rw_ahsp_coefficient :: string

record occurrence_row =
  oc_id :: string
  oc_project_id :: string
  oc_workspace_id :: string
  oc_unit_proof :: frozen_monetary_unit_proof
  oc_resource_resolutions :: "resolution_row list"

record boq_item_row =
  bi_id :: string
  bi_project_id :: string
  bi_workspace_id :: "string option"
  bi_ahsp_version_id :: "string option"
  bi_ahsp_version_output_unit :: "string option"
  bi_item_type :: string
  bi_quantity :: string
  bi_unit :: string
  bi_working_occurrence_id :: "string option"

definition build_result ::
    "'d decimal_ops \<Rightarrow> (string \<Rightarrow> string) \<Rightarrow> boq_item_row \<Rightarrow> occurrence_row list \<Rightarrow> string \<Rightarrow> string
      \<Rightarrow> cost_calculation_result" where
  "build_result D nfkc item occurrences project workspace =
     (let occurrence = (case occurrences of [o1] \<Rightarrow> Some o1 | _ \<Rightarrow> None)
      in calculate_cost_kernel D nfkc
        \<lparr>ci_boq_item_id = bi_id item, ci_ahsp_version_id = bi_ahsp_version_id item,
         ci_occurrence_id = map_option oc_id occurrence, ci_occurrence_count = length occurrences,
         ci_item_type = bi_item_type item, ci_volume = bi_quantity item, ci_boq_unit = bi_unit item,
         ci_output_unit = bi_ahsp_version_output_unit item,
         ci_frozen_output_unit_proof = map_option oc_unit_proof occurrence,
         ci_ownership_matches = (bi_project_id item = project \<and> bi_workspace_id item = Some workspace),
         ci_resources =
           (case occurrence of
              None \<Rightarrow> []
            | Some o1 \<Rightarrow>
                map (\<lambda>r. \<lparr>cr_ahsp_resource_id = rw_ahsp_resource_id r, cr_resolution_id = rw_id r,
                  cr_status = rw_status r, cr_ahsp_version_id = rw_original_ahsp_version_id r,
                  cr_coefficient = rw_ahsp_coefficient r,
                  cr_adapted_price_value = frozen_kernel_adapted_price r\<rparr>)
                  (oc_resource_resolutions o1))\<rparr>)"

text \<open>\<open>loadOccurrences\<close>: a \<open>Map\<close> of the rows by identifier, a later row replacing an earlier one.\<close>

definition load_occurrences ::
    "occurrence_row list \<Rightarrow> string list \<Rightarrow> string \<Rightarrow> string \<Rightarrow> (string \<rightharpoonup> occurrence_row)" where
  "load_occurrences table ids project workspace =
     (if ids = [] then Map.empty
      else foldl (\<lambda>m o1. m(oc_id o1 \<mapsto> o1)) Map.empty
        (filter (\<lambda>o1. oc_id o1 \<in> set ids \<and> oc_project_id o1 = project \<and> oc_workspace_id o1 = workspace) table))"

definition occurrences_of_item :: "(string \<rightharpoonup> occurrence_row) \<Rightarrow> boq_item_row \<Rightarrow> occurrence_row list" where
  "occurrences_of_item occurrences item =
     (case bi_working_occurrence_id item of
        None \<Rightarrow> []
      | Some i \<Rightarrow> if i = [] then [] else (case occurrences i of None \<Rightarrow> [] | Some o1 \<Rightarrow> [o1]))"

definition calculate_boq_item ::
    "'d decimal_ops \<Rightarrow> (string \<Rightarrow> string) \<Rightarrow> boq_item_row list \<Rightarrow> occurrence_row list
      \<Rightarrow> string \<Rightarrow> string \<Rightarrow> string \<Rightarrow> cost_calculation_result" where
  "calculate_boq_item D nfkc items occurrence_table boq_item project workspace =
     (case find (\<lambda>item. bi_id item = boq_item \<and> bi_project_id item = project) items of
        None \<Rightarrow> fail_calculation boq_item BOQ_ITEM_NOT_FOUND
      | Some item \<Rightarrow>
          (let ids = (case bi_working_occurrence_id item of None \<Rightarrow> [] | Some i \<Rightarrow> if i = [] then [] else [i]);
               occurrences = load_occurrences occurrence_table ids project workspace
           in build_result D nfkc item (occurrences_of_item occurrences item) project workspace))"

text \<open>\<open>directCostTotal.add(result.lineTotal)\<close> reads the line total back from its text.\<close>

fun direct_cost_total ::
    "'d decimal_ops \<Rightarrow> cost_calculation_result list \<Rightarrow> 'd \<Rightarrow> js_error + 'd" where
  "direct_cost_total D [] sum_total = Inr sum_total"
| "direct_cost_total D (CALCULATED s # results) sum_total =
     (case d_parse D (cs_line_total s) of
        None \<Rightarrow> Inl (Plain_Error ''DecimalError'')
      | Some line_total \<Rightarrow> direct_cost_total D results (d_plus D sum_total line_total))"
| "direct_cost_total D (FAIL_CLOSED _ # results) sum_total = direct_cost_total D results sum_total"

definition calculate_boq_items ::
    "'d decimal_ops \<Rightarrow> (string \<Rightarrow> string) \<Rightarrow> boq_item_row list \<Rightarrow> occurrence_row list
      \<Rightarrow> string list \<Rightarrow> string \<Rightarrow> string \<Rightarrow> js_error + cost_calculation_result list \<times> string" where
  "calculate_boq_items D nfkc items occurrence_table boq_items project workspace =
     (if boq_items = [] then Inr ([], ''0'')
      else
        (let unique_ids = foldl set_add [] boq_items;
             found = filter (\<lambda>item. bi_id item \<in> set unique_ids \<and> bi_project_id item = project) items;
             item_by_id = foldl (\<lambda>m item. m(bi_id item \<mapsto> item)) Map.empty found;
             working_ids = foldl set_add [] (List.map_filter bi_working_occurrence_id found);
             occurrences = load_occurrences occurrence_table working_ids project workspace;
             results = map (\<lambda>boq_item.
               case item_by_id boq_item of
                 None \<Rightarrow> fail_calculation boq_item BOQ_ITEM_NOT_FOUND
               | Some item \<Rightarrow> build_result D nfkc item (occurrences_of_item occurrences item) project workspace)
               boq_items
         in rbind (direct_cost_total D results (d_of_int D 0)) (\<lambda>sum_total. Inr (results, d_to_string D sum_total))))"

section \<open>The gates\<close>

text \<open>
  The kernel as a list of gates, each a reason and the condition under which it refuses, in the order of the code, and as
  the plain formula for the cost of a line.
\<close>

definition positive_amount :: "'d decimal_ops \<Rightarrow> string \<Rightarrow> bool" where
  "positive_amount D s \<longleftrightarrow>
     (case d_parse D s of None \<Rightarrow> False | Some d \<Rightarrow> d_is_finite D d \<and> d_less_than D (d_of_int D 0) d)"

definition non_negative_amount :: "'d decimal_ops \<Rightarrow> string \<Rightarrow> bool" where
  "non_negative_amount D s \<longleftrightarrow>
     (case d_parse D s of None \<Rightarrow> False | Some d \<Rightarrow> d_is_finite D d \<and> d_less_equal D (d_of_int D 0) d)"

definition resource_gates ::
    "'d decimal_ops \<Rightarrow> string option \<Rightarrow> cost_kernel_resource_input \<Rightarrow> (cost_calculation_reason \<times> bool) list" where
  "resource_gates D version r =
     [(RESOURCE_AHSP_VERSION_MISMATCH, Some (cr_ahsp_version_id r) \<noteq> version),
      (UNRESOLVED_RESOURCE, cr_status r \<noteq> ''RESOLVED''),
      (MISSING_ADAPTED_PRICE, cr_adapted_price_value r = None),
      (INVALID_COEFFICIENT, \<not> positive_amount D (cr_coefficient r)),
      (INVALID_DECIMAL, \<not> non_negative_amount D (the (cr_adapted_price_value r)))]"

text \<open>Two units are one for money: spelled alike after normalization, or frozen as one when the analysis was selected.\<close>

definition same_monetary_unit :: "(string \<Rightarrow> string) \<Rightarrow> cost_kernel_input \<Rightarrow> bool" where
  "same_monetary_unit nfkc input \<longleftrightarrow>
     (\<exists>u. ci_output_unit input = Some u \<and>
       (normalize_unit_alias nfkc (ci_boq_unit input) = normalize_unit_alias nfkc u \<or>
        (\<exists>f. ci_frozen_output_unit_proof input = Some f \<and> truthy (fz_canonical_output_unit_definition_id f) \<and>
          fz_boq_unit_at_selection f = Some (ci_boq_unit input) \<and> fz_ahsp_output_unit_at_selection f = Some u)))"

definition cost_gates ::
    "'d decimal_ops \<Rightarrow> (string \<Rightarrow> string) \<Rightarrow> cost_kernel_input \<Rightarrow> (cost_calculation_reason \<times> bool) list" where
  "cost_gates D nfkc input =
     [(BOQ_ITEM_NOT_WORK_ITEM, ci_item_type input \<noteq> ''WORK_ITEM''),
      (OWNERSHIP_MISMATCH, \<not> ci_ownership_matches input),
      (MISSING_AHSP_VERSION, \<not> truthy (ci_ahsp_version_id input)),
      (MISSING_AHSP_OUTPUT_UNIT, \<forall>u. ci_output_unit input = Some u \<longrightarrow> js_trim u = []),
      (BOQ_AHSP_UNIT_MISMATCH, \<not> same_monetary_unit nfkc input),
      (OCCURRENCE_NOT_FOUND, ci_occurrence_count input = 0 \<or> \<not> truthy (ci_occurrence_id input)),
      (AMBIGUOUS_OCCURRENCE, ci_occurrence_count input \<noteq> 1),
      (EMPTY_RESOURCES, ci_resources input = []),
      (INVALID_VOLUME, \<not> positive_amount D (ci_volume input))]
     @ concat (map (resource_gates D (ci_ahsp_version_id input)) (ci_resources input))"

definition first_refusal :: "(cost_calculation_reason \<times> bool) list \<Rightarrow> cost_calculation_reason option" where
  "first_refusal gates = map_option fst (find snd gates)"

lemma first_refusal_simps [simp]:
  "first_refusal [] = None"
  "first_refusal ((reason, refuses) # gates) = (if refuses then Some reason else first_refusal gates)"
  by (simp_all add: first_refusal_def)

definition decimal_of :: "'d decimal_ops \<Rightarrow> string \<Rightarrow> 'd" where
  "decimal_of D s = the (d_parse D s)"

definition resource_cost_of :: "'d decimal_ops \<Rightarrow> cost_kernel_resource_input \<Rightarrow> 'd" where
  "resource_cost_of D r = d_mul D (decimal_of D (cr_coefficient r)) (decimal_of D (the (cr_adapted_price_value r)))"

definition unit_price_of :: "'d decimal_ops \<Rightarrow> cost_kernel_resource_input list \<Rightarrow> 'd" where
  "unit_price_of D rs = foldl (d_plus D) (d_of_int D 0) (map (resource_cost_of D) rs)"

definition line_total_of :: "'d decimal_ops \<Rightarrow> cost_kernel_input \<Rightarrow> 'd" where
  "line_total_of D input = d_mul D (decimal_of D (ci_volume input)) (unit_price_of D (ci_resources input))"

definition calculated_cost :: "'d decimal_ops \<Rightarrow> cost_kernel_input \<Rightarrow> cost_calculation_success" where
  "calculated_cost D input =
     \<lparr>cs_boq_item_id = ci_boq_item_id input, cs_ahsp_version_id = the (ci_ahsp_version_id input),
      cs_occurrence_id = the (ci_occurrence_id input),
      cs_volume = d_to_string D (decimal_of D (ci_volume input)), cs_output_unit = the (ci_output_unit input),
      cs_resources = map (\<lambda>r. \<lparr>cc_ahsp_resource_id = cr_ahsp_resource_id r, cc_resolution_id = cr_resolution_id r,
        cc_coefficient = d_to_string D (decimal_of D (cr_coefficient r)),
        cc_adapted_unit_price = d_to_string D (decimal_of D (the (cr_adapted_price_value r))),
        cc_resource_cost = d_to_string D (resource_cost_of D r)\<rparr>) (ci_resources input),
      cs_ahsp_unit_price = d_to_string D (unit_price_of D (ci_resources input)),
      cs_line_total = d_to_string D (line_total_of D input),
      cs_currency = ''IDR'', cs_calculation_policy = COST_CALCULATION_POLICY\<rparr>"

lemma parse_positive_eq:
  "parse_positive_decimal D s = (if positive_amount D s then Some (decimal_of D s) else None)"
  by (simp add: parse_positive_decimal_def positive_amount_def decimal_of_def d_greater_than_def split: option.split)

lemma parse_non_negative_eq:
  "parse_non_negative_decimal D s = (if non_negative_amount D s then Some (decimal_of D s) else None)"
  by (simp add: parse_non_negative_decimal_def non_negative_amount_def decimal_of_def d_greater_equal_def split: option.split)

lemma sum_resolved_loop_eq:
  "sum_resolved_loop D version rs sum_total resources =
     (case first_refusal (concat (map (resource_gates D (Some version)) rs)) of
        Some reason \<Rightarrow> Inl reason
      | None \<Rightarrow> Inr (foldl (d_plus D) sum_total (map (resource_cost_of D) rs),
          resources @ map (\<lambda>r. \<lparr>cc_ahsp_resource_id = cr_ahsp_resource_id r, cc_resolution_id = cr_resolution_id r,
            cc_coefficient = d_to_string D (decimal_of D (cr_coefficient r)),
            cc_adapted_unit_price = d_to_string D (decimal_of D (the (cr_adapted_price_value r))),
            cc_resource_cost = d_to_string D (resource_cost_of D r)\<rparr>) rs))"
proof (induction rs arbitrary: sum_total resources)
  case (Cons r rs)
  show ?case
  proof (cases "cr_adapted_price_value r")
    case None
    then show ?thesis by (simp add: resource_gates_def)
  next
    case (Some p)
    then have "d_mul D (decimal_of D (cr_coefficient r)) (decimal_of D p) = resource_cost_of D r"
      by (simp add: resource_cost_of_def)
    with Some show ?thesis
      by (auto simp: Cons.IH resource_gates_def parse_positive_eq parse_non_negative_eq Let_def split: option.split)
  qed
qed simp

lemma monetary_unit_identity_eq:
  "monetary_unit_identity nfkc (ci_boq_unit input) (ci_output_unit input) (ci_frozen_output_unit_proof input) =
     (if \<forall>u. ci_output_unit input = Some u \<longrightarrow> js_trim u = [] then Inl MISSING_AHSP_OUTPUT_UNIT
      else if \<not> same_monetary_unit nfkc input then Inl BOQ_AHSP_UNIT_MISMATCH
      else Inr (the (ci_output_unit input)))"
  by (auto simp: monetary_unit_identity_def same_monetary_unit_def split: option.split)

lemma calculate_cost_kernel_eq:
  "calculate_cost_kernel D nfkc input =
     (case first_refusal (cost_gates D nfkc input) of
        Some reason \<Rightarrow> fail_calculation (ci_boq_item_id input) reason
      | None \<Rightarrow> CALCULATED (calculated_cost D input))"
  by (auto simp: calculate_cost_kernel_def cost_gates_def monetary_unit_identity_eq parse_positive_eq Let_def
    sum_resolved_resource_costs_def sum_resolved_loop_eq calculated_cost_def line_total_of_def unit_price_of_def
    truthy_def split: option.split)

text \<open>C30: The kernel calculates exactly when none of its gates refuses, and then every amount is the plain formula: the unit
  price is the sum of coefficient times adapted price over the resources, the line total the volume times the unit price.
  Otherwise it fails closed with the reason of the first gate that refuses, in the order item type, ownership, analysis,
  output unit, unit identity, occurrence, resources, volume, and then the resources one by one.\<close>

theorem cost_kernel_is_its_gates:
  "calculate_cost_kernel D nfkc input =
     (case first_refusal (cost_gates D nfkc input) of
        Some reason \<Rightarrow> fail_calculation (ci_boq_item_id input) reason
      | None \<Rightarrow> CALCULATED (calculated_cost D input))"
  by (rule calculate_cost_kernel_eq)

section \<open>Exactness\<close>

lemma sum_mset_of_map: "(\<Sum>q \<in># mset (map f xs). g q) = (\<Sum>x \<leftarrow> xs. g (f x))"
  by (induction xs) simp_all

context decimal_arith
begin

lemma finite_summands: "d_is_finite D (foldl (d_plus D) a qs) \<Longrightarrow> q \<in> set qs \<Longrightarrow> d_is_finite D q"
proof (induction qs arbitrary: a)
  case (Cons p qs)
  then show ?case using fin_foldl_plus [of "d_plus D a p" qs] plus_law [of a p] by auto
qed simp

lemma line_total_exact:
  assumes "d_is_finite D (line_total_of D input)"
    and products: "\<forall>r \<in> set (ci_resources input). rnd (val (decimal_of D (cr_coefficient r)) * val (decimal_of D (the (cr_adapted_price_value r)))) =
      val (decimal_of D (cr_coefficient r)) * val (decimal_of D (the (cr_adapted_price_value r)))"
    and sums: "exact_sums rnd val (mset (map (resource_cost_of D) (ci_resources input)))"
  shows "val (line_total_of D input) = rnd (val (decimal_of D (ci_volume input)) *
    (\<Sum>r \<leftarrow> ci_resources input. val (decimal_of D (cr_coefficient r)) * val (decimal_of D (the (cr_adapted_price_value r)))))"
proof -
  have unit: "d_is_finite D (unit_price_of D (ci_resources input))"
    and t: "val (line_total_of D input) = rnd (val (decimal_of D (ci_volume input)) * val (unit_price_of D (ci_resources input)))"
    using mul_law [of "decimal_of D (ci_volume input)" "unit_price_of D (ci_resources input)"] assms(1)
    by (simp_all add: line_total_of_def)
  have cost: "val (resource_cost_of D r) = val (decimal_of D (cr_coefficient r)) * val (decimal_of D (the (cr_adapted_price_value r)))"
    if "r \<in> set (ci_resources input)" for r
  proof -
    have "d_is_finite D (resource_cost_of D r)" using finite_summands [OF unit [unfolded unit_price_of_def]] that by simp
    then show ?thesis using products that
        mul_law [of "decimal_of D (cr_coefficient r)" "decimal_of D (the (cr_adapted_price_value r))"]
      by (simp add: resource_cost_of_def)
  qed
  have "val (unit_price_of D (ci_resources input)) = (\<Sum>q \<in># mset (map (resource_cost_of D) (ci_resources input)). val q)"
    using foldl_plus_exact [OF unit [unfolded unit_price_of_def], of "{#}"] sums by (simp add: unit_price_of_def)
  also have "\<dots> = (\<Sum>r \<leftarrow> ci_resources input. val (resource_cost_of D r))"
    by (rule sum_mset_of_map)
  also have "\<dots> = (\<Sum>r \<leftarrow> ci_resources input. val (decimal_of D (cr_coefficient r)) * val (decimal_of D (the (cr_adapted_price_value r))))"
    using cost by (simp cong: map_cong)
  finally show ?thesis using t by simp
qed

end

text \<open>C31: No amount of a line is rounded on the way: when every product of a resource and every sum of them fits the precision
  of the decimal library, the line total is the volume times the sum of coefficient times price, rounded at most once, by
  the last multiplication.\<close>

theorem line_total_is_rounded_once:
  assumes "decimal_arith D val rnd"
    and "calculate_cost_kernel D nfkc input = CALCULATED s"
    and "d_is_finite D (line_total_of D input)"
    and "\<forall>r \<in> set (ci_resources input). rnd (val (decimal_of D (cr_coefficient r)) * val (decimal_of D (the (cr_adapted_price_value r)))) =
      val (decimal_of D (cr_coefficient r)) * val (decimal_of D (the (cr_adapted_price_value r)))"
    and "exact_sums rnd val (mset (map (resource_cost_of D) (ci_resources input)))"
  shows "cs_line_total s = d_to_string D (line_total_of D input) \<and>
    val (line_total_of D input) = rnd (val (decimal_of D (ci_volume input)) *
      (\<Sum>r \<leftarrow> ci_resources input. val (decimal_of D (cr_coefficient r)) * val (decimal_of D (the (cr_adapted_price_value r)))))"
proof -
  have "s = calculated_cost D input"
    using assms(2) unfolding calculate_cost_kernel_eq by (auto simp: fail_calculation_def split: option.splits)
  then show ?thesis using decimal_arith.line_total_exact [OF assms(1,3-5)] by (simp add: calculated_cost_def)
qed

section \<open>The batch\<close>

lemma find_append: "find P (xs @ ys) = (case find P xs of None \<Rightarrow> find P ys | Some x \<Rightarrow> Some x)"
  by (induction xs) auto

lemma foldl_map_upd:
  "foldl (\<lambda>m x. m(key x \<mapsto> x)) m xs k = (case find (\<lambda>x. key x = k) (rev xs) of None \<Rightarrow> m k | Some x \<Rightarrow> Some x)"
  by (induction xs arbitrary: m) (auto simp: find_append split: option.splits)

lemma find_rev_distinct:
  assumes "distinct (map key xs)"
  shows "find (\<lambda>x. key x = k) (rev xs) = find (\<lambda>x. key x = k) xs"
  using assms
proof (induction xs)
  case (Cons x xs)
  show ?case
  proof (cases "key x = k")
    case True
    then have "find (\<lambda>x. key x = k) xs = None" using Cons.prems unfolding find_None_iff by (metis distinct.simps(2) image_eqI list.map(2) set_map)
    then show ?thesis using Cons True by (simp add: find_append)
  next
    case False
    then show ?thesis using Cons by (simp add: find_append split: option.split)
  qed
qed simp

lemma find_filter: "find P (filter Q xs) = find (\<lambda>x. Q x \<and> P x) xs"
  by (induction xs) auto

lemma load_occurrences_lookup:
  assumes "i \<in> set ids"
  shows "load_occurrences table ids project workspace i =
    find (\<lambda>o1. (oc_project_id o1 = project \<and> oc_workspace_id o1 = workspace) \<and> oc_id o1 = i) (rev table)"
proof -
  have "load_occurrences table ids project workspace i =
      find (\<lambda>o1. (oc_id o1 \<in> set ids \<and> oc_project_id o1 = project \<and> oc_workspace_id o1 = workspace) \<and> oc_id o1 = i) (rev table)"
    using assms by (auto simp: load_occurrences_def foldl_map_upd rev_filter find_filter split: option.split)
  also have "(\<lambda>o1. (oc_id o1 \<in> set ids \<and> oc_project_id o1 = project \<and> oc_workspace_id o1 = workspace) \<and> oc_id o1 = i) =
      (\<lambda>o1. (oc_project_id o1 = project \<and> oc_workspace_id o1 = workspace) \<and> oc_id o1 = i)"
    using assms by auto
  finally show ?thesis .
qed

text \<open>The amounts of the calculated lines, in order.\<close>

definition line_amounts :: "'d decimal_ops \<Rightarrow> cost_calculation_result list \<Rightarrow> 'd list" where
  "line_amounts D results =
     List.map_filter (\<lambda>r. case r of CALCULATED s \<Rightarrow> d_parse D (cs_line_total s) | FAIL_CLOSED _ \<Rightarrow> None) results"

lemma direct_cost_total_eq:
  assumes "direct_cost_total D results t = Inr u"
  shows "u = foldl (d_plus D) t (line_amounts D results)"
  using assms
  by (induction D results t rule: direct_cost_total.induct)
    (auto simp: line_amounts_def List.map_filter_simps split: option.splits)

lemma working_id_listed:
  assumes "item \<in> set found" "bi_working_occurrence_id item = Some i"
  shows "i \<in> set (foldl set_add [] (List.map_filter bi_working_occurrence_id found))"
  using assms by (force simp: foldl_set_add(1) List.map_filter_def)

lemma batch_occurrences:
  assumes "item \<in> set found"
  shows "occurrences_of_item (load_occurrences table
      (foldl set_add [] (List.map_filter bi_working_occurrence_id found)) project workspace) item =
    occurrences_of_item (load_occurrences table
      (case bi_working_occurrence_id item of None \<Rightarrow> [] | Some i \<Rightarrow> if i = [] then [] else [i]) project workspace) item"
  using working_id_listed [OF assms]
  by (auto simp: occurrences_of_item_def load_occurrences_lookup split: option.split)

text \<open>A batch is its lines. Every requested line gets, in the order of the request, exactly the result it gets when it is
  calculated alone, whether it is calculated, refused or unknown, so no line can disturb another; and the direct cost is
  the sum of the totals of the calculated lines.\<close>

theorem boq_batch_is_single_calls:
  assumes "distinct (map bi_id items)"
    and "calculate_boq_items D nfkc items occurrences boq_items project workspace = Inr (results, direct_cost)"
  shows "results = map (\<lambda>boq_item. calculate_boq_item D nfkc items occurrences boq_item project workspace) boq_items \<and>
    direct_cost = (if boq_items = [] then ''0''
      else d_to_string D (foldl (d_plus D) (d_of_int D 0) (line_amounts D results)))"
proof (cases "boq_items = []")
  case True
  then show ?thesis using assms(2) by (simp add: calculate_boq_items_def)
next
  case False
  let ?found = "filter (\<lambda>item. bi_id item \<in> set (foldl set_add [] boq_items) \<and> bi_project_id item = project) items"
  let ?by_id = "foldl (\<lambda>m item. m(bi_id item \<mapsto> item)) Map.empty ?found"
  let ?occurrences = "load_occurrences occurrences (foldl set_add [] (List.map_filter bi_working_occurrence_id ?found)) project workspace"
  have lookup: "?by_id boq_item = find (\<lambda>item. bi_id item = boq_item \<and> bi_project_id item = project) items"
    if "boq_item \<in> set boq_items" for boq_item
  proof -
    have "distinct (map bi_id ?found)" using assms(1) by (simp add: distinct_map_filter)
    then have "?by_id boq_item = find (\<lambda>item. bi_id item = boq_item) ?found"
      unfolding foldl_map_upd by (simp add: find_rev_distinct split: option.split)
    also have "\<dots> = find (\<lambda>item. bi_id item = boq_item \<and> bi_project_id item = project) items"
      unfolding find_filter using that by (intro arg_cong [where f = "\<lambda>P. find P items"]) (auto simp: foldl_set_add(1))
    finally show ?thesis .
  qed
  have line: "(case ?by_id boq_item of
        None \<Rightarrow> fail_calculation boq_item BOQ_ITEM_NOT_FOUND
      | Some item \<Rightarrow> build_result D nfkc item (occurrences_of_item ?occurrences item) project workspace) =
    calculate_boq_item D nfkc items occurrences boq_item project workspace" if "boq_item \<in> set boq_items" for boq_item
  proof (cases "?by_id boq_item")
    case None
    then show ?thesis using lookup [OF that] by (simp add: calculate_boq_item_def)
  next
    case (Some item)
    then have f: "find (\<lambda>item. bi_id item = boq_item \<and> bi_project_id item = project) items = Some item"
      using lookup [OF that] by simp
    then have "item \<in> set ?found" using that by (auto simp: find_Some_iff foldl_set_add(1))
    then show ?thesis using batch_occurrences [of item ?found] Some f by (simp add: calculate_boq_item_def Let_def)
  qed
  have "results = map (\<lambda>boq_item. case ?by_id boq_item of
        None \<Rightarrow> fail_calculation boq_item BOQ_ITEM_NOT_FOUND
      | Some item \<Rightarrow> build_result D nfkc item (occurrences_of_item ?occurrences item) project workspace) boq_items"
    and total_line: "\<exists>t. direct_cost_total D results (d_of_int D 0) = Inr t \<and> direct_cost = d_to_string D t"
    using assms(2) False unfolding calculate_boq_items_def Let_def by (auto simp: rbind_eq_Inr_iff)
  moreover from total_line have "direct_cost = d_to_string D (foldl (d_plus D) (d_of_int D 0) (line_amounts D results))"
    by (auto dest: direct_cost_total_eq)
  ultimately show ?thesis using line False by simp
qed

section \<open>Samples\<close>

definition sample_resolution_row :: "string \<Rightarrow> string \<Rightarrow> string \<Rightarrow> resolution_row" where
  "sample_resolution_row name coefficient price =
     \<lparr>fr_price_mode = Js_Null, fr_adapted_price_value = Js_Val price, fr_selected_basic_price_id = Js_Val ''b'',
      fr_source_price_value = Js_Val price, fr_estimate_policy_id = Js_Null, fr_estimate_policy_version = Js_Null,
      fr_estimate_percent = Js_Null, fr_estimate_basis_amount = Js_Null, fr_estimate_derived_amount = Js_Null,
      fr_estimate_approval_reference = Js_Null, fr_estimate_approved_by_account_id = Js_Null,
      fr_estimate_approved_by_position_id = Js_Null, fr_estimate_authority_code = Js_Null,
      fr_estimate_approved_at = Js_Null,
      rw_ahsp_resource_id = name, rw_id = name, rw_status = ''RESOLVED'', rw_original_ahsp_version_id = ''v'',
      rw_ahsp_coefficient = coefficient\<rparr>"

definition sample_occurrence :: occurrence_row where
  "sample_occurrence =
     \<lparr>oc_id = ''o'', oc_project_id = ''p'', oc_workspace_id = ''w'',
      oc_unit_proof = \<lparr>fz_boq_unit_at_selection = None, fz_ahsp_output_unit_at_selection = None,
        fz_canonical_output_unit_definition_id = None\<rparr>,
      oc_resource_resolutions = [sample_resolution_row ''r1'' ''2'' ''15'', sample_resolution_row ''r2'' ''3'' ''0'']\<rparr>"

definition sample_boq_item :: "string \<Rightarrow> string \<Rightarrow> boq_item_row" where
  "sample_boq_item name item_type =
     \<lparr>bi_id = name, bi_project_id = ''p'', bi_workspace_id = Some ''w'', bi_ahsp_version_id = Some ''v'',
      bi_ahsp_version_output_unit = Some ''M3'', bi_item_type = item_type, bi_quantity = ''4'', bi_unit = '' m3'',
      bi_working_occurrence_id = Some ''o''\<rparr>"

definition sample_items :: "boq_item_row list" where
  "sample_items = [sample_boq_item ''i'' ''WORK_ITEM'', sample_boq_item ''f'' ''FOLDER'']"

lemma sample_batch:
  "\<exists>results. calculate_boq_items decimal20 latin_nfkc sample_items [sample_occurrence] [''i'', ''f'', ''x'', ''i''] ''p'' ''w'' =
     Inr (results, ''240.00000000000000000000'')"
proof -
  have "case calculate_boq_items decimal20 latin_nfkc sample_items [sample_occurrence] [''i'', ''f'', ''x'', ''i''] ''p'' ''w''
    of Inr (results, t) \<Rightarrow> t = ''240.00000000000000000000'' | _ \<Rightarrow> False"
    by code_simp
  then show ?thesis by (auto split: sum.splits)
qed

theorem boq_batch_is_single_calls_witness:
  "''240.00000000000000000000'' = d_to_string decimal20 (foldl (d_plus decimal20) (d_of_int decimal20 0) (line_amounts decimal20
    (map (\<lambda>boq_item. calculate_boq_item decimal20 latin_nfkc sample_items [sample_occurrence] boq_item ''p'' ''w'')
      [''i'', ''f'', ''x'', ''i''])))"
proof -
  obtain results where r: "calculate_boq_items decimal20 latin_nfkc sample_items [sample_occurrence]
      [''i'', ''f'', ''x'', ''i''] ''p'' ''w'' = Inr (results, ''240.00000000000000000000'')" using sample_batch by blast
  have "distinct (map bi_id sample_items)" by (simp add: sample_items_def sample_boq_item_def)
  from boq_batch_is_single_calls [OF this r] show ?thesis by (simp only: list.distinct if_False)
qed

definition sample_cost_input :: cost_kernel_input where
  "sample_cost_input =
     \<lparr>ci_boq_item_id = ''i'', ci_ahsp_version_id = Some ''v'', ci_occurrence_id = Some ''o'', ci_occurrence_count = 1,
      ci_item_type = ''WORK_ITEM'', ci_volume = ''4'', ci_boq_unit = ''m3'', ci_output_unit = Some ''M3'',
      ci_frozen_output_unit_proof = None, ci_ownership_matches = True,
      ci_resources =
        [\<lparr>cr_ahsp_resource_id = ''r1'', cr_resolution_id = ''r1'', cr_status = ''RESOLVED'', cr_ahsp_version_id = ''v'',
          cr_coefficient = ''2'', cr_adapted_price_value = Some ''15''\<rparr>,
         \<lparr>cr_ahsp_resource_id = ''r2'', cr_resolution_id = ''r2'', cr_status = ''RESOLVED'', cr_ahsp_version_id = ''v'',
          cr_coefficient = ''3'', cr_adapted_price_value = Some ''7''\<rparr>]\<rparr>"

lemma exact_sums_of_ints:
  assumes "\<forall>q \<in># M. val20 q = of_int (f q) \<and> 0 \<le> f q" "(\<Sum>q \<in># M. f q) < 10 ^ 20"
  shows "exact_sums round20 val20 M"
  unfolding exact_sums_def
proof (intro allI impI)
  fix N assume "N \<subseteq># M"
  then obtain K where M: "M = N + K" by (auto simp: subset_mset.le_iff_add)
  have sums: "(\<forall>q \<in># L. val20 q = of_int (f q) \<and> 0 \<le> f q) \<Longrightarrow>
      (\<Sum>q \<in># L. val20 q) = of_int (\<Sum>q \<in># L. f q) \<and> 0 \<le> (\<Sum>q \<in># L. f q)" for L
    by (induction L) auto
  have "(\<Sum>q \<in># N. val20 q) = of_int (\<Sum>q \<in># N. f q)" "0 \<le> (\<Sum>q \<in># N. f q)" "0 \<le> (\<Sum>q \<in># K. f q)"
    using sums [of N] sums [of K] assms(1) M by auto
  then show "round20 (\<Sum>q \<in># N. val20 q) = (\<Sum>q \<in># N. val20 q)"
    using round20_small_int [of "\<Sum>q \<in># N. f q"] assms(2) M by simp
qed

lemma sample_decimals:
  "decimal_of decimal20 ''2'' = Some 2" "decimal_of decimal20 ''3'' = Some 3" "decimal_of decimal20 ''4'' = Some 4"
  "decimal_of decimal20 ''7'' = Some 7" "decimal_of decimal20 ''15'' = Some 15"
  by code_simp+

lemma sample_costs:
  "map (resource_cost_of decimal20) (ci_resources sample_cost_input) = [Some 30, Some 21]"
  "unit_price_of decimal20 (ci_resources sample_cost_input) = Some 51"
  "line_total_of decimal20 sample_cost_input = Some 204"
  by (simp_all add: sample_cost_input_def resource_cost_of_def unit_price_of_def line_total_of_def sample_decimals
    decimal20_simps round20_values)

theorem line_total_is_rounded_once_witness:
  "\<exists>s. calculate_cost_kernel decimal20 latin_nfkc sample_cost_input = CALCULATED s \<and>
    cs_line_total s = d_to_string decimal20 (Some 204) \<and> val20 (Some 204) = round20 (4 * (2 * 15 + 3 * 7))"
proof -
  have "case calculate_cost_kernel decimal20 latin_nfkc sample_cost_input of CALCULATED _ \<Rightarrow> True | _ \<Rightarrow> False"
    by code_simp
  then obtain s where s: "calculate_cost_kernel decimal20 latin_nfkc sample_cost_input = CALCULATED s"
    by (auto split: cost_calculation_result.splits)
  have "exact_sums round20 val20 (mset [Some 30, Some 21])"
    by (rule exact_sums_of_ints [where f = "\<lambda>q. if q = Some 30 then 30 else 21"]) (simp_all add: val20_def)
  then show ?thesis
    using line_total_is_rounded_once [OF decimal20_arith.decimal_arith_axioms s] s
    unfolding sample_costs
    by (simp add: sample_cost_input_def sample_decimals val20_def round20_values decimal20_simps)
qed

end
