(* ===== verification/ProjectAccess.thy ===== *)
theory ProjectAccess
  imports ExecutionPlan
begin

text \<open>
  Who may touch a project: \<open>auth/project-access-policy.service.ts\<close>.

  The tables the access and the authority questions read are lists of rows in \<open>org_tables\<close>; a relation of the
  schema is a lookup by identifier, a query the filter its \<open>where\<close> describes. The list view and the guard of the
  project routes use one predicate; the property is that they cannot drift apart.
\<close>

section \<open>The tables\<close>

datatype membership_status =
    Membership_Invited | Membership_Pending | Membership_Active | Membership_Suspended | Membership_Inactive
  | Membership_Expired | Membership_Rejected

datatype account_status = Account_Pending | Account_Active | Account_Suspended | Account_Deactivated

datatype user_status = User_Active | User_Inactive | User_Suspended | User_Archived

datatype assignment_status = Assignment_Assigned | Assignment_Inactive | Assignment_Removed

record membership_row =
  mb_id :: string
  mb_account_id :: string
  mb_workspace_id :: string
  mb_status :: membership_status
  mb_role_codes :: "(string \<times> bool) list"

record account_row =
  ac_id :: string
  ac_status :: account_status

record user_row =
  us_id :: string
  us_membership_id :: string
  us_status :: user_status

record project_row =
  pj_id :: string
  pj_workspace_id :: string
  pj_organization_id :: string
  pj_status :: project_status
  pj_deleted_at :: "int option"

record organization_row =
  og_id :: string
  og_name :: string

record project_assignment_row =
  pa_id :: string
  pa_membership_id :: string
  pa_project_id :: string
  pa_role_in_project :: string
  pa_is_primary :: bool
  pa_assigned_at :: int
  pa_revoked_at :: "int option"
  pa_status :: assignment_status

record position_row =
  ps_id :: string
  ps_workspace_id :: string
  ps_code :: string
  ps_name :: string

record position_assignment_row =
  as_user_id :: string
  as_position_id :: string
  as_is_active :: bool
  as_removed_at :: "int option"
  as_assigned_at :: int

record authority_row =
  au_id :: string
  au_code :: string

record position_authority_row =
  gr_position_id :: string
  gr_authority_id :: string
  gr_is_active :: bool
  gr_revoked_at :: "int option"

record 'd approval_matrix_row =
  am_workspace_id :: string
  am_authority_id :: string
  am_object_type :: string
  am_required_position_id :: string
  am_min_value :: "'d option"
  am_max_value :: "'d option"
  am_is_active :: bool

record 'd org_tables =
  t_memberships :: "membership_row list"
  t_accounts :: "account_row list"
  t_users :: "user_row list"
  t_projects :: "project_row list"
  t_organizations :: "organization_row list"
  t_project_assignments :: "project_assignment_row list"
  t_positions :: "position_row list"
  t_position_assignments :: "position_assignment_row list"
  t_authorities :: "authority_row list"
  t_position_authorities :: "position_authority_row list"
  t_approval_matrix :: "'d approval_matrix_row list"

section \<open>The policy\<close>

record project_access_context =
  pc_project_id :: string
  pc_workspace_id :: string
  pc_project_status :: project_status
  pc_membership_id :: string
  pc_assignment_id :: string
  pc_role_in_project :: string
  pc_is_primary_assignment :: bool
  pc_roles :: "string list"

datatype project_access_resolution =
    Access_Granted project_access_context | Access_Project_Not_Found | Access_Membership_Not_Found
  | Access_Assignment_Required

definition find_eligible_membership ::
    "('d, 'a) org_tables_scheme \<Rightarrow> string \<Rightarrow> string \<Rightarrow> membership_row option" where
  "find_eligible_membership t account workspace =
     (case find (\<lambda>m. mb_account_id m = account \<and> mb_workspace_id m = workspace) (t_memberships t) of
        None \<Rightarrow> None
      | Some m \<Rightarrow>
          if mb_status m \<noteq> Membership_Active \<or> find (\<lambda>u. us_membership_id u = mb_id m) (t_users t) = None then None
          else Some m)"

definition project_of_assignment :: "('d, 'a) org_tables_scheme \<Rightarrow> project_assignment_row \<Rightarrow> project_row option" where
  "project_of_assignment t a = find (\<lambda>p. pj_id p = pa_project_id a) (t_projects t)"

definition active_assignment ::
    "('d, 'a) org_tables_scheme \<Rightarrow> string \<Rightarrow> string \<Rightarrow> string option \<Rightarrow> project_assignment_row \<Rightarrow> bool" where
  "active_assignment t membership workspace project a \<longleftrightarrow>
     pa_membership_id a = membership \<and> pa_status a = Assignment_Assigned \<and> pa_revoked_at a = None \<and>
     (truthy project \<longrightarrow> pa_project_id a = the project) \<and>
     (case project_of_assignment t a of
        None \<Rightarrow> False
      | Some p \<Rightarrow> pj_workspace_id p = workspace \<and> pj_deleted_at p = None)"

definition find_assigned_access ::
    "('d, 'a) org_tables_scheme \<Rightarrow> string \<Rightarrow> string \<Rightarrow> string option
      \<Rightarrow> (membership_row \<times> project_assignment_row list) option" where
  "find_assigned_access t account workspace project =
     (case find_eligible_membership t account workspace of
        None \<Rightarrow> None
      | Some m \<Rightarrow>
          Some (m, stable_sort_by (\<lambda>a b. pa_assigned_at b \<le> pa_assigned_at a)
            (filter (active_assignment t (mb_id m) workspace project) (t_project_assignments t))))"

definition resolve_project_access ::
    "('d, 'a) org_tables_scheme \<Rightarrow> string \<Rightarrow> string \<Rightarrow> project_access_resolution" where
  "resolve_project_access t account pid =
     (case find (\<lambda>p. pj_id p = pid) (t_projects t) of
        None \<Rightarrow> Access_Project_Not_Found
      | Some project \<Rightarrow>
          if pj_deleted_at project \<noteq> None then Access_Project_Not_Found
          else
            (case find_assigned_access t account (pj_workspace_id project) (Some (pj_id project)) of
               None \<Rightarrow> Access_Membership_Not_Found
             | Some (m, []) \<Rightarrow> Access_Assignment_Required
             | Some (m, a # _) \<Rightarrow>
                 Access_Granted
                   \<lparr>pc_project_id = pj_id project, pc_workspace_id = pj_workspace_id project,
                    pc_project_status = pj_status project, pc_membership_id = mb_id m, pc_assignment_id = pa_id a,
                    pc_role_in_project = pa_role_in_project a, pc_is_primary_assignment = pa_is_primary a,
                    pc_roles = map fst (filter snd (mb_role_codes m))\<rparr>))"

record accessible_project =
  ap_project :: project_row
  ap_organization_name :: "string option"
  ap_assignment_id :: string
  ap_role_in_project :: string
  ap_is_primary_assignment :: bool
  ap_assigned_at :: int

text \<open>The names of the organizations the assigned projects belong to.\<close>

definition organization_names ::
    "('d, 'a) org_tables_scheme \<Rightarrow> project_assignment_row list \<Rightarrow> (string \<rightharpoonup> string)" where
  "organization_names t assignments =
     (let organization_ids = foldl set_add [] (map (\<lambda>a. pj_organization_id (the (project_of_assignment t a))) assignments);
          organizations = filter (\<lambda>og. og_id og \<in> set organization_ids) (t_organizations t)
      in foldl (\<lambda>m og. m(og_id og \<mapsto> og_name og)) Map.empty organizations)"

definition accessible_of ::
    "('d, 'a) org_tables_scheme \<Rightarrow> (string \<rightharpoonup> string) \<Rightarrow> project_assignment_row \<Rightarrow> accessible_project" where
  "accessible_of t names a =
     (let project = the (project_of_assignment t a)
      in \<lparr>ap_project = project, ap_organization_name = names (pj_organization_id project),
          ap_assignment_id = pa_id a, ap_role_in_project = pa_role_in_project a,
          ap_is_primary_assignment = pa_is_primary a, ap_assigned_at = pa_assigned_at a\<rparr>)"

definition list_accessible_projects ::
    "('d, 'a) org_tables_scheme \<Rightarrow> string \<Rightarrow> string \<Rightarrow> accessible_project list" where
  "list_accessible_projects t account workspace =
     (case find_assigned_access t account workspace None of
        None \<Rightarrow> []
      | Some (_, []) \<Rightarrow> []
      | Some (_, assignments) \<Rightarrow> map (accessible_of t (organization_names t assignments)) assignments)"

section \<open>Properties\<close>

lemma accessible_of_simps [simp]:
  "ap_project (accessible_of t n a) = the (project_of_assignment t a)"
  "ap_assignment_id (accessible_of t n a) = pa_id a" "ap_assigned_at (accessible_of t n a) = pa_assigned_at a"
  by (simp_all add: accessible_of_def Let_def)

text \<open>The assignments an access rests on: those of the list that name the project.\<close>

definition live_assignments ::
    "('d, 'a) org_tables_scheme \<Rightarrow> membership_row \<Rightarrow> string \<Rightarrow> string option \<Rightarrow> project_assignment_row list" where
  "live_assignments t m workspace pid =
     stable_sort_by (\<lambda>a b. pa_assigned_at b \<le> pa_assigned_at a)
       (filter (active_assignment t (mb_id m) workspace pid) (t_project_assignments t))"

lemma live_assignments_sorted: "sorted_wrt (\<lambda>a b. pa_assigned_at b \<le> pa_assigned_at a) (live_assignments t m workspace pid)"
  unfolding live_assignments_def by (rule sorted_stable_sort_by) auto

lemma set_live_assignments:
  "a \<in> set (live_assignments t m workspace pid) \<longleftrightarrow>
     a \<in> set (t_project_assignments t) \<and> active_assignment t (mb_id m) workspace pid a"
  by (auto simp: live_assignments_def)

lemma live_assignments_of_project:
  assumes "find (\<lambda>q. pj_id q = pj_id p) (t_projects t) = Some p" "pj_id p \<noteq> []"
  shows "a \<in> set (live_assignments t m workspace (Some (pj_id p))) \<longleftrightarrow>
    a \<in> set (live_assignments t m workspace None) \<and> the (project_of_assignment t a) = p"
proof -
  have "pa_project_id a = pj_id p" if "project_of_assignment t a = Some p"
    using find_Some_mem that unfolding project_of_assignment_def by fastforce
  moreover have "project_of_assignment t a = Some p" if "pa_project_id a = pj_id p"
    using assms(1) that by (simp add: project_of_assignment_def)
  ultimately show ?thesis
    using assms(2) by (auto simp: set_live_assignments active_assignment_def split: option.splits)
qed

lemma list_accessible_projects_eq:
  "list_accessible_projects t account workspace =
     (case find_eligible_membership t account workspace of
        None \<Rightarrow> []
      | Some m \<Rightarrow> map (accessible_of t (organization_names t (live_assignments t m workspace None)))
          (live_assignments t m workspace None))"
  by (auto simp: list_accessible_projects_def find_assigned_access_def live_assignments_def split: option.split list.split)

lemma resolve_project_access_eq:
  assumes "find (\<lambda>q. pj_id q = pj_id p) (t_projects t) = Some p" "pj_id p \<noteq> []"
  shows "resolve_project_access t account (pj_id p) = Access_Granted c \<longleftrightarrow>
    (\<exists>m a as. find_eligible_membership t account (pj_workspace_id p) = Some m \<and>
      live_assignments t m (pj_workspace_id p) (Some (pj_id p)) = a # as \<and>
      c = \<lparr>pc_project_id = pj_id p, pc_workspace_id = pj_workspace_id p,
           pc_project_status = pj_status p, pc_membership_id = mb_id m, pc_assignment_id = pa_id a,
           pc_role_in_project = pa_role_in_project a, pc_is_primary_assignment = pa_is_primary a,
           pc_roles = map fst (filter snd (mb_role_codes m))\<rparr>)"
proof -
  have live: "pj_deleted_at p = None" if "live_assignments t m w (Some (pj_id p)) = a # as" for m w a as
  proof -
    have "a \<in> set (live_assignments t m w None) \<and> the (project_of_assignment t a) = p"
      using live_assignments_of_project [OF assms] that by (metis list.set_intros(1))
    then show ?thesis by (auto simp: set_live_assignments active_assignment_def split: option.splits)
  qed
  show ?thesis
    using assms(1)
    by (auto simp: resolve_project_access_def find_assigned_access_def live_assignments_def [symmetric] live
      split: option.splits list.splits)
qed

text \<open>C37: The guard and the list cannot drift. An account is granted access to a project exactly when the project is in
  the list of the projects it sees in the project's workspace; and the assignment the access rests on is one the list
  shows for that project, the one assigned last.\<close>

theorem access_guard_agrees_with_list:
  assumes "p \<in> set (t_projects t)" "distinct (map pj_id (t_projects t))" "pj_id p \<noteq> []"
  shows "((\<exists>c. resolve_project_access t account (pj_id p) = Access_Granted c) \<longleftrightarrow>
      p \<in> ap_project ` set (list_accessible_projects t account (pj_workspace_id p))) \<and>
    (\<forall>c. resolve_project_access t account (pj_id p) = Access_Granted c \<longrightarrow>
      (\<exists>q \<in> set (list_accessible_projects t account (pj_workspace_id p)). ap_project q = p \<and>
        ap_assignment_id q = pc_assignment_id c \<and>
        (\<forall>r \<in> set (list_accessible_projects t account (pj_workspace_id p)). ap_project r = p \<longrightarrow>
          ap_assigned_at r \<le> ap_assigned_at q)))"
proof -
  have self: "find (\<lambda>q. pj_id q = pj_id p) (t_projects t) = Some p" using assms by (simp add: find_unique)
  show ?thesis
  proof (cases "find_eligible_membership t account (pj_workspace_id p)")
    case None
    then show ?thesis by (simp add: resolve_project_access_eq [OF self assms(3)] list_accessible_projects_eq)
  next
    case (Some m)
    let ?own = "live_assignments t m (pj_workspace_id p) (Some (pj_id p))"
    let ?all = "live_assignments t m (pj_workspace_id p) None"
    note own = live_assignments_of_project [OF self assms(3), of _ m "pj_workspace_id p"]
    have sorted: "\<forall>b \<in> set ?own. pa_assigned_at b \<le> pa_assigned_at a" if "?own = a # as" for a as
      using live_assignments_sorted [of t m "pj_workspace_id p" "Some (pj_id p)"] that by auto
    have mem: "p \<in> ap_project ` set (list_accessible_projects t account (pj_workspace_id p)) \<longleftrightarrow> ?own \<noteq> []"
    proof -
      have "?own \<noteq> [] \<longleftrightarrow> (\<exists>a. a \<in> set ?own)" by (cases ?own) auto
      then show ?thesis unfolding own using Some by (auto simp: list_accessible_projects_eq image_image)
    qed
    moreover have "(\<exists>c. resolve_project_access t account (pj_id p) = Access_Granted c) \<longleftrightarrow> ?own \<noteq> []"
      using Some by (auto simp: resolve_project_access_eq [OF self assms(3)] neq_Nil_conv)
    moreover have "\<exists>q \<in> set ?all. the (project_of_assignment t q) = p \<and> pa_id q = pa_id a \<and>
        (\<forall>r \<in> set ?all. the (project_of_assignment t r) = p \<longrightarrow> pa_assigned_at r \<le> pa_assigned_at q)" if "?own = a # as" for a as
    proof (rule bexI [of _ a])
      have "pa_assigned_at r \<le> pa_assigned_at a" if "r \<in> set ?all" "the (project_of_assignment t r) = p" for r
        using own [of r] that sorted [OF \<open>?own = a # as\<close>] by blast
      then show "the (project_of_assignment t a) = p \<and> pa_id a = pa_id a \<and>
          (\<forall>r \<in> set ?all. the (project_of_assignment t r) = p \<longrightarrow> pa_assigned_at r \<le> pa_assigned_at a)"
        using own [of a] \<open>?own = a # as\<close> by simp
      show "a \<in> set ?all" using own [of a] \<open>?own = a # as\<close> by simp
    qed
    ultimately show ?thesis
      using Some by (auto simp: resolve_project_access_eq [OF self assms(3)] list_accessible_projects_eq)
  qed
qed

section \<open>Witness\<close>

definition sample_project_row :: project_row where
  "sample_project_row = \<lparr>pj_id = ''p1'', pj_workspace_id = ''w1'', pj_organization_id = ''o1'', pj_status = PLANNED, pj_deleted_at = None\<rparr>"

definition sample_assignment :: "string \<Rightarrow> int \<Rightarrow> project_assignment_row" where
  "sample_assignment i since =
     \<lparr>pa_id = i, pa_membership_id = ''m1'', pa_project_id = ''p1'', pa_role_in_project = ''SITE_MANAGER'',
      pa_is_primary = True, pa_assigned_at = since, pa_revoked_at = None, pa_status = Assignment_Assigned\<rparr>"

definition sample_org :: "rat option org_tables" where
  "sample_org =
     \<lparr>t_memberships = [\<lparr>mb_id = ''m1'', mb_account_id = ''a1'', mb_workspace_id = ''w1'', mb_status = Membership_Active,
        mb_role_codes = [(''ENGINEER'', True)]\<rparr>],
      t_accounts = [\<lparr>ac_id = ''a1'', ac_status = Account_Active\<rparr>],
      t_users = [\<lparr>us_id = ''u1'', us_membership_id = ''m1'', us_status = User_Active\<rparr>],
      t_projects = [sample_project_row],
      t_organizations = [\<lparr>og_id = ''o1'', og_name = ''Dinas PUPR''\<rparr>],
      t_project_assignments = [sample_assignment ''x1'' 5],
      t_positions = [\<lparr>ps_id = ''ps1'', ps_workspace_id = ''w1'', ps_code = ''PPK'', ps_name = ''PPK''\<rparr>],
      t_position_assignments = [\<lparr>as_user_id = ''u1'', as_position_id = ''ps1'', as_is_active = True, as_removed_at = None,
        as_assigned_at = 3\<rparr>],
      t_authorities = [\<lparr>au_id = ''au1'', au_code = ''RAB_APPROVE''\<rparr>],
      t_position_authorities = [\<lparr>gr_position_id = ''ps1'', gr_authority_id = ''au1'', gr_is_active = True, gr_revoked_at = None\<rparr>],
      t_approval_matrix = []\<rparr>"

definition sample_access_context :: project_access_context where
  "sample_access_context =
     \<lparr>pc_project_id = ''p1'', pc_workspace_id = ''w1'', pc_project_status = PLANNED, pc_membership_id = ''m1'',
      pc_assignment_id = ''x1'', pc_role_in_project = ''SITE_MANAGER'', pc_is_primary_assignment = True,
      pc_roles = [''ENGINEER'']\<rparr>"

lemma sample_access: "resolve_project_access sample_org ''a1'' ''p1'' = Access_Granted sample_access_context"
  by code_simp

theorem access_guard_agrees_with_list_witness:
  "sample_project_row \<in> ap_project ` set (list_accessible_projects sample_org ''a1'' ''w1'')"
proof -
  have "sample_project_row \<in> set (t_projects sample_org)" "distinct (map pj_id (t_projects sample_org))"
    by (simp_all add: sample_org_def)
  from access_guard_agrees_with_list [OF this, of "''a1''"] show ?thesis
    using sample_access by (auto simp: sample_project_row_def)
qed

end
