(* ===== verification/DecisionAuthority.thy ===== *)
theory DecisionAuthority
  imports ProjectAccess
begin

text \<open>
  Who may decide: \<open>progress/progress-authority.service.ts\<close>, the chain from an account over its membership, profile and
  position to an authority that is granted to the position.

  \<open>resolve_authority\<close> is what a screen is told; \<open>require_within_transaction\<close> is the join a command asks inside its
  transaction, \<open>require_active_actor\<close> the part of it that needs no authority. The properties: a command passes exactly
  when a whole chain exists and it acts for the position that was assigned first, the screen names the same position,
  and the access the guard of the project routes grants still stands inside the transaction.
\<close>

section \<open>The display\<close>

definition PROGRESS_AUTHORITY_VERIFY :: string where "PROGRESS_AUTHORITY_VERIFY = ''FIELD_PROGRESS_VERIFY''"
definition PROGRESS_AUTHORITY_CORRECT :: string where "PROGRESS_AUTHORITY_CORRECT = ''FIELD_PROGRESS_CORRECT''"
definition PROGRESS_AUTHORITY_ACCEPT :: string where "PROGRESS_AUTHORITY_ACCEPT = ''FIELD_PROGRESS_ACCEPT''"

record decision_authority =
  da_position_id :: string
  da_position_code :: string
  da_authority_code :: string

text \<open>\<open>positionAuthorities: { some: ... }\<close> and the position of an assignment in the workspace.\<close>

definition position_holds :: "('d, 'a) org_tables_scheme \<Rightarrow> string \<Rightarrow> string \<Rightarrow> bool" where
  "position_holds t position code \<longleftrightarrow>
     (\<exists>g \<in> set (t_position_authorities t). gr_position_id g = position \<and> gr_is_active g \<and> gr_revoked_at g = None \<and>
       (\<exists>au \<in> set (t_authorities t). au_id au = gr_authority_id g \<and> au_code au = code))"

definition assigned_position ::
    "('d, 'a) org_tables_scheme \<Rightarrow> string \<Rightarrow> string \<Rightarrow> string \<Rightarrow> position_assignment_row \<Rightarrow> bool" where
  "assigned_position t workspace code user a \<longleftrightarrow>
     as_user_id a = user \<and> as_is_active a \<and> as_removed_at a = None \<and>
     (\<exists>p \<in> set (t_positions t). ps_id p = as_position_id a \<and> ps_workspace_id p = workspace \<and> position_holds t (ps_id p) code)"

definition resolve_authority ::
    "('d, 'a) org_tables_scheme \<Rightarrow> string \<Rightarrow> project_access_context \<Rightarrow> string \<Rightarrow> decision_authority option" where
  "resolve_authority t account ctx code =
     (case find (\<lambda>m. mb_id m = pc_membership_id ctx \<and> mb_account_id m = account \<and>
         mb_workspace_id m = pc_workspace_id ctx \<and> mb_status m = Membership_Active) (t_memberships t) of
        None \<Rightarrow> None
      | Some m \<Rightarrow>
          (case find (\<lambda>u. us_membership_id u = mb_id m) (t_users t) of
             None \<Rightarrow> None
           | Some u \<Rightarrow>
               (case stable_sort_by (\<lambda>a b. as_assigned_at a \<le> as_assigned_at b)
                   (filter (assigned_position t (pc_workspace_id ctx) code (us_id u)) (t_position_assignments t)) of
                  [] \<Rightarrow> None
                | a # _ \<Rightarrow>
                    if us_status u \<noteq> User_Active then None
                    else
                      (case find (\<lambda>p. ps_id p = as_position_id a) (t_positions t) of
                         None \<Rightarrow> None
                       | Some p \<Rightarrow> Some \<lparr>da_position_id = ps_id p, da_position_code = ps_code p, da_authority_code = code\<rparr>))))"

definition require_authority ::
    "('d, 'a) org_tables_scheme \<Rightarrow> string \<Rightarrow> project_access_context \<Rightarrow> string \<Rightarrow> js_error + decision_authority" where
  "require_authority t account ctx code =
     (case resolve_authority t account ctx code of
        None \<Rightarrow> Inl (ForbiddenException ''Configured project authority required'')
      | Some authority \<Rightarrow> Inr authority)"

section \<open>Inside a transaction\<close>

text \<open>The part of the join both queries share: membership, account, profile and project assignment.\<close>

definition live_actor ::
    "project_access_context \<Rightarrow> string \<Rightarrow> membership_row \<Rightarrow> account_row \<Rightarrow> user_row \<Rightarrow> project_assignment_row \<Rightarrow> bool" where
  "live_actor ctx account wm ac profile pa \<longleftrightarrow>
     ac_id ac = mb_account_id wm \<and> us_membership_id profile = mb_id wm \<and> pa_membership_id pa = mb_id wm \<and>
     mb_id wm = pc_membership_id ctx \<and> mb_account_id wm = account \<and> mb_workspace_id wm = pc_workspace_id ctx \<and>
     mb_status wm = Membership_Active \<and> ac_status ac = Account_Active \<and> us_status profile = User_Active \<and>
     pa_id pa = pc_assignment_id ctx \<and> pa_project_id pa = pc_project_id ctx \<and>
     pa_status pa = Assignment_Assigned \<and> pa_revoked_at pa = None"

definition context_assignment ::
    "('d, 'a) org_tables_scheme \<Rightarrow> project_access_context \<Rightarrow> project_assignment_row option" where
  "context_assignment t ctx =
     find (\<lambda>a. pa_id a = pc_assignment_id ctx \<and> pa_membership_id a = pc_membership_id ctx \<and>
       pa_project_id a = pc_project_id ctx) (t_project_assignments t)"

definition assignment_revoked :: "('d, 'a) org_tables_scheme \<Rightarrow> project_access_context \<Rightarrow> bool" where
  "assignment_revoked t ctx \<longleftrightarrow>
     (case context_assignment t ctx of
        None \<Rightarrow> False
      | Some a \<Rightarrow> pa_status a \<noteq> Assignment_Assigned \<or> pa_revoked_at a \<noteq> None)"

definition actor_rows :: "('d, 'a) org_tables_scheme \<Rightarrow> string \<Rightarrow> project_access_context \<Rightarrow> project_assignment_row list" where
  "actor_rows t account ctx =
     [pa. wm <- t_memberships t, ac <- t_accounts t, profile <- t_users t, pa <- t_project_assignments t,
       live_actor ctx account wm ac profile pa]"

definition require_active_actor ::
    "('d, 'a) org_tables_scheme \<Rightarrow> string \<Rightarrow> project_access_context \<Rightarrow> js_error + string" where
  "require_active_actor t account ctx =
     (case take 1 (actor_rows t account ctx) of
        [pa] \<Rightarrow> Inr (pa_role_in_project pa)
      | _ \<Rightarrow>
          if assignment_revoked t ctx then Inl (ForbiddenException ''PROJECT_ASSIGNMENT_REVOKED'')
          else Inl (ForbiddenException ''ACTIVE_PROJECT_ACTOR_REQUIRED''))"

definition granting_chain ::
    "project_access_context \<Rightarrow> string \<Rightarrow> user_row \<Rightarrow> position_assignment_row \<Rightarrow> position_row
      \<Rightarrow> position_authority_row \<Rightarrow> authority_row \<Rightarrow> bool" where
  "granting_chain ctx code profile a p g au \<longleftrightarrow>
     as_user_id a = us_id profile \<and> ps_id p = as_position_id a \<and> gr_position_id g = ps_id p \<and> au_id au = gr_authority_id g \<and>
     as_is_active a \<and> as_removed_at a = None \<and> ps_workspace_id p = pc_workspace_id ctx \<and>
     gr_is_active g \<and> gr_revoked_at g = None \<and> au_code au = code"

definition authority_rows ::
    "('d, 'a) org_tables_scheme \<Rightarrow> string \<Rightarrow> project_access_context \<Rightarrow> string \<Rightarrow> (position_assignment_row \<times> position_row) list" where
  "authority_rows t account ctx code =
     stable_sort_by (\<lambda>x y. as_assigned_at (fst x) \<le> as_assigned_at (fst y))
       [(a, p). wm <- t_memberships t, ac <- t_accounts t, profile <- t_users t, pa <- t_project_assignments t,
         a <- t_position_assignments t, p <- t_positions t, g <- t_position_authorities t, au <- t_authorities t,
         live_actor ctx account wm ac profile pa \<and> granting_chain ctx code profile a p g au]"

text \<open>Was the authority taken away from a position of the member?\<close>

definition authority_revoked :: "('d, 'a) org_tables_scheme \<Rightarrow> project_access_context \<Rightarrow> string \<Rightarrow> bool" where
  "authority_revoked t ctx code \<longleftrightarrow>
     (\<exists>g \<in> set (t_position_authorities t).
       (\<exists>p \<in> set (t_positions t). ps_id p = gr_position_id g \<and> ps_workspace_id p = pc_workspace_id ctx \<and>
         (\<exists>a \<in> set (t_position_assignments t). as_position_id a = ps_id p \<and> as_is_active a \<and> as_removed_at a = None \<and>
           (\<exists>u \<in> set (t_users t). us_id u = as_user_id a \<and> us_membership_id u = pc_membership_id ctx))) \<and>
       (\<exists>au \<in> set (t_authorities t). au_id au = gr_authority_id g \<and> au_code au = code) \<and>
       (\<not> gr_is_active g \<or> gr_revoked_at g \<noteq> None))"

definition require_within_transaction ::
    "('d, 'a) org_tables_scheme \<Rightarrow> string \<Rightarrow> project_access_context \<Rightarrow> string \<Rightarrow> js_error + decision_authority" where
  "require_within_transaction t account ctx code =
     (case take 1 (authority_rows t account ctx code) of
        [] \<Rightarrow>
          if assignment_revoked t ctx then Inl (ForbiddenException ''PROJECT_ASSIGNMENT_REVOKED'')
          else Inl (ForbiddenException (if authority_revoked t ctx code then ''DECISION_AUTHORITY_REVOKED''
            else ''DECISION_AUTHORITY_REQUIRED''))
      | (a, p) # _ \<Rightarrow> Inr \<lparr>da_position_id = ps_id p, da_position_code = ps_code p, da_authority_code = code\<rparr>)"

section \<open>Separation of duties\<close>

datatype progress_approval_action = APPROVAL_VERIFY | APPROVAL_ACCEPT

definition policy_object_type :: "progress_approval_action \<Rightarrow> string" where
  "policy_object_type act =
     (case act of
        APPROVAL_VERIFY \<Rightarrow> ''FIELD_PROGRESS_VERIFY_COMBINED_RESPONSIBILITY''
      | APPROVAL_ACCEPT \<Rightarrow> ''FIELD_PROGRESS_ACCEPT_COMBINED_RESPONSIBILITY'')"

definition combined_responsibility_allowed ::
    "('d, 'a) org_tables_scheme \<Rightarrow> project_access_context \<Rightarrow> decision_authority \<Rightarrow> progress_approval_action \<Rightarrow> bool" where
  "combined_responsibility_allowed t ctx authority act \<longleftrightarrow>
     0 < length (filter (\<lambda>r. am_workspace_id r = pc_workspace_id ctx \<and> am_is_active r \<and>
       am_object_type r = policy_object_type act \<and> am_required_position_id r = da_position_id authority \<and>
       (\<exists>au \<in> set (t_authorities t). au_id au = am_authority_id r \<and> au_code au = da_authority_code authority))
       (t_approval_matrix t))"

definition require_separation_policy ::
    "('d, 'a) org_tables_scheme \<Rightarrow> project_access_context \<Rightarrow> decision_authority \<Rightarrow> progress_approval_action
      \<Rightarrow> string \<Rightarrow> string option list \<Rightarrow> js_error + unit" where
  "require_separation_policy t ctx authority act actor prior_actors =
     (if \<not> (\<exists>prior \<in> set prior_actors. prior = Some actor) then Inr ()
      else if combined_responsibility_allowed t ctx authority act then Inr ()
      else Inl (ForbiddenException ''SEPARATION_OF_DUTIES_DENIED''))"

section \<open>Properties\<close>

lemma head_of_stable_sort:
  assumes "stable_sort_by (\<lambda>x y. (key x :: int) \<le> key y) xs = y # ys"
  shows "y \<in> set xs" "\<forall>x \<in> set xs. key y \<le> key x"
proof -
  have set: "set xs = insert y (set ys)" using set_stable_sort_by [of "\<lambda>x y. key x \<le> key y" xs] assms by simp
  have "sorted_wrt (\<lambda>x y. key x \<le> key y) (y # ys)"
    unfolding assms [symmetric] by (rule sorted_stable_sort_by) auto
  then show "y \<in> set xs" "\<forall>x \<in> set xs. key y \<le> key x" unfolding set by auto
qed

text \<open>A whole chain from the account to the position that holds the authority.\<close>

definition authority_chain ::
    "('d, 'a) org_tables_scheme \<Rightarrow> string \<Rightarrow> project_access_context \<Rightarrow> string \<Rightarrow> position_assignment_row \<Rightarrow> position_row \<Rightarrow> bool" where
  "authority_chain t account ctx code a p \<longleftrightarrow>
     a \<in> set (t_position_assignments t) \<and> p \<in> set (t_positions t) \<and>
     (\<exists>wm \<in> set (t_memberships t). \<exists>ac \<in> set (t_accounts t). \<exists>u \<in> set (t_users t). \<exists>pa \<in> set (t_project_assignments t).
       \<exists>g \<in> set (t_position_authorities t). \<exists>au \<in> set (t_authorities t).
         live_actor ctx account wm ac u pa \<and> granting_chain ctx code u a p g au)"

lemma set_authority_rows: "(a, p) \<in> set (authority_rows t account ctx code) \<longleftrightarrow> authority_chain t account ctx code a p"
  unfolding authority_rows_def authority_chain_def set_stable_sort_by
  by (simp add: Bex_def) blast

lemma require_within_transaction_InrD:
  assumes "require_within_transaction t account ctx code = Inr h"
  shows "\<exists>a p. authority_chain t account ctx code a p \<and>
    h = \<lparr>da_position_id = ps_id p, da_position_code = ps_code p, da_authority_code = code\<rparr> \<and>
    (\<forall>a' p'. authority_chain t account ctx code a' p' \<longrightarrow> as_assigned_at a \<le> as_assigned_at a')"
proof -
  obtain a p rows where rows: "authority_rows t account ctx code = (a, p) # rows"
    and h: "h = \<lparr>da_position_id = ps_id p, da_position_code = ps_code p, da_authority_code = code\<rparr>"
    using assms by (cases "authority_rows t account ctx code") (auto simp: require_within_transaction_def split: if_splits)
  note head = head_of_stable_sort [OF rows [unfolded authority_rows_def]]
  show ?thesis
    using rows h set_authority_rows [of a p t account ctx code] head(2)
    by (intro exI [of _ a] exI [of _ p]) (force simp: authority_chain_def)
qed

lemma require_within_transaction_InlD:
  assumes "require_within_transaction t account ctx code = Inl e"
  shows "\<not> authority_chain t account ctx code a p"
  using assms set_authority_rows [of a p t account ctx code]
  by (cases "authority_rows t account ctx code") (auto simp: require_within_transaction_def)


text \<open>The uniqueness the schema declares for the rows the chain visits.\<close>

definition lawful_org_tables :: "('d, 'a) org_tables_scheme \<Rightarrow> bool" where
  "lawful_org_tables t \<longleftrightarrow>
     distinct (map mb_id (t_memberships t)) \<and> distinct (map us_membership_id (t_users t)) \<and>
     distinct (map ps_id (t_positions t)) \<and> distinct (map pj_id (t_projects t)) \<and>
     distinct (map pa_id (t_project_assignments t))"

lemma set_actor_rows:
  "pa \<in> set (actor_rows t account ctx) \<longleftrightarrow>
     pa \<in> set (t_project_assignments t) \<and>
     (\<exists>wm \<in> set (t_memberships t). \<exists>ac \<in> set (t_accounts t). \<exists>u \<in> set (t_users t). live_actor ctx account wm ac u pa)"
  unfolding actor_rows_def by (auto split: if_splits)

lemma require_active_actor_Inr_iff:
  "require_active_actor t account ctx = Inr role \<longleftrightarrow>
     (\<exists>pa rest. actor_rows t account ctx = pa # rest \<and> role = pa_role_in_project pa)"
proof (cases "actor_rows t account ctx")
  case Nil
  then show ?thesis by (simp add: require_active_actor_def)
next
  case (Cons pa rest)
  then show ?thesis by (auto simp: require_active_actor_def)
qed

text \<open>The access a route guard grants still stands inside the transaction: on the same rows the actor check answers the
  role the guard reported, unless the account or the profile of the member is no longer active.\<close>

theorem granted_access_stands:
  assumes "lawful_org_tables t" "resolve_project_access t account pid = Access_Granted ctx" "pid \<noteq> []"
  shows "require_active_actor t account ctx = Inr role \<longleftrightarrow> role = pc_role_in_project ctx \<and>
    (\<exists>ac \<in> set (t_accounts t). ac_id ac = account \<and> ac_status ac = Account_Active) \<and>
    (\<exists>u \<in> set (t_users t). us_membership_id u = pc_membership_id ctx \<and> us_status u = User_Active)"
proof -
  obtain p where p: "find (\<lambda>p. pj_id p = pid) (t_projects t) = Some p"
    using assms(2) by (auto simp: resolve_project_access_def split: option.splits)
  then have pid: "pj_id p = pid" using find_Some_mem by fastforce
  obtain m a as where m: "find_eligible_membership t account (pj_workspace_id p) = Some m"
    and live: "live_assignments t m (pj_workspace_id p) (Some pid) = a # as"
    and ctx: "ctx = \<lparr>pc_project_id = pj_id p, pc_workspace_id = pj_workspace_id p,
      pc_project_status = pj_status p, pc_membership_id = mb_id m, pc_assignment_id = pa_id a,
      pc_role_in_project = pa_role_in_project a, pc_is_primary_assignment = pa_is_primary a,
      pc_roles = map fst (filter snd (mb_role_codes m))\<rparr>"
    using assms(2,3) resolve_project_access_eq [of p t account ctx] p pid by auto
  have a: "a \<in> set (t_project_assignments t)" "active_assignment t (mb_id m) (pj_workspace_id p) (Some pid) a"
    using set_live_assignments [of a t m "pj_workspace_id p" "Some pid"] live by simp_all
  have m': "m \<in> set (t_memberships t)" "mb_account_id m = account" "mb_workspace_id m = pj_workspace_id p"
    "mb_status m = Membership_Active"
    using m find_Some_mem [of "\<lambda>m. mb_account_id m = account \<and> mb_workspace_id m = pj_workspace_id p" "t_memberships t" m]
    by (auto simp: find_eligible_membership_def split: option.splits if_splits)
  have unique: "wm = m \<and> pa = a" if "wm \<in> set (t_memberships t)" "pa \<in> set (t_project_assignments t)"
    "live_actor ctx account wm ac u pa" for wm ac u pa
  proof
    have keys: "mb_id wm = mb_id m" "pa_id pa = pa_id a" using that(3) by (simp_all add: live_actor_def ctx)
    show "wm = m" using unique_row [OF _ that(1) m'(1) keys(1)] assms(1) by (simp add: lawful_org_tables_def)
    show "pa = a" using unique_row [OF _ that(2) a(1) keys(2)] assms(1) by (simp add: lawful_org_tables_def)
  qed
  have actor: "live_actor ctx account m ac u a \<longleftrightarrow>
      ac_id ac = account \<and> ac_status ac = Account_Active \<and> us_membership_id u = mb_id m \<and> us_status u = User_Active" for ac u
    using m' a(2) assms(3) by (auto simp: live_actor_def ctx active_assignment_def pid)
  have rows: "pa \<in> set (actor_rows t account ctx) \<longleftrightarrow> pa = a \<and>
      (\<exists>ac \<in> set (t_accounts t). ac_id ac = account \<and> ac_status ac = Account_Active) \<and>
      (\<exists>u \<in> set (t_users t). us_membership_id u = mb_id m \<and> us_status u = User_Active)" for pa
    unfolding set_actor_rows using unique actor a(1) m'(1) by blast
  show ?thesis
  proof (cases "actor_rows t account ctx")
    case Nil
    then show ?thesis using rows [of a] by (auto simp: require_active_actor_Inr_iff ctx)
  next
    case (Cons pa rest)
    then show ?thesis using rows [of pa] by (auto simp: require_active_actor_Inr_iff ctx)
  qed
qed

text \<open>With one profile per membership and unique rows, the chain is the actor check and the assignment the screen reads.\<close>

lemma chain_of_live_actor:
  assumes "lawful_org_tables t" "wm \<in> set (t_memberships t)" "ac \<in> set (t_accounts t)" "u \<in> set (t_users t)"
    and "pa \<in> set (t_project_assignments t)" "live_actor ctx account wm ac u pa"
  shows "authority_chain t account ctx code a p \<longleftrightarrow>
    a \<in> set (t_position_assignments t) \<and> assigned_position t (pc_workspace_id ctx) code (us_id u) a \<and>
    p \<in> set (t_positions t) \<and> ps_id p = as_position_id a"
proof
  assume "authority_chain t account ctx code a p"
  then obtain wm' ac' u' pa' g au where r: "u' \<in> set (t_users t)" "g \<in> set (t_position_authorities t)" "au \<in> set (t_authorities t)"
    "live_actor ctx account wm' ac' u' pa'" "granting_chain ctx code u' a p g au"
    and mem: "a \<in> set (t_position_assignments t)" "p \<in> set (t_positions t)"
    unfolding authority_chain_def by blast
  have "us_membership_id u' = us_membership_id u" using r(4) assms(6) by (simp add: live_actor_def)
  then have "u' = u" using assms(1,4) r(1) unique_row by (fastforce simp: lawful_org_tables_def)
  then show "a \<in> set (t_position_assignments t) \<and> assigned_position t (pc_workspace_id ctx) code (us_id u) a \<and>
      p \<in> set (t_positions t) \<and> ps_id p = as_position_id a"
    using r mem by (auto simp: granting_chain_def assigned_position_def position_holds_def)
next
  assume r: "a \<in> set (t_position_assignments t) \<and> assigned_position t (pc_workspace_id ctx) code (us_id u) a \<and>
      p \<in> set (t_positions t) \<and> ps_id p = as_position_id a"
  then obtain q where q: "q \<in> set (t_positions t)" "ps_id q = as_position_id a" "ps_workspace_id q = pc_workspace_id ctx"
    "position_holds t (ps_id q) code" by (auto simp: assigned_position_def)
  have "q = p" using q r assms(1) unique_row by (fastforce simp: lawful_org_tables_def)
  then obtain g au where "g \<in> set (t_position_authorities t)" "au \<in> set (t_authorities t)" "granting_chain ctx code u a p g au"
    using r q unfolding assigned_position_def position_holds_def granting_chain_def by metis
  then show "authority_chain t account ctx code a p"
    using r assms(2-6) unfolding authority_chain_def by blast
qed

lemma resolve_of_live_actor:
  assumes "lawful_org_tables t" "wm \<in> set (t_memberships t)" "u \<in> set (t_users t)" "live_actor ctx account wm ac u pa"
  shows "resolve_authority t account ctx code = Some h \<longleftrightarrow>
    (\<exists>a as p. stable_sort_by (\<lambda>a b. as_assigned_at a \<le> as_assigned_at b)
        (filter (assigned_position t (pc_workspace_id ctx) code (us_id u)) (t_position_assignments t)) = a # as \<and>
      p \<in> set (t_positions t) \<and> ps_id p = as_position_id a \<and>
      h = \<lparr>da_position_id = ps_id p, da_position_code = ps_code p, da_authority_code = code\<rparr>)"
proof -
  have m: "find (\<lambda>m. mb_id m = pc_membership_id ctx \<and> mb_account_id m = account \<and>
      mb_workspace_id m = pc_workspace_id ctx \<and> mb_status m = Membership_Active) (t_memberships t) = Some wm"
    using assms by (intro find_eq_unique [where key = mb_id]) (auto simp: lawful_org_tables_def live_actor_def)
  have u: "find (\<lambda>x. us_membership_id x = mb_id wm) (t_users t) = Some u"
    using assms by (intro find_eq_unique [where key = us_membership_id]) (auto simp: lawful_org_tables_def live_actor_def)
  have p: "find (\<lambda>p. ps_id p = i) (t_positions t) = Some q \<longleftrightarrow> q \<in> set (t_positions t) \<and> ps_id q = i" for i q
    using assms(1) find_Some_mem [of "\<lambda>p. ps_id p = i" "t_positions t" q] find_unique [of ps_id "t_positions t" q]
    by (auto simp: lawful_org_tables_def)
  have status: "us_status u = User_Active" using assms(4) by (simp add: live_actor_def)
  let ?sorted = "stable_sort_by (\<lambda>a b. as_assigned_at a \<le> as_assigned_at b)
    (filter (assigned_position t (pc_workspace_id ctx) code (us_id u)) (t_position_assignments t))"
  show ?thesis
  proof (cases ?sorted)
    case Nil
    then show ?thesis unfolding resolve_authority_def m option.case u by simp
  next
    case (Cons a as)
    have "(case find (\<lambda>p. ps_id p = as_position_id a) (t_positions t) of None \<Rightarrow> None | Some p \<Rightarrow> Some (f p)) = Some h \<longleftrightarrow>
        (\<exists>p. p \<in> set (t_positions t) \<and> ps_id p = as_position_id a \<and> h = f p)" for f :: "position_row \<Rightarrow> decision_authority"
      unfolding conj_assoc [symmetric] p [symmetric]
      by (cases "find (\<lambda>p. ps_id p = as_position_id a) (t_positions t)") auto
    then show ?thesis
      unfolding resolve_authority_def m option.case u Cons list.case by (simp add: status)
  qed
qed

text \<open>The screen names the position that decides. When no two assignments of positions carry the same time, a command
  passes its authority check exactly when its actor is live on the project and the screen shows it an authority, and then
  it acts for the position the screen showed.\<close>

theorem screen_names_the_deciding_position:
  assumes "lawful_org_tables t" "distinct (map as_assigned_at (t_position_assignments t))"
  shows "require_within_transaction t account ctx code = Inr h \<longleftrightarrow>
    (\<exists>role. require_active_actor t account ctx = Inr role) \<and> resolve_authority t account ctx code = Some h"
proof (cases "actor_rows t account ctx")
  case Nil
  then have "\<not> authority_chain t account ctx code a p" for a p
    using set_actor_rows [of _ t account ctx] unfolding authority_chain_def by (metis empty_iff list.set(1))
  then show ?thesis using Nil require_within_transaction_InrD by (fastforce simp: require_active_actor_Inr_iff)
next
  case (Cons pa rest)
  then obtain wm ac u where r: "wm \<in> set (t_memberships t)" "ac \<in> set (t_accounts t)" "u \<in> set (t_users t)"
    "pa \<in> set (t_project_assignments t)" "live_actor ctx account wm ac u pa"
    using set_actor_rows [of pa t account ctx] by auto
  note chain = chain_of_live_actor [OF assms(1) r]
  note shown = resolve_of_live_actor [OF assms(1) r(1,3,5)]
  let ?mine = "filter (assigned_position t (pc_workspace_id ctx) code (us_id u)) (t_position_assignments t)"
  have first: "a = b" if "stable_sort_by (\<lambda>a b. as_assigned_at a \<le> as_assigned_at b) ?mine = a # as"
    "b \<in> set ?mine" "\<forall>c \<in> set ?mine. as_assigned_at b \<le> as_assigned_at c" for a as b
    using head_of_stable_sort [OF that(1)] that(2,3) unique_row [OF assms(2), of a b] by force
  have position: "\<exists>p \<in> set (t_positions t). ps_id p = as_position_id a" if "a \<in> set ?mine" for a
    using that by (auto simp: assigned_position_def)
  have "require_within_transaction t account ctx code = Inr h \<longleftrightarrow> resolve_authority t account ctx code = Some h"
  proof
    assume "require_within_transaction t account ctx code = Inr h"
    then obtain a p where ap: "authority_chain t account ctx code a p"
      "h = \<lparr>da_position_id = ps_id p, da_position_code = ps_code p, da_authority_code = code\<rparr>"
      "\<forall>a' p'. authority_chain t account ctx code a' p' \<longrightarrow> as_assigned_at a \<le> as_assigned_at a'"
      using require_within_transaction_InrD by blast
    have a: "a \<in> set ?mine" "\<forall>c \<in> set ?mine. as_assigned_at a \<le> as_assigned_at c"
      using ap(1,3) position unfolding chain by auto
    then obtain b as where b: "stable_sort_by (\<lambda>a b. as_assigned_at a \<le> as_assigned_at b) ?mine = b # as"
      using set_stable_sort_by [of "\<lambda>a b. as_assigned_at a \<le> as_assigned_at b" ?mine]
      by (cases "stable_sort_by (\<lambda>a b. as_assigned_at a \<le> as_assigned_at b) ?mine") auto
    then show "resolve_authority t account ctx code = Some h"
      using first [OF b a] ap(1,2) unfolding shown chain by blast
  next
    assume "resolve_authority t account ctx code = Some h"
    then obtain a as p where a: "stable_sort_by (\<lambda>a b. as_assigned_at a \<le> as_assigned_at b) ?mine = a # as"
      and p: "p \<in> set (t_positions t)" "ps_id p = as_position_id a"
        "h = \<lparr>da_position_id = ps_id p, da_position_code = ps_code p, da_authority_code = code\<rparr>"
      unfolding shown by blast
    have "authority_chain t account ctx code a p"
      using head_of_stable_sort(1) [OF a] p unfolding chain by simp
    then obtain h' where h': "require_within_transaction t account ctx code = Inr h'"
      using require_within_transaction_InlD by (cases "require_within_transaction t account ctx code") blast+
    then obtain b q where b: "authority_chain t account ctx code b q"
      "h' = \<lparr>da_position_id = ps_id q, da_position_code = ps_code q, da_authority_code = code\<rparr>"
      "\<forall>a' p'. authority_chain t account ctx code a' p' \<longrightarrow> as_assigned_at b \<le> as_assigned_at a'"
      using require_within_transaction_InrD by blast
    have "b \<in> set ?mine" "\<forall>c \<in> set ?mine. as_assigned_at b \<le> as_assigned_at c"
      using b(1,3) position unfolding chain by auto
    then have "a = b" by (rule first [OF a])
    then have "p = q" using b(1) p assms(1) unique_row unfolding chain lawful_org_tables_def by metis
    then show "require_within_transaction t account ctx code = Inr h" using h' b(2) p(3) by simp
  qed
  then show ?thesis using Cons by (auto simp: require_active_actor_Inr_iff)
qed

section \<open>Witnesses\<close>

definition sample_holder :: decision_authority where
  "sample_holder = \<lparr>da_position_id = ''ps1'', da_position_code = ''PPK'', da_authority_code = ''RAB_APPROVE''\<rparr>"

lemma sample_org_lawful:
  "lawful_org_tables sample_org" "distinct (map as_assigned_at (t_position_assignments sample_org))"
  by (simp_all add: lawful_org_tables_def sample_org_def)

lemma sample_decision: "require_within_transaction sample_org ''a1'' sample_access_context ''RAB_APPROVE'' = Inr sample_holder"
  by code_simp


theorem granted_access_stands_witness: "require_active_actor sample_org ''a1'' sample_access_context = Inr ''SITE_MANAGER''"
  by (rule granted_access_stands [OF sample_org_lawful(1) sample_access, THEN iffD2])
    (simp_all add: sample_org_def sample_access_context_def)

theorem screen_names_the_deciding_position_witness:
  "resolve_authority sample_org ''a1'' sample_access_context ''RAB_APPROVE'' = Some sample_holder"
  using screen_names_the_deciding_position [OF sample_org_lawful] sample_decision by blast

end
