(* ===== verification/RabLifecycle.thy ===== *)
theory RabLifecycle
  imports DecisionAuthority
begin

text \<open>
  The lifecycle of a bill of quantities: \<open>project/rab-lifecycle-policy.service.ts\<close> and
  \<open>project/rab-editable-lifecycle.guard.ts\<close>.

  The tables extend those of the organization with the structures, documents and baselines; a count is the length of a filtered table, a \<open>groupBy\<close> the counts of
  the projects that have a row. The properties: a draft may be edited exactly when nothing later than a draft exists,
  the reason given is the first one in the documented order, and a batch gives every project the projection it gets
  alone.
\<close>

section \<open>The tables\<close>

definition WORKING_DRAFT_STRUCTURE_NAME :: string where
  "WORKING_DRAFT_STRUCTURE_NAME = ''Working Draft''"

text \<open>\<open>RAB_STATUS\<close>; the column is a text.\<close>

definition RAB_DRAFT :: string where "RAB_DRAFT = ''DRAFT''"
definition RAB_LOCKED :: string where "RAB_LOCKED = ''LOCKED''"
definition RAB_APPROVED :: string where "RAB_APPROVED = ''APPROVED''"

lemma rab_status_distinct [simp]:
  "RAB_DRAFT \<noteq> RAB_LOCKED" "RAB_LOCKED \<noteq> RAB_DRAFT" "RAB_DRAFT \<noteq> RAB_APPROVED" "RAB_APPROVED \<noteq> RAB_DRAFT"
  "RAB_LOCKED \<noteq> RAB_APPROVED" "RAB_APPROVED \<noteq> RAB_LOCKED"
  by (simp_all add: RAB_DRAFT_def RAB_LOCKED_def RAB_APPROVED_def)

record 'd rab_document_row =
  rd_id :: string
  rd_project_id :: "string option"
  rd_boq_structure_id :: string
  rd_name :: string
  rd_version :: int
  rd_overhead_percent :: 'd
  rd_profit_percent :: 'd
  rd_tax_percent :: 'd
  rd_status :: string
  rd_total_base_cost :: "'d option"
  rd_total_final_cost :: "'d option"
  rd_locked_at :: "int option"
  rd_locked_by_account_id :: "string option"
  rd_locked_from_status :: "string option"
  rd_updated_at :: int

record baseline_row =
  bl_id :: string
  bl_project_id :: string
  bl_rab_document_id :: string
  bl_version_number :: int
  bl_status :: string
  bl_approved_at :: int
  bl_approved_by_position_id :: "string option"
  bl_justification :: "string option"

record structure_row =
  st_id :: string
  st_project_id :: "string option"
  st_status :: string
  st_name :: string

record 'd rab_tables = "'d org_tables" +
  t_structures :: "structure_row list"
  t_documents :: "'d rab_document_row list"
  t_baselines :: "baseline_row list"

section \<open>The projection\<close>

datatype rab_lifecycle_reason =
    ACTIVE_BASELINE_EXISTS | APPROVED_RAB_EXISTS | RAB_LOCKED_REASON | MULTIPLE_WORKING_DRAFTS | PROJECT_NOT_DRAFT

record lifecycle_counts =
  active_baseline_count :: nat
  approved_rab_count :: nat
  locked_rab_count :: nat
  working_draft_count :: nat

record rab_lifecycle_projection = lifecycle_counts +
  can_enter_editable_draft_workspace :: bool
  can_edit_draft :: bool
  lifecycle_reason_code :: "rab_lifecycle_reason option"
  lifecycle_project_status :: project_status

definition RAB_EDITABLE_PROJECT_STATUSES :: "project_status list" where
  "RAB_EDITABLE_PROJECT_STATUSES = [PLANNED]"

definition project_lifecycle :: "lifecycle_counts \<Rightarrow> project_status \<Rightarrow> rab_lifecycle_projection" where
  "project_lifecycle counts status =
     (let reason =
            (if active_baseline_count counts > 0 then Some ACTIVE_BASELINE_EXISTS
             else if approved_rab_count counts > 0 then Some APPROVED_RAB_EXISTS
             else if locked_rab_count counts > 0 then Some RAB_LOCKED_REASON
             else if working_draft_count counts > 1 then Some MULTIPLE_WORKING_DRAFTS
             else if status \<notin> set RAB_EDITABLE_PROJECT_STATUSES then Some PROJECT_NOT_DRAFT
             else None);
          allowed = (reason = None)
      in \<lparr>active_baseline_count = active_baseline_count counts, approved_rab_count = approved_rab_count counts,
          locked_rab_count = locked_rab_count counts, working_draft_count = working_draft_count counts,
          can_enter_editable_draft_workspace = allowed, can_edit_draft = allowed,
          lifecycle_reason_code = reason, lifecycle_project_status = status\<rparr>)"

definition active_baseline_row :: "baseline_row \<Rightarrow> bool" where
  "active_baseline_row b \<longleftrightarrow> bl_status b = ''ACTIVE''"

definition working_draft_row :: "structure_row \<Rightarrow> bool" where
  "working_draft_row s \<longleftrightarrow> st_status s = RAB_DRAFT \<and> st_name s = WORKING_DRAFT_STRUCTURE_NAME"

definition count_lifecycle :: "('d, 'a) rab_tables_scheme \<Rightarrow> string \<Rightarrow> lifecycle_counts" where
  "count_lifecycle t project =
     \<lparr>active_baseline_count = length (filter (\<lambda>b. bl_project_id b = project \<and> active_baseline_row b) (t_baselines t)),
      approved_rab_count = length (filter (\<lambda>d. rd_project_id d = Some project \<and> rd_status d = RAB_APPROVED) (t_documents t)),
      locked_rab_count = length (filter (\<lambda>d. rd_project_id d = Some project \<and> rd_status d = RAB_LOCKED) (t_documents t)),
      working_draft_count = length (filter (\<lambda>s. st_project_id s = Some project \<and> working_draft_row s) (t_structures t))\<rparr>"

definition evaluate_lifecycle :: "('d, 'a) rab_tables_scheme \<Rightarrow> string \<Rightarrow> project_status \<Rightarrow> rab_lifecycle_projection" where
  "evaluate_lifecycle t project status = project_lifecycle (count_lifecycle t project) status"

section \<open>The batch\<close>

text \<open>\<open>groupBy\<close> with \<open>_count\<close>: one group per project that has a row, with the number of its rows.\<close>

fun count_in_group :: "(string \<times> nat) list \<Rightarrow> string \<Rightarrow> (string \<times> nat) list" where
  "count_in_group [] project = [(project, 1)]"
| "count_in_group ((k, n) # groups) project =
     (if k = project then (k, n + 1) # groups else (k, n) # count_in_group groups project)"

definition group_counts :: "string list \<Rightarrow> string list \<Rightarrow> (string \<times> nat) list" where
  "group_counts projects keys = foldl count_in_group [] (filter (\<lambda>k. k \<in> set projects) keys)"

definition group_count :: "(string \<times> nat) list \<Rightarrow> string \<Rightarrow> nat" where
  "group_count groups project = (case map_of groups project of None \<Rightarrow> 0 | Some n \<Rightarrow> n)"

fun evaluate_each ::
    "(string \<Rightarrow> lifecycle_counts) \<Rightarrow> (string \<rightharpoonup> project_status) \<Rightarrow> string list
      \<Rightarrow> (string \<rightharpoonup> rab_lifecycle_projection) \<Rightarrow> js_error + (string \<rightharpoonup> rab_lifecycle_projection)" where
  "evaluate_each counts_of status_of [] result = Inr result"
| "evaluate_each counts_of status_of (project # projects) result =
     (case status_of project of
        None \<Rightarrow> Inl (InternalServerErrorException ''PROJECT_STATUS_MISSING_FOR_RAB_LIFECYCLE'')
      | Some status \<Rightarrow>
          evaluate_each counts_of status_of projects
            (result(project \<mapsto> project_lifecycle (counts_of project) status)))"

definition evaluate_batch ::
    "('d, 'a) rab_tables_scheme \<Rightarrow> string list \<Rightarrow> (string \<rightharpoonup> project_status)
      \<Rightarrow> js_error + (string \<rightharpoonup> rab_lifecycle_projection)" where
  "evaluate_batch t projects status_of =
     (if projects = [] then Inr Map.empty
      else
        (let baselines = group_counts projects (map bl_project_id (filter active_baseline_row (t_baselines t)));
             approved = group_counts projects
               (List.map_filter rd_project_id (filter (\<lambda>d. rd_status d = RAB_APPROVED) (t_documents t)));
             locked = group_counts projects
               (List.map_filter rd_project_id (filter (\<lambda>d. rd_status d = RAB_LOCKED) (t_documents t)));
             drafts = group_counts projects (List.map_filter st_project_id (filter working_draft_row (t_structures t)))
         in evaluate_each
              (\<lambda>project. \<lparr>active_baseline_count = group_count baselines project,
                 approved_rab_count = group_count approved project,
                 locked_rab_count = group_count locked project,
                 working_draft_count = group_count drafts project\<rparr>)
              status_of projects Map.empty))"

section \<open>The guard of the editing routes\<close>

definition reason_text :: "rab_lifecycle_reason \<Rightarrow> string" where
  "reason_text reason =
     (case reason of
        ACTIVE_BASELINE_EXISTS \<Rightarrow> ''ACTIVE_BASELINE_EXISTS''
      | APPROVED_RAB_EXISTS \<Rightarrow> ''APPROVED_RAB_EXISTS''
      | RAB_LOCKED_REASON \<Rightarrow> ''RAB_LOCKED''
      | MULTIPLE_WORKING_DRAFTS \<Rightarrow> ''MULTIPLE_WORKING_DRAFTS''
      | PROJECT_NOT_DRAFT \<Rightarrow> ''PROJECT_NOT_DRAFT'')"

definition editable_guard ::
    "('d, 'a) rab_tables_scheme \<Rightarrow> string option \<Rightarrow> project_status option \<Rightarrow> js_error + bool" where
  "editable_guard t project status =
     (if \<not> truthy project
      then Inl (InternalServerErrorException ''RabEditableLifecycleGuard requires ProjectAccessGuard to run first'')
      else
        (case status of
           None \<Rightarrow> Inl (InternalServerErrorException ''PROJECT_STATUS_MISSING_FROM_ACCESS_CONTEXT'')
         | Some s \<Rightarrow>
             (let capability = evaluate_lifecycle t (the project) s
              in if \<not> can_edit_draft capability
                 then Inl (ConflictException (reason_text (the (lifecycle_reason_code capability))))
                 else Inr True)))"

section \<open>Properties\<close>

lemma group_count_step: "group_count (count_in_group groups k) project = group_count groups project + (if k = project then 1 else 0)"
  by (induction groups k rule: count_in_group.induct) (auto simp: group_count_def)

lemma group_count_foldl:
  "group_count (foldl count_in_group groups ks) project = group_count groups project + length (filter (\<lambda>k. k = project) ks)"
  by (induction ks arbitrary: groups) (auto simp: group_count_step)

lemma group_count_eq:
  "project \<in> set projects \<Longrightarrow> group_count (group_counts projects ks) project = length (filter (\<lambda>k. k = project) ks)"
  unfolding group_counts_def group_count_foldl
  by (auto simp: group_count_def intro: arg_cong [where f = length] filter_cong)

lemma length_filter_map: "length (filter (\<lambda>k. k = project) (map key rows)) = length (filter (\<lambda>r. key r = project) rows)"
  by (induction rows) auto

lemma length_filter_map_filter:
  "length (filter (\<lambda>k. k = project) (List.map_filter key rows)) = length (filter (\<lambda>r. key r = Some project) rows)"
  by (induction rows) (auto simp: List.map_filter_simps split: option.split)

lemma batch_counts:
  assumes "project \<in> set projects"
  shows "\<lparr>active_baseline_count = group_count (group_counts projects (map bl_project_id (filter active_baseline_row (t_baselines t)))) project,
     approved_rab_count = group_count (group_counts projects
       (List.map_filter rd_project_id (filter (\<lambda>d. rd_status d = RAB_APPROVED) (t_documents t)))) project,
     locked_rab_count = group_count (group_counts projects
       (List.map_filter rd_project_id (filter (\<lambda>d. rd_status d = RAB_LOCKED) (t_documents t)))) project,
     working_draft_count = group_count (group_counts projects (List.map_filter st_project_id (filter working_draft_row (t_structures t)))) project\<rparr>
    = count_lifecycle t project"
  using assms
  by (simp add: count_lifecycle_def group_count_eq length_filter_map length_filter_map_filter conj_commute)

lemma evaluate_each_eq:
  "evaluate_each counts_of status_of projects result =
     (if \<forall>p \<in> set projects. status_of p \<noteq> None
      then Inr (\<lambda>p. if p \<in> set projects then Some (project_lifecycle (counts_of p) (the (status_of p))) else result p)
      else Inl (InternalServerErrorException ''PROJECT_STATUS_MISSING_FOR_RAB_LIFECYCLE''))"
  by (induction projects arbitrary: result) (auto split: option.split)

lemma evaluate_each_cong:
  "(\<And>p. p \<in> set projects \<Longrightarrow> f p = g p) \<Longrightarrow> evaluate_each f status_of projects result = evaluate_each g status_of projects result"
  by (induction projects arbitrary: result) (auto split: option.split)

text \<open>The batch projection of a list view is the projection of each project alone, for exactly the requested projects;
  it is refused as a whole when the status of a requested project is missing.\<close>

theorem lifecycle_batch_is_single:
  "evaluate_batch t projects status_of =
     (if \<forall>p \<in> set projects. status_of p \<noteq> None
      then Inr (\<lambda>p. if p \<in> set projects then Some (evaluate_lifecycle t p (the (status_of p))) else None)
      else Inl (InternalServerErrorException ''PROJECT_STATUS_MISSING_FOR_RAB_LIFECYCLE''))"
proof -
  let ?g = "\<lambda>keys project. group_count (group_counts projects keys) project"
  let ?f = "\<lambda>project. \<lparr>active_baseline_count = ?g (map bl_project_id (filter active_baseline_row (t_baselines t))) project,
     approved_rab_count = ?g (List.map_filter rd_project_id (filter (\<lambda>d. rd_status d = RAB_APPROVED) (t_documents t))) project,
     locked_rab_count = ?g (List.map_filter rd_project_id (filter (\<lambda>d. rd_status d = RAB_LOCKED) (t_documents t))) project,
     working_draft_count = ?g (List.map_filter st_project_id (filter working_draft_row (t_structures t))) project\<rparr>"
  have "evaluate_batch t projects status_of = evaluate_each ?f status_of projects Map.empty"
    by (simp add: evaluate_batch_def Let_def)
  also have "\<dots> = evaluate_each (count_lifecycle t) status_of projects Map.empty"
    by (rule evaluate_each_cong) (rule batch_counts)
  finally show ?thesis
    unfolding evaluate_each_eq evaluate_lifecycle_def by simp
qed


section \<open>Witnesses\<close>

definition sample_document :: "rat option rab_document_row" where
  "sample_document =
     \<lparr>rd_id = ''d1'', rd_project_id = Some ''p1'', rd_boq_structure_id = ''s1'', rd_name = ''RAB'', rd_version = 1,
      rd_overhead_percent = Some 0, rd_profit_percent = Some 10, rd_tax_percent = Some 11, rd_status = RAB_DRAFT,
      rd_total_base_cost = Some (Some 100), rd_total_final_cost = Some (Some 110), rd_locked_at = None,
      rd_locked_by_account_id = None, rd_locked_from_status = None, rd_updated_at = 0\<rparr>"

definition sample_rab :: "rat option rab_document_row list \<Rightarrow> rat option rab_tables" where
  "sample_rab documents =
     \<lparr>t_memberships = t_memberships sample_org, t_accounts = t_accounts sample_org, t_users = t_users sample_org,
      t_projects = t_projects sample_org, t_organizations = t_organizations sample_org,
      t_project_assignments = t_project_assignments sample_org, t_positions = t_positions sample_org,
      t_position_assignments = t_position_assignments sample_org, t_authorities = t_authorities sample_org,
      t_position_authorities = t_position_authorities sample_org, t_approval_matrix = t_approval_matrix sample_org,
      t_structures = [\<lparr>st_id = ''s1'', st_project_id = Some ''p1'', st_status = RAB_DRAFT, st_name = WORKING_DRAFT_STRUCTURE_NAME\<rparr>],
      t_documents = documents, t_baselines = []\<rparr>"


theorem lifecycle_batch_is_single_witness:
  "evaluate_batch (sample_rab [sample_document]) [''p1''] [''p1'' \<mapsto> PLANNED] =
     Inr [''p1'' \<mapsto> evaluate_lifecycle (sample_rab [sample_document]) ''p1'' PLANNED]"
  unfolding lifecycle_batch_is_single by (simp add: fun_eq_iff)

end
