(* ===== verification/AhspEligibility.thy ===== *)
theory AhspEligibility
  imports Prelude
begin

text \<open>
  Which unit-price analyses a workspace may bind: \<open>project-ahsp/ahsp-eligibility.policy.ts\<close>.

  The query fragment the policy builds is the predicate \<open>eligible_ahsp_version\<close> on a version row with its parent;
  \<open>pick_current_applicable\<close> is the choice of the current version of every parent. The properties: an eligible version
  never belongs to another workspace and carries the origin label of the branch that admitted it; the current versions
  are the latest of every parent.
\<close>

datatype ahsp_version_status =
    Version_Draft | Version_Under_Review | Version_Verified | Version_Published | Version_Superseded | Version_Archived

datatype ownership_type = SIMPROK_ASSET | APPROVED_COMMUNITY_ASSET | USER_ASSET

datatype ahsp_origin = SIMPROK_CATALOG | WORKSPACE_PRIVATE

text \<open>A date is a number of milliseconds.\<close>

record ahsp_row =
  ah_id :: string
  ah_workspace_id :: "string option"
  ah_ownership_type :: ownership_type
  ah_archived_at :: "int option"
  ah_deleted_at :: "int option"

record ahsp_version_row =
  av_id :: string
  av_ahsp :: ahsp_row
  av_workspace_id :: "string option"
  av_version_number :: int
  av_status :: ahsp_version_status
  av_effective_date :: "int option"
  av_expired_date :: "int option"
  av_output_unit :: "string option"
  av_resource_ids :: "string list"

definition PRIVATE_UNUSABLE_VERSION_STATUSES :: "ahsp_version_status list" where
  "PRIVATE_UNUSABLE_VERSION_STATUSES = [Version_Superseded, Version_Archived]"

definition shared_completeness :: "ahsp_version_row \<Rightarrow> bool" where
  "shared_completeness v \<longleftrightarrow> av_output_unit v \<noteq> None \<and> av_resource_ids v \<noteq> []"

definition catalog_branch :: "string \<Rightarrow> ahsp_version_row \<Rightarrow> bool" where
  "catalog_branch workspace v \<longleftrightarrow>
     av_status v = Version_Published \<and> ah_deleted_at (av_ahsp v) = None \<and>
     (ah_workspace_id (av_ahsp v) = Some workspace \<or> ah_workspace_id (av_ahsp v) = None) \<and>
     (av_workspace_id v = Some workspace \<or> av_workspace_id v = None)"

definition private_branch :: "string \<Rightarrow> ahsp_version_row \<Rightarrow> bool" where
  "private_branch workspace v \<longleftrightarrow>
     av_status v \<notin> set PRIVATE_UNUSABLE_VERSION_STATUSES \<and> av_workspace_id v = Some workspace \<and>
     ah_deleted_at (av_ahsp v) = None \<and> ah_archived_at (av_ahsp v) = None \<and>
     ah_ownership_type (av_ahsp v) = USER_ASSET \<and> ah_workspace_id (av_ahsp v) = Some workspace"

definition eligible_ahsp_version :: "string \<Rightarrow> int \<Rightarrow> ahsp_version_row \<Rightarrow> bool" where
  "eligible_ahsp_version workspace as_of v \<longleftrightarrow>
     shared_completeness v \<and>
     (case av_effective_date v of None \<Rightarrow> True | Some d \<Rightarrow> d \<le> as_of) \<and>
     (case av_expired_date v of None \<Rightarrow> True | Some d \<Rightarrow> as_of \<le> d) \<and>
     (catalog_branch workspace v \<or> private_branch workspace v)"

text \<open>One turn of the loop over the versions.\<close>

definition keep_latest :: "(string \<rightharpoonup> ahsp_version_row) \<Rightarrow> ahsp_version_row \<Rightarrow> (string \<rightharpoonup> ahsp_version_row)" where
  "keep_latest current v =
     (let parent = ah_id (av_ahsp v)
      in case current parent of
           None \<Rightarrow> current(parent \<mapsto> v)
         | Some c \<Rightarrow> if av_version_number v > av_version_number c then current(parent \<mapsto> v) else current)"

definition current_by_parent :: "ahsp_version_row list \<Rightarrow> (string \<rightharpoonup> ahsp_version_row)" where
  "current_by_parent vs = foldl keep_latest Map.empty vs"

text \<open>\<open>new Set([...currentByParent.values()].map(version => version.id))\<close>: the keys are the parents of the list.\<close>

definition current_ids :: "ahsp_version_row list \<Rightarrow> string list" where
  "current_ids vs =
     (let current = current_by_parent vs
      in List.map_filter (\<lambda>parent. map_option av_id (current parent))
        (foldl set_add [] (map (\<lambda>v. ah_id (av_ahsp v)) vs)))"

definition pick_current_applicable :: "ahsp_version_row list \<Rightarrow> ahsp_version_row list" where
  "pick_current_applicable vs = filter (\<lambda>v. av_id v \<in> set (current_ids vs)) vs"

definition classify_ahsp_origin :: "ahsp_version_row \<Rightarrow> string \<Rightarrow> ahsp_origin" where
  "classify_ahsp_origin v workspace =
     (if av_status v \<noteq> Version_Published \<and> ah_ownership_type (av_ahsp v) = USER_ASSET \<and>
         ah_workspace_id (av_ahsp v) \<noteq> None \<and> ah_workspace_id (av_ahsp v) = Some workspace
      then WORKSPACE_PRIVATE else SIMPROK_CATALOG)"

section \<open>Properties\<close>

text \<open>C17: A workspace binds only analyses it may see. An eligible version and its parent belong to the workspace or to no
  workspace; one that is not published belongs, with its parent, to the workspace itself and is neither retired nor
  archived; it applies on the date asked for; and the origin it is labelled with is the branch that admitted it.\<close>

theorem eligible_version_is_visible:
  assumes "eligible_ahsp_version w d v"
  shows "ah_workspace_id (av_ahsp v) \<in> {None, Some w} \<and> av_workspace_id v \<in> {None, Some w} \<and>
    (av_status v \<noteq> Version_Published \<longrightarrow>
      ah_workspace_id (av_ahsp v) = Some w \<and> av_workspace_id v = Some w \<and> ah_archived_at (av_ahsp v) = None \<and>
      av_status v \<noteq> Version_Superseded \<and> av_status v \<noteq> Version_Archived) \<and>
    (\<forall>e. av_effective_date v = Some e \<longrightarrow> e \<le> d) \<and> (\<forall>e. av_expired_date v = Some e \<longrightarrow> d \<le> e) \<and>
    ah_deleted_at (av_ahsp v) = None \<and> av_output_unit v \<noteq> None \<and>
    classify_ahsp_origin v w = (if av_status v = Version_Published then SIMPROK_CATALOG else WORKSPACE_PRIVATE) \<and>
    (\<forall>w'. w' \<noteq> w \<longrightarrow> classify_ahsp_origin v w = WORKSPACE_PRIVATE \<longrightarrow> \<not> eligible_ahsp_version w' d v)"
  using assms
  by (auto simp: eligible_ahsp_version_def catalog_branch_def private_branch_def shared_completeness_def
    classify_ahsp_origin_def PRIVATE_UNUSABLE_VERSION_STATUSES_def split: option.splits)

text \<open>The value a parent is left with: the highest version number, the earliest row on a tie.\<close>

lemma keep_latest_other: "k \<noteq> ah_id (av_ahsp v) \<Longrightarrow> keep_latest current v k = current k"
  by (auto simp: keep_latest_def Let_def split: option.split)

lemma keep_latest_own:
  "\<exists>c. keep_latest current v (ah_id (av_ahsp v)) = Some c \<and> av_version_number v \<le> av_version_number c \<and>
     (c = v \<or> current (ah_id (av_ahsp v)) = Some c) \<and>
     (\<forall>b. current (ah_id (av_ahsp v)) = Some b \<longrightarrow> av_version_number b \<le> av_version_number c)"
  by (auto simp: keep_latest_def Let_def split: option.split)

lemma foldl_keep_latest:
  "(foldl keep_latest current vs k = Some c \<longrightarrow> current k = Some c \<or> c \<in> set vs \<and> ah_id (av_ahsp c) = k) \<and>
   (\<forall>b. current k = Some b \<or> b \<in> set vs \<and> ah_id (av_ahsp b) = k \<longrightarrow>
     (\<exists>c. foldl keep_latest current vs k = Some c \<and> av_version_number b \<le> av_version_number c))"
proof (induction vs arbitrary: current)
  case (Cons v vs)
  note IH = Cons [of "keep_latest current v"]
  show ?case
  proof (cases "k = ah_id (av_ahsp v)")
    case True
    obtain d where d: "keep_latest current v k = Some d" "av_version_number v \<le> av_version_number d"
      "d = v \<or> current k = Some d" "\<And>b. current k = Some b \<Longrightarrow> av_version_number b \<le> av_version_number d"
      using keep_latest_own [of current v] True by blast
    obtain e where e: "foldl keep_latest (keep_latest current v) vs k = Some e" "av_version_number d \<le> av_version_number e"
      using IH d(1) by blast
    show ?thesis using IH d e True by (auto intro: order_trans)
  next
    case False
    then show ?thesis using IH by (auto simp: keep_latest_other)
  qed
qed auto

lemma current_by_parent_Some:
  assumes "current_by_parent vs k = Some c"
  shows "c \<in> set vs" "ah_id (av_ahsp c) = k"
    "\<And>v. v \<in> set vs \<Longrightarrow> ah_id (av_ahsp v) = k \<Longrightarrow> av_version_number v \<le> av_version_number c"
  using foldl_keep_latest [of Map.empty vs k c] assms unfolding current_by_parent_def by auto

lemma current_by_parent_exists: "v \<in> set vs \<Longrightarrow> \<exists>c. current_by_parent vs (ah_id (av_ahsp v)) = Some c"
  using foldl_keep_latest [of Map.empty vs "ah_id (av_ahsp v)"] unfolding current_by_parent_def by blast

lemma mem_current_ids:
  "i \<in> set (current_ids vs) \<longleftrightarrow> (\<exists>c. current_by_parent vs (ah_id (av_ahsp c)) = Some c \<and> av_id c = i)"
proof -
  have "i \<in> set (current_ids vs) \<longleftrightarrow>
      (\<exists>k \<in> (\<lambda>v. ah_id (av_ahsp v)) ` set vs. map_option av_id (current_by_parent vs k) = Some i)"
    by (force simp: current_ids_def Let_def List.map_filter_def foldl_set_add)
  then show ?thesis using current_by_parent_Some by (auto, metis+)
qed

text \<open>A new selection offers one version of every analysis, the latest. With the identifiers and version numbers the
  schema keeps unique, the current versions are, in the order of the list, exactly those no other version of the same
  parent exceeds; every parent of the list keeps exactly one.\<close>

theorem current_versions_are_the_latest:
  assumes "distinct (map av_id vs)" "distinct (map (\<lambda>v. (ah_id (av_ahsp v), av_version_number v)) vs)"
  shows "pick_current_applicable vs =
      filter (\<lambda>v. \<forall>u \<in> set vs. ah_id (av_ahsp u) = ah_id (av_ahsp v) \<longrightarrow> av_version_number u \<le> av_version_number v) vs \<and>
    (\<forall>v \<in> set vs. \<exists>!c. c \<in> set (pick_current_applicable vs) \<and> ah_id (av_ahsp c) = ah_id (av_ahsp v))"
proof -
  let ?cur = "current_by_parent vs"
  have id_eq: "u = v" if "u \<in> set vs" "v \<in> set vs" "av_id u = av_id v" for u v
    using assms(1) that by (meson distinct_map inj_onD)
  have num_eq: "u = v" if "u \<in> set vs" "v \<in> set vs" "ah_id (av_ahsp u) = ah_id (av_ahsp v)"
    "av_version_number u = av_version_number v" for u v
    using assms(2) that unfolding distinct_map inj_on_def by blast
  have picked: "av_id v \<in> set (current_ids vs) \<longleftrightarrow> ?cur (ah_id (av_ahsp v)) = Some v" if "v \<in> set vs" for v
    unfolding mem_current_ids using current_by_parent_Some(1) id_eq that by metis
  have exists: "\<exists>c. ?cur (ah_id (av_ahsp v)) = Some c" if "v \<in> set vs" for v
    using current_by_parent_exists [OF that] .
  have latest: "?cur (ah_id (av_ahsp v)) = Some v \<longleftrightarrow>
      (\<forall>u \<in> set vs. ah_id (av_ahsp u) = ah_id (av_ahsp v) \<longrightarrow> av_version_number u \<le> av_version_number v)" if v: "v \<in> set vs" for v
  proof
    assume "?cur (ah_id (av_ahsp v)) = Some v"
    then show "\<forall>u \<in> set vs. ah_id (av_ahsp u) = ah_id (av_ahsp v) \<longrightarrow> av_version_number u \<le> av_version_number v"
      using current_by_parent_Some(3) by blast
  next
    assume max: "\<forall>u \<in> set vs. ah_id (av_ahsp u) = ah_id (av_ahsp v) \<longrightarrow> av_version_number u \<le> av_version_number v"
    obtain c where c: "?cur (ah_id (av_ahsp v)) = Some c" using exists [OF v] by blast
    note c' = current_by_parent_Some [OF c]
    have "av_version_number c = av_version_number v" using max c'(1,2) c'(3) [OF v] by force
    then show "?cur (ah_id (av_ahsp v)) = Some v" using num_eq [OF c'(1) v c'(2)] c by simp
  qed
  have "\<exists>!c. c \<in> set (pick_current_applicable vs) \<and> ah_id (av_ahsp c) = ah_id (av_ahsp v)" if v: "v \<in> set vs" for v
  proof -
    obtain c where c: "?cur (ah_id (av_ahsp v)) = Some c" using exists [OF v] by blast
    note c' = current_by_parent_Some [OF c]
    show ?thesis
      using c c'(1,2) picked unfolding pick_current_applicable_def by (intro ex1I [of _ c]) auto
  qed
  moreover have "pick_current_applicable vs =
      filter (\<lambda>v. \<forall>u \<in> set vs. ah_id (av_ahsp u) = ah_id (av_ahsp v) \<longrightarrow> av_version_number u \<le> av_version_number v) vs"
    unfolding pick_current_applicable_def using picked latest by (intro filter_cong) auto
  ultimately show ?thesis by blast
qed

section \<open>Witnesses\<close>

definition sample_version :: "string \<Rightarrow> int \<Rightarrow> ahsp_version_row" where
  "sample_version i n =
     \<lparr>av_id = i, av_ahsp = \<lparr>ah_id = ''h1'', ah_workspace_id = Some ''w1'', ah_ownership_type = USER_ASSET,
        ah_archived_at = None, ah_deleted_at = None\<rparr>, av_workspace_id = Some ''w1'', av_version_number = n,
      av_status = Version_Draft, av_effective_date = Some 10, av_expired_date = None, av_output_unit = Some ''m3'',
      av_resource_ids = [''r1'']\<rparr>"

theorem eligible_version_is_visible_witness:
  "eligible_ahsp_version ''w1'' 20 (sample_version ''v1'' 1) \<and>
   classify_ahsp_origin (sample_version ''v1'' 1) ''w1'' = WORKSPACE_PRIVATE \<and>
   \<not> eligible_ahsp_version ''w2'' 20 (sample_version ''v1'' 1)"
proof -
  have e: "eligible_ahsp_version ''w1'' 20 (sample_version ''v1'' 1)" by code_simp
  have "av_status (sample_version ''v1'' 1) \<noteq> Version_Published" by (simp add: sample_version_def)
  then have "classify_ahsp_origin (sample_version ''v1'' 1) ''w1'' = WORKSPACE_PRIVATE"
    using eligible_version_is_visible [OF e] by simp
  moreover have "\<not> eligible_ahsp_version ''w2'' 20 (sample_version ''v1'' 1)"
    using eligible_version_is_visible [OF e] calculation by simp
  ultimately show ?thesis using e by simp
qed

theorem current_versions_are_the_latest_witness:
  "pick_current_applicable [sample_version ''v1'' 1, sample_version ''v2'' 2] = [sample_version ''v2'' 2]"
proof -
  have "distinct (map av_id [sample_version ''v1'' 1, sample_version ''v2'' 2])"
    "distinct (map (\<lambda>v. (ah_id (av_ahsp v), av_version_number v)) [sample_version ''v1'' 1, sample_version ''v2'' 2])"
    by (simp_all add: sample_version_def)
  from current_versions_are_the_latest [OF this] show ?thesis by (simp add: sample_version_def)
qed

end
