(* ===== verification/RabPricing.thy ===== *)
theory RabPricing
  imports RabLifecycle AhspEligibility CostKernel
begin

text \<open>
  Writing a calculated price: \<open>project/rab-draft-recap.ts\<close>, \<open>common/money.ts\<close> and the command of
  \<open>project/rab-kernel-persistence.service.ts\<close> that writes the result of the cost kernel to a line of a draft.

  The re-reading of the selected price and of the estimate policy on the live tables, which the command performs for
  every resource, is an argument (\<open>price_evidence\<close>); everything else of the command is here: the lock on the lifecycle,
  the working draft, the occurrence with its region and date, the frozen estimate, the output unit, the kernel, the
  rounding to money, the line, the subtotal and the totals of the document.
\<close>

section \<open>Money and the recap\<close>

definition to_money_decimal2 :: "'d decimal_ops \<Rightarrow> 'd \<Rightarrow> 'd" where
  "to_money_decimal2 D x = d_to_decimal_places D 2 x"

definition to_decimal_string2 :: "'d decimal_ops \<Rightarrow> 'd \<Rightarrow> string" where
  "to_decimal_string2 D x = d_to_fixed D 2 x"

definition RAB_DRAFT_DEFAULT_MARGIN_PERCENT :: int where "RAB_DRAFT_DEFAULT_MARGIN_PERCENT = 10"
definition RAB_DRAFT_DEFAULT_TAX_PERCENT :: int where "RAB_DRAFT_DEFAULT_TAX_PERCENT = 11"

record 'd draft_recap =
  dr_subtotal :: 'd
  dr_margin_percent :: 'd
  dr_margin_amount :: 'd
  dr_tax_percent :: 'd
  dr_tax_amount :: 'd
  dr_grand_total :: 'd

definition build_draft_recap :: "'d decimal_ops \<Rightarrow> 'd \<Rightarrow> 'd option \<Rightarrow> 'd option \<Rightarrow> 'd draft_recap" where
  "build_draft_recap D subtotal margin_input tax_input =
     (let margin_percent = (case margin_input of Some m \<Rightarrow> m | None \<Rightarrow> d_of_int D RAB_DRAFT_DEFAULT_MARGIN_PERCENT);
          tax_percent = (case tax_input of Some x \<Rightarrow> x | None \<Rightarrow> d_of_int D RAB_DRAFT_DEFAULT_TAX_PERCENT);
          margin_amount = d_div D (d_mul D subtotal margin_percent) (d_of_int D 100);
          tax_amount = d_div D (d_mul D (d_plus D subtotal margin_amount) tax_percent) (d_of_int D 100);
          grand_total = d_plus D (d_plus D subtotal margin_amount) tax_amount
      in \<lparr>dr_subtotal = subtotal, dr_margin_percent = margin_percent, dr_margin_amount = margin_amount,
          dr_tax_percent = tax_percent, dr_tax_amount = tax_amount, dr_grand_total = grand_total\<rparr>)"

datatype pricing_status = PRICING_COMPLETE | PRICING_INCOMPLETE

record recap_wire =
  rc_pricing_status :: pricing_status
  rc_subtotal :: "string option"
  rc_margin_percent :: "string option"
  rc_margin_amount :: "string option"
  rc_tax_percent :: "string option"
  rc_ppn_percent :: "string option"
  rc_tax_amount :: "string option"
  rc_grand_total :: "string option"

definition to_exact_decimal_string :: "'d decimal_ops \<Rightarrow> 'd \<Rightarrow> string" where
  "to_exact_decimal_string D x = d_to_fixed D 2 (to_money_decimal2 D x)"

definition serialize_draft_recap :: "'d decimal_ops \<Rightarrow> 'd draft_recap \<Rightarrow> pricing_status \<Rightarrow> recap_wire" where
  "serialize_draft_recap D recap status =
     (let wire = (\<lambda>x. Some (to_exact_decimal_string D x))
      in \<lparr>rc_pricing_status = status, rc_subtotal = wire (dr_subtotal recap),
          rc_margin_percent = wire (dr_margin_percent recap), rc_margin_amount = wire (dr_margin_amount recap),
          rc_tax_percent = wire (dr_tax_percent recap), rc_ppn_percent = wire (dr_tax_percent recap),
          rc_tax_amount = wire (dr_tax_amount recap), rc_grand_total = wire (dr_grand_total recap)\<rparr>)"

definition incomplete_pricing_recap :: "'d decimal_ops \<Rightarrow> 'd option \<Rightarrow> 'd option \<Rightarrow> recap_wire" where
  "incomplete_pricing_recap D margin_input tax_input =
     \<lparr>rc_pricing_status = PRICING_INCOMPLETE, rc_subtotal = None,
      rc_margin_percent = map_option (to_exact_decimal_string D) margin_input, rc_margin_amount = None,
      rc_tax_percent = map_option (to_exact_decimal_string D) tax_input,
      rc_ppn_percent = map_option (to_exact_decimal_string D) tax_input, rc_tax_amount = None, rc_grand_total = None\<rparr>"

section \<open>The tables\<close>

datatype price_origin = MANUAL_CLIENT | SERVER_COST_KERNEL

record 'd boq_line =
  li_id :: string
  li_structure_id :: string
  li_wbs_code :: string
  li_name :: string
  li_item_type :: string
  li_quantity :: string
  li_unit :: string
  li_unit_price :: "'d option"
  li_line_total :: "'d option"
  li_sort_order :: int
  li_ahsp_version_id :: "string option"
  li_working_occurrence_id :: "string option"
  li_price_origin :: "price_origin option"
  li_calculation_occurrence_id :: "string option"
  li_calculation_as_of_date :: "int option"
  li_calculated_at :: "int option"
  li_calculation_policy_version :: "string option"

definition has_incomplete_pricing :: "'d boq_line list \<Rightarrow> bool" where
  "has_incomplete_pricing items \<longleftrightarrow> (\<exists>item \<in> set items. li_item_type item = ''WORK_ITEM'' \<and> li_unit_price item = None)"

datatype basic_price_scope = Scope_Workspace_Private | Scope_Simprok_Catalog

record priced_resolution = resolution_row +
  rx_raw_ahsp_resource_ref :: string
  rx_raw_ahsp_resource_type :: string
  rx_resource_catalog_id :: "string option"
  rx_selected_scope :: "basic_price_scope option"

record priced_occurrence =
  po_id :: string
  po_workspace_id :: string
  po_project_id :: string
  po_ahsp_version_id :: string
  po_business_pricing_as_of_date :: "int option"
  po_reference_region_id :: "string option"
  po_unit_proof :: frozen_monetary_unit_proof
  po_resolutions :: "priced_resolution list"
  po_ahsp_ownership :: "ownership_type option"
  po_generation :: int

text \<open>Rows stand in the order of their creation; \<open>orderBy\<close> any other column sorts them.\<close>

record 'd pricing_tables = "'d rab_tables" +
  t_boq_items :: "'d boq_line list"
  t_occurrences :: "priced_occurrence list"
  t_ahsp_versions :: "ahsp_version_row list"
  t_version_output_unit_ids :: "(string \<times> string) list"
  t_region_selections :: "(string \<times> string) list"
  t_unit_aliases :: "unit_alias list"

text \<open>What the command asks the live price tables about one resolution.\<close>

type_synonym 'd price_evidence = "'d pricing_tables \<Rightarrow> priced_occurrence \<Rightarrow> int \<Rightarrow> priced_resolution \<Rightarrow> js_error + unit"

section \<open>The command\<close>

definition RAB_KERNEL_PERSISTENCE_POLICY :: string where
  "RAB_KERNEL_PERSISTENCE_POLICY = ''RAB_KERNEL_PERSISTENCE_GRADE_A_V1''"

definition kernel_resource :: "('a) resolution_row_scheme \<Rightarrow> cost_kernel_resource_input" where
  "kernel_resource r =
     \<lparr>cr_ahsp_resource_id = rw_ahsp_resource_id r, cr_resolution_id = rw_id r, cr_status = rw_status r,
      cr_ahsp_version_id = rw_original_ahsp_version_id r, cr_coefficient = rw_ahsp_coefficient r,
      cr_adapted_price_value = frozen_kernel_adapted_price r\<rparr>"

definition temporary_estimate :: "('a) frozen_resolution_scheme \<Rightarrow> bool" where
  "temporary_estimate r \<longleftrightarrow> fr_price_mode r = Js_Val ''TEMPORARY_ESTIMATE''"

text \<open>\<open>decimal.equals(column)\<close>; the text of a decimal column is always read.\<close>

definition equals_column :: "'d decimal_ops \<Rightarrow> 'd \<Rightarrow> string nullable \<Rightarrow> bool" where
  "equals_column D d column =
     (case column of
        Js_Val s \<Rightarrow> (case d_parse D s of None \<Rightarrow> False | Some e \<Rightarrow> d_equals D d e)
      | _ \<Rightarrow> False)"

definition estimate_provenance_invalid :: "'d decimal_ops \<Rightarrow> priced_resolution \<Rightarrow> bool" where
  "estimate_provenance_invalid D r \<longleftrightarrow>
     \<not> truthy (rx_resource_catalog_id r) \<or> fr_selected_basic_price_id r \<noteq> Js_Null \<or> fr_source_price_value r \<noteq> Js_Null \<or>
     fr_adapted_price_value r = Js_Null \<or> fr_estimate_policy_id r = Js_Null \<or> fr_estimate_policy_version r = Js_Null \<or>
     fr_estimate_percent r = Js_Null \<or> fr_estimate_basis_amount r = Js_Null \<or> fr_estimate_derived_amount r = Js_Null \<or>
     falsy_text (fr_estimate_approval_reference r) \<or> falsy_text (fr_estimate_approved_by_account_id r) \<or>
     falsy_text (fr_estimate_approved_by_position_id r) \<or> falsy_text (fr_estimate_authority_code r) \<or>
     absent (fr_estimate_approved_at r) \<or> \<not> equals_column D (d_of_int D 1) (Js_Val (rw_ahsp_coefficient r))"

fun collect_resources ::
    "'d decimal_ops \<Rightarrow> (priced_resolution \<Rightarrow> js_error + unit) \<Rightarrow> priced_resolution list \<Rightarrow> priced_resolution option
      \<Rightarrow> cost_kernel_resource_input list \<Rightarrow> js_error + priced_resolution option \<times> cost_kernel_resource_input list" where
  "collect_resources D evidence [] frozen_estimate resources = Inr (frozen_estimate, resources)"
| "collect_resources D evidence (r # rs) frozen_estimate resources =
     (if rw_status r \<noteq> ''RESOLVED'' then Inl (ConflictException ''UNRESOLVED_RESOURCE'')
      else if temporary_estimate r then
        (if frozen_estimate \<noteq> None \<or> estimate_provenance_invalid D r
         then Inl (ConflictException ''AUXILIARY_ESTIMATE_FROZEN_PROVENANCE_INVALID'')
         else rbind (evidence r) (\<lambda>_. collect_resources D evidence rs (Some r) (resources @ [kernel_resource r])))
      else if falsy_text (fr_selected_basic_price_id r) \<or> fr_adapted_price_value r = Js_Null \<or> fr_source_price_value r = Js_Null
      then Inl (ConflictException ''MISSING_ADAPTED_PRICE'')
      else if \<not> truthy (rx_resource_catalog_id r) then Inl (ConflictException ''BASIC_PRICE_RESOURCE_IDENTITY_MISMATCH'')
      else rbind (evidence r) (\<lambda>_. collect_resources D evidence rs frozen_estimate (resources @ [kernel_resource r])))"

text \<open>\<open>basis.total.mul(percent).div(100)\<close>; the percent is a decimal column.\<close>

definition derived_estimate :: "'d decimal_ops \<Rightarrow> 'd \<Rightarrow> string nullable \<Rightarrow> 'd option" where
  "derived_estimate D basis percent =
     (case percent of
        Js_Val s \<Rightarrow> map_option (\<lambda>p. d_div D (d_mul D basis p) (d_of_int D 100)) (d_parse D s)
      | _ \<Rightarrow> None)"

definition estimate_reproduced ::
    "'d decimal_ops \<Rightarrow> 'd \<Rightarrow> ('a) frozen_resolution_scheme \<Rightarrow> bool" where
  "estimate_reproduced D basis est \<longleftrightarrow>
     equals_column D basis (fr_estimate_basis_amount est) \<and>
     (case derived_estimate D basis (fr_estimate_percent est) of
        None \<Rightarrow> False
      | Some exact \<Rightarrow> equals_column D exact (fr_estimate_derived_amount est) \<and>
          equals_column D (d_to_decimal_places D 2 exact) (fr_adapted_price_value est))"

definition estimate_basis_drifted ::
    "'d decimal_ops \<Rightarrow> string \<Rightarrow> cost_kernel_resource_input list \<Rightarrow> priced_resolution \<Rightarrow> bool" where
  "estimate_basis_drifted D version resources est =
     (case sum_resolved_resource_costs D version (filter (\<lambda>r. cr_resolution_id r \<noteq> rw_id est) resources) of
        Inl _ \<Rightarrow> True
      | Inr (basis, _) \<Rightarrow> \<not> d_greater_than D basis (d_of_int D 0) \<or> \<not> estimate_reproduced D basis est)"

definition output_unit_reproved ::
    "(string \<Rightarrow> string) \<Rightarrow> unit_alias list \<Rightarrow> priced_occurrence \<Rightarrow> 'd boq_line \<Rightarrow> string option \<Rightarrow> string option \<Rightarrow> bool" where
  "output_unit_reproved nfkc aliases occurrence item output_unit output_definition_id =
     (let proof_id = fz_canonical_output_unit_definition_id (po_unit_proof occurrence)
      in if \<not> truthy proof_id then True
         else if fz_boq_unit_at_selection (po_unit_proof occurrence) \<noteq> Some (li_unit item) \<or> \<not> truthy output_unit \<or>
           fz_ahsp_output_unit_at_selection (po_unit_proof occurrence) \<noteq> output_unit
         then False
         else
           (let identities = resolve_canonical_unit_identities nfkc aliases [li_unit item, the output_unit] None;
                names = (\<lambda>u. case find (\<lambda>row. cui_raw_unit row = u) identities of
                   None \<Rightarrow> False
                 | Some row \<Rightarrow> cui_status row = RESOLVED \<and> map_option ud_id (cui_unit_definition row) = proof_id)
            in names (li_unit item) \<and> names (the output_unit) \<and>
               (truthy output_definition_id \<longrightarrow> output_definition_id = proof_id)))"

definition compute_subtotal :: "'d decimal_ops \<Rightarrow> 'd boq_line list \<Rightarrow> 'd" where
  "compute_subtotal D items =
     foldl (\<lambda>total row. d_plus D total
       (case li_line_total row of
          Some x \<Rightarrow> if li_item_type row = ''WORK_ITEM'' then x else d_of_int D 0
        | None \<Rightarrow> d_of_int D 0)) (d_of_int D 0) items"

record persist_params =
  pk_project_id :: string
  pk_boq_item_id :: string
  pk_workspace_id :: string
  pk_calculation_as_of_date_raw :: string

record persist_result =
  px_boq_item_id :: string
  px_unit_price :: string
  px_line_total :: string
  px_price_origin :: price_origin
  px_calculation_occurrence_id :: string
  px_calculation_as_of_date :: string
  px_calculated_at :: string
  px_calculation_policy_version :: string
  px_pricing_status :: pricing_status
  px_total_base_cost :: "string option"
  px_total_final_cost :: "string option"

text \<open>Steps 1 to 5 of the command: the project, its lifecycle, the line and its occurrence.\<close>

definition persistable_line ::
    "'d pricing_tables \<Rightarrow> persist_params \<Rightarrow> int
      \<Rightarrow> js_error + structure_row \<times> 'd boq_line \<times> ahsp_version_row \<times> priced_occurrence" where
  "persistable_line t params as_of =
     (case find (\<lambda>p. pj_id p = pk_project_id params) (t_projects t) of
        None \<Rightarrow> Inl (NotFoundException ''PROJECT_NOT_FOUND'')
      | Some project \<Rightarrow>
     if pj_workspace_id project \<noteq> pk_workspace_id params then Inl (NotFoundException ''PROJECT_NOT_FOUND'')
     else
       (let capability = evaluate_lifecycle t (pk_project_id params) (pj_status project)
        in if \<not> can_edit_draft capability
           then Inl (ConflictException (reason_text (the (lifecycle_reason_code capability))))
           else
     (case find (\<lambda>s. st_project_id s = Some (pk_project_id params) \<and> working_draft_row s) (rev (t_structures t)) of
        None \<Rightarrow> Inl (NotFoundException ''WORKING_DRAFT_NOT_FOUND'')
      | Some structure \<Rightarrow>
     (case find (\<lambda>i. li_id i = pk_boq_item_id params \<and> li_structure_id i = st_id structure) (t_boq_items t) of
        None \<Rightarrow> Inl (NotFoundException ''BOQ_ITEM_NOT_FOUND'')
      | Some item \<Rightarrow>
     if li_item_type item \<noteq> ''WORK_ITEM'' then Inl (ConflictException ''BOQ_ITEM_NOT_WORK_ITEM'')
     else if \<not> truthy (li_ahsp_version_id item) then Inl (ConflictException ''MISSING_AHSP_VERSION'')
     else if \<not> truthy (li_working_occurrence_id item) then Inl (ConflictException ''OCCURRENCE_NOT_FOUND'')
     else
     (case find (\<lambda>v. Some (av_id v) = li_ahsp_version_id item) (t_ahsp_versions t) of
        None \<Rightarrow> Inl (ConflictException ''AHSP_VERSION_NOT_ELIGIBLE'')
      | Some version \<Rightarrow>
     if av_status version = Version_Superseded then Inl (ConflictException ''AHSP_VERSION_NOT_ELIGIBLE'')
     else
     (case find (\<lambda>oc. Some (po_id oc) = li_working_occurrence_id item \<and> po_project_id oc = pk_project_id params \<and>
         po_workspace_id oc = pk_workspace_id params \<and> Some (po_ahsp_version_id oc) = li_ahsp_version_id item)
         (t_occurrences t) of
        None \<Rightarrow> Inl (ConflictException ''OCCURRENCE_NOT_FOUND'')
      | Some occurrence \<Rightarrow>
     if \<not> truthy (po_reference_region_id occurrence) then Inl (ConflictException ''REFERENCE_REGION_REQUIRED'')
     else if (pk_project_id params, the (po_reference_region_id occurrence)) \<notin> set (t_region_selections t)
     then Inl (ConflictException ''PROJECT_REGION_CONTEXT_MISMATCH'')
     else if po_business_pricing_as_of_date occurrence \<noteq> Some as_of
     then Inl (ConflictException ''OCCURRENCE_PRICING_DATE_MISMATCH'')
     else if po_resolutions occurrence = [] then Inl (ConflictException ''EMPTY_RESOURCES'')
     else Inr (structure, item, version, occurrence)))))))"

text \<open>Steps 6 to 10: the resources, the frozen estimate, the output unit, the kernel.\<close>

definition cost_reason_text :: "cost_calculation_reason \<Rightarrow> string" where
  "cost_reason_text reason =
     (case reason of
        BOQ_ITEM_NOT_FOUND \<Rightarrow> ''BOQ_ITEM_NOT_FOUND'' | BOQ_ITEM_NOT_WORK_ITEM \<Rightarrow> ''BOQ_ITEM_NOT_WORK_ITEM''
      | INVALID_VOLUME \<Rightarrow> ''INVALID_VOLUME'' | MISSING_AHSP_VERSION \<Rightarrow> ''MISSING_AHSP_VERSION''
      | MISSING_AHSP_OUTPUT_UNIT \<Rightarrow> ''MISSING_AHSP_OUTPUT_UNIT'' | BOQ_AHSP_UNIT_MISMATCH \<Rightarrow> ''BOQ_AHSP_UNIT_MISMATCH''
      | OCCURRENCE_NOT_FOUND \<Rightarrow> ''OCCURRENCE_NOT_FOUND'' | AMBIGUOUS_OCCURRENCE \<Rightarrow> ''AMBIGUOUS_OCCURRENCE''
      | OWNERSHIP_MISMATCH \<Rightarrow> ''OWNERSHIP_MISMATCH'' | EMPTY_RESOURCES \<Rightarrow> ''EMPTY_RESOURCES''
      | UNRESOLVED_RESOURCE \<Rightarrow> ''UNRESOLVED_RESOURCE'' | MISSING_ADAPTED_PRICE \<Rightarrow> ''MISSING_ADAPTED_PRICE''
      | INVALID_COEFFICIENT \<Rightarrow> ''INVALID_COEFFICIENT'' | RESOURCE_AHSP_VERSION_MISMATCH \<Rightarrow> ''RESOURCE_AHSP_VERSION_MISMATCH''
      | INVALID_DECIMAL \<Rightarrow> ''INVALID_DECIMAL'' | INTERNAL_CALCULATION_ERROR \<Rightarrow> ''INTERNAL_CALCULATION_ERROR'')"

definition line_kernel_input ::
    "'d boq_line \<Rightarrow> string option \<Rightarrow> priced_occurrence \<Rightarrow> bool \<Rightarrow> cost_kernel_resource_input list \<Rightarrow> cost_kernel_input" where
  "line_kernel_input item output_unit occurrence ownership_matches resources =
     \<lparr>ci_boq_item_id = li_id item, ci_ahsp_version_id = li_ahsp_version_id item, ci_occurrence_id = Some (po_id occurrence),
      ci_occurrence_count = 1, ci_item_type = li_item_type item, ci_volume = li_quantity item, ci_boq_unit = li_unit item,
      ci_output_unit = output_unit, ci_frozen_output_unit_proof = Some (po_unit_proof occurrence),
      ci_ownership_matches = ownership_matches, ci_resources = resources\<rparr>"

definition money_of_text :: "'d decimal_ops \<Rightarrow> string \<Rightarrow> js_error + 'd" where
  "money_of_text D s =
     (case d_parse D s of None \<Rightarrow> Inl (Plain_Error ''DecimalError'') | Some x \<Rightarrow> Inr (to_money_decimal2 D x))"

definition calculated_line ::
    "'d decimal_ops \<Rightarrow> (string \<Rightarrow> string) \<Rightarrow> 'd price_evidence \<Rightarrow> 'd pricing_tables \<Rightarrow> int
      \<Rightarrow> 'd boq_line \<Rightarrow> ahsp_version_row \<Rightarrow> priced_occurrence \<Rightarrow> js_error + 'd \<times> 'd" where
  "calculated_line D nfkc evidence t as_of item version occurrence =
     rbind (collect_resources D (evidence t occurrence as_of) (po_resolutions occurrence) None []) (\<lambda>(frozen_estimate, resources).
       if (case frozen_estimate of
             None \<Rightarrow> False
           | Some est \<Rightarrow> estimate_basis_drifted D (the (li_ahsp_version_id item)) resources est)
       then Inl (ConflictException ''AUXILIARY_ESTIMATE_BASIS_DRIFTED'')
       else if \<not> output_unit_reproved nfkc (t_unit_aliases t) occurrence item (av_output_unit version)
         (map_of (t_version_output_unit_ids t) (av_id version))
       then Inl (ConflictException ''BOQ_AHSP_UNIT_MISMATCH'')
       else
         (case calculate_cost_kernel D nfkc (line_kernel_input item (av_output_unit version) occurrence True resources) of
            FAIL_CLOSED failure \<Rightarrow> Inl (ConflictException (cost_reason_text (cf_reason failure)))
          | CALCULATED s \<Rightarrow>
              rbind (money_of_text D (cs_ahsp_unit_price s)) (\<lambda>unit_price.
                rbind (money_of_text D (cs_line_total s)) (\<lambda>line_total. Inr (unit_price, line_total)))))"

text \<open>Steps 10 to 13: the writes.\<close>

definition write_line :: "int \<Rightarrow> int \<Rightarrow> priced_occurrence \<Rightarrow> 'd \<Rightarrow> 'd \<Rightarrow> 'd boq_line \<Rightarrow> 'd boq_line" where
  "write_line now as_of occurrence unit_price line_total item =
     item\<lparr>li_unit_price := Some unit_price, li_line_total := Some line_total, li_price_origin := Some SERVER_COST_KERNEL,
       li_calculation_occurrence_id := Some (po_id occurrence), li_calculation_as_of_date := Some as_of,
       li_calculated_at := Some now, li_calculation_policy_version := Some RAB_KERNEL_PERSISTENCE_POLICY,
       li_working_occurrence_id := None\<rparr>"

definition draft_document_of :: "string \<Rightarrow> string \<Rightarrow> 'd rab_document_row \<Rightarrow> bool" where
  "draft_document_of project structure d \<longleftrightarrow>
     rd_project_id d = Some project \<and> rd_boq_structure_id d = structure \<and> rd_status d = RAB_DRAFT"

definition write_totals ::
    "'d decimal_ops \<Rightarrow> int \<Rightarrow> 'd draft_recap \<Rightarrow> bool \<Rightarrow> 'd rab_document_row \<Rightarrow> 'd rab_document_row" where
  "write_totals D now recap incomplete d =
     d\<lparr>rd_overhead_percent := d_of_int D 0, rd_profit_percent := to_money_decimal2 D (dr_margin_percent recap),
       rd_tax_percent := to_money_decimal2 D (dr_tax_percent recap),
       rd_total_base_cost := (if incomplete then None else Some (to_money_decimal2 D (dr_subtotal recap))),
       rd_total_final_cost := (if incomplete then None else Some (to_money_decimal2 D (dr_grand_total recap))),
       rd_updated_at := now\<rparr>"

definition new_draft_document :: "'d decimal_ops \<Rightarrow> string \<Rightarrow> string \<Rightarrow> string \<Rightarrow> 'd rab_document_row" where
  "new_draft_document D new_id project structure =
     \<lparr>rd_id = new_id, rd_project_id = Some project, rd_boq_structure_id = structure, rd_name = ''Working Draft RAB'',
      rd_version = 1, rd_overhead_percent = d_of_int D 0, rd_profit_percent = d_of_int D 0, rd_tax_percent = d_of_int D 0,
      rd_status = RAB_DRAFT, rd_total_base_cost = None, rd_total_final_cost = None, rd_locked_at = None,
      rd_locked_by_account_id = None, rd_locked_from_status = None, rd_updated_at = 0\<rparr>"

definition written_documents ::
    "'d decimal_ops \<Rightarrow> int \<Rightarrow> string \<Rightarrow> string \<Rightarrow> string \<Rightarrow> 'd draft_recap \<Rightarrow> bool \<Rightarrow> 'd rab_document_row list
      \<Rightarrow> 'd rab_document_row list" where
  "written_documents D now new_id project structure recap incomplete documents =
     (if filter (draft_document_of project structure) documents = []
      then documents @ [write_totals D now recap incomplete (new_draft_document D new_id project structure)]
      else update_rows (draft_document_of project structure) (write_totals D now recap incomplete) documents)"

definition persist_boq_item_calculation ::
    "'d decimal_ops \<Rightarrow> (string \<Rightarrow> string) \<Rightarrow> 'd price_evidence \<Rightarrow> int \<Rightarrow> string \<Rightarrow> 'd pricing_tables \<Rightarrow> persist_params
      \<Rightarrow> js_error + persist_result \<times> 'd pricing_tables" where
  "persist_boq_item_calculation D nfkc evidence now new_id t params =
     rbind (parse_date_only_utc (pk_calculation_as_of_date_raw params) ''calculationAsOfDate'') (\<lambda>as_of.
     rbind (persistable_line t params as_of) (\<lambda>(structure, item, version, occurrence).
     rbind (calculated_line D nfkc evidence t as_of item version occurrence) (\<lambda>(unit_price, line_total).
       (let incomplete = has_incomplete_pricing
              (filter (\<lambda>i. li_structure_id i = st_id structure \<and> li_id i \<noteq> li_id item) (t_boq_items t));
            items = update_rows (\<lambda>i. li_id i = li_id item) (write_line now as_of occurrence unit_price line_total) (t_boq_items t);
            subtotal = compute_subtotal D (filter (\<lambda>i. li_structure_id i = st_id structure) items);
            drafts = filter (draft_document_of (pk_project_id params) (st_id structure)) (t_documents t);
            existing = (case stable_sort_by (\<lambda>a b. rd_updated_at b \<le> rd_updated_at a) drafts of [] \<Rightarrow> None | d # _ \<Rightarrow> Some d);
            recap = build_draft_recap D subtotal (map_option rd_profit_percent existing) (map_option rd_tax_percent existing);
            documents = written_documents D now new_id (pk_project_id params) (st_id structure) recap incomplete (t_documents t)
        in Inr (\<lparr>px_boq_item_id = li_id item, px_unit_price = d_to_fixed D 2 unit_price,
              px_line_total = d_to_fixed D 2 line_total, px_price_origin = SERVER_COST_KERNEL,
              px_calculation_occurrence_id = po_id occurrence, px_calculation_as_of_date = take 10 (to_iso_string as_of),
              px_calculated_at = to_iso_string now, px_calculation_policy_version = RAB_KERNEL_PERSISTENCE_POLICY,
              px_pricing_status = (if incomplete then PRICING_INCOMPLETE else PRICING_COMPLETE),
              px_total_base_cost = (if incomplete then None
                else Some (d_to_fixed D 2 (to_money_decimal2 D (dr_subtotal recap)))),
              px_total_final_cost = (if incomplete then None
                else Some (d_to_fixed D 2 (to_money_decimal2 D (dr_grand_total recap))))\<rparr>,
            t\<lparr>t_boq_items := items, t_documents := documents\<rparr>)))))"

section \<open>What a write leaves behind\<close>

lemma collect_resources_Inr:
  assumes "collect_resources D evidence rs frozen acc = Inr (est, resources)"
  shows "resources = acc @ map kernel_resource rs \<and> list_all (\<lambda>r. rw_status r = ''RESOLVED'') rs \<and>
    (case frozen of
       Some e \<Rightarrow> est = Some e \<and> filter temporary_estimate rs = []
     | None \<Rightarrow> filter temporary_estimate rs = (case est of None \<Rightarrow> [] | Some e \<Rightarrow> [e]) \<and>
         (\<forall>e. est = Some e \<longrightarrow> \<not> estimate_provenance_invalid D e))"
  using assms
proof (induction rs arbitrary: frozen acc)
  case (Cons r rs)
  have status: "rw_status r = ''RESOLVED''" using Cons.prems by (auto split: if_splits)
  show ?case
  proof (cases "temporary_estimate r")
    case True
    then have h: "frozen = None" "\<not> estimate_provenance_invalid D r"
      and c: "collect_resources D evidence rs (Some r) (acc @ [kernel_resource r]) = Inr (est, resources)"
      using Cons.prems status by (auto simp: rbind_eq_Inr_iff split: if_splits)
    show ?thesis using Cons.IH [OF c] h True status by simp
  next
    case False
    then have c: "collect_resources D evidence rs frozen (acc @ [kernel_resource r]) = Inr (est, resources)"
      using Cons.prems status by (auto simp: rbind_eq_Inr_iff split: if_splits)
    show ?thesis using Cons.IH [OF c] False status by (cases frozen) simp_all
  qed
qed (auto split: option.split)

text \<open>The facts of a line that is ready to be written.\<close>

lemma persistable_lineD:
  assumes "persistable_line t params as_of = Inr (st, item, version, occurrence)"
  shows "(\<exists>project. find (\<lambda>p. pj_id p = pk_project_id params) (t_projects t) = Some project \<and>
      pj_workspace_id project = pk_workspace_id params \<and>
      can_edit_draft (evaluate_lifecycle t (pk_project_id params) (pj_status project)))"
    and "st \<in> set (t_structures t)" "st_project_id st = Some (pk_project_id params)" "working_draft_row st"
    and "find (\<lambda>i. li_id i = pk_boq_item_id params \<and> li_structure_id i = st_id st) (t_boq_items t) = Some item"
    and "li_item_type item = ''WORK_ITEM''" "truthy (li_ahsp_version_id item)"
    and "find (\<lambda>v. Some (av_id v) = li_ahsp_version_id item) (t_ahsp_versions t) = Some version"
    and "occurrence \<in> set (t_occurrences t)" "po_project_id occurrence = pk_project_id params"
      "po_workspace_id occurrence = pk_workspace_id params" "Some (po_ahsp_version_id occurrence) = li_ahsp_version_id item"
    and "po_business_pricing_as_of_date occurrence = Some as_of" "po_resolutions occurrence \<noteq> []"
  using assms find_Some_mem
  by (force simp: persistable_line_def Let_def split: option.splits if_splits)+

lemma calculated_lineD:
  assumes "calculated_line D nfkc evidence t as_of item version occurrence = Inr (unit_price, line_total)"
  obtains est s x y where
    "collect_resources D (evidence t occurrence as_of) (po_resolutions occurrence) None [] =
      Inr (est, map kernel_resource (po_resolutions occurrence))"
    "\<forall>e. est = Some e \<longrightarrow> \<not> estimate_basis_drifted D (the (li_ahsp_version_id item)) (map kernel_resource (po_resolutions occurrence)) e"
    "calculate_cost_kernel D nfkc (line_kernel_input item (av_output_unit version) occurrence True
      (map kernel_resource (po_resolutions occurrence))) = CALCULATED s"
    "d_parse D (cs_ahsp_unit_price s) = Some x" "unit_price = to_money_decimal2 D x"
    "d_parse D (cs_line_total s) = Some y" "line_total = to_money_decimal2 D y"
proof -
  obtain est resources where c: "collect_resources D (evidence t occurrence as_of) (po_resolutions occurrence) None [] = Inr (est, resources)"
    using assms by (auto simp: calculated_line_def rbind_eq_Inr_iff)
  have r: "resources = map kernel_resource (po_resolutions occurrence)" using collect_resources_Inr [OF c] by simp
  show thesis
    using assms that [of est] c unfolding r
    by (auto simp: calculated_line_def money_of_text_def rbind_eq_Inr_iff split: if_splits option.splits
      cost_calculation_result.splits)
qed

text \<open>The written tables, in one equation.\<close>

lemma persist_InrD:
  assumes "persist_boq_item_calculation D nfkc evidence now new_id t params = Inr (result, t')"
  obtains as_of st item version occurrence unit_price line_total recap where
    "persistable_line t params as_of = Inr (st, item, version, occurrence)"
    "calculated_line D nfkc evidence t as_of item version occurrence = Inr (unit_price, line_total)"
    "t_boq_items t' = update_rows (\<lambda>i. li_id i = li_id item) (write_line now as_of occurrence unit_price line_total) (t_boq_items t)"
    "t' = t\<lparr>t_boq_items := t_boq_items t', t_documents := t_documents t'\<rparr>"
    "dr_subtotal recap = compute_subtotal D (filter (\<lambda>i. li_structure_id i = st_id st) (t_boq_items t'))"
    "t_documents t' = written_documents D now new_id (pk_project_id params) (st_id st) recap
      (has_incomplete_pricing (filter (\<lambda>i. li_structure_id i = st_id st \<and> li_id i \<noteq> li_id item) (t_boq_items t))) (t_documents t)"
    "px_unit_price result = d_to_fixed D 2 unit_price" "px_line_total result = d_to_fixed D 2 line_total"
proof -
  obtain as_of st item version occurrence unit_price line_total where
    l: "parse_date_only_utc (pk_calculation_as_of_date_raw params) ''calculationAsOfDate'' = Inr as_of"
      "persistable_line t params as_of = Inr (st, item, version, occurrence)"
      "calculated_line D nfkc evidence t as_of item version occurrence = Inr (unit_price, line_total)"
    using assms by (auto simp: persist_boq_item_calculation_def rbind_eq_Inr_iff)
  let ?items = "update_rows (\<lambda>i. li_id i = li_id item) (write_line now as_of occurrence unit_price line_total) (t_boq_items t)"
  let ?drafts = "filter (draft_document_of (pk_project_id params) (st_id st)) (t_documents t)"
  let ?existing = "case stable_sort_by (\<lambda>a b. rd_updated_at b \<le> rd_updated_at a) ?drafts of [] \<Rightarrow> None | d # _ \<Rightarrow> Some d"
  let ?recap = "build_draft_recap D (compute_subtotal D (filter (\<lambda>i. li_structure_id i = st_id st) ?items))
    (map_option rd_profit_percent ?existing) (map_option rd_tax_percent ?existing)"
  let ?inc = "has_incomplete_pricing (filter (\<lambda>i. li_structure_id i = st_id st \<and> li_id i \<noteq> li_id item) (t_boq_items t))"
  have eq: "t' = t\<lparr>t_boq_items := ?items,
      t_documents := written_documents D now new_id (pk_project_id params) (st_id st) ?recap ?inc (t_documents t)\<rparr>"
    "px_unit_price result = d_to_fixed D 2 unit_price" "px_line_total result = d_to_fixed D 2 line_total"
    using assms unfolding persist_boq_item_calculation_def l rbind_Inr prod.case Let_def by auto
  show thesis
    by (rule that [OF l(2,3), of ?recap]) (simp_all add: eq, simp add: build_draft_recap_def Let_def)
qed

lemma has_incomplete_filter:
  "has_incomplete_pricing (filter Q items) \<longleftrightarrow>
     (\<exists>item \<in> set items. Q item \<and> li_item_type item = ''WORK_ITEM'' \<and> li_unit_price item = None)"
  by (auto simp: has_incomplete_pricing_def)

lemma write_line_simps [simp]:
  "li_id (write_line now as_of occurrence u l item) = li_id item"
  "li_structure_id (write_line now as_of occurrence u l item) = li_structure_id item"
  "li_item_type (write_line now as_of occurrence u l item) = li_item_type item"
  "li_unit_price (write_line now as_of occurrence u l item) = Some u"
  by (simp_all add: write_line_def)

text \<open>C6: A total is never partial. After a price is written, the draft document of the structure exists and states a total
  exactly when every work item of the structure has a price; the base total it then states is the sum of the line totals,
  rounded to money once.\<close>

theorem total_states_the_whole_draft:
  assumes "persist_boq_item_calculation D nfkc evidence now new_id t params = Inr (result, t')"
  shows "\<exists>st \<in> set (t_structures t). st_project_id st = Some (pk_project_id params) \<and>
    filter (draft_document_of (pk_project_id params) (st_id st)) (t_documents t') \<noteq> [] \<and>
    (\<forall>d \<in> set (t_documents t'). draft_document_of (pk_project_id params) (st_id st) d \<longrightarrow>
      (rd_total_final_cost d = None \<longleftrightarrow>
        has_incomplete_pricing (filter (\<lambda>i. li_structure_id i = st_id st) (t_boq_items t'))) \<and>
      rd_total_base_cost d \<in> {None, Some (to_money_decimal2 D
        (compute_subtotal D (filter (\<lambda>i. li_structure_id i = st_id st) (t_boq_items t'))))} \<and>
      (rd_total_base_cost d = None \<longleftrightarrow> rd_total_final_cost d = None))"
proof -
  obtain as_of st item version occurrence unit_price line_total recap where
    line: "persistable_line t params as_of = Inr (st, item, version, occurrence)"
    and items: "t_boq_items t' = update_rows (\<lambda>i. li_id i = li_id item) (write_line now as_of occurrence unit_price line_total) (t_boq_items t)"
    and sub: "dr_subtotal recap = compute_subtotal D (filter (\<lambda>i. li_structure_id i = st_id st) (t_boq_items t'))"
    and docs: "t_documents t' = written_documents D now new_id (pk_project_id params) (st_id st) recap
      (has_incomplete_pricing (filter (\<lambda>i. li_structure_id i = st_id st \<and> li_id i \<noteq> li_id item) (t_boq_items t))) (t_documents t)"
    by (rule persist_InrD [OF assms])
  let ?inc = "has_incomplete_pricing (filter (\<lambda>i. li_structure_id i = st_id st \<and> li_id i \<noteq> li_id item) (t_boq_items t))"
  have inc: "has_incomplete_pricing (filter (\<lambda>i. li_structure_id i = st_id st) (t_boq_items t')) \<longleftrightarrow> ?inc"
    unfolding items has_incomplete_filter bex_update_rows by auto
  let ?draft = "draft_document_of (pk_project_id params) (st_id st)"
  have draft: "?draft (write_totals D now recap inc d) \<longleftrightarrow> ?draft d" for inc d
    by (simp add: draft_document_of_def write_totals_def)
  have new: "?draft (new_draft_document D new_id (pk_project_id params) (st_id st))"
    by (simp add: draft_document_of_def new_draft_document_def)
  have "filter ?draft (t_documents t') \<noteq> [] \<and>
      (\<forall>d \<in> set (t_documents t'). ?draft d \<longrightarrow> (\<exists>d0. d = write_totals D now recap ?inc d0))"
  proof (cases "filter ?draft (t_documents t) = []")
    case True
    then show ?thesis using docs draft new by (auto simp: written_documents_def filter_empty_conv)
  next
    case False
    then obtain d where d: "d \<in> set (t_documents t)" "?draft d" by (auto simp: filter_empty_conv)
    have eq: "t_documents t' = update_rows ?draft (write_totals D now recap ?inc) (t_documents t)"
      using docs False by (simp add: written_documents_def)
    have "\<exists>x \<in> set (t_documents t'). ?draft x" unfolding eq bex_update_rows using d draft by auto
    moreover have "\<exists>d0. x = write_totals D now recap ?inc d0" if "x \<in> set (t_documents t')" "?draft x" for x
      using that unfolding eq set_update_rows by metis
    ultimately show ?thesis by (auto simp: filter_empty_conv)
  qed
  then have drafts: "filter ?draft (t_documents t') \<noteq> []"
    "\<And>d. d \<in> set (t_documents t') \<Longrightarrow> ?draft d \<Longrightarrow> \<exists>d0. d = write_totals D now recap ?inc d0" by blast+
  show ?thesis
  proof (intro bexI [of _ st] conjI)
    show "st \<in> set (t_structures t)" "st_project_id st = Some (pk_project_id params)"
      using persistable_lineD [OF line] by simp_all
    show "filter ?draft (t_documents t') \<noteq> []" by (rule drafts(1))
    show "\<forall>d \<in> set (t_documents t'). draft_document_of (pk_project_id params) (st_id st) d \<longrightarrow>
      (rd_total_final_cost d = None \<longleftrightarrow>
        has_incomplete_pricing (filter (\<lambda>i. li_structure_id i = st_id st) (t_boq_items t'))) \<and>
      rd_total_base_cost d \<in> {None, Some (to_money_decimal2 D
        (compute_subtotal D (filter (\<lambda>i. li_structure_id i = st_id st) (t_boq_items t'))))} \<and>
      (rd_total_base_cost d = None \<longleftrightarrow> rd_total_final_cost d = None)"
      unfolding inc
    proof (intro ballI impI)
      fix d assume "d \<in> set (t_documents t')" "?draft d"
      then obtain d0 where "d = write_totals D now recap ?inc d0" using drafts(2) by blast
      then show "(rd_total_final_cost d = None \<longleftrightarrow> ?inc) \<and>
        rd_total_base_cost d \<in> {None, Some (to_money_decimal2 D
          (compute_subtotal D (filter (\<lambda>i. li_structure_id i = st_id st) (t_boq_items t'))))} \<and>
        (rd_total_base_cost d = None \<longleftrightarrow> rd_total_final_cost d = None)"
        using sub by (simp add: write_totals_def)
    qed
  qed
qed

section \<open>Witness\<close>

definition sample_resolution :: "string \<Rightarrow> string \<Rightarrow> string \<Rightarrow> priced_resolution" where
  "sample_resolution i coefficient price =
     \<lparr>fr_price_mode = Js_Val ''BASIC_PRICE'', fr_adapted_price_value = Js_Val price,
      fr_selected_basic_price_id = Js_Val ''bp1'', fr_source_price_value = Js_Val price, fr_estimate_policy_id = Js_Null,
      fr_estimate_policy_version = Js_Null, fr_estimate_percent = Js_Null, fr_estimate_basis_amount = Js_Null,
      fr_estimate_derived_amount = Js_Null, fr_estimate_approval_reference = Js_Null,
      fr_estimate_approved_by_account_id = Js_Null, fr_estimate_approved_by_position_id = Js_Null,
      fr_estimate_authority_code = Js_Null, fr_estimate_approved_at = Js_Null,
      rw_ahsp_resource_id = ''a'' @ i, rw_id = i, rw_status = ''RESOLVED'', rw_original_ahsp_version_id = ''v1'',
      rw_ahsp_coefficient = coefficient, rx_raw_ahsp_resource_ref = ''Semen'', rx_raw_ahsp_resource_type = ''MATERIAL'',
      rx_resource_catalog_id = Some ''rc1'', rx_selected_scope = Some Scope_Simprok_Catalog\<rparr>"

definition sample_priced_occurrence :: priced_occurrence where
  "sample_priced_occurrence =
     \<lparr>po_id = ''o1'', po_workspace_id = ''w1'', po_project_id = ''p1'', po_ahsp_version_id = ''v1'',
      po_business_pricing_as_of_date = Some 1770681600000, po_reference_region_id = Some ''rg1'',
      po_unit_proof = \<lparr>fz_boq_unit_at_selection = Some ''m3'', fz_ahsp_output_unit_at_selection = Some ''m3'',
        fz_canonical_output_unit_definition_id = None\<rparr>,
      po_resolutions = [sample_resolution ''r1'' ''2'' ''15'', sample_resolution ''r2'' ''3'' ''7''],
      po_ahsp_ownership = Some SIMPROK_ASSET, po_generation = 1\<rparr>"

definition sample_line :: "rat option boq_line" where
  "sample_line =
     \<lparr>li_id = ''i1'', li_structure_id = ''s1'', li_wbs_code = ''1.1'', li_name = ''Beton'', li_item_type = ''WORK_ITEM'',
      li_quantity = ''4'', li_unit = ''m3'', li_unit_price = None, li_line_total = None, li_sort_order = 1,
      li_ahsp_version_id = Some ''v1'', li_working_occurrence_id = Some ''o1'', li_price_origin = None,
      li_calculation_occurrence_id = None, li_calculation_as_of_date = None, li_calculated_at = None,
      li_calculation_policy_version = None\<rparr>"

definition pricing_of :: "'d rab_tables \<Rightarrow> 'd boq_line list \<Rightarrow> 'd pricing_tables" where
  "pricing_of r items =
     \<lparr>t_memberships = t_memberships r, t_accounts = t_accounts r, t_users = t_users r,
      t_projects = t_projects r, t_organizations = t_organizations r,
      t_project_assignments = t_project_assignments r, t_positions = t_positions r,
      t_position_assignments = t_position_assignments r, t_authorities = t_authorities r,
      t_position_authorities = t_position_authorities r, t_approval_matrix = t_approval_matrix r,
      t_structures = t_structures r, t_documents = t_documents r, t_baselines = t_baselines r,
      t_boq_items = items, t_occurrences = [sample_priced_occurrence],
      t_ahsp_versions = [(sample_version ''v1'' 1)\<lparr>av_output_unit := Some ''m3''\<rparr>], t_version_output_unit_ids = [],
      t_region_selections = [(''p1'', ''rg1'')], t_unit_aliases = []\<rparr>"

definition sample_pricing :: "rat option pricing_tables" where
  "sample_pricing = pricing_of (sample_rab [sample_document]) [sample_line]"

definition sample_params :: persist_params where
  "sample_params =
     \<lparr>pk_project_id = ''p1'', pk_boq_item_id = ''i1'', pk_workspace_id = ''w1'',
      pk_calculation_as_of_date_raw = ''2026-02-10''\<rparr>"

definition sample_write :: "js_error + persist_result \<times> rat option pricing_tables" where
  "sample_write =
     persist_boq_item_calculation decimal20 latin_nfkc (\<lambda>_ _ _ _. Inr ()) 1770700000000 ''d9'' sample_pricing sample_params"

lemma sample_write_steps:
  "parse_date_only_utc (pk_calculation_as_of_date_raw sample_params) ''calculationAsOfDate'' = Inr 1770681600000"
  "persistable_line sample_pricing sample_params 1770681600000 =
     Inr (\<lparr>st_id = ''s1'', st_project_id = Some ''p1'', st_status = RAB_DRAFT, st_name = WORKING_DRAFT_STRUCTURE_NAME\<rparr>,
       sample_line, (sample_version ''v1'' 1)\<lparr>av_output_unit := Some ''m3''\<rparr>, sample_priced_occurrence)"
  "calculated_line decimal20 latin_nfkc (\<lambda>_ _ _ _. Inr ()) sample_pricing 1770681600000 sample_line
     ((sample_version ''v1'' 1)\<lparr>av_output_unit := Some ''m3''\<rparr>) sample_priced_occurrence = Inr (Some 51, Some 204)"
  by code_simp+

lemma sample_written:
  "\<exists>result t'. sample_write = Inr (result, t') \<and>
     t_boq_items t' = [write_line 1770700000000 1770681600000 sample_priced_occurrence (Some 51) (Some 204) sample_line]"
  unfolding sample_write_def persist_boq_item_calculation_def sample_write_steps rbind_Inr prod.case Let_def
  by (simp add: sample_pricing_def pricing_of_def)

theorem total_states_the_whole_draft_witness:
  "\<exists>result t'. sample_write = Inr (result, t') \<and> (\<exists>st \<in> set (t_structures sample_pricing).
     filter (draft_document_of ''p1'' (st_id st)) (t_documents t') \<noteq> [])"
proof -
  obtain result t' where w: "sample_write = Inr (result, t')" using sample_written by blast
  show ?thesis
    using total_states_the_whole_draft [OF w [unfolded sample_write_def]] w by (auto simp: sample_params_def)
qed

end
