(* ===== verification/PersistedCalculation.thy ===== *)
theory PersistedCalculation
  imports RabPricing
begin

text \<open>
  Proving a stored price again: \<open>project/persisted-calculation.service.ts\<close>.

  The service follows the occurrence a stored line was calculated from, runs the cost kernel over its frozen rows and
  compares the money. The list of the resources it also returns, a copy of the frozen columns, is modelled by their costs
  only. The property is the round trip with the command that writes the price.
\<close>

section \<open>The service\<close>

datatype persisted_calculation_reason =
    PERSISTED_ITEM_NOT_FOUND | NOT_CALCULATED | MANUAL_PRICE_NOT_REPROVABLE | CALCULATION_OCCURRENCE_MISSING
  | STORED_MONEY_MISSING | RECOMPUTATION_FAIL_CLOSED

record persisted_proof =
  pv_boq_item_id :: string
  pv_verified :: bool
  pv_stored_volume :: string
  pv_stored_unit :: string
  pv_stored_unit_price :: string
  pv_stored_line_total :: string
  pv_recomputed_unit_price :: string
  pv_recomputed_line_total :: string
  pv_unit_price_matches :: bool
  pv_line_total_matches :: bool
  pv_all_resource_costs_reproduced :: bool
  pv_all_estimate_provenance_reproduced :: "bool option"
  pv_ahsp_ownership :: "ownership_type option"
  pv_ahsp_authoritative :: "bool option"
  pv_private_basic_price_count :: nat
  pv_catalog_basic_price_count :: nat
  pv_temporary_estimate_count :: nat
  pv_resource_costs :: "(string \<times> string) list"

datatype persisted_calculation_result =
    Persisted_Failure persisted_calculation_reason "cost_calculation_reason option"
  | Persisted_Proof persisted_proof

text \<open>The item inside the project and the workspace.\<close>

definition item_in_scope :: "('d, 'a) rab_tables_scheme \<Rightarrow> string \<Rightarrow> string \<Rightarrow> 'd boq_line \<Rightarrow> bool" where
  "item_in_scope t project workspace item \<longleftrightarrow>
     (\<exists>st \<in> set (t_structures t). st_id st = li_structure_id item \<and> st_project_id st = Some project \<and>
       (\<exists>p \<in> set (t_projects t). pj_id p = project \<and> pj_workspace_id p = workspace))"

definition sorted_resolutions :: "priced_occurrence \<Rightarrow> priced_resolution list" where
  "sorted_resolutions occurrence = stable_sort_by (\<lambda>a b. rw_id a \<le> rw_id b) (po_resolutions occurrence)"

definition version_output_unit :: "'d pricing_tables \<Rightarrow> 'd boq_line \<Rightarrow> string option" where
  "version_output_unit t item =
     (case find (\<lambda>v. Some (av_id v) = li_ahsp_version_id item) (t_ahsp_versions t) of
        None \<Rightarrow> None
      | Some v \<Rightarrow> av_output_unit v)"

definition frozen_estimate_reproduced :: "'d decimal_ops \<Rightarrow> priced_occurrence \<Rightarrow> priced_resolution \<Rightarrow> bool" where
  "frozen_estimate_reproduced D occurrence est \<longleftrightarrow>
     (if fr_estimate_percent est = Js_Null \<or> fr_estimate_basis_amount est = Js_Null \<or>
         fr_estimate_derived_amount est = Js_Null \<or> fr_adapted_price_value est = Js_Null \<or>
         fr_selected_basic_price_id est \<noteq> Js_Null \<or> fr_source_price_value est \<noteq> Js_Null
      then False
      else
        (case sum_resolved_resource_costs D (po_ahsp_version_id occurrence)
            (map kernel_resource (filter (\<lambda>r. rw_id r \<noteq> rw_id est) (sorted_resolutions occurrence))) of
           Inl _ \<Rightarrow> False
         | Inr (basis, _) \<Rightarrow> estimate_reproduced D basis est))"

definition ahsp_authoritative :: "ownership_type option \<Rightarrow> bool option" where
  "ahsp_authoritative ownership =
     map_option (\<lambda>o1. o1 = SIMPROK_ASSET \<or> o1 = APPROVED_COMMUNITY_ASSET) ownership"

definition reproof ::
    "'d decimal_ops \<Rightarrow> 'd boq_line \<Rightarrow> 'd \<Rightarrow> 'd \<Rightarrow> priced_occurrence \<Rightarrow> cost_calculation_success \<Rightarrow> 'd \<Rightarrow> 'd \<Rightarrow> persisted_proof" where
  "reproof D item stored_price stored_total occurrence s unit_price line_total =
     (let resolutions = sorted_resolutions occurrence;
          unit_price_matches = d_equals D unit_price stored_price;
          line_total_matches = d_equals D line_total stored_total;
          cost_by_resolution = foldl (\<lambda>m r. m(cc_resolution_id r \<mapsto> cc_resource_cost r)) Map.empty (cs_resources s);
          all_costs = list_all (\<lambda>r. cost_by_resolution (rw_id r) \<noteq> None) resolutions;
          all_estimates = list_all (frozen_estimate_reproduced D occurrence) (filter temporary_estimate resolutions)
      in \<lparr>pv_boq_item_id = li_id item,
          pv_verified = (unit_price_matches \<and> line_total_matches \<and> all_costs \<and> all_estimates),
          pv_stored_volume = li_quantity item, pv_stored_unit = li_unit item,
          pv_stored_unit_price = d_to_fixed D 2 stored_price, pv_stored_line_total = d_to_fixed D 2 stored_total,
          pv_recomputed_unit_price = d_to_fixed D 2 unit_price, pv_recomputed_line_total = d_to_fixed D 2 line_total,
          pv_unit_price_matches = unit_price_matches, pv_line_total_matches = line_total_matches,
          pv_all_resource_costs_reproduced = all_costs,
          pv_all_estimate_provenance_reproduced =
            (if \<exists>r \<in> set resolutions. temporary_estimate r then Some all_estimates else None),
          pv_ahsp_ownership = po_ahsp_ownership occurrence,
          pv_ahsp_authoritative = ahsp_authoritative (po_ahsp_ownership occurrence),
          pv_private_basic_price_count = length (filter (\<lambda>r. rx_selected_scope r = Some Scope_Workspace_Private) resolutions),
          pv_catalog_basic_price_count = length (filter (\<lambda>r. rx_selected_scope r = Some Scope_Simprok_Catalog) resolutions),
          pv_temporary_estimate_count = length (filter temporary_estimate resolutions),
          pv_resource_costs = map (\<lambda>r. (rw_id r, case cost_by_resolution (rw_id r) of None \<Rightarrow> ''0'' | Some c \<Rightarrow> c)) resolutions\<rparr>)"

definition get_persisted_calculation ::
    "'d decimal_ops \<Rightarrow> (string \<Rightarrow> string) \<Rightarrow> 'd pricing_tables \<Rightarrow> string \<Rightarrow> string \<Rightarrow> string
      \<Rightarrow> js_error + persisted_calculation_result" where
  "get_persisted_calculation D nfkc t boq_item project workspace =
     (let fail = (\<lambda>reason. Inr (Persisted_Failure reason None))
      in case find (\<lambda>i. li_id i = boq_item \<and> item_in_scope t project workspace i) (t_boq_items t) of
        None \<Rightarrow> fail PERSISTED_ITEM_NOT_FOUND
      | Some item \<Rightarrow>
     if li_price_origin item = None then fail NOT_CALCULATED
     else if li_price_origin item = Some MANUAL_CLIENT then fail MANUAL_PRICE_NOT_REPROVABLE
     else if li_calculation_occurrence_id item = None \<or> li_calculation_as_of_date item = None \<or>
       li_calculated_at item = None \<or> li_calculation_policy_version item = None
     then fail CALCULATION_OCCURRENCE_MISSING
     else
     (case (li_unit_price item, li_line_total item) of
        (Some stored_price, Some stored_total) \<Rightarrow>
     (case find (\<lambda>oc. Some (po_id oc) = li_calculation_occurrence_id item \<and> po_project_id oc = project \<and>
         po_workspace_id oc = workspace) (t_occurrences t) of
        None \<Rightarrow> fail CALCULATION_OCCURRENCE_MISSING
      | Some occurrence \<Rightarrow>
     (case calculate_cost_kernel D nfkc (line_kernel_input item (version_output_unit t item) occurrence
         (item_in_scope t project workspace item) (map kernel_resource (sorted_resolutions occurrence))) of
        FAIL_CLOSED failure \<Rightarrow> Inr (Persisted_Failure RECOMPUTATION_FAIL_CLOSED (Some (cf_reason failure)))
      | CALCULATED s \<Rightarrow>
          rbind (money_of_text D (cs_ahsp_unit_price s)) (\<lambda>unit_price.
          rbind (money_of_text D (cs_line_total s)) (\<lambda>line_total.
            Inr (Persisted_Proof (reproof D item stored_price stored_total occurrence s unit_price line_total))))))
      | _ \<Rightarrow> fail STORED_MONEY_MISSING))"

section \<open>The round trip\<close>

lemma cost_by_resolution:
  "foldl (\<lambda>m r. m(cc_resolution_id r \<mapsto> cc_resource_cost r)) m rs i \<noteq> None \<longleftrightarrow>
     m i \<noteq> None \<or> i \<in> cc_resolution_id ` set rs"
  by (induction rs arbitrary: m) auto

lemma kernel_resolution_ids:
  assumes "calculate_cost_kernel D nfkc input = CALCULATED s"
  shows "cc_resolution_id ` set (cs_resources s) = cr_resolution_id ` set (ci_resources input)"
proof -
  have "s = calculated_cost D input"
    using assms unfolding calculate_cost_kernel_eq by (auto simp: fail_calculation_def split: option.splits)
  then show ?thesis by (simp add: calculated_cost_def image_image)
qed

lemma kernel_resource_id [simp]: "cr_resolution_id (kernel_resource r) = rw_id r"
  by (simp add: kernel_resource_def)

text \<open>The estimate the write accepted is the one estimate of the occurrence, and its basis is computed alike.\<close>

lemma written_estimates_reproduced:
  assumes "collect_resources D evidence (po_resolutions occurrence) None [] =
      Inr (est, map kernel_resource (po_resolutions occurrence))"
    and "\<forall>e. est = Some e \<longrightarrow>
      \<not> estimate_basis_drifted D (po_ahsp_version_id occurrence) (map kernel_resource (po_resolutions occurrence)) e"
    and "sorted_resolutions occurrence = po_resolutions occurrence"
  shows "list_all (frozen_estimate_reproduced D occurrence) (filter temporary_estimate (sorted_resolutions occurrence))"
proof (cases est)
  case None
  then show ?thesis using collect_resources_Inr [OF assms(1)] by (simp add: assms(3))
next
  case (Some e)
  then have e: "filter temporary_estimate (po_resolutions occurrence) = [e]" "\<not> estimate_provenance_invalid D e"
    "\<not> estimate_basis_drifted D (po_ahsp_version_id occurrence) (map kernel_resource (po_resolutions occurrence)) e"
    using collect_resources_Inr [OF assms(1)] assms(2) by simp_all
  have "filter (\<lambda>r. cr_resolution_id r \<noteq> rw_id e) (map kernel_resource (po_resolutions occurrence)) =
      map kernel_resource (filter (\<lambda>r. rw_id r \<noteq> rw_id e) (po_resolutions occurrence))"
    by (simp add: filter_map comp_def)
  then have "frozen_estimate_reproduced D occurrence e"
    using e(2,3) unfolding frozen_estimate_reproduced_def estimate_basis_drifted_def assms(3)
    by (auto simp: estimate_provenance_invalid_def split: sum.splits)
  then show ?thesis by (simp add: assms(3) e(1))
qed

text \<open>The line a write leaves is the line the service reads.\<close>

lemma written_line_found:
  assumes "find (\<lambda>i. li_id i = k \<and> li_structure_id i = st_id st) items = Some item" "distinct (map li_id items)"
    and "t' = t\<lparr>t_boq_items := update_rows (\<lambda>i. li_id i = li_id item) (write_line now as_of occurrence u l) items, t_documents := documents\<rparr>"
    and "st \<in> set (t_structures t)" "st_project_id st = Some project"
    and "p \<in> set (t_projects t)" "pj_id p = project" "pj_workspace_id p = workspace"
  shows "find (\<lambda>i. li_id i = k \<and> item_in_scope t' project workspace i) (t_boq_items t') =
      Some (write_line now as_of occurrence u l item)"
    and "item_in_scope t' project workspace (write_line now as_of occurrence u l item)"
proof -
  have item: "item \<in> set items" "li_id item = k" "li_structure_id item = st_id st"
    using find_Some_mem [OF assms(1)] by simp_all
  show scope: "item_in_scope t' project workspace (write_line now as_of occurrence u l item)"
    using assms(3-8) item(3) by (auto simp: item_in_scope_def)
  have "distinct (map li_id (t_boq_items t'))" using assms(2,3) by (simp add: map_update_rows)
  moreover have "write_line now as_of occurrence u l item \<in> set (t_boq_items t')"
    using item(1) assms(3) by (auto simp: set_update_rows)
  ultimately show "find (\<lambda>i. li_id i = k \<and> item_in_scope t' project workspace i) (t_boq_items t') =
      Some (write_line now as_of occurrence u l item)"
    using scope item(2) by (intro find_eq_unique [where key = li_id]) auto
qed

text \<open>C5: What the command writes proves itself. After a price is written, the re-proof of the line from its frozen rows
  finds the line, runs the kernel again and answers that every figure matches, estimates included, and it shows the money
  the command reported; the identifiers are unique, the resolutions stand in the order of their identifiers, in which the
  service reads them, and the stored money is a number.\<close>

theorem written_line_is_verified:
  assumes "persist_boq_item_calculation D nfkc evidence now new_id t params = Inr (result, t')"
    and "distinct (map li_id (t_boq_items t))" "distinct (map po_id (t_occurrences t))"
    and "\<forall>oc \<in> set (t_occurrences t). sorted_wrt (\<lambda>a b. rw_id a \<le> rw_id b) (po_resolutions oc)"
    and "\<forall>i \<in> set (t_boq_items t'). \<forall>x. li_unit_price i = Some x \<or> li_line_total i = Some x \<longrightarrow> d_equals D x x"
  shows "\<exists>p. get_persisted_calculation D nfkc t' (pk_boq_item_id params) (pk_project_id params) (pk_workspace_id params) =
      Inr (Persisted_Proof p) \<and> pv_verified p \<and>
    pv_stored_unit_price p = px_unit_price result \<and> pv_stored_line_total p = px_line_total result"
proof -
  obtain as_of st item version occurrence u l recap where
    line: "persistable_line t params as_of = Inr (st, item, version, occurrence)"
    and calc: "calculated_line D nfkc evidence t as_of item version occurrence = Inr (u, l)"
    and items: "t_boq_items t' = update_rows (\<lambda>i. li_id i = li_id item) (write_line now as_of occurrence u l) (t_boq_items t)"
    and t': "t' = t\<lparr>t_boq_items := t_boq_items t', t_documents := t_documents t'\<rparr>"
    and px: "px_unit_price result = d_to_fixed D 2 u" "px_line_total result = d_to_fixed D 2 l"
    by (rule persist_InrD [OF assms(1)])
  note facts = persistable_lineD [OF line]
  let ?item = "write_line now as_of occurrence u l item"
  obtain p where p: "p \<in> set (t_projects t)" "pj_id p = pk_project_id params" "pj_workspace_id p = pk_workspace_id params"
  proof -
    obtain p where p: "find (\<lambda>p. pj_id p = pk_project_id params) (t_projects t) = Some p" "pj_workspace_id p = pk_workspace_id params"
      using facts(1) by blast
    then show thesis using find_Some_mem [OF p(1)] by (intro that) simp_all
  qed
  obtain documents where t'': "t' = t\<lparr>t_boq_items := update_rows (\<lambda>i. li_id i = li_id item) (write_line now as_of occurrence u l) (t_boq_items t),
      t_documents := documents\<rparr>"
    using t' unfolding items by blast
  note found = written_line_found [OF facts(5) assms(2) t'' facts(2,3) p]
  obtain est s x y where
    collect: "collect_resources D (evidence t occurrence as_of) (po_resolutions occurrence) None [] =
      Inr (est, map kernel_resource (po_resolutions occurrence))"
    and drift: "\<forall>e. est = Some e \<longrightarrow>
      \<not> estimate_basis_drifted D (the (li_ahsp_version_id item)) (map kernel_resource (po_resolutions occurrence)) e"
    and kernel: "calculate_cost_kernel D nfkc (line_kernel_input item (av_output_unit version) occurrence True
      (map kernel_resource (po_resolutions occurrence))) = CALCULATED s"
    and money: "d_parse D (cs_ahsp_unit_price s) = Some x" "u = to_money_decimal2 D x"
      "d_parse D (cs_line_total s) = Some y" "l = to_money_decimal2 D y"
    by (rule calculated_lineD [OF calc])
  have version: "the (li_ahsp_version_id item) = po_ahsp_version_id occurrence" using facts(12) by (metis option.sel)
  have sorted: "sorted_resolutions occurrence = po_resolutions occurrence"
    using assms(4) facts(9) by (simp add: sorted_resolutions_def stable_sort_by_sorted)
  have occ: "find (\<lambda>oc. Some (po_id oc) = li_calculation_occurrence_id ?item \<and> po_project_id oc = pk_project_id params \<and>
      po_workspace_id oc = pk_workspace_id params) (t_occurrences t') = Some occurrence"
    using assms(3) facts(9-11) by (intro find_eq_unique [where key = po_id]) (auto simp: t'' write_line_def)
  have output_unit: "version_output_unit t' ?item = av_output_unit version"
    using facts(8) by (simp add: version_output_unit_def t'' write_line_def)
  have input: "line_kernel_input ?item (av_output_unit version) occurrence True rs =
      line_kernel_input item (av_output_unit version) occurrence True rs" for rs
    by (simp add: line_kernel_input_def write_line_def)
  let ?p = "reproof D ?item u l occurrence s u l"
  have "get_persisted_calculation D nfkc t' (pk_boq_item_id params) (pk_project_id params) (pk_workspace_id params) =
      Inr (Persisted_Proof ?p)"
  proof -
    have columns: "li_price_origin ?item = Some SERVER_COST_KERNEL" "li_calculation_occurrence_id ?item \<noteq> None"
      "li_calculation_as_of_date ?item \<noteq> None" "li_calculated_at ?item \<noteq> None"
      "li_calculation_policy_version ?item \<noteq> None" "li_unit_price ?item = Some u" "li_line_total ?item = Some l"
      by (simp_all add: write_line_def)
    have "money_of_text D (cs_ahsp_unit_price s) = Inr u" "money_of_text D (cs_line_total s) = Inr l"
      using money by (simp_all add: money_of_text_def)
    then show ?thesis
      unfolding get_persisted_calculation_def found(1) option.case occ output_unit sorted
      using found(2) kernel by (simp add: columns input)
  qed
  moreover have "pv_verified ?p"
  proof -
    have "item \<in> set (t_boq_items t)" using find_Some_mem [OF facts(5)] by simp
    then have "?item \<in> set (t_boq_items t')" unfolding items by (auto simp: set_update_rows)
    then have "d_equals D u u" "d_equals D l l" using assms(5) by (force simp: write_line_def)+
    moreover
    have "rw_id r \<in> cc_resolution_id ` set (cs_resources s)" if "r \<in> set (po_resolutions occurrence)" for r
      unfolding kernel_resolution_ids [OF kernel] using that by (simp add: line_kernel_input_def image_image)
    then have "list_all (\<lambda>r. foldl (\<lambda>m r. m(cc_resolution_id r \<mapsto> cc_resource_cost r)) Map.empty (cs_resources s) (rw_id r) \<noteq> None)
        (sorted_resolutions occurrence)"
      unfolding cost_by_resolution sorted list_all_iff by blast
    moreover have "list_all (frozen_estimate_reproduced D occurrence) (filter temporary_estimate (sorted_resolutions occurrence))"
      using written_estimates_reproduced [OF collect _ sorted] drift version by simp
    ultimately show ?thesis
      by (simp add: reproof_def Let_def)
  qed
  moreover have "pv_stored_unit_price ?p = px_unit_price result" "pv_stored_line_total ?p = px_line_total result"
    by (simp_all add: reproof_def Let_def px)
  ultimately show ?thesis by blast
qed

section \<open>Witness\<close>

theorem written_line_is_verified_witness:
  "\<exists>result t' p. sample_write = Inr (result, t') \<and>
     get_persisted_calculation decimal20 latin_nfkc t' ''i1'' ''p1'' ''w1'' = Inr (Persisted_Proof p) \<and> pv_verified p"
proof -
  obtain result t' where w: "sample_write = Inr (result, t')"
    and items: "t_boq_items t' = [write_line 1770700000000 1770681600000 sample_priced_occurrence (Some 51) (Some 204) sample_line]"
    using sample_written by blast
  have "distinct (map li_id (t_boq_items sample_pricing))" "distinct (map po_id (t_occurrences sample_pricing))"
    by (simp_all add: sample_pricing_def pricing_of_def)
  moreover have "\<forall>oc \<in> set (t_occurrences sample_pricing). sorted_wrt (\<lambda>a b. rw_id a \<le> rw_id b) (po_resolutions oc)"
    by code_simp
  moreover have "\<forall>i \<in> set (t_boq_items t'). \<forall>x. li_unit_price i = Some x \<or> li_line_total i = Some x \<longrightarrow> d_equals decimal20 x x"
    unfolding items by (auto simp: write_line_def decimal20_simps)
  ultimately show ?thesis
    using written_line_is_verified [OF w [unfolded sample_write_def]] w by (auto simp: sample_params_def)
qed

end
