(* ===== verification/RabLock.thy ===== *)
theory RabLock
  imports PersistedCalculation
begin

text \<open>
  Freezing a bill of quantities: \<open>project/rab-lock.service.ts\<close> and \<open>project/rab-lock.contracts.ts\<close>.

  The command asks, inside one transaction, whether every line still proves itself, still has the price SIMPROK would
  choose and still has an eligible analysis, and then moves one status. The choice of prices for a whole analysis
  (\<open>AhspResourceResolutionOrchestrator.resolveVersionResources\<close>) is an argument. A transaction is one step on the
  tables: it holds the row of the project.

  The properties: a new lock freezes only lines that hold every check, at this moment, and changes nothing but the lock
  columns; every refusal and every repeated lock changes nothing at all.
\<close>

section \<open>The vocabulary\<close>

datatype rab_lock_reason =
    LOCK_PROJECT_NOT_FOUND | LOCK_WORKING_DRAFT_NOT_FOUND | LOCK_RAB_DOCUMENT_NOT_FOUND | LOCK_AMBIGUOUS_WORKING_DRAFT
  | LOCK_RAB_ALREADY_APPROVED | LOCK_RAB_NOT_IN_LOCKABLE_STATE | LOCK_RAB_LOCK_PROVENANCE_CORRUPT
  | LOCK_RAB_HAS_NO_WORK_ITEM | LOCK_PRELOCK_REVALIDATION_REQUIRED

datatype prelock_finding =
    UNPRICED_WORK_ITEM | CALCULATION_MISMATCH | CALCULATION_NOT_REPROVABLE | RESOURCE_COST_NOT_REPRODUCED
  | AHSP_VERSION_NO_LONGER_ELIGIBLE | RAB_PRICING_INCOMPLETE | MANUAL_PRICE_REQUIRES_CONFIRMATION
  | BASIC_PRICE_SELECTION_CHANGED | BASIC_PRICE_NO_LONGER_ELIGIBLE | BASIC_PRICE_AMBIGUOUS | BASIC_PRICE_MISSING
  | AUXILIARY_ESTIMATE_UNAVAILABLE | AUXILIARY_ESTIMATE_DRIFTED | CALCULATION_OCCURRENCE_MISMATCH
  | WORKING_CALCULATION_PENDING

record prelock_line_finding =
  pf_boq_item_id :: string
  pf_wbs_code :: string
  pf_name :: string
  pf_finding :: prelock_finding
  pf_detail :: "string option"
  pf_stored_unit_price :: "string option"
  pf_current_unit_price :: "string option"
  pf_stored_line_total :: "string option"
  pf_current_line_total :: "string option"

record rab_lock_success =
  lk_changed :: bool
  lk_rab_document_id :: string
  lk_project_id :: string
  lk_locked_at :: string
  lk_locked_by_account_id :: string
  lk_locked_from_status :: string
  lk_work_item_count :: nat
  lk_total_base_cost :: "string option"
  lk_total_final_cost :: "string option"

datatype rab_lock_result = Lock_Done rab_lock_success | Lock_Refused rab_lock_reason "prelock_line_finding list"

definition is_whole_lock_fact :: "'d rab_document_row \<Rightarrow> bool" where
  "is_whole_lock_fact d \<longleftrightarrow>
     rd_locked_at d \<noteq> None \<and> rd_locked_by_account_id d \<noteq> None \<and> rd_locked_from_status d = Some RAB_DRAFT"

definition describe_locked_rab ::
    "'d decimal_ops \<Rightarrow> 'd rab_document_row \<Rightarrow> string \<Rightarrow> nat \<Rightarrow> rab_lock_result" where
  "describe_locked_rab D d project work_item_count =
     Lock_Done \<lparr>lk_changed = False, lk_rab_document_id = rd_id d, lk_project_id = project,
       lk_locked_at = to_iso_string (the (rd_locked_at d)), lk_locked_by_account_id = the (rd_locked_by_account_id d),
       lk_locked_from_status = the (rd_locked_from_status d), lk_work_item_count = work_item_count,
       lk_total_base_cost = map_option (to_decimal_string2 D) (rd_total_base_cost d),
       lk_total_final_cost = map_option (to_decimal_string2 D) (rd_total_final_cost d)\<rparr>"

section \<open>Drift of the price basis\<close>

text \<open>A row \<open>ResolutionCreate\<close> the orchestrator answers: the columns the lock reads.\<close>

record resolution_create = frozen_resolution +
  rn_ahsp_resource_id :: string
  rn_status :: string

type_synonym 'd resolve_version_resources =
  "'d pricing_tables \<Rightarrow> string \<Rightarrow> string \<Rightarrow> string option \<Rightarrow> int \<Rightarrow> ahsp_version_row \<Rightarrow> resolution_create list"

definition line_finding :: "'d boq_line \<Rightarrow> prelock_finding \<Rightarrow> prelock_line_finding" where
  "line_finding item finding =
     \<lparr>pf_boq_item_id = li_id item, pf_wbs_code = li_wbs_code item, pf_name = li_name item, pf_finding = finding,
      pf_detail = None, pf_stored_unit_price = None, pf_current_unit_price = None, pf_stored_line_total = None,
      pf_current_line_total = None\<rparr>"

definition stored_money :: "'d decimal_ops \<Rightarrow> 'd boq_line \<Rightarrow> prelock_line_finding \<Rightarrow> prelock_line_finding" where
  "stored_money D item f =
     f\<lparr>pf_stored_unit_price := map_option (to_decimal_string2 D) (li_unit_price item),
       pf_stored_line_total := map_option (to_decimal_string2 D) (li_line_total item)\<rparr>"

text \<open>\<open>new Prisma.Decimal(left).equals(right)\<close> on two columns, and two dates.\<close>

definition same_decimal :: "'d decimal_ops \<Rightarrow> string nullable \<Rightarrow> string nullable \<Rightarrow> bool" where
  "same_decimal D left right =
     (case left of
        Js_Val s \<Rightarrow> (case d_parse D s of None \<Rightarrow> False | Some a \<Rightarrow> equals_column D a right)
      | _ \<Rightarrow> False)"

fun same_date :: "js_date nullable \<Rightarrow> js_date nullable \<Rightarrow> bool" where
  "same_date (Js_Val (Date_Time a)) (Js_Val (Date_Time b)) = (a = b)"
| "same_date _ _ = False"

text \<open>\<open>toDecimalString2\<close> of a column, \<open>null\<close> where the column is.\<close>

definition column_string2 :: "'d decimal_ops \<Rightarrow> string nullable \<Rightarrow> string option" where
  "column_string2 D column =
     (case column of
        Js_Val s \<Rightarrow> map_option (to_decimal_string2 D) (d_parse D s)
      | _ \<Rightarrow> None)"

definition estimate_drifted :: "'d decimal_ops \<Rightarrow> resolution_create \<Rightarrow> priced_resolution \<Rightarrow> bool" where
  "estimate_drifted D now frozen \<longleftrightarrow>
     fr_estimate_policy_id now \<noteq> fr_estimate_policy_id frozen \<or>
     fr_estimate_policy_version now \<noteq> fr_estimate_policy_version frozen \<or>
     \<not> same_decimal D (fr_estimate_percent now) (fr_estimate_percent frozen) \<or>
     \<not> same_decimal D (fr_estimate_basis_amount now) (fr_estimate_basis_amount frozen) \<or>
     \<not> same_decimal D (fr_estimate_derived_amount now) (fr_estimate_derived_amount frozen) \<or>
     fr_estimate_approval_reference now \<noteq> fr_estimate_approval_reference frozen \<or>
     fr_estimate_approved_by_account_id now \<noteq> fr_estimate_approved_by_account_id frozen \<or>
     fr_estimate_approved_by_position_id now \<noteq> fr_estimate_approved_by_position_id frozen \<or>
     fr_estimate_authority_code now \<noteq> fr_estimate_authority_code frozen \<or>
     \<not> same_date (fr_estimate_approved_at frozen) (fr_estimate_approved_at now) \<or>
     \<not> same_decimal D (fr_adapted_price_value now) (fr_adapted_price_value frozen)"

text \<open>What one frozen resolution says against the resolution of this moment.\<close>

definition resolution_drift ::
    "'d decimal_ops \<Rightarrow> 'd boq_line \<Rightarrow> (string \<rightharpoonup> resolution_create) \<Rightarrow> priced_resolution \<Rightarrow> prelock_line_finding list" where
  "resolution_drift D item current frozen =
     (let detailed = (\<lambda>f. (line_finding item f)\<lparr>pf_detail := Some (rx_raw_ahsp_resource_ref frozen)\<rparr>);
          priced = (\<lambda>f now. (detailed f)\<lparr>pf_stored_unit_price := column_string2 D (fr_adapted_price_value frozen),
            pf_current_unit_price := column_string2 D (fr_adapted_price_value now)\<rparr>)
      in if temporary_estimate frozen then
           (case current (rw_ahsp_resource_id frozen) of
              None \<Rightarrow> [detailed AUXILIARY_ESTIMATE_UNAVAILABLE]
            | Some now \<Rightarrow>
                if rn_status now \<noteq> ''RESOLVED'' \<or> \<not> temporary_estimate now then [detailed AUXILIARY_ESTIMATE_UNAVAILABLE]
                else if estimate_drifted D now frozen then [priced AUXILIARY_ESTIMATE_DRIFTED now]
                else [])
         else
           (case current (rw_ahsp_resource_id frozen) of
              None \<Rightarrow> [detailed BASIC_PRICE_AMBIGUOUS]
            | Some now \<Rightarrow>
                if rn_status now = ''NEEDS_REVIEW'' then [detailed BASIC_PRICE_AMBIGUOUS]
                else if rn_status now = ''UNRESOLVED'' \<or> absent (fr_selected_basic_price_id now)
                then [detailed BASIC_PRICE_MISSING]
                else if fr_selected_basic_price_id frozen = Js_Null then []
                else if fr_selected_basic_price_id now \<noteq> fr_selected_basic_price_id frozen
                then [priced BASIC_PRICE_SELECTION_CHANGED now]
                else if column_string2 D (fr_adapted_price_value frozen) \<noteq> column_string2 D (fr_adapted_price_value now)
                then [priced BASIC_PRICE_NO_LONGER_ELIGIBLE now]
                else []))"

definition find_basic_price_drift ::
    "'d decimal_ops \<Rightarrow> 'd resolve_version_resources \<Rightarrow> 'd pricing_tables \<Rightarrow> string \<Rightarrow> string \<Rightarrow> 'd boq_line
      \<Rightarrow> prelock_line_finding list" where
  "find_basic_price_drift D resolve_now t workspace project item =
     (case li_calculation_as_of_date item of
        None \<Rightarrow> []
      | Some as_of \<Rightarrow>
     (case li_calculation_occurrence_id item of
        None \<Rightarrow> [line_finding item CALCULATION_OCCURRENCE_MISMATCH]
      | Some occurrence_id \<Rightarrow>
     (case find (\<lambda>oc. po_id oc = occurrence_id \<and> po_project_id oc = project \<and> po_workspace_id oc = workspace)
         (t_occurrences t) of
        None \<Rightarrow> [line_finding item CALCULATION_OCCURRENCE_MISMATCH]
      | Some occurrence \<Rightarrow>
     (case find (\<lambda>v. av_id v = po_ahsp_version_id occurrence) (t_ahsp_versions t) of
        None \<Rightarrow> [line_finding item CALCULATION_OCCURRENCE_MISMATCH]
      | Some version \<Rightarrow>
     if li_ahsp_version_id item \<noteq> Some (po_ahsp_version_id occurrence) \<or>
       po_business_pricing_as_of_date occurrence \<noteq> Some as_of
     then [line_finding item CALCULATION_OCCURRENCE_MISMATCH]
     else
       (let current = resolve_now t workspace project (po_reference_region_id occurrence) as_of version;
            current_by_resource = foldl (\<lambda>m r. m(rn_ahsp_resource_id r \<mapsto> r)) Map.empty current
        in concat (map (resolution_drift D item current_by_resource) (sorted_resolutions occurrence)))))))"

section \<open>The revalidation of one line\<close>

definition persisted_reason_text :: "persisted_calculation_reason \<Rightarrow> string" where
  "persisted_reason_text reason =
     (case reason of
        PERSISTED_ITEM_NOT_FOUND \<Rightarrow> ''BOQ_ITEM_NOT_FOUND'' | NOT_CALCULATED \<Rightarrow> ''NOT_CALCULATED''
      | MANUAL_PRICE_NOT_REPROVABLE \<Rightarrow> ''MANUAL_PRICE_NOT_REPROVABLE''
      | CALCULATION_OCCURRENCE_MISSING \<Rightarrow> ''CALCULATION_OCCURRENCE_MISSING''
      | STORED_MONEY_MISSING \<Rightarrow> ''STORED_MONEY_MISSING'' | RECOMPUTATION_FAIL_CLOSED \<Rightarrow> ''RECOMPUTATION_FAIL_CLOSED'')"

definition version_still_eligible :: "'d pricing_tables \<Rightarrow> string \<Rightarrow> 'd boq_line \<Rightarrow> bool" where
  "version_still_eligible t workspace item \<longleftrightarrow>
     (case (li_ahsp_version_id item, li_calculation_as_of_date item) of
        (Some version, Some as_of) \<Rightarrow>
          (\<exists>v \<in> set (t_ahsp_versions t). av_id v = version \<and> eligible_ahsp_version workspace as_of v)
      | _ \<Rightarrow> True)"

definition revalidate_line ::
    "'d decimal_ops \<Rightarrow> (string \<Rightarrow> string) \<Rightarrow> 'd resolve_version_resources \<Rightarrow> 'd pricing_tables \<Rightarrow> string \<Rightarrow> string
      \<Rightarrow> 'd boq_line \<Rightarrow> js_error + prelock_line_finding list" where
  "revalidate_line D nfkc resolve_now t project workspace item =
     (let stored = stored_money D item
      in case li_price_origin item of
        None \<Rightarrow> Inr [line_finding item UNPRICED_WORK_ITEM]
      | Some MANUAL_CLIENT \<Rightarrow> Inr [stored (line_finding item MANUAL_PRICE_REQUIRES_CONFIRMATION)]
      | Some SERVER_COST_KERNEL \<Rightarrow>
     (case li_working_occurrence_id item of
        Some pending \<Rightarrow> Inr [stored ((line_finding item WORKING_CALCULATION_PENDING)\<lparr>pf_detail := Some pending\<rparr>)]
      | None \<Rightarrow>
     rbind (get_persisted_calculation D nfkc t (li_id item) project workspace) (\<lambda>proof.
       case proof of
         Persisted_Failure reason _ \<Rightarrow>
           Inr [stored ((line_finding item CALCULATION_NOT_REPROVABLE)\<lparr>pf_detail := Some (persisted_reason_text reason)\<rparr>)]
       | Persisted_Proof p \<Rightarrow>
           if \<not> pv_verified p \<or> \<not> pv_unit_price_matches p \<or> \<not> pv_line_total_matches p
           then Inr [(line_finding item CALCULATION_MISMATCH)
             \<lparr>pf_stored_unit_price := Some (pv_stored_unit_price p), pf_current_unit_price := Some (pv_recomputed_unit_price p),
              pf_stored_line_total := Some (pv_stored_line_total p), pf_current_line_total := Some (pv_recomputed_line_total p)\<rparr>]
           else if \<not> pv_all_resource_costs_reproduced p
           then Inr [(line_finding item RESOURCE_COST_NOT_REPRODUCED)
             \<lparr>pf_stored_unit_price := Some (pv_stored_unit_price p), pf_stored_line_total := Some (pv_stored_line_total p)\<rparr>]
           else
             (case find_basic_price_drift D resolve_now t workspace project item of
                [] \<Rightarrow>
                  if version_still_eligible t workspace item then Inr []
                  else Inr [(line_finding item AHSP_VERSION_NO_LONGER_ELIGIBLE)\<lparr>pf_detail := li_ahsp_version_id item\<rparr>]
              | drift \<Rightarrow> Inr drift))))"

fun revalidate_lines ::
    "'d decimal_ops \<Rightarrow> (string \<Rightarrow> string) \<Rightarrow> 'd resolve_version_resources \<Rightarrow> 'd pricing_tables \<Rightarrow> string \<Rightarrow> string
      \<Rightarrow> 'd boq_line list \<Rightarrow> js_error + prelock_line_finding list" where
  "revalidate_lines D nfkc resolve_now t project workspace [] = Inr []"
| "revalidate_lines D nfkc resolve_now t project workspace (item # items) =
     rbind (revalidate_line D nfkc resolve_now t project workspace item) (\<lambda>findings.
       rbind (revalidate_lines D nfkc resolve_now t project workspace items) (\<lambda>others. Inr (findings @ others)))"

section \<open>The command\<close>

record lock_input =
  lo_project_id :: string
  lo_workspace_id :: string
  lo_actor_account_id :: string

definition freeze :: "int \<Rightarrow> string \<Rightarrow> 'd rab_document_row \<Rightarrow> 'd rab_document_row" where
  "freeze now actor d =
     d\<lparr>rd_status := RAB_LOCKED, rd_locked_at := Some now, rd_locked_by_account_id := Some actor,
       rd_locked_from_status := Some RAB_DRAFT, rd_updated_at := now\<rparr>"

definition project_structures :: "('d, 'a) rab_tables_scheme \<Rightarrow> string \<Rightarrow> structure_row list" where
  "project_structures t project = filter (\<lambda>s. st_project_id s = Some project \<and> working_draft_row s) (t_structures t)"

definition structure_documents :: "('d, 'a) rab_tables_scheme \<Rightarrow> string \<Rightarrow> string \<Rightarrow> 'd rab_document_row list" where
  "structure_documents t project structure =
     filter (\<lambda>d. rd_project_id d = Some project \<and> rd_boq_structure_id d = structure) (t_documents t)"

definition work_items :: "'d pricing_tables \<Rightarrow> string \<Rightarrow> 'd boq_line list" where
  "work_items t structure =
     stable_sort_by (\<lambda>a b. li_sort_order a \<le> li_sort_order b)
       (filter (\<lambda>i. li_structure_id i = structure \<and> li_item_type i = ''WORK_ITEM'') (t_boq_items t))"

definition prelock_findings ::
    "'d decimal_ops \<Rightarrow> (string \<Rightarrow> string) \<Rightarrow> 'd resolve_version_resources \<Rightarrow> 'd pricing_tables \<Rightarrow> string \<Rightarrow> string
      \<Rightarrow> 'd rab_document_row \<Rightarrow> 'd boq_line list \<Rightarrow> js_error + prelock_line_finding list" where
  "prelock_findings D nfkc resolve_now t project workspace rab items =
     rbind (revalidate_lines D nfkc resolve_now t project workspace items) (\<lambda>findings.
       Inr (findings @
         (if rd_total_base_cost rab = None \<or> rd_total_final_cost rab = None
          then [\<lparr>pf_boq_item_id = [], pf_wbs_code = [], pf_name = rd_name rab, pf_finding = RAB_PRICING_INCOMPLETE,
            pf_detail = None, pf_stored_unit_price = None, pf_current_unit_price = None, pf_stored_line_total = None,
            pf_current_line_total = None\<rparr>]
          else [])))"

definition lock_working_draft ::
    "'d decimal_ops \<Rightarrow> (string \<Rightarrow> string) \<Rightarrow> 'd resolve_version_resources \<Rightarrow> int \<Rightarrow> 'd pricing_tables \<Rightarrow> lock_input
      \<Rightarrow> js_error + rab_lock_result \<times> 'd pricing_tables" where
  "lock_working_draft D nfkc resolve_now now t input =
     (let project_id = lo_project_id input; refuse = (\<lambda>reason. Inr (Lock_Refused reason [], t))
      in case find (\<lambda>p. pj_id p = project_id) (t_projects t) of
        None \<Rightarrow> refuse LOCK_PROJECT_NOT_FOUND
      | Some project \<Rightarrow>
     if pj_workspace_id project \<noteq> lo_workspace_id input then refuse LOCK_PROJECT_NOT_FOUND
     else
     (case project_structures t project_id of
        [] \<Rightarrow> refuse LOCK_WORKING_DRAFT_NOT_FOUND
      | [structure] \<Rightarrow>
     (case structure_documents t project_id (st_id structure) of
        [] \<Rightarrow> refuse LOCK_RAB_DOCUMENT_NOT_FOUND
      | [rab] \<Rightarrow>
       (let items = work_items t (st_id structure)
        in if rd_status rab = RAB_LOCKED then
             (if \<not> is_whole_lock_fact rab then refuse LOCK_RAB_LOCK_PROVENANCE_CORRUPT
              else Inr (describe_locked_rab D rab project_id (length items), t))
           else if rd_status rab = RAB_APPROVED then refuse LOCK_RAB_ALREADY_APPROVED
           else if rd_status rab \<noteq> RAB_DRAFT then refuse LOCK_RAB_NOT_IN_LOCKABLE_STATE
           else if items = [] then refuse LOCK_RAB_HAS_NO_WORK_ITEM
           else
     rbind (prelock_findings D nfkc resolve_now t project_id (lo_workspace_id input) rab items) (\<lambda>findings.
       if findings \<noteq> [] then Inr (Lock_Refused LOCK_PRELOCK_REVALIDATION_REQUIRED findings, t)
       else
         (let selected = (\<lambda>d. rd_id d = rd_id rab \<and> rd_status d = RAB_DRAFT)
          in if length (filter selected (t_documents t)) = 0 then
               (case find (\<lambda>d. rd_id d = rd_id rab) (t_documents t) of
                  None \<Rightarrow> Inl (NotFoundException ''RabDocument'')
                | Some settled \<Rightarrow>
                    if rd_status settled \<noteq> RAB_LOCKED \<or> \<not> is_whole_lock_fact settled
                    then refuse LOCK_RAB_LOCK_PROVENANCE_CORRUPT
                    else Inr (describe_locked_rab D settled project_id (length items), t))
             else
               Inr (Lock_Done \<lparr>lk_changed = True, lk_rab_document_id = rd_id rab, lk_project_id = project_id,
                   lk_locked_at = to_iso_string now, lk_locked_by_account_id = lo_actor_account_id input,
                   lk_locked_from_status = RAB_DRAFT, lk_work_item_count = length items,
                   lk_total_base_cost = map_option (to_decimal_string2 D) (rd_total_base_cost rab),
                   lk_total_final_cost = map_option (to_decimal_string2 D) (rd_total_final_cost rab)\<rparr>,
                 t\<lparr>t_documents := update_rows selected (freeze now (lo_actor_account_id input)) (t_documents t)\<rparr>)))
       )
      | _ \<Rightarrow> refuse LOCK_AMBIGUOUS_WORKING_DRAFT)
      | _ \<Rightarrow> refuse LOCK_AMBIGUOUS_WORKING_DRAFT))"

section \<open>Properties\<close>

text \<open>A line the lock may freeze: priced by the kernel, nothing pending, proving itself, on the price basis of this moment.\<close>

definition line_holds ::
    "'d decimal_ops \<Rightarrow> (string \<Rightarrow> string) \<Rightarrow> 'd resolve_version_resources \<Rightarrow> 'd pricing_tables \<Rightarrow> string \<Rightarrow> string
      \<Rightarrow> 'd boq_line \<Rightarrow> bool" where
  "line_holds D nfkc resolve_now t project workspace item \<longleftrightarrow>
     li_price_origin item = Some SERVER_COST_KERNEL \<and> li_working_occurrence_id item = None \<and>
     (\<exists>p. get_persisted_calculation D nfkc t (li_id item) project workspace = Inr (Persisted_Proof p) \<and> pv_verified p) \<and>
     find_basic_price_drift D resolve_now t workspace project item = [] \<and> version_still_eligible t workspace item"

lemma persisted_proof_reproof:
  assumes "get_persisted_calculation D nfkc t i project workspace = Inr (Persisted_Proof p)"
  shows "\<exists>item u l occurrence s price total. p = reproof D item u l occurrence s price total"
proof -
  note run = assms [unfolded get_persisted_calculation_def Let_def]
  obtain item where item: "find (\<lambda>j. li_id j = i \<and> item_in_scope t project workspace j) (t_boq_items t) = Some item"
    using run by (cases "find (\<lambda>j. li_id j = i \<and> item_in_scope t project workspace j) (t_boq_items t)") simp_all
  note run = run [unfolded item option.case]
  from run obtain u l where money: "li_unit_price item = Some u" "li_line_total item = Some l"
    by (cases "li_unit_price item"; cases "li_line_total item") (simp_all split: if_split_asm)
  let ?here = "\<lambda>oc. Some (po_id oc) = li_calculation_occurrence_id item \<and> po_project_id oc = project \<and> po_workspace_id oc = workspace"
  from run obtain occurrence where occurrence: "find ?here (t_occurrences t) = Some occurrence"
    by (cases "find ?here (t_occurrences t)") (simp_all add: money split: if_split_asm)
  let ?run = "calculate_cost_kernel D nfkc (line_kernel_input item (version_output_unit t item) occurrence
     (item_in_scope t project workspace item) (map kernel_resource (sorted_resolutions occurrence)))"
  from run obtain s where s: "?run = CALCULATED s"
    by (cases ?run) (simp_all add: money occurrence split: if_split_asm)
  from run have "rbind (money_of_text D (cs_ahsp_unit_price s)) (\<lambda>price. rbind (money_of_text D (cs_line_total s))
      (\<lambda>total. Inr (Persisted_Proof (reproof D item u l occurrence s price total)))) = Inr (Persisted_Proof p)"
    by (simp add: money occurrence s split: if_split_asm)
  then show ?thesis by (simp add: rbind_eq_Inr_iff) blast
qed

lemma verified_proof:
  assumes "get_persisted_calculation D nfkc t i project workspace = Inr (Persisted_Proof p)" "pv_verified p"
  shows "pv_unit_price_matches p \<and> pv_line_total_matches p \<and> pv_all_resource_costs_reproduced p"
proof -
  obtain item u l occurrence s price sum where p: "p = reproof D item u l occurrence s price sum"
    using persisted_proof_reproof [OF assms(1)] by blast
  show ?thesis
    using assms(2) unfolding p reproof_def Let_def persisted_proof.select_convs by blast
qed

lemma revalidate_line_Nil:
  "revalidate_line D nfkc resolve_now t project workspace item = Inr [] \<longleftrightarrow> line_holds D nfkc resolve_now t project workspace item"
proof (cases "li_price_origin item = Some SERVER_COST_KERNEL \<and> li_working_occurrence_id item = None")
  case False
  then show ?thesis
    by (cases "li_price_origin item"; cases "the (li_price_origin item)")
      (auto simp: revalidate_line_def line_holds_def Let_def)
next
  case priced: True
  let ?proof = "get_persisted_calculation D nfkc t (li_id item) project workspace"
  show ?thesis
  proof (cases "\<exists>p. ?proof = Inr (Persisted_Proof p) \<and> pv_verified p")
    case True
    then obtain p where p: "?proof = Inr (Persisted_Proof p)" "pv_verified p" by blast
    with priced verified_proof [OF p] show ?thesis
      by (simp add: revalidate_line_def line_holds_def Let_def split: list.split)
  next
    case False
    with priced have "\<not> line_holds D nfkc resolve_now t project workspace item" by (simp add: line_holds_def)
    moreover have "revalidate_line D nfkc resolve_now t project workspace item \<noteq> Inr []"
    proof (cases ?proof)
      case Inl
      with priced show ?thesis by (simp add: revalidate_line_def Let_def)
    next
      case (Inr outcome)
      with priced False show ?thesis
        by (cases outcome) (simp_all add: revalidate_line_def Let_def)
    qed
    ultimately show ?thesis by simp
  qed
qed

lemma revalidate_lines_Nil:
  "revalidate_lines D nfkc resolve_now t project workspace items = Inr [] \<longleftrightarrow>
     (\<forall>item \<in> set items. line_holds D nfkc resolve_now t project workspace item)"
  by (induction items) (auto simp: rbind_eq_Inr_iff revalidate_line_Nil [symmetric])

lemma prelock_findings_Nil:
  "prelock_findings D nfkc resolve_now t project workspace rab items = Inr [] \<longleftrightarrow>
     (\<forall>item \<in> set items. line_holds D nfkc resolve_now t project workspace item) \<and>
     rd_total_base_cost rab \<noteq> None \<and> rd_total_final_cost rab \<noteq> None"
  by (auto simp: prelock_findings_def rbind_eq_Inr_iff revalidate_lines_Nil [symmetric] split: if_splits)

text \<open>What a lock decides on: the one document of the one working draft of the project.\<close>

definition rab_of_project ::
    "('d, 'a) rab_tables_scheme \<Rightarrow> string \<Rightarrow> string \<Rightarrow> structure_row \<Rightarrow> 'd rab_document_row \<Rightarrow> bool" where
  "rab_of_project t project workspace structure rab \<longleftrightarrow>
     (\<exists>p. find (\<lambda>p. pj_id p = project) (t_projects t) = Some p \<and> pj_workspace_id p = workspace) \<and>
     project_structures t project = [structure] \<and> structure_documents t project (st_id structure) = [rab]"

lemma structure_documents_mem:
  assumes "structure_documents t project structure = [rab]"
  shows "rab \<in> set (t_documents t)" "rd_project_id rab = Some project" "rd_boq_structure_id rab = structure"
proof -
  have "rab \<in> set (structure_documents t project structure)" using assms by simp
  then show "rab \<in> set (t_documents t)" "rd_project_id rab = Some project" "rd_boq_structure_id rab = structure"
    by (simp_all add: structure_documents_def)
qed

text \<open>Every run of the command, by cases.\<close>

lemma lock_cases:
  assumes "lock_working_draft D nfkc resolve_now now t input = Inr (r, t')"
  obtains (refused) reason findings where "r = Lock_Refused reason findings" "t' = t"
  | (repeated) st rab where "rab_of_project t (lo_project_id input) (lo_workspace_id input) st rab"
      "rd_status rab = RAB_LOCKED" "is_whole_lock_fact rab" "t' = t"
      "r = describe_locked_rab D rab (lo_project_id input) (length (work_items t (st_id st)))"
  | (frozen) st rab where "rab_of_project t (lo_project_id input) (lo_workspace_id input) st rab"
      "rd_status rab = RAB_DRAFT" "work_items t (st_id st) \<noteq> []"
      "\<forall>item \<in> set (work_items t (st_id st)). line_holds D nfkc resolve_now t (lo_project_id input) (lo_workspace_id input) item"
      "rd_total_base_cost rab \<noteq> None" "rd_total_final_cost rab \<noteq> None"
      "t' = t\<lparr>t_documents := update_rows (\<lambda>d. rd_id d = rd_id rab \<and> rd_status d = RAB_DRAFT)
        (freeze now (lo_actor_account_id input)) (t_documents t)\<rparr>"
      "r = Lock_Done \<lparr>lk_changed = True, lk_rab_document_id = rd_id rab, lk_project_id = lo_project_id input,
         lk_locked_at = to_iso_string now, lk_locked_by_account_id = lo_actor_account_id input,
         lk_locked_from_status = RAB_DRAFT, lk_work_item_count = length (work_items t (st_id st)),
         lk_total_base_cost = map_option (to_decimal_string2 D) (rd_total_base_cost rab),
         lk_total_final_cost = map_option (to_decimal_string2 D) (rd_total_final_cost rab)\<rparr>"
proof (cases "\<exists>st rab. rab_of_project t (lo_project_id input) (lo_workspace_id input) st rab")
  case False
  then have "\<exists>reason. r = Lock_Refused reason [] \<and> t' = t"
    using assms unfolding lock_working_draft_def rab_of_project_def
    by (auto simp: Let_def split: option.splits if_splits list.splits)
  then show ?thesis using refused by blast
next
  case True
  then obtain st rab where of: "rab_of_project t (lo_project_id input) (lo_workspace_id input) st rab" by blast
  then have rab: "rab \<in> set (t_documents t)" using structure_documents_mem by (auto simp: rab_of_project_def)
  let ?items = "work_items t (st_id st)"
  note run = assms [unfolded lock_working_draft_def]
  consider "rd_status rab = RAB_LOCKED" | "rd_status rab = RAB_APPROVED" | "rd_status rab = RAB_DRAFT"
    | "rd_status rab \<notin> {RAB_LOCKED, RAB_APPROVED, RAB_DRAFT}" by blast
  then show ?thesis
  proof cases
    case 1
    then show ?thesis
      using run of refused repeated [OF of] by (auto simp: rab_of_project_def Let_def split: if_splits)
  next
    case 2
    then show ?thesis using run of refused by (auto simp: rab_of_project_def Let_def)
  next
    case 3
    have "filter (\<lambda>d. rd_id d = rd_id rab \<and> rd_status d = RAB_DRAFT) (t_documents t) \<noteq> []"
      using rab 3 by (auto simp: filter_empty_conv)
    then have n: "length (filter (\<lambda>d. rd_id d = rd_id rab \<and> rd_status d = RAB_DRAFT) (t_documents t)) \<noteq> 0" by simp
    show ?thesis
    proof (cases "?items = []")
      case True
      then show ?thesis using run of 3 refused by (auto simp: rab_of_project_def Let_def)
    next
      case False
      then obtain findings where f: "prelock_findings D nfkc resolve_now t (lo_project_id input) (lo_workspace_id input)
          rab ?items = Inr findings"
        using run of 3 by (auto simp: rab_of_project_def Let_def rbind_eq_Inr_iff)
      show ?thesis
      proof (cases findings)
        case Nil
        have found: "\<forall>item \<in> set ?items. line_holds D nfkc resolve_now t (lo_project_id input) (lo_workspace_id input) item"
          "rd_total_base_cost rab \<noteq> None" "rd_total_final_cost rab \<noteq> None"
          using f [unfolded Nil prelock_findings_Nil] by blast+
        show ?thesis
          using run of 3 f False n Nil
          by (intro frozen [OF of 3 False found]) (clarsimp simp: rab_of_project_def Let_def)+
      next
        case (Cons x xs)
        then show ?thesis using run of 3 f False refused by (auto simp: rab_of_project_def Let_def)
      qed
    qed
  next
    case 4
    then show ?thesis using run of refused by (auto simp: rab_of_project_def Let_def)
  qed
qed

lemma lock_freezes:
  assumes "rab_of_project t (lo_project_id input) (lo_workspace_id input) st rab" "rd_status rab = RAB_DRAFT"
    "work_items t (st_id st) \<noteq> []"
    "\<forall>item \<in> set (work_items t (st_id st)). line_holds D nfkc resolve_now t (lo_project_id input) (lo_workspace_id input) item"
    "rd_total_base_cost rab \<noteq> None" "rd_total_final_cost rab \<noteq> None"
  shows "\<exists>s t'. lock_working_draft D nfkc resolve_now now t input = Inr (Lock_Done s, t') \<and> lk_changed s"
proof -
  have "rab \<in> set (t_documents t)" using assms(1) structure_documents_mem by (auto simp: rab_of_project_def)
  then have n: "filter (\<lambda>d. rd_id d = rd_id rab \<and> rd_status d = RAB_DRAFT) (t_documents t) \<noteq> []"
    using assms(2) by (auto simp: filter_empty_conv)
  have "prelock_findings D nfkc resolve_now t (lo_project_id input) (lo_workspace_id input) rab (work_items t (st_id st)) = Inr []"
    unfolding prelock_findings_Nil using assms(4-6) by blast
  then show ?thesis
    using assms(1-3) n unfolding lock_working_draft_def by (auto simp: rab_of_project_def Let_def)
qed

text \<open>C4: A bill of quantities is frozen exactly when it deserves it. The command makes a new lock if and only if the
  project has, in the workspace, one working draft with one document, which is a draft with at least one work item and
  with both totals, and every work item is priced by the kernel, has no calculation pending, proves itself from its frozen
  rows, still has the prices of this moment and still has an eligible analysis.\<close>

theorem lock_freezes_exactly_proven_drafts:
  "(\<exists>s t'. lock_working_draft D nfkc resolve_now now t input = Inr (Lock_Done s, t') \<and> lk_changed s) \<longleftrightarrow>
     (\<exists>st rab. rab_of_project t (lo_project_id input) (lo_workspace_id input) st rab \<and> rd_status rab = RAB_DRAFT \<and>
       work_items t (st_id st) \<noteq> [] \<and>
       (\<forall>item \<in> set (work_items t (st_id st)).
         line_holds D nfkc resolve_now t (lo_project_id input) (lo_workspace_id input) item) \<and>
       rd_total_base_cost rab \<noteq> None \<and> rd_total_final_cost rab \<noteq> None)" (is "?lock = ?proven")
proof
  assume ?lock
  then obtain s t' where run: "lock_working_draft D nfkc resolve_now now t input = Inr (Lock_Done s, t')" and s: "lk_changed s"
    by blast
  show ?proven
    by (rule lock_cases [OF run]) (use s in \<open>auto simp: describe_locked_rab_def\<close>)
next
  assume ?proven
  then show ?lock using lock_freezes by metis
qed

lemma freeze_simps [simp]:
  "rd_id (freeze now actor d) = rd_id d" "rd_project_id (freeze now actor d) = rd_project_id d"
  "rd_boq_structure_id (freeze now actor d) = rd_boq_structure_id d" "rd_status (freeze now actor d) = RAB_LOCKED"
  "rd_locked_at (freeze now actor d) = Some now" "rd_locked_by_account_id (freeze now actor d) = Some actor"
  "rd_locked_from_status (freeze now actor d) = Some RAB_DRAFT"
  "rd_total_base_cost (freeze now actor d) = rd_total_base_cost d"
  "rd_total_final_cost (freeze now actor d) = rd_total_final_cost d"
  by (simp_all add: freeze_def)

lemma filter_update_rows:
  assumes "\<And>d. P (f d) = P d"
  shows "filter P (update_rows Q f rows) = update_rows Q f (filter P rows)"
  by (induction rows) (auto simp: assms)

lemma lock_of_locked:
  assumes "rab_of_project t (lo_project_id input) (lo_workspace_id input) st rab"
    "rd_status rab = RAB_LOCKED" "is_whole_lock_fact rab"
  shows "lock_working_draft D nfkc resolve_now now t input =
     Inr (describe_locked_rab D rab (lo_project_id input) (length (work_items t (st_id st))), t)"
  using assms unfolding lock_working_draft_def rab_of_project_def by (auto simp: Let_def)

lemma rab_of_project_frozen:
  assumes "rab_of_project t project workspace st rab" "rd_status rab = RAB_DRAFT"
    "t' = t\<lparr>t_documents := update_rows (\<lambda>d. rd_id d = rd_id rab \<and> rd_status d = RAB_DRAFT) (freeze now actor) (t_documents t)\<rparr>"
  shows "rab_of_project t' project workspace st (freeze now actor rab)"
  using assms unfolding rab_of_project_def project_structures_def structure_documents_def
  by (simp add: filter_update_rows)

text \<open>Locking is idempotent. Once a lock was answered, the same request, from whoever and whenever, answers the same
  document, the same moment, the same account, the same line count and the same totals, says that it changed nothing, and
  leaves every table as it is.\<close>

theorem lock_is_idempotent:
  assumes "lock_working_draft D nfkc resolve_now now t input = Inr (Lock_Done s, t')"
  shows "lock_working_draft D nfkc resolve_later later t' (input\<lparr>lo_actor_account_id := other\<rparr>) =
     Inr (Lock_Done (s\<lparr>lk_changed := False\<rparr>), t')"
proof (rule lock_cases [OF assms], goal_cases)
  case (2 st rab)
  then have "lock_working_draft D nfkc resolve_later later t (input\<lparr>lo_actor_account_id := other\<rparr>) =
      Inr (describe_locked_rab D rab (lo_project_id input) (length (work_items t (st_id st))), t)"
    using lock_of_locked [of t "input\<lparr>lo_actor_account_id := other\<rparr>"] by simp
  with 2 show ?case by (simp add: describe_locked_rab_def)
next
  case (3 st rab)
  let ?rab = "freeze now (lo_actor_account_id input) rab"
  have "rab_of_project t' (lo_project_id input) (lo_workspace_id input) st ?rab"
    by (rule rab_of_project_frozen [OF 3(1,2,7)])
  then have "lock_working_draft D nfkc resolve_later later t' (input\<lparr>lo_actor_account_id := other\<rparr>) =
      Inr (describe_locked_rab D ?rab (lo_project_id input) (length (work_items t' (st_id st))), t')"
    using lock_of_locked [of t' "input\<lparr>lo_actor_account_id := other\<rparr>" st ?rab] by (simp add: is_whole_lock_fact_def)
  moreover have "work_items t' (st_id st) = work_items t (st_id st)" by (simp add: 3(7) work_items_def)
  ultimately show ?case using 3(8) by (simp add: describe_locked_rab_def)
qed simp

text \<open>The finding \<open>RESOURCE_COST_NOT_REPRODUCED\<close> is never reported: a proof that does not reproduce a resource is not
  verified, and is reported as a mismatch.\<close>

lemma resolution_drift_findings:
  "f \<in> set (resolution_drift D item current frozen) \<Longrightarrow> pf_finding f \<noteq> RESOURCE_COST_NOT_REPRODUCED"
  by (auto simp: resolution_drift_def line_finding_def Let_def split: option.splits if_splits)

lemma price_drift_findings:
  "\<forall>f \<in> set (find_basic_price_drift D resolve_now t workspace project item). pf_finding f \<noteq> RESOURCE_COST_NOT_REPRODUCED"
proof -
  let ?drift = "find_basic_price_drift D resolve_now t workspace project item"
  consider "?drift = []" | "?drift = [line_finding item CALCULATION_OCCURRENCE_MISMATCH]"
    | current rs where "?drift = concat (map (resolution_drift D item current) rs)"
  proof (cases "li_calculation_as_of_date item")
    case None
    then show thesis using that by (simp add: find_basic_price_drift_def)
  next
    case as_of: (Some as_of)
    show thesis
    proof (cases "li_calculation_occurrence_id item")
      case None
      then show thesis using that as_of by (simp add: find_basic_price_drift_def)
    next
      case (Some oid)
      note start = find_basic_price_drift_def as_of Some
      show thesis
      proof (cases "find (\<lambda>oc. po_id oc = oid \<and> po_project_id oc = project \<and> po_workspace_id oc = workspace) (t_occurrences t)")
        case None
        then show thesis using that(2) by (simp add: start)
      next
        case found: (Some occurrence)
        show thesis
        proof (cases "find (\<lambda>v. av_id v = po_ahsp_version_id occurrence) (t_ahsp_versions t)")
          case None
          then show thesis using that(2) by (simp add: start found)
        next
          case (Some version)
          then show thesis
            using that(2) that(3) [of _ "sorted_resolutions occurrence"]
            by (cases "li_ahsp_version_id item = Some (po_ahsp_version_id occurrence) \<and>
              po_business_pricing_as_of_date occurrence = Some as_of") (auto simp: start found Let_def)
        qed
      qed
    qed
  qed
  then show ?thesis by cases (auto simp: line_finding_def dest: resolution_drift_findings)
qed

text \<open>The reason a resource cost was not reproduced is dead: no revalidation reports it, because a proof that misses a
  resource cost is not verified and the mismatch of the whole calculation is reported before the question is asked.\<close>

theorem resource_cost_finding_is_dead:
  assumes "revalidate_line D nfkc resolve_now t project workspace item = Inr findings"
  shows "RESOURCE_COST_NOT_REPRODUCED \<notin> pf_finding ` set findings"
proof (cases "li_price_origin item = Some SERVER_COST_KERNEL \<and> li_working_occurrence_id item = None")
  case False
  then show ?thesis
    using assms by (cases "li_price_origin item"; cases "the (li_price_origin item)")
      (auto simp: revalidate_line_def Let_def line_finding_def stored_money_def)
next
  case priced: True
  let ?proof = "get_persisted_calculation D nfkc t (li_id item) project workspace"
  obtain outcome where outcome: "?proof = Inr outcome"
    using assms priced by (cases ?proof) (simp_all add: revalidate_line_def Let_def)
  show ?thesis
  proof (cases outcome)
    case Persisted_Failure
    then show ?thesis
      using assms priced outcome by (auto simp: revalidate_line_def Let_def line_finding_def stored_money_def)
  next
    case (Persisted_Proof p)
    show ?thesis
    proof (cases "pv_verified p")
      case True
      then show ?thesis
        using assms priced outcome Persisted_Proof verified_proof [OF outcome [unfolded Persisted_Proof] True]
        by (auto simp: revalidate_line_def Let_def line_finding_def dest!: price_drift_findings [rule_format] split: list.splits if_splits)
    next
      case False
      then show ?thesis
        using assms priced outcome Persisted_Proof by (auto simp: revalidate_line_def Let_def line_finding_def)
    qed
  qed
qed

section \<open>Witnesses\<close>

definition sample_lockable :: "rat option pricing_tables" where
  "sample_lockable = pricing_of (sample_rab [sample_document])
     [write_line 1770700000000 1770681600000 sample_priced_occurrence (Some 51) (Some 204) sample_line]"

definition sample_lock_input :: lock_input where
  "sample_lock_input = \<lparr>lo_project_id = ''p1'', lo_workspace_id = ''w1'', lo_actor_account_id = ''a1''\<rparr>"

text \<open>The prices of this moment are the frozen ones.\<close>

definition sample_resolver :: "rat option resolve_version_resources" where
  "sample_resolver = (\<lambda>_ _ _ _ _ _. map (\<lambda>r.
     \<lparr>fr_price_mode = fr_price_mode r, fr_adapted_price_value = fr_adapted_price_value r,
      fr_selected_basic_price_id = fr_selected_basic_price_id r, fr_source_price_value = fr_source_price_value r,
      fr_estimate_policy_id = fr_estimate_policy_id r, fr_estimate_policy_version = fr_estimate_policy_version r,
      fr_estimate_percent = fr_estimate_percent r, fr_estimate_basis_amount = fr_estimate_basis_amount r,
      fr_estimate_derived_amount = fr_estimate_derived_amount r,
      fr_estimate_approval_reference = fr_estimate_approval_reference r,
      fr_estimate_approved_by_account_id = fr_estimate_approved_by_account_id r,
      fr_estimate_approved_by_position_id = fr_estimate_approved_by_position_id r,
      fr_estimate_authority_code = fr_estimate_authority_code r, fr_estimate_approved_at = fr_estimate_approved_at r,
      rn_ahsp_resource_id = rw_ahsp_resource_id r, rn_status = ''RESOLVED''\<rparr>) (po_resolutions sample_priced_occurrence))"

lemma sample_lockable_proof:
  "case get_persisted_calculation decimal20 latin_nfkc sample_lockable ''i1'' ''p1'' ''w1'' of
     Inr (Persisted_Proof p) \<Rightarrow> pv_verified p | _ \<Rightarrow> False"
  by code_simp

lemma sample_line_holds:
  "line_holds decimal20 latin_nfkc sample_resolver sample_lockable ''p1'' ''w1''
     (write_line 1770700000000 1770681600000 sample_priced_occurrence (Some 51) (Some 204) sample_line)"
proof -
  let ?item = "write_line 1770700000000 1770681600000 sample_priced_occurrence (Some 51) (Some 204) sample_line :: rat option boq_line"
  have "li_price_origin ?item = Some SERVER_COST_KERNEL" "li_working_occurrence_id ?item = None" "li_id ?item = ''i1''"
    by (simp_all add: write_line_def sample_line_def)
  moreover have "find_basic_price_drift decimal20 sample_resolver sample_lockable ''w1'' ''p1'' ?item = []"
    by code_simp
  moreover have "version_still_eligible sample_lockable ''w1'' ?item" by code_simp
  ultimately show ?thesis
    using sample_lockable_proof by (auto simp: line_holds_def split: sum.splits persisted_calculation_result.splits)
qed

lemma sample_lockable_rab:
  "work_items sample_lockable ''s1'' = t_boq_items sample_lockable"
  "rab_of_project sample_lockable ''p1'' ''w1''
     \<lparr>st_id = ''s1'', st_project_id = Some ''p1'', st_status = RAB_DRAFT, st_name = WORKING_DRAFT_STRUCTURE_NAME\<rparr> sample_document"
proof -
  show "work_items sample_lockable ''s1'' = t_boq_items sample_lockable"
    by (simp add: work_items_def sample_lockable_def pricing_of_def write_line_def sample_line_def)
  show "rab_of_project sample_lockable ''p1'' ''w1''
     \<lparr>st_id = ''s1'', st_project_id = Some ''p1'', st_status = RAB_DRAFT, st_name = WORKING_DRAFT_STRUCTURE_NAME\<rparr> sample_document"
    by (simp add: rab_of_project_def project_structures_def structure_documents_def sample_lockable_def pricing_of_def
      sample_rab_def sample_document_def sample_org_def sample_project_row_def working_draft_row_def)
qed

lemma sample_lock:
  "\<exists>s t'. lock_working_draft decimal20 latin_nfkc sample_resolver 1770800000000 sample_lockable sample_lock_input =
     Inr (Lock_Done s, t') \<and> lk_changed s"
  using lock_freezes [of sample_lockable sample_lock_input, unfolded sample_lock_input_def lock_input.select_convs,
      OF sample_lockable_rab(2)] sample_line_holds
  by (simp add: sample_lock_input_def sample_lockable_rab(1)) (simp add: sample_lockable_def pricing_of_def sample_document_def)

theorem lock_freezes_exactly_proven_drafts_witness:
  "\<exists>s t'. lock_working_draft decimal20 latin_nfkc sample_resolver 1770800000000 sample_lockable sample_lock_input =
     Inr (Lock_Done s, t') \<and> lk_changed s"
  unfolding lock_freezes_exactly_proven_drafts
  using sample_lockable_rab sample_line_holds
  by (intro exI [of _ "\<lparr>st_id = ''s1'', st_project_id = Some ''p1'', st_status = RAB_DRAFT, st_name = WORKING_DRAFT_STRUCTURE_NAME\<rparr>"]
    exI [of _ sample_document])
    (simp add: sample_lock_input_def sample_document_def sample_lockable_rab(1), simp add: sample_lockable_def pricing_of_def)

theorem lock_is_idempotent_witness:
  "\<exists>s t'. lock_working_draft decimal20 latin_nfkc sample_resolver 1770800000000 sample_lockable sample_lock_input =
       Inr (Lock_Done s, t') \<and> lk_changed s \<and>
     lock_working_draft decimal20 latin_nfkc (\<lambda>_ _ _ _ _ _. []) 1770900000000 t'
       (sample_lock_input\<lparr>lo_actor_account_id := ''a2''\<rparr>) = Inr (Lock_Done (s\<lparr>lk_changed := False\<rparr>), t')"
  using sample_lock lock_is_idempotent by blast

theorem resource_cost_finding_is_dead_witness:
  "RESOURCE_COST_NOT_REPRODUCED \<notin> pf_finding ` set [line_finding sample_line UNPRICED_WORK_ITEM]"
  by (rule resource_cost_finding_is_dead [of decimal20 latin_nfkc sample_resolver sample_lockable "''p1''" "''w1''" sample_line])
    (simp add: revalidate_line_def sample_line_def Let_def)

end
