(* ===== verification/RabApproval.thy ===== *)
theory RabApproval
  imports RabLock
begin

text \<open>
  Approving a frozen bill of quantities: \<open>project/rab-approval.service.ts\<close> and \<open>project/rab-approval.contracts.ts\<close>.

  The command asks the authority chain of \<open>DecisionAuthority\<close> who may decide, re-reads the document the lock froze, and
  writes two rows in one transaction: the document becomes approved and the project gets its active baseline. The last
  section runs the three commands of the bill (write a price, lock, approve) as one state machine.

  The properties: an approval lands whole and only on a whole lock with the authority behind it; it is idempotent; in every
  reachable state the documents and the baselines agree; once frozen, the money of a document never moves.
\<close>

section \<open>The vocabulary\<close>

definition RAB_APPROVAL_AUTHORITY :: string where "RAB_APPROVAL_AUTHORITY = ''RAB_APPROVE''"
definition RAB_APPROVAL_OBJECT_TYPE :: string where "RAB_APPROVAL_OBJECT_TYPE = ''RAB_DOCUMENT''"
definition PERMISSION_RAB_APPROVE :: string where "PERMISSION_RAB_APPROVE = ''RAB_APPROVE''"

datatype rab_approval_reason =
    APPROVE_PROJECT_NOT_FOUND | APPROVE_WORKING_DRAFT_NOT_FOUND | APPROVE_RAB_DOCUMENT_NOT_FOUND
  | APPROVE_AMBIGUOUS_WORKING_DRAFT | APPROVE_RAB_LOCK_PROVENANCE_CORRUPT | APPROVE_RAB_NOT_LOCKED
  | APPROVE_ACTIVE_BASELINE_EXISTS | APPROVED_WITHOUT_ACTIVE_BASELINE | APPROVAL_MATRIX_POSITION_NOT_AUTHORIZED
  | APPROVAL_MATRIX_VALUE_OUT_OF_BAND | RAB_TOTAL_UNKNOWN

record rab_approval_baseline =
  ab_id :: string
  ab_project_id :: string
  ab_rab_document_id :: string
  ab_version_number :: int
  ab_approved_at :: string
  ab_approved_by_position_id :: string
  ab_justification :: "string option"

record rab_approval_success =
  ok_changed :: bool
  ok_rab_document_id :: string
  ok_project_id :: string
  ok_approved_by_position_id :: string
  ok_approved_by_position_code :: string
  ok_authority_code :: string
  ok_baseline :: rab_approval_baseline

datatype rab_approval_result =
    Approval_Done rab_approval_success
  | Approval_Refused rab_approval_reason "string option"

record approve_input =
  vo_project_id :: string
  vo_workspace_id :: string
  vo_actor_account_id :: string
  vo_project_access :: project_access_context
  vo_justification :: "string nullable"

section \<open>The document and the matrix\<close>

datatype 'd found_rab = Rab_Found "'d rab_document_row" | Rab_Absent rab_approval_reason

definition find_project_rab :: "('d, 'a) rab_tables_scheme \<Rightarrow> string \<Rightarrow> 'd found_rab" where
  "find_project_rab t project =
     (case project_structures t project of
        [] \<Rightarrow> Rab_Absent APPROVE_WORKING_DRAFT_NOT_FOUND
      | [st] \<Rightarrow>
          (case structure_documents t project (st_id st) of
             [] \<Rightarrow> Rab_Absent APPROVE_RAB_DOCUMENT_NOT_FOUND
           | [rab] \<Rightarrow> Rab_Found rab
           | _ \<Rightarrow> Rab_Absent APPROVE_AMBIGUOUS_WORKING_DRAFT)
      | _ \<Rightarrow> Rab_Absent APPROVE_AMBIGUOUS_WORKING_DRAFT)"

text \<open>The order of the matrix rows decides nothing: the code only filters them and asks for one that covers the value.\<close>

definition covers_value :: "'d decimal_ops \<Rightarrow> 'd \<Rightarrow> 'd approval_matrix_row \<Rightarrow> bool" where
  "covers_value D total_cost row \<longleftrightarrow>
     (case am_min_value row of Some low \<Rightarrow> \<not> d_less_than D total_cost low | None \<Rightarrow> True) \<and>
     (case am_max_value row of Some high \<Rightarrow> \<not> d_greater_than D total_cost high | None \<Rightarrow> True)"

definition approval_matrix_verdict ::
    "'d decimal_ops \<Rightarrow> ('d, 'a) org_tables_scheme \<Rightarrow> string \<Rightarrow> string \<Rightarrow> 'd option \<Rightarrow> rab_approval_reason option" where
  "approval_matrix_verdict D t workspace position total_final_cost =
     (let rows = filter (\<lambda>r. am_workspace_id r = workspace \<and> am_is_active r \<and> am_object_type r = RAB_APPROVAL_OBJECT_TYPE \<and>
            (\<exists>au \<in> set (t_authorities t). au_id au = am_authority_id r \<and> au_code au = RAB_APPROVAL_AUTHORITY))
            (t_approval_matrix t);
          for_position = filter (\<lambda>r. am_required_position_id r = position) rows;
          banded = filter (\<lambda>r. am_min_value r \<noteq> None \<or> am_max_value r \<noteq> None) for_position
      in if rows = [] then None
         else if for_position = [] then Some APPROVAL_MATRIX_POSITION_NOT_AUTHORIZED
         else if length banded < length for_position then None
         else
           (case total_final_cost of
              None \<Rightarrow> Some RAB_TOTAL_UNKNOWN
            | Some total_cost \<Rightarrow>
                if \<exists>r \<in> set banded. covers_value D total_cost r then None
                else Some APPROVAL_MATRIX_VALUE_OUT_OF_BAND))"

section \<open>The command\<close>

definition trimmed_justification :: "string nullable \<Rightarrow> string option" where
  "trimmed_justification j =
     (case j of
        Js_Val s \<Rightarrow> if js_trim s \<noteq> [] then Some (js_trim s) else None
      | _ \<Rightarrow> None)"

definition project_baselines :: "('d, 'a) rab_tables_scheme \<Rightarrow> string \<Rightarrow> baseline_row list" where
  "project_baselines t project =
     stable_sort_by (\<lambda>a b. bl_version_number a \<le> bl_version_number b)
       (filter (\<lambda>b. bl_project_id b = project) (t_baselines t))"

definition next_version_number :: "baseline_row list \<Rightarrow> int" where
  "next_version_number rows = foldl (\<lambda>m row. max m (bl_version_number row)) 0 rows + 1"

definition baseline_view :: "decision_authority \<Rightarrow> string \<Rightarrow> baseline_row \<Rightarrow> rab_approval_baseline" where
  "baseline_view holder project b =
     \<lparr>ab_id = bl_id b, ab_project_id = project, ab_rab_document_id = bl_rab_document_id b,
      ab_version_number = bl_version_number b, ab_approved_at = to_iso_string (bl_approved_at b),
      ab_approved_by_position_id = (case bl_approved_by_position_id b of Some p \<Rightarrow> p | None \<Rightarrow> da_position_id holder),
      ab_justification = bl_justification b\<rparr>"

definition approval_success ::
    "bool \<Rightarrow> 'd rab_document_row \<Rightarrow> string \<Rightarrow> decision_authority \<Rightarrow> baseline_row \<Rightarrow> rab_approval_success" where
  "approval_success changed rab project holder b =
     \<lparr>ok_changed = changed, ok_rab_document_id = rd_id rab, ok_project_id = project,
      ok_approved_by_position_id = ab_approved_by_position_id (baseline_view holder project b),
      ok_approved_by_position_code = da_position_code holder, ok_authority_code = RAB_APPROVAL_AUTHORITY,
      ok_baseline = baseline_view holder project b\<rparr>"

definition new_baseline ::
    "int \<Rightarrow> string \<Rightarrow> string \<Rightarrow> string \<Rightarrow> int \<Rightarrow> decision_authority \<Rightarrow> string option \<Rightarrow> baseline_row" where
  "new_baseline now new_id project document version holder justification =
     \<lparr>bl_id = new_id, bl_project_id = project, bl_rab_document_id = document, bl_version_number = version,
      bl_status = ''ACTIVE'', bl_approved_at = now, bl_approved_by_position_id = Some (da_position_id holder),
      bl_justification = justification\<rparr>"

definition approve_document :: "int \<Rightarrow> 'd rab_document_row \<Rightarrow> 'd rab_document_row" where
  "approve_document now d = d\<lparr>rd_status := RAB_APPROVED, rd_updated_at := now\<rparr>"

definition not_locked :: "string \<Rightarrow> rab_approval_result" where
  "not_locked status = Approval_Refused APPROVE_RAB_NOT_LOCKED (if status = [] then None else Some status)"

definition approve_locked_rab ::
    "'d decimal_ops \<Rightarrow> int \<Rightarrow> string \<Rightarrow> ('d, 'a) rab_tables_scheme \<Rightarrow> approve_input
      \<Rightarrow> js_error + rab_approval_result \<times> ('d, 'a) rab_tables_scheme" where
  "approve_locked_rab D now new_id t input =
     (let project_id = vo_project_id input; refuse = (\<lambda>reason. Inr (Approval_Refused reason None, t))
      in case find (\<lambda>p. pj_id p = project_id) (t_projects t) of
        None \<Rightarrow> refuse APPROVE_PROJECT_NOT_FOUND
      | Some project \<Rightarrow>
     if pj_workspace_id project \<noteq> vo_workspace_id input \<or> pc_workspace_id (vo_project_access input) \<noteq> vo_workspace_id input \<or>
       pc_project_id (vo_project_access input) \<noteq> project_id
     then refuse APPROVE_PROJECT_NOT_FOUND
     else
     rbind (require_within_transaction t (vo_actor_account_id input) (vo_project_access input) RAB_APPROVAL_AUTHORITY) (\<lambda>holder.
     case find_project_rab t project_id of
       Rab_Absent reason \<Rightarrow> refuse reason
     | Rab_Found rab \<Rightarrow>
     (let baseline_rows = project_baselines t project_id;
          active_baselines = filter active_baseline_row baseline_rows
      in if rd_status rab = RAB_APPROVED then
           (case find (\<lambda>b. bl_rab_document_id b = rd_id rab) active_baselines of
              None \<Rightarrow> refuse APPROVED_WITHOUT_ACTIVE_BASELINE
            | Some existing \<Rightarrow>
           (case find (\<lambda>b. bl_id b = bl_id existing) (t_baselines t) of
              None \<Rightarrow> Inl (NotFoundException ''ProjectBaseline'')
            | Some settled \<Rightarrow> Inr (Approval_Done (approval_success False rab project_id holder settled), t)))
         else if rd_status rab \<noteq> RAB_LOCKED then Inr (not_locked (rd_status rab), t)
         else if \<not> is_whole_lock_fact rab then refuse APPROVE_RAB_LOCK_PROVENANCE_CORRUPT
         else if active_baselines \<noteq> [] then refuse APPROVE_ACTIVE_BASELINE_EXISTS
         else
     (case approval_matrix_verdict D t (vo_workspace_id input) (da_position_id holder) (rd_total_final_cost rab) of
        Some reason \<Rightarrow> refuse reason
      | None \<Rightarrow>
       (let selected = (\<lambda>d. rd_id d = rd_id rab \<and> rd_status d = RAB_LOCKED)
        in if length (filter selected (t_documents t)) = 0 then
             (case find (\<lambda>d. rd_id d = rd_id rab) (t_documents t) of
                None \<Rightarrow> Inl (NotFoundException ''RabDocument'')
              | Some settled \<Rightarrow> Inr (not_locked (rd_status settled), t))
           else
             (let baseline = new_baseline now new_id project_id (rd_id rab) (next_version_number baseline_rows) holder
                (trimmed_justification (vo_justification input))
              in Inr (Approval_Done (approval_success True rab project_id holder baseline),
                t\<lparr>t_documents := update_rows selected (approve_document now) (t_documents t),
                  t_baselines := t_baselines t @ [baseline]\<rparr>)))))))"

section \<open>The gate of the screen\<close>

text \<open>The table of documents stands in the order of creation.\<close>

datatype gate_blocker =
    NO_CONFIGURED_AUTHORITY | ACTOR_IS_NOT_HOLDER | PERMISSION_REQUIRED | Gate_Reason rab_approval_reason

record rab_approval_gate =
  ga_rab_status :: "string option"
  ga_rab_document_id :: "string option"
  ga_can_approve :: bool
  ga_blocker :: "gate_blocker option"
  ga_authorized_positions :: "(string \<times> string \<times> string) list"
  ga_holder_position_id :: "string option"
  ga_active_baseline_count :: nat

definition authorized_positions :: "('d, 'a) org_tables_scheme \<Rightarrow> string \<Rightarrow> (string \<times> string \<times> string) list" where
  "authorized_positions t workspace =
     [(ps_id p, ps_code p, ps_name p). g <- t_position_authorities t, p <- t_positions t,
       gr_is_active g \<and> gr_revoked_at g = None \<and> ps_id p = gr_position_id g \<and> ps_workspace_id p = workspace \<and>
       (\<exists>au \<in> set (t_authorities t). au_id au = gr_authority_id g \<and> au_code au = RAB_APPROVAL_AUTHORITY)]"

definition gate_rab :: "('d, 'a) rab_tables_scheme \<Rightarrow> string \<Rightarrow> 'd rab_document_row option" where
  "gate_rab t project =
     (case project_structures t project of
        [st] \<Rightarrow> (case structure_documents t project (st_id st) of [] \<Rightarrow> None | d # _ \<Rightarrow> Some d)
      | _ \<Rightarrow> None)"

definition describe_approval_gate ::
    "('d, 'a) rab_tables_scheme \<Rightarrow> string \<Rightarrow> project_access_context \<Rightarrow> string \<Rightarrow> string list \<Rightarrow> rab_approval_gate" where
  "describe_approval_gate t project ctx account held_permissions =
     (let positions = authorized_positions t (pc_workspace_id ctx);
          active_baselines = length (filter (\<lambda>b. bl_project_id b = project \<and> active_baseline_row b) (t_baselines t));
          holder = resolve_authority t account ctx RAB_APPROVAL_AUTHORITY;
          rab = gate_rab t project;
          gate = (\<lambda>can blocker. \<lparr>ga_rab_status = map_option rd_status rab, ga_rab_document_id = map_option rd_id rab,
            ga_can_approve = can, ga_blocker = blocker, ga_authorized_positions = positions,
            ga_holder_position_id = map_option da_position_id holder, ga_active_baseline_count = active_baselines\<rparr>)
      in if length positions = 0 then gate False (Some NO_CONFIGURED_AUTHORITY)
         else if holder = None then gate False (Some ACTOR_IS_NOT_HOLDER)
         else if PERMISSION_RAB_APPROVE \<notin> set held_permissions then gate False (Some PERMISSION_REQUIRED)
         else if active_baselines > 0 then gate False (Some (Gate_Reason APPROVE_ACTIVE_BASELINE_EXISTS))
         else
           (case rab of
              None \<Rightarrow> gate False (Some (Gate_Reason APPROVE_RAB_DOCUMENT_NOT_FOUND))
            | Some d \<Rightarrow>
                if rd_status d = RAB_APPROVED then gate False (Some (Gate_Reason APPROVED_WITHOUT_ACTIVE_BASELINE))
                else if rd_status d \<noteq> RAB_LOCKED then gate False (Some (Gate_Reason APPROVE_RAB_NOT_LOCKED))
                else gate True None))"

section \<open>Properties of an approval\<close>

lemma find_project_rab_found:
  assumes "find_project_rab t project = Rab_Found rab"
  shows "rab \<in> set (t_documents t)" "rd_project_id rab = Some project"
    "\<exists>st. project_structures t project = [st] \<and> structure_documents t project (st_id st) = [rab]"
proof -
  show *: "\<exists>st. project_structures t project = [st] \<and> structure_documents t project (st_id st) = [rab]"
    using assms unfolding find_project_rab_def by (auto split: list.splits)
  then show "rab \<in> set (t_documents t)" "rd_project_id rab = Some project" using structure_documents_mem by blast+
qed

text \<open>What a new approval rests on: the request, the holder and the document.\<close>

definition approvable ::
    "'d decimal_ops \<Rightarrow> ('d, 'a) rab_tables_scheme \<Rightarrow> approve_input \<Rightarrow> decision_authority \<Rightarrow> 'd rab_document_row \<Rightarrow> bool" where
  "approvable D t input holder rab \<longleftrightarrow>
     (\<exists>p. find (\<lambda>p. pj_id p = vo_project_id input) (t_projects t) = Some p \<and> pj_workspace_id p = vo_workspace_id input) \<and>
     pc_workspace_id (vo_project_access input) = vo_workspace_id input \<and> pc_project_id (vo_project_access input) = vo_project_id input \<and>
     require_within_transaction t (vo_actor_account_id input) (vo_project_access input) RAB_APPROVAL_AUTHORITY = Inr holder \<and>
     find_project_rab t (vo_project_id input) = Rab_Found rab \<and> rd_status rab = RAB_LOCKED \<and> is_whole_lock_fact rab \<and>
     filter active_baseline_row (project_baselines t (vo_project_id input)) = [] \<and>
     approval_matrix_verdict D t (vo_workspace_id input) (da_position_id holder) (rd_total_final_cost rab) = None"

definition approved_baseline ::
    "int \<Rightarrow> string \<Rightarrow> ('d, 'a) rab_tables_scheme \<Rightarrow> approve_input \<Rightarrow> decision_authority \<Rightarrow> 'd rab_document_row \<Rightarrow> baseline_row" where
  "approved_baseline now new_id t input holder rab =
     new_baseline now new_id (vo_project_id input) (rd_id rab) (next_version_number (project_baselines t (vo_project_id input)))
       holder (trimmed_justification (vo_justification input))"

lemma approve_cases:
  assumes "approve_locked_rab D now new_id t input = Inr (r, t')"
  obtains (refused) reason status where "r = Approval_Refused reason status" "t' = t"
  | (repeated) holder rab existing settled where
      "require_within_transaction t (vo_actor_account_id input) (vo_project_access input) RAB_APPROVAL_AUTHORITY = Inr holder"
      "find_project_rab t (vo_project_id input) = Rab_Found rab" "rd_status rab = RAB_APPROVED"
      "find (\<lambda>b. bl_rab_document_id b = rd_id rab) (filter active_baseline_row (project_baselines t (vo_project_id input))) =
        Some existing" "find (\<lambda>b. bl_id b = bl_id existing) (t_baselines t) = Some settled"
      "r = Approval_Done (approval_success False rab (vo_project_id input) holder settled)" "t' = t"
  | (approved) holder rab where "approvable D t input holder rab"
      "r = Approval_Done (approval_success True rab (vo_project_id input) holder (approved_baseline now new_id t input holder rab))"
      "t' = t\<lparr>t_documents := update_rows (\<lambda>d. rd_id d = rd_id rab \<and> rd_status d = RAB_LOCKED) (approve_document now) (t_documents t),
        t_baselines := t_baselines t @ [approved_baseline now new_id t input holder rab]\<rparr>"
proof -
  note run = assms [unfolded approve_locked_rab_def Let_def]
  show thesis
  proof (cases "\<exists>p holder rab. find (\<lambda>p. pj_id p = vo_project_id input) (t_projects t) = Some p \<and>
      pj_workspace_id p = vo_workspace_id input \<and> pc_workspace_id (vo_project_access input) = vo_workspace_id input \<and>
      pc_project_id (vo_project_access input) = vo_project_id input \<and>
      require_within_transaction t (vo_actor_account_id input) (vo_project_access input) RAB_APPROVAL_AUTHORITY = Inr holder \<and>
      find_project_rab t (vo_project_id input) = Rab_Found rab")
    case False
    show thesis
    proof (cases "find (\<lambda>p. pj_id p = vo_project_id input) (t_projects t)")
      case None
      then show thesis using run refused by auto
    next
      case (Some p)
      note run = run [unfolded Some option.case]
      show thesis
      proof (cases "pj_workspace_id p \<noteq> vo_workspace_id input \<or> pc_workspace_id (vo_project_access input) \<noteq> vo_workspace_id input \<or>
          pc_project_id (vo_project_access input) \<noteq> vo_project_id input")
        case True
        then show thesis using run refused by auto
      next
        case here: False
        then obtain holder where holder: "require_within_transaction t (vo_actor_account_id input) (vo_project_access input)
            RAB_APPROVAL_AUTHORITY = Inr holder"
          using run by (cases "require_within_transaction t (vo_actor_account_id input) (vo_project_access input)
            RAB_APPROVAL_AUTHORITY") simp_all
        with False Some here obtain reason where "find_project_rab t (vo_project_id input) = Rab_Absent reason"
          by (cases "find_project_rab t (vo_project_id input)") blast+
        then show thesis using run here holder refused by auto
      qed
    qed
  next
    case True
    then obtain p holder rab where p: "find (\<lambda>p. pj_id p = vo_project_id input) (t_projects t) = Some p"
        "pj_workspace_id p = vo_workspace_id input" "pc_workspace_id (vo_project_access input) = vo_workspace_id input"
        "pc_project_id (vo_project_access input) = vo_project_id input"
      and holder: "require_within_transaction t (vo_actor_account_id input) (vo_project_access input) RAB_APPROVAL_AUTHORITY = Inr holder"
      and rab: "find_project_rab t (vo_project_id input) = Rab_Found rab" by blast
    note run = run [unfolded p(1) holder rab option.case rbind_Inr found_rab.case]
    let ?active = "filter active_baseline_row (project_baselines t (vo_project_id input))"
    have n: "rd_status rab = RAB_LOCKED \<Longrightarrow> filter (\<lambda>d. rd_id d = rd_id rab \<and> rd_status d = RAB_LOCKED) (t_documents t) \<noteq> []"
      using find_project_rab_found(1) [OF rab] by (auto simp: filter_empty_conv)
    consider "rd_status rab = RAB_APPROVED" | "rd_status rab \<noteq> RAB_APPROVED" "rd_status rab \<noteq> RAB_LOCKED"
      | "rd_status rab = RAB_LOCKED" "\<not> is_whole_lock_fact rab"
      | "rd_status rab = RAB_LOCKED" "is_whole_lock_fact rab" "?active \<noteq> []"
      | reason where "rd_status rab = RAB_LOCKED" "is_whole_lock_fact rab" "?active = []"
        "approval_matrix_verdict D t (vo_workspace_id input) (da_position_id holder) (rd_total_final_cost rab) = Some reason"
      | "rd_status rab = RAB_LOCKED" "is_whole_lock_fact rab" "?active = []"
        "approval_matrix_verdict D t (vo_workspace_id input) (da_position_id holder) (rd_total_final_cost rab) = None"
      by fastforce
    then show thesis
    proof cases
      case 1
      show thesis
      proof (cases "find (\<lambda>b. bl_rab_document_id b = rd_id rab) ?active")
        case None
        then show thesis using run p(2-4) 1 refused by auto
      next
        case existing: (Some existing)
        then obtain settled where "find (\<lambda>b. bl_id b = bl_id existing) (t_baselines t) = Some settled"
          using run p(2-4) 1 by (cases "find (\<lambda>b. bl_id b = bl_id existing) (t_baselines t)") auto
        then show thesis using run p(2-4) 1 existing by (intro repeated [OF holder rab 1 existing]) auto
      qed
    next
      case 2
      then show thesis using run p(2-4) refused by (auto simp: not_locked_def)
    next
      case 3
      then show thesis using run p(2-4) refused by auto
    next
      case 4
      then show thesis using run p(2-4) refused by auto
    next
      case 5
      then show thesis using run p(2-4) refused by auto
    next
      case 6
      have "approvable D t input holder rab" using p holder rab 6 by (simp add: approvable_def)
      then show thesis
        using run p(2-4) 6 n by (intro approved [of holder rab]) (auto simp: approved_baseline_def)
    qed
  qed
qed

lemma approve_approvable:
  assumes "approvable D t input holder rab"
  shows "\<exists>s t'. approve_locked_rab D now new_id t input = Inr (Approval_Done s, t') \<and> ok_changed s"
proof -
  note holds = assms [unfolded approvable_def]
  have "rab \<in> set (t_documents t)" using holds find_project_rab_found(1) by blast
  then have "filter (\<lambda>d. rd_id d = rd_id rab \<and> rd_status d = RAB_LOCKED) (t_documents t) \<noteq> []"
    using holds by (auto simp: filter_empty_conv)
  then show ?thesis
    using holds unfolding approve_locked_rab_def Let_def by (auto simp: approval_success_def)
qed

text \<open>C7: An approval lands exactly where it may. The command makes a new approval if and only if the project is in the
  workspace, the access names both, a live chain of authority leads from the account to a position that may approve, the one
  document of the one working draft is locked with the whole fact of its lock, no active baseline governs the project, and
  the approval matrix lets that position approve that value.\<close>

theorem approval_lands_exactly_on_whole_locks:
  "(\<exists>s t'. approve_locked_rab D now new_id t input = Inr (Approval_Done s, t') \<and> ok_changed s) \<longleftrightarrow>
     (\<exists>holder rab. approvable D t input holder rab)" (is "?approved = ?approvable")
proof
  assume ?approved
  then obtain s t' where run: "approve_locked_rab D now new_id t input = Inr (Approval_Done s, t')" and s: "ok_changed s" by blast
  show ?approvable
    by (rule approve_cases [OF run]) (use s in \<open>auto simp: approval_success_def\<close>)
next
  assume ?approvable
  then show ?approved using approve_approvable by blast
qed

lemma foldl_max_ge: "(m :: int) \<le> foldl (\<lambda>m row. max m (f row)) m rows"
proof (induction rows arbitrary: m)
  case (Cons row rows)
  show ?case using Cons.IH [of "max m (f row)"] by simp
qed simp

lemma foldl_max_mem: "row \<in> set rows \<Longrightarrow> f row \<le> foldl (\<lambda>m row. max m (f row)) (m :: int) rows"
proof (induction rows arbitrary: m)
  case (Cons x rows)
  then show ?case using foldl_max_ge [of "max m (f x)" f rows] by auto
qed simp

lemma next_version_number_fresh:
  assumes "b \<in> set (t_baselines t)" "bl_project_id b = project"
  shows "bl_version_number b < next_version_number (project_baselines t project)"
proof -
  have "b \<in> set (project_baselines t project)" using assms by (simp add: project_baselines_def set_stable_sort_by)
  then show ?thesis using foldl_max_mem [of b _ bl_version_number 0] by (simp add: next_version_number_def less_le_trans)
qed

text \<open>C38: An approval is one act. A new approval changes exactly one document, which becomes approved, and adds exactly one
  baseline: active, of the project, of that document, dated at this moment, signed by the position that holds the
  authority, with a version above every earlier one of the project; no other table moves.\<close>

theorem approval_writes_document_and_baseline:
  assumes "approve_locked_rab D now new_id t input = Inr (Approval_Done s, t')" "ok_changed s"
    and "distinct (map rd_id (t_documents t))"
  shows "\<exists>holder rab b. approvable D t input holder rab \<and>
     t' = t\<lparr>t_documents := map (\<lambda>d. if d = rab then d\<lparr>rd_status := RAB_APPROVED, rd_updated_at := now\<rparr> else d) (t_documents t),
       t_baselines := t_baselines t @ [b]\<rparr> \<and>
     bl_status b = ''ACTIVE'' \<and> bl_project_id b = vo_project_id input \<and> bl_rab_document_id b = rd_id rab \<and>
     bl_approved_at b = now \<and> bl_approved_by_position_id b = Some (da_position_id holder) \<and>
     (\<forall>old \<in> set (t_baselines t). bl_project_id old = vo_project_id input \<longrightarrow> bl_version_number old < bl_version_number b)"
  using assms(1)
proof (rule approve_cases, goal_cases)
  case (3 holder rab)
  note holds = 3(1) [unfolded approvable_def]
  have rab: "rab \<in> set (t_documents t)" using holds find_project_rab_found(1) by blast
  have "update_rows (\<lambda>d. rd_id d = rd_id rab \<and> rd_status d = RAB_LOCKED) (approve_document now) (t_documents t) =
      map (\<lambda>d. if d = rab then d\<lparr>rd_status := RAB_APPROVED, rd_updated_at := now\<rparr> else d) (t_documents t)"
    unfolding update_rows_def approve_document_def
    using holds unique_row [OF assms(3) _ rab] by (intro map_cong) auto
  then show ?case
    using 3(1,3) next_version_number_fresh [of _ t "vo_project_id input"]
    by (intro exI [of _ holder] exI [of _ rab] exI [of _ "approved_baseline now new_id t input holder rab"])
      (auto simp: approved_baseline_def new_baseline_def)
qed (use assms(2) in \<open>auto simp: approval_success_def\<close>)

lemma approve_document_simps [simp]:
  "rd_id (approve_document now d) = rd_id d" "rd_project_id (approve_document now d) = rd_project_id d"
  "rd_boq_structure_id (approve_document now d) = rd_boq_structure_id d" "rd_status (approve_document now d) = RAB_APPROVED"
  "is_whole_lock_fact (approve_document now d) = is_whole_lock_fact d"
  "rd_total_base_cost (approve_document now d) = rd_total_base_cost d"
  "rd_total_final_cost (approve_document now d) = rd_total_final_cost d"
  by (simp_all add: approve_document_def is_whole_lock_fact_def)

lemma find_project_rab_approved:
  assumes "find_project_rab t project = Rab_Found rab" "rd_status rab = RAB_LOCKED" "t_structures t' = t_structures t"
    "t_documents t' = update_rows (\<lambda>d. rd_id d = rd_id rab \<and> rd_status d = RAB_LOCKED) (approve_document now) (t_documents t)"
  shows "find_project_rab t' project = Rab_Found (approve_document now rab)"
proof -
  obtain st where st: "project_structures t project = [st]" "structure_documents t project (st_id st) = [rab]"
    using find_project_rab_found(3) [OF assms(1)] by blast
  then have "project_structures t' project = [st]" by (simp add: project_structures_def assms(3))
  moreover have "structure_documents t' project (st_id st) = [approve_document now rab]"
    using st(2) assms(2) by (simp add: structure_documents_def assms(4) filter_update_rows)
  ultimately show ?thesis by (simp add: find_project_rab_def)
qed

lemma authority_of_org_tables:
  fixes t t' :: "('d, 'a) rab_tables_scheme"
  assumes "t' = t\<lparr>t_documents := documents, t_baselines := baselines\<rparr>"
  shows "require_within_transaction t' account ctx code = require_within_transaction t account ctx code"
proof -
  have "authority_rows t' account ctx code = authority_rows t account ctx code" by (simp add: assms authority_rows_def)
  moreover have "assignment_revoked t' ctx = assignment_revoked t ctx"
    by (simp add: assms assignment_revoked_def context_assignment_def)
  moreover have "authority_revoked t' ctx code = authority_revoked t ctx code" by (simp add: assms authority_revoked_def)
  ultimately show ?thesis by (simp add: require_within_transaction_def)
qed

lemma find_only: "xs \<noteq> [] \<Longrightarrow> \<forall>x \<in> set xs. x = b \<Longrightarrow> P b \<Longrightarrow> find P xs = Some b"
  by (cases xs) auto

lemma approve_of_approved:
  assumes "find (\<lambda>p. pj_id p = vo_project_id input) (t_projects t) = Some p" "pj_workspace_id p = vo_workspace_id input"
    "pc_workspace_id (vo_project_access input) = vo_workspace_id input" "pc_project_id (vo_project_access input) = vo_project_id input"
    "require_within_transaction t (vo_actor_account_id input) (vo_project_access input) RAB_APPROVAL_AUTHORITY = Inr holder"
    "find_project_rab t (vo_project_id input) = Rab_Found rab" "rd_status rab = RAB_APPROVED"
    "find (\<lambda>b. bl_rab_document_id b = rd_id rab) (filter active_baseline_row (project_baselines t (vo_project_id input))) = Some existing"
    "find (\<lambda>b. bl_id b = bl_id existing) (t_baselines t) = Some settled"
  shows "approve_locked_rab D now new_id t input =
     Inr (Approval_Done (approval_success False rab (vo_project_id input) holder settled), t)"
  using assms unfolding approve_locked_rab_def Let_def by simp

text \<open>Approving is idempotent. Once an approval was answered, the same person asking again, whenever and with whatever
  justification, is answered the same document and the same baseline, number, date and signature included, is told that
  nothing changed, and every table stays as it is.\<close>

theorem approval_is_idempotent:
  assumes "approve_locked_rab D now new_id t input = Inr (Approval_Done s, t')" "distinct (map bl_id (t_baselines t'))"
    "pc_workspace_id (vo_project_access input) = vo_workspace_id input" "pc_project_id (vo_project_access input) = vo_project_id input"
    "find (\<lambda>p. pj_id p = vo_project_id input) (t_projects t) = Some p" "pj_workspace_id p = vo_workspace_id input"
  shows "approve_locked_rab D later another_id t' (input\<lparr>vo_justification := other\<rparr>) =
     Inr (Approval_Done (s\<lparr>ok_changed := False\<rparr>), t')"
  using assms(1)
proof (rule approve_cases, goal_cases)
  case (2 holder rab existing settled)
  then show ?case
    using approve_of_approved [of "input\<lparr>vo_justification := other\<rparr>" t p holder rab existing settled] assms(3-6)
    by (simp add: approval_success_def)
next
  case (3 holder rab)
  note holds = 3(1) [unfolded approvable_def]
  let ?b = "approved_baseline now new_id t input holder rab"
  let ?active = "filter active_baseline_row (project_baselines t' (vo_project_id input))"
  have found: "find_project_rab t' (vo_project_id input) = Rab_Found (approve_document now rab)"
    using holds 3(3) by (intro find_project_rab_approved [of t]) auto
  have b: "active_baseline_row ?b" "bl_project_id ?b = vo_project_id input" "bl_rab_document_id ?b = rd_id rab"
    by (simp_all add: approved_baseline_def new_baseline_def active_baseline_row_def)
  have "set ?active = {?b}"
    using holds b(1,2) by (auto simp: 3(3) project_baselines_def set_stable_sort_by filter_empty_conv)
  then have "?active \<noteq> []" "\<forall>x \<in> set ?active. x = ?b" by (metis empty_set insert_not_empty, blast)
  then have existing: "find (\<lambda>b. bl_rab_document_id b = rd_id (approve_document now rab)) ?active = Some ?b"
    using b(3) by (intro find_only) simp_all
  have settled: "find (\<lambda>b. bl_id b = bl_id ?b) (t_baselines t') = Some ?b"
    using assms(2) by (intro find_eq_unique [where key = bl_id]) (auto simp: 3(3))
  have holder: "require_within_transaction t' (vo_actor_account_id input) (vo_project_access input) RAB_APPROVAL_AUTHORITY = Inr holder"
    using holds authority_of_org_tables [OF 3(3)] by simp
  show ?case
    using approve_of_approved [of "input\<lparr>vo_justification := other\<rparr>" t' p holder "approve_document now rab" ?b ?b D later another_id]
      found existing settled holder assms(3-6) 3(2,3)
    by (simp add: approval_success_def)
qed simp

section \<open>The life of a bill\<close>

text \<open>The three commands that write documents and baselines, in any order, by anyone, at any moment; a new row gets an
  identifier no row of its table has.\<close>

inductive rab_step ::
    "'d decimal_ops \<Rightarrow> (string \<Rightarrow> string) \<Rightarrow> 'd pricing_tables \<Rightarrow> 'd pricing_tables \<Rightarrow> bool"
  for D nfkc where
  step_price: "persist_boq_item_calculation D nfkc evidence now new_id t params = Inr (result, t') \<Longrightarrow>
     new_id \<notin> rd_id ` set (t_documents t) \<Longrightarrow> rab_step D nfkc t t'"
| step_lock: "lock_working_draft D nfkc resolve_now now t request = Inr (outcome, t') \<Longrightarrow> rab_step D nfkc t t'"
| step_approve: "approve_locked_rab D now new_id t approval = Inr (decision, t') \<Longrightarrow>
     new_id \<notin> bl_id ` set (t_baselines t) \<Longrightarrow> rab_step D nfkc t t'"

inductive_cases rab_stepE: "rab_step D nfkc t t'"

definition frozen :: "'d rab_document_row \<Rightarrow> bool" where
  "frozen d \<longleftrightarrow> rd_status d = RAB_LOCKED \<or> rd_status d = RAB_APPROVED"

definition approved_documents :: "('d, 'a) rab_tables_scheme \<Rightarrow> 'd rab_document_row list" where
  "approved_documents t = filter (\<lambda>d. rd_status d = RAB_APPROVED) (t_documents t)"

definition governs :: "baseline_row \<Rightarrow> 'd rab_document_row \<Rightarrow> bool" where
  "governs b d \<longleftrightarrow> active_baseline_row b \<and> bl_rab_document_id b = rd_id d \<and> Some (bl_project_id b) = rd_project_id d"

text \<open>Every approved document has an active baseline of its project, every active baseline has an approved document, and a
  project has one active baseline at most.\<close>

definition baselines_agree :: "'d rab_document_row list \<Rightarrow> baseline_row list \<Rightarrow> bool" where
  "baselines_agree approved baselines \<longleftrightarrow>
     (\<forall>d \<in> set approved. \<exists>b \<in> set baselines. governs b d) \<and>
     (\<forall>b \<in> set baselines. active_baseline_row b \<longrightarrow> (\<exists>d \<in> set approved. governs b d)) \<and>
     (\<forall>b \<in> set baselines. \<forall>c \<in> set baselines.
       active_baseline_row b \<and> active_baseline_row c \<and> bl_project_id b = bl_project_id c \<longrightarrow> b = c)"

definition proven_freeze :: "'d rab_document_row \<Rightarrow> bool" where
  "proven_freeze d \<longleftrightarrow> is_whole_lock_fact d \<and> rd_total_base_cost d \<noteq> None \<and> rd_total_final_cost d \<noteq> None"

definition rab_governed :: "('d, 'a) rab_tables_scheme \<Rightarrow> bool" where
  "rab_governed t \<longleftrightarrow>
     distinct (map rd_id (t_documents t)) \<and> distinct (map bl_id (t_baselines t)) \<and>
     (\<forall>d \<in> set (t_documents t). frozen d \<longrightarrow> proven_freeze d) \<and> baselines_agree (approved_documents t) (t_baselines t)"

lemma update_rows_keeps: "x \<in> set rows \<Longrightarrow> \<not> P x \<Longrightarrow> x \<in> set (update_rows P f rows)"
  by (force simp: set_update_rows)

lemma update_rows_mem: "x \<in> set rows \<Longrightarrow> P x \<Longrightarrow> f x \<in> set (update_rows P f rows)"
  by (force simp: set_update_rows)

text \<open>How the documents of a step look: an update that leaves frozen documents alone, or one new draft.\<close>

lemma draft_update_governed:
  assumes "rab_governed t" "t_baselines t' = t_baselines t" "t_documents t' = update_rows P f (t_documents t)"
    and "\<And>d. d \<in> set (t_documents t) \<Longrightarrow> P d \<Longrightarrow> rd_status d = RAB_DRAFT \<and> rd_id (f d) = rd_id d \<and> rd_status (f d) \<noteq> RAB_APPROVED \<and>
      (frozen (f d) \<longrightarrow> proven_freeze (f d))"
  shows "rab_governed t'"
proof -
  have approved: "approved_documents t' = approved_documents t"
  proof -
    have "filter (\<lambda>d. rd_status d = RAB_APPROVED) (update_rows P f ds) = filter (\<lambda>d. rd_status d = RAB_APPROVED) ds"
      if "set ds \<subseteq> set (t_documents t)" for ds
      using that by (induction ds) (auto simp: assms(4))
    then show ?thesis by (simp add: approved_documents_def assms(3))
  qed
  have "map rd_id (t_documents t') = map rd_id (t_documents t)"
    unfolding assms(3) update_rows_def by (simp add: assms(4))
  moreover have "frozen d \<longrightarrow> proven_freeze d" if "d \<in> set (t_documents t')" for d
    using that assms(1,4) by (auto simp: assms(3) set_update_rows rab_governed_def)
  ultimately show ?thesis using assms(1) by (simp add: rab_governed_def approved assms(2))
qed

lemma new_draft_governed:
  assumes "rab_governed t" "t_baselines t' = t_baselines t" "t_documents t' = t_documents t @ [d]"
    and "rd_status d = RAB_DRAFT" "rd_id d \<notin> rd_id ` set (t_documents t)"
  shows "rab_governed t'"
  using assms by (auto simp: rab_governed_def approved_documents_def frozen_def)

lemma write_totals_simps [simp]:
  "rd_status (write_totals D now recap incomplete d) = rd_status d" "rd_id (write_totals D now recap incomplete d) = rd_id d"
  "rd_status (new_draft_document D new_id project st) = RAB_DRAFT" "rd_id (new_draft_document D new_id project st) = new_id"
  by (simp_all add: write_totals_def new_draft_document_def)

lemma price_step_governed:
  assumes "persist_boq_item_calculation D nfkc evidence now new_id t params = Inr (result, t')"
    and "new_id \<notin> rd_id ` set (t_documents t)" "rab_governed t"
  shows "rab_governed t'"
proof -
  obtain st recap incomplete where
    docs: "t_documents t' = written_documents D now new_id (pk_project_id params) st recap incomplete (t_documents t)"
    and t': "t' = t\<lparr>t_boq_items := t_boq_items t', t_documents := t_documents t'\<rparr>"
    by (rule persist_InrD [OF assms(1)]) blast
  have baselines: "t_baselines t' = t_baselines t" by (subst t') simp
  show ?thesis
  proof (cases "filter (draft_document_of (pk_project_id params) st) (t_documents t) = []")
    case True
    then show ?thesis
      using docs assms(2)
      by (intro new_draft_governed [OF assms(3) baselines,
          where d = "write_totals D now recap incomplete (new_draft_document D new_id (pk_project_id params) st)"])
        (simp_all add: written_documents_def)
  next
    case False
    then show ?thesis
      using docs
      by (intro draft_update_governed [OF assms(3) baselines, where P = "draft_document_of (pk_project_id params) st"])
        (auto simp: written_documents_def draft_document_of_def frozen_def)
  qed
qed

lemma lock_step_governed:
  assumes "lock_working_draft D nfkc resolve_now now t request = Inr (outcome, t')" "rab_governed t"
  shows "rab_governed t'"
  using assms(1)
proof (rule lock_cases, goal_cases)
  case (3 st rab)
  have rab: "rab \<in> set (t_documents t)" using 3(1) structure_documents_mem by (auto simp: rab_of_project_def)
  show ?case
  proof (rule draft_update_governed [OF assms(2), of t' "\<lambda>d. rd_id d = rd_id rab \<and> rd_status d = RAB_DRAFT"
      "freeze now (lo_actor_account_id request)"])
    fix d assume d: "d \<in> set (t_documents t)" "rd_id d = rd_id rab \<and> rd_status d = RAB_DRAFT"
    then have "d = rab" using assms(2) rab unique_row [of rd_id] by (auto simp: rab_governed_def)
    then show "rd_status d = RAB_DRAFT \<and> rd_id (freeze now (lo_actor_account_id request) d) = rd_id d \<and>
        rd_status (freeze now (lo_actor_account_id request) d) \<noteq> RAB_APPROVED \<and>
        (frozen (freeze now (lo_actor_account_id request) d) \<longrightarrow> proven_freeze (freeze now (lo_actor_account_id request) d))"
      using 3(2,5,6) by (simp add: proven_freeze_def is_whole_lock_fact_def)
  qed (simp_all add: 3(7))
qed (simp_all add: assms(2))

lemma approve_step_governed:
  fixes t t' :: "('d, 'a) rab_tables_scheme"
  assumes "approve_locked_rab D now new_id t approval = Inr (decision, t')"
    and "new_id \<notin> bl_id ` set (t_baselines t)" "rab_governed t"
  shows "rab_governed t'"
  using assms(1)
proof (rule approve_cases, goal_cases)
  case (3 holder rab)
  note holds = 3(1) [unfolded approvable_def] and agree = assms(3) [unfolded rab_governed_def baselines_agree_def]
  let ?P = "\<lambda>d. rd_id d = rd_id rab \<and> rd_status d = RAB_LOCKED" and ?b = "approved_baseline now new_id t approval holder rab"
  have rab: "rab \<in> set (t_documents t)" "rd_project_id rab = Some (vo_project_id approval)"
    using holds find_project_rab_found by blast+
  have only: "d = rab" if "d \<in> set (t_documents t)" "?P d" for d
    using that agree rab(1) unique_row [of rd_id] by blast
  have approved: "set (approved_documents t') = insert (approve_document now rab) (set (approved_documents t))"
  proof
    show "set (approved_documents t') \<subseteq> insert (approve_document now rab) (set (approved_documents t))"
      using only by (auto simp: approved_documents_def 3(3) set_update_rows split: if_splits)
    have "?P rab" using holds by simp
    moreover have "d \<in> set (t_documents t')" if "d \<in> set (t_documents t)" "rd_status d = RAB_APPROVED" for d
      using that update_rows_keeps [of d "t_documents t" ?P] by (simp add: 3(3))
    ultimately show "insert (approve_document now rab) (set (approved_documents t)) \<subseteq> set (approved_documents t')"
      using update_rows_mem [OF rab(1), of ?P "approve_document now"] by (auto simp: approved_documents_def 3(3))
  qed
  have b: "active_baseline_row ?b" "bl_project_id ?b = vo_project_id approval" "bl_rab_document_id ?b = rd_id rab" "bl_id ?b = new_id"
    by (simp_all add: approved_baseline_def new_baseline_def active_baseline_row_def)
  have none: "bl_project_id c \<noteq> vo_project_id approval" if "c \<in> set (t_baselines t)" "active_baseline_row c" for c
    using holds that by (auto simp: project_baselines_def filter_empty_conv set_stable_sort_by)
  have governs: "governs ?b (approve_document now rab)" using b rab(2) by (simp add: governs_def)
  have "distinct (map rd_id (t_documents t'))" using agree by (simp add: 3(3) map_update_rows)
  moreover have "distinct (map bl_id (t_baselines t'))" using agree assms(2) b(4) by (simp add: 3(3))
  moreover have "\<forall>d \<in> set (t_documents t'). frozen d \<longrightarrow> proven_freeze d"
    using agree by (auto simp: 3(3) set_update_rows frozen_def proven_freeze_def)
  moreover have "baselines_agree (approved_documents t') (t_baselines t')"
    unfolding baselines_agree_def approved using agree b(2) governs by (auto simp: 3(3) dest: none)
  ultimately show ?case by (simp add: rab_governed_def)
qed (simp_all add: assms(3))

lemma rab_step_governed: "rab_step D nfkc t t' \<Longrightarrow> rab_governed t \<Longrightarrow> rab_governed t'"
  by (erule rab_stepE) (simp_all add: price_step_governed lock_step_governed approve_step_governed)

text \<open>Where a bill starts: drafts only, and no baseline.\<close>

definition fresh_rab :: "('d, 'a) rab_tables_scheme \<Rightarrow> bool" where
  "fresh_rab t \<longleftrightarrow> distinct (map rd_id (t_documents t)) \<and> (\<forall>d \<in> set (t_documents t). \<not> frozen d) \<and> t_baselines t = []"

lemma fresh_rab_governed: "fresh_rab t \<Longrightarrow> rab_governed t"
  by (auto simp: fresh_rab_def rab_governed_def baselines_agree_def approved_documents_def frozen_def filter_empty_conv)

text \<open>What the client of a step relation relies on: a property of the start that every step keeps.\<close>

locale invariant_system =
  fixes step :: "'s \<Rightarrow> 's \<Rightarrow> bool" and start :: "'s \<Rightarrow> bool" and inv :: "'s \<Rightarrow> bool"
  assumes start_inv: "start s \<Longrightarrow> inv s" and step_inv: "step s t \<Longrightarrow> inv s \<Longrightarrow> inv t"
begin

lemma steps_keep: "step\<^sup>*\<^sup>* s t \<Longrightarrow> inv s \<Longrightarrow> inv t"
  by (induction rule: rtranclp_induct) (auto intro: step_inv)

lemma reachable: "step\<^sup>*\<^sup>* s t \<Longrightarrow> start s \<Longrightarrow> inv t"
  using steps_keep start_inv by blast

end

interpretation bill: invariant_system "rab_step D nfkc" fresh_rab rab_governed for D nfkc
  by unfold_locales (auto intro: fresh_rab_governed rab_step_governed)

text \<open>C3: Documents and baselines agree in every reachable state. Whatever sequence of priced lines, locks and approvals ran
  from a bill of drafts, every locked or approved document carries the whole fact of its lock and both totals, every
  approved document has an active baseline of its project, every active baseline has its approved document, and no project
  has two active baselines.\<close>

theorem reachable_bill_is_governed:
  assumes "(rab_step D nfkc)\<^sup>*\<^sup>* t t'" "fresh_rab t"
  shows "(\<forall>d \<in> set (t_documents t'). rd_status d \<in> {RAB_LOCKED, RAB_APPROVED} \<longrightarrow>
       is_whole_lock_fact d \<and> rd_total_base_cost d \<noteq> None \<and> rd_total_final_cost d \<noteq> None) \<and>
     (\<forall>d \<in> set (t_documents t'). rd_status d = RAB_APPROVED \<longrightarrow> (\<exists>b \<in> set (t_baselines t'). governs b d)) \<and>
     (\<forall>b \<in> set (t_baselines t'). active_baseline_row b \<longrightarrow>
       (\<exists>d \<in> set (t_documents t'). rd_status d = RAB_APPROVED \<and> governs b d)) \<and>
     (\<forall>b \<in> set (t_baselines t'). \<forall>c \<in> set (t_baselines t').
       active_baseline_row b \<and> active_baseline_row c \<and> bl_project_id b = bl_project_id c \<longrightarrow> b = c)"
proof -
  have "rab_governed t'" by (rule bill.reachable [OF assms(1,2)])
  note agree = this [unfolded rab_governed_def baselines_agree_def approved_documents_def]
  show ?thesis
    using agree by (intro conjI) (auto simp: frozen_def proven_freeze_def)
qed

lemma draft_update_keeps_frozen:
  assumes "d \<in> set rows" "frozen d" "\<And>r. P r \<Longrightarrow> rd_status r = RAB_DRAFT"
  shows "d \<in> set (update_rows P f rows)"
  using assms by (intro update_rows_keeps) (auto simp: frozen_def)

lemma frozen_step:
  assumes "rab_step D nfkc t t'" "d \<in> set (t_documents t)" "frozen d"
  shows "\<exists>d' \<in> set (t_documents t'). d' = d \<or> (\<exists>now. d' = approve_document now d)"
  using assms(1)
proof cases
  case (step_price evidence now new_id params result)
  obtain st recap incomplete where
    docs: "t_documents t' = written_documents D now new_id (pk_project_id params) st recap incomplete (t_documents t)"
    by (rule persist_InrD [OF step_price(1)]) blast
  have "d \<in> set (t_documents t')"
    unfolding docs written_documents_def
    using assms(2,3) draft_update_keeps_frozen [of d _ "draft_document_of (pk_project_id params) st"]
    by (auto simp: draft_document_of_def)
  then show ?thesis by blast
next
  case (step_lock resolve_now now request outcome)
  from step_lock(1) have "d \<in> set (t_documents t')"
  proof (rule lock_cases, goal_cases)
    case (3 st rab)
    then show ?case using assms(2,3) by (auto intro: draft_update_keeps_frozen)
  qed (use assms(2) in auto)
  then show ?thesis by blast
next
  case (step_approve now new_id approval decision)
  from step_approve(1) show ?thesis
    by (rule approve_cases) (use assms(2) in \<open>auto simp: bex_update_rows\<close>)
qed


text \<open>What the command answers once the project, the holder and the document are found.\<close>

lemma approve_found:
  assumes "find (\<lambda>p. pj_id p = vo_project_id input) (t_projects t) = Some p" "pj_workspace_id p = vo_workspace_id input"
    "pc_workspace_id (vo_project_access input) = vo_workspace_id input" "pc_project_id (vo_project_access input) = vo_project_id input"
    "require_within_transaction t (vo_actor_account_id input) (vo_project_access input) RAB_APPROVAL_AUTHORITY = Inr holder"
    "find_project_rab t (vo_project_id input) = Rab_Found rab" "rab_governed t"
  shows "rd_status rab = RAB_APPROVED \<Longrightarrow> \<exists>s. approve_locked_rab D now new_id t input = Inr (Approval_Done s, t) \<and> \<not> ok_changed s"
    and "rd_status rab \<noteq> RAB_APPROVED \<Longrightarrow> rd_status rab \<noteq> RAB_LOCKED \<Longrightarrow>
      approve_locked_rab D now new_id t input = Inr (not_locked (rd_status rab), t)"
    and "rd_status rab = RAB_LOCKED \<Longrightarrow> filter active_baseline_row (project_baselines t (vo_project_id input)) \<noteq> [] \<Longrightarrow>
      approve_locked_rab D now new_id t input = Inr (Approval_Refused APPROVE_ACTIVE_BASELINE_EXISTS None, t)"
    and "rd_status rab = RAB_LOCKED \<Longrightarrow> filter active_baseline_row (project_baselines t (vo_project_id input)) = [] \<Longrightarrow>
      (case approval_matrix_verdict D t (vo_workspace_id input) (da_position_id holder) (rd_total_final_cost rab) of
         None \<Rightarrow> \<exists>s t'. approve_locked_rab D now new_id t input = Inr (Approval_Done s, t') \<and> ok_changed s
       | Some reason \<Rightarrow> approve_locked_rab D now new_id t input = Inr (Approval_Refused reason None, t))"
proof -
  note agree = assms(7) [unfolded rab_governed_def baselines_agree_def] and found = assms(1-6)
  have rab: "rab \<in> set (t_documents t)" "rd_project_id rab = Some (vo_project_id input)"
    using find_project_rab_found [OF assms(6)] by blast+
  have whole: "is_whole_lock_fact rab" if "rd_status rab = RAB_LOCKED"
    using that rab(1) agree by (simp add: frozen_def proven_freeze_def)
  show "\<exists>s. approve_locked_rab D now new_id t input = Inr (Approval_Done s, t) \<and> \<not> ok_changed s" if approved: "rd_status rab = RAB_APPROVED"
  proof -
    obtain b where b: "b \<in> set (t_baselines t)" "governs b rab"
      using approved rab(1) agree by (auto simp: approved_documents_def)
    let ?active = "filter active_baseline_row (project_baselines t (vo_project_id input))"
    have "b \<in> set ?active"
      using b rab(2) by (simp add: governs_def project_baselines_def set_stable_sort_by)
    then obtain existing where existing: "find (\<lambda>b. bl_rab_document_id b = rd_id rab) ?active = Some existing"
      using b(2) by (cases "find (\<lambda>b. bl_rab_document_id b = rd_id rab) ?active") (auto simp: find_None_iff governs_def)
    then have "existing \<in> set (t_baselines t)"
      using find_Some_mem [OF existing] by (simp add: project_baselines_def set_stable_sort_by)
    then obtain settled where "find (\<lambda>b. bl_id b = bl_id existing) (t_baselines t) = Some settled"
      by (cases "find (\<lambda>b. bl_id b = bl_id existing) (t_baselines t)") (auto simp: find_None_iff)
    from approve_of_approved [OF found approved existing this, of D now new_id]
    show ?thesis by (simp add: approval_success_def)
  qed
  show "approve_locked_rab D now new_id t input = Inr (not_locked (rd_status rab), t)"
    if "rd_status rab \<noteq> RAB_APPROVED" "rd_status rab \<noteq> RAB_LOCKED"
    using found that unfolding approve_locked_rab_def Let_def by simp
  show "approve_locked_rab D now new_id t input = Inr (Approval_Refused APPROVE_ACTIVE_BASELINE_EXISTS None, t)"
    if "rd_status rab = RAB_LOCKED" "filter active_baseline_row (project_baselines t (vo_project_id input)) \<noteq> []"
    using found that whole unfolding approve_locked_rab_def Let_def by simp
  show "case approval_matrix_verdict D t (vo_workspace_id input) (da_position_id holder) (rd_total_final_cost rab) of
      None \<Rightarrow> \<exists>s t'. approve_locked_rab D now new_id t input = Inr (Approval_Done s, t') \<and> ok_changed s
    | Some reason \<Rightarrow> approve_locked_rab D now new_id t input = Inr (Approval_Refused reason None, t)"
    if "rd_status rab = RAB_LOCKED" "filter active_baseline_row (project_baselines t (vo_project_id input)) = []"
  proof (cases "approval_matrix_verdict D t (vo_workspace_id input) (da_position_id holder) (rd_total_final_cost rab)")
    case None
    have "approvable D t input holder rab" using found that whole None by (simp add: approvable_def)
    then show ?thesis using approve_approvable None by simp
  next
    case (Some reason)
    then show ?thesis using found that whole unfolding approve_locked_rab_def Let_def by simp
  qed
qed

text \<open>The gate is open exactly when a position may approve, the reader holds it, has the permission, no baseline governs and
  the first document of the draft is locked.\<close>

lemma gate_open_iff:
  "ga_can_approve (describe_approval_gate t project ctx account held) \<longleftrightarrow>
     authorized_positions t (pc_workspace_id ctx) \<noteq> [] \<and> resolve_authority t account ctx RAB_APPROVAL_AUTHORITY \<noteq> None \<and>
     PERMISSION_RAB_APPROVE \<in> set held \<and>
     filter (\<lambda>b. bl_project_id b = project \<and> active_baseline_row b) (t_baselines t) = [] \<and>
     (\<exists>d. gate_rab t project = Some d \<and> rd_status d = RAB_LOCKED)"
  by (simp add: describe_approval_gate_def Let_def split: option.split)

lemma gate_rab_found: "find_project_rab t project = Rab_Found rab \<Longrightarrow> gate_rab t project = Some rab"
  unfolding find_project_rab_def gate_rab_def by (auto split: list.splits)

text \<open>C39: An open gate leaves only the organization's own rule between the reader and the approval. In every reachable state, if
  the screen shows the gate open to a reader whose authority the command confirms, on the one document of the project,
  then the command approves, or refuses with a reason of the approval matrix; it never finds a half-finished approval, a
  corrupt lock or a competing baseline.\<close>

theorem open_gate_leaves_only_the_matrix:
  assumes "(rab_step D nfkc)\<^sup>*\<^sup>* t0 t" "fresh_rab t0"
    and "ga_can_approve (describe_approval_gate t (vo_project_id input) (vo_project_access input) (vo_actor_account_id input) held)"
    and "find (\<lambda>p. pj_id p = vo_project_id input) (t_projects t) = Some p" "pj_workspace_id p = vo_workspace_id input"
    and "pc_workspace_id (vo_project_access input) = vo_workspace_id input" "pc_project_id (vo_project_access input) = vo_project_id input"
    and "require_within_transaction t (vo_actor_account_id input) (vo_project_access input) RAB_APPROVAL_AUTHORITY = Inr holder"
    and "find_project_rab t (vo_project_id input) = Rab_Found rab"
  shows "case approval_matrix_verdict D t (vo_workspace_id input) (da_position_id holder) (rd_total_final_cost rab) of
      None \<Rightarrow> \<exists>s t'. approve_locked_rab D now new_id t input = Inr (Approval_Done s, t') \<and> ok_changed s
    | Some reason \<Rightarrow> approve_locked_rab D now new_id t input = Inr (Approval_Refused reason None, t)"
proof -
  have governed: "rab_governed t" by (rule bill.reachable [OF assms(1,2)])
  have "rd_status rab = RAB_LOCKED" "filter (\<lambda>b. bl_project_id b = vo_project_id input \<and> active_baseline_row b) (t_baselines t) = []"
    using assms(3) gate_rab_found [OF assms(9)] unfolding gate_open_iff by auto
  moreover from this(2) have "filter active_baseline_row (project_baselines t (vo_project_id input)) = []"
    by (auto simp: filter_empty_conv project_baselines_def set_stable_sort_by)
  ultimately show ?thesis using approve_found(4) [OF assms(4-9) governed] by blast
qed

section \<open>Witnesses\<close>

definition sample_frozen :: "rat option pricing_tables" where
  "sample_frozen = sample_lockable\<lparr>t_documents := [freeze 1770800000000 ''a1'' sample_document]\<rparr>"

definition sample_approval :: approve_input where
  "sample_approval =
     \<lparr>vo_project_id = ''p1'', vo_workspace_id = ''w1'', vo_actor_account_id = ''a1'', vo_project_access = sample_access_context,
      vo_justification = Js_Val '' sesuai ''\<rparr>"

lemma sample_freezes:
  "\<exists>s. lock_working_draft decimal20 latin_nfkc sample_resolver 1770800000000 sample_lockable sample_lock_input =
     Inr (Lock_Done s, sample_frozen)"
proof -
  obtain s t' where run: "lock_working_draft decimal20 latin_nfkc sample_resolver 1770800000000 sample_lockable sample_lock_input =
      Inr (Lock_Done s, t')" and s: "lk_changed s" using sample_lock by blast
  have "t' = sample_frozen"
  proof (rule lock_cases [OF run], goal_cases)
    case (3 st rab)
    then have "rab = sample_document"
      using sample_lockable_rab(2) by (auto simp: rab_of_project_def sample_lock_input_def)
    then show ?case
      using 3(7) by (simp add: sample_frozen_def sample_lock_input_def sample_lockable_def pricing_of_def sample_rab_def sample_document_def)
  qed (use s in \<open>auto simp: describe_locked_rab_def\<close>)
  then show ?thesis using run by blast
qed

lemma sample_approvable: "approvable decimal20 sample_frozen sample_approval sample_holder (freeze 1770800000000 ''a1'' sample_document)"
  unfolding approvable_def
proof (intro conjI)
  show "\<exists>p. find (\<lambda>p. pj_id p = vo_project_id sample_approval) (t_projects sample_frozen) = Some p \<and>
      pj_workspace_id p = vo_workspace_id sample_approval"
    by (simp add: sample_approval_def sample_frozen_def sample_lockable_def pricing_of_def sample_rab_def sample_org_def sample_project_row_def)
qed (code_simp+)

lemma sample_fresh: "fresh_rab sample_lockable"
  by (simp add: fresh_rab_def frozen_def sample_lockable_def pricing_of_def sample_rab_def sample_document_def)

lemma sample_reaches_frozen: "(rab_step decimal20 latin_nfkc)\<^sup>*\<^sup>* sample_lockable sample_frozen"
  using sample_freezes step_lock by blast

theorem approval_lands_exactly_on_whole_locks_witness:
  "\<exists>s t'. approve_locked_rab decimal20 1770900000000 ''b1'' sample_frozen sample_approval = Inr (Approval_Done s, t') \<and> ok_changed s"
  unfolding approval_lands_exactly_on_whole_locks using sample_approvable by blast

theorem approval_writes_document_and_baseline_witness:
  "\<exists>s t'. approve_locked_rab decimal20 1770900000000 ''b1'' sample_frozen sample_approval = Inr (Approval_Done s, t') \<and>
     (\<exists>b. t_baselines t' = [b] \<and> bl_status b = ''ACTIVE'' \<and> bl_project_id b = ''p1'')"
proof -
  obtain s t' where run: "approve_locked_rab decimal20 1770900000000 ''b1'' sample_frozen sample_approval = Inr (Approval_Done s, t')"
    and s: "ok_changed s" using approve_approvable [OF sample_approvable] by blast
  have ids: "distinct (map rd_id (t_documents sample_frozen))" "t_baselines sample_frozen = []"
    by (simp_all add: sample_frozen_def sample_lockable_def pricing_of_def sample_rab_def)
  show ?thesis
    using approval_writes_document_and_baseline [OF run s ids(1)] run by (auto simp: ids(2) sample_approval_def)
qed

theorem approval_is_idempotent_witness:
  "\<exists>s t'. approve_locked_rab decimal20 1770900000000 ''b1'' sample_frozen sample_approval = Inr (Approval_Done s, t') \<and>
     approve_locked_rab decimal20 1771000000000 ''b2'' t' (sample_approval\<lparr>vo_justification := Js_Null\<rparr>) =
       Inr (Approval_Done (s\<lparr>ok_changed := False\<rparr>), t')"
proof -
  obtain s t' where run: "approve_locked_rab decimal20 1770900000000 ''b1'' sample_frozen sample_approval = Inr (Approval_Done s, t')"
    and s: "ok_changed s" using approve_approvable [OF sample_approvable] by blast
  have ids: "distinct (map bl_id (t_baselines t'))"
    by (rule approve_cases [OF run])
      (simp_all add: sample_frozen_def sample_lockable_def pricing_of_def sample_rab_def)
  have "find (\<lambda>p. pj_id p = vo_project_id sample_approval) (t_projects sample_frozen) = Some sample_project_row"
    "pj_workspace_id sample_project_row = vo_workspace_id sample_approval"
    by (simp_all add: sample_approval_def sample_frozen_def sample_lockable_def pricing_of_def sample_rab_def sample_org_def sample_project_row_def)
  with approval_is_idempotent [OF run ids, of sample_project_row 1771000000000 "''b2''" Js_Null] run show ?thesis
    by (auto simp: sample_approval_def sample_access_context_def)
qed

theorem reachable_bill_is_governed_witness:
  "is_whole_lock_fact (freeze 1770800000000 ''a1'' sample_document)"
  using reachable_bill_is_governed [OF sample_reaches_frozen sample_fresh] by (simp add: sample_frozen_def)


theorem open_gate_leaves_only_the_matrix_witness:
  "\<exists>s t'. approve_locked_rab decimal20 1770900000000 ''b1'' sample_frozen sample_approval = Inr (Approval_Done s, t') \<and> ok_changed s"
proof -
  have p: "find (\<lambda>p. pj_id p = vo_project_id sample_approval) (t_projects sample_frozen) = Some sample_project_row"
    "pj_workspace_id sample_project_row = vo_workspace_id sample_approval"
    by (simp_all add: sample_approval_def sample_frozen_def sample_lockable_def pricing_of_def sample_rab_def sample_org_def sample_project_row_def)
  have gate: "ga_can_approve (describe_approval_gate sample_frozen (vo_project_id sample_approval) (vo_project_access sample_approval)
      (vo_actor_account_id sample_approval) [''RAB_APPROVE''])"
    by code_simp
  note holds = sample_approvable [unfolded approvable_def]
  from holds open_gate_leaves_only_the_matrix [OF sample_reaches_frozen sample_fresh gate p, of sample_holder
      "freeze 1770800000000 ''a1'' sample_document" 1770900000000 "''b1''"]
  show ?thesis by simp
qed

end
