(* ===== verification/PriceRegion.thy ===== *)
theory PriceRegion
  imports Prelude
begin

text \<open>
  Where a price applies: \<open>basic-price/basic-price-region-applicability.ts\<close> and \<open>basic-price/basic-price-region-priority.ts\<close>.

  A price of a region above the region of a project may be used when the chain of parents is proven. \<open>climb\<close> is the loop
  that proves it; every step goes one administrative level up, which is why it ends.

  The properties: a complete ladder is exactly a chain of active parents up to the province; the four reads the loader
  makes show the same ladder as the whole table; the tier found is the nearest one with an offer.
\<close>

section \<open>Applicability\<close>

record region_facts =
  rg_region_id :: "string option"
  rg_coverage_set_id :: "string option"
  rg_coverage_members :: "string list"

definition basic_price_region_applicability :: "string \<Rightarrow> 'a region_facts_scheme \<Rightarrow> bool" where
  "basic_price_region_applicability target price \<longleftrightarrow>
     rg_coverage_set_id price = None \<and> rg_region_id price = Some target \<or>
     rg_coverage_set_id price \<noteq> None \<and> (\<exists>m \<in> set (rg_coverage_members price). m = target)"

definition basic_price_region_matches :: "'a region_facts_scheme \<Rightarrow> string \<Rightarrow> bool" where
  "basic_price_region_matches price target =
     (if rg_coverage_set_id price = None then rg_region_id price = Some target
      else \<exists>m \<in> set (rg_coverage_members price). m = target)"

section \<open>The ladder\<close>

datatype price_region_level = VILLAGE | DISTRICT | REGENCY_CITY | PROVINCE

datatype tier_level = Tier_Level price_region_level | LEGACY_EXACT

record price_region_fact =
  rf_id :: string
  rf_parent_id :: "string option"
  rf_administrative_level :: "string option"
  rf_is_active :: bool

record price_region_tier =
  tr_region_id :: string
  tr_level :: tier_level
  tr_priority :: nat

datatype ladder_refusal =
    ORIGIN_NOT_FOUND | ORIGIN_NOT_SUPPORTED | REGION_INACTIVE | PARENT_NOT_PROVEN | HIERARCHY_LEVEL_MISMATCH | HIERARCHY_CYCLE

datatype price_region_ladder =
    Ladder_Complete "price_region_tier list"
  | Ladder_Incomplete "price_region_tier list" ladder_refusal

fun ladder_tiers :: "price_region_ladder \<Rightarrow> price_region_tier list" where
  "ladder_tiers (Ladder_Complete tiers) = tiers"
| "ladder_tiers (Ladder_Incomplete tiers _) = tiers"

definition legacy_exact_price_region_ladder :: "string \<Rightarrow> price_region_ladder" where
  "legacy_exact_price_region_ladder origin =
     Ladder_Complete [\<lparr>tr_region_id = origin, tr_level = LEGACY_EXACT, tr_priority = 0\<rparr>]"

fun next_parent_level :: "price_region_level \<Rightarrow> price_region_level option" where
  "next_parent_level VILLAGE = Some DISTRICT"
| "next_parent_level DISTRICT = Some REGENCY_CITY"
| "next_parent_level REGENCY_CITY = Some PROVINCE"
| "next_parent_level PROVINCE = None"

fun level_name :: "price_region_level \<Rightarrow> string" where
  "level_name VILLAGE = ''VILLAGE''"
| "level_name DISTRICT = ''DISTRICT''"
| "level_name REGENCY_CITY = ''REGENCY_CITY''"
| "level_name PROVINCE = ''PROVINCE''"

text \<open>\<open>isPriceRegionLevel\<close>: the level a column names, when it names one.\<close>

definition price_region_level_of :: "string option \<Rightarrow> price_region_level option" where
  "price_region_level_of raw =
     (case raw of
        None \<Rightarrow> None
      | Some s \<Rightarrow> find (\<lambda>l. level_name l = s) [VILLAGE, DISTRICT, REGENCY_CITY, PROVINCE])"

fun level_height :: "price_region_level option \<Rightarrow> nat" where
  "level_height (Some VILLAGE) = 4"
| "level_height (Some DISTRICT) = 3"
| "level_height (Some REGENCY_CITY) = 2"
| "level_height (Some PROVINCE) = 1"
| "level_height None = 0"

abbreviation fact_level :: "price_region_fact \<Rightarrow> price_region_level option" where
  "fact_level region \<equiv> price_region_level_of (rf_administrative_level region)"

lemma next_level_lower: "next_parent_level l = Some p \<Longrightarrow> level_height (Some l) = Suc (level_height (Some p))"
  by (cases l) auto

lemma level_name_level [simp]: "price_region_level_of (Some (level_name l)) = Some l"
  by (cases l) (simp_all add: price_region_level_of_def)

lemma price_region_level_of_Some: "price_region_level_of raw = Some l \<longleftrightarrow> raw = Some (level_name l)"
  by (cases l; cases raw) (auto simp: price_region_level_of_def)

function climb ::
    "(string \<rightharpoonup> price_region_fact) \<Rightarrow> price_region_tier list \<Rightarrow> string list \<Rightarrow> price_region_fact \<Rightarrow> price_region_ladder" where
  "climb nodes tiers visited current =
     (if rf_id current \<in> set visited then Ladder_Incomplete tiers HIERARCHY_CYCLE
      else if \<not> rf_is_active current then Ladder_Incomplete tiers REGION_INACTIVE
      else
        (case fact_level current of
           None \<Rightarrow> Ladder_Incomplete tiers HIERARCHY_LEVEL_MISMATCH
         | Some level \<Rightarrow>
             let tiers' = tiers @ [\<lparr>tr_region_id = rf_id current, tr_level = Tier_Level level, tr_priority = length tiers\<rparr>]
             in (case next_parent_level level of
                   None \<Rightarrow> Ladder_Complete tiers'
                 | Some parent_level \<Rightarrow>
                     (case (case rf_parent_id current of None \<Rightarrow> None | Some p \<Rightarrow> nodes p) of
                        None \<Rightarrow> Ladder_Incomplete tiers' PARENT_NOT_PROVEN
                      | Some parent \<Rightarrow>
                          if rf_administrative_level parent \<noteq> Some (level_name parent_level)
                          then Ladder_Incomplete tiers' HIERARCHY_LEVEL_MISMATCH
                          else climb nodes tiers' (rf_id current # visited) parent))))"
  by pat_completeness auto
termination
  by (relation "measure (\<lambda>(_, _, _, current). level_height (fact_level current))")
    (auto simp: next_level_lower simp del: level_height.simps)

declare climb.simps [simp del]

definition nodes_by_id :: "price_region_fact list \<Rightarrow> (string \<rightharpoonup> price_region_fact)" where
  "nodes_by_id facts = foldl (\<lambda>m n. m(rf_id n \<mapsto> n)) Map.empty facts"

definition project_price_region_ladder :: "string \<Rightarrow> price_region_fact list \<Rightarrow> price_region_ladder" where
  "project_price_region_ladder origin_id canonical_nodes =
     (let nodes = nodes_by_id canonical_nodes
      in case nodes origin_id of
           None \<Rightarrow> Ladder_Incomplete [] ORIGIN_NOT_FOUND
         | Some origin \<Rightarrow>
             if fact_level origin = None then Ladder_Incomplete [] ORIGIN_NOT_SUPPORTED
             else climb nodes [] [] origin)"

text \<open>\<open>firstEligiblePriceRegionTier\<close>\<close>

datatype 'a tier_choice = Tier_Found price_region_tier "'a list" | Tier_Not_Found | Tier_Hierarchy_Incomplete ladder_refusal

fun first_tier_with_offers ::
    "('a \<Rightarrow> string \<Rightarrow> bool) \<Rightarrow> 'a list \<Rightarrow> price_region_tier list \<Rightarrow> (price_region_tier \<times> 'a list) option" where
  "first_tier_with_offers applicable offers [] = None"
| "first_tier_with_offers applicable offers (tier # tiers) =
     (let matching = filter (\<lambda>offer. applicable offer (tr_region_id tier)) offers
      in if length matching > 0 then Some (tier, matching) else first_tier_with_offers applicable offers tiers)"

definition first_eligible_price_region_tier ::
    "price_region_ladder \<Rightarrow> 'a list \<Rightarrow> ('a \<Rightarrow> string \<Rightarrow> bool) \<Rightarrow> 'a tier_choice" where
  "first_eligible_price_region_tier ladder offers applicable =
     (case first_tier_with_offers applicable offers (ladder_tiers ladder) of
        Some (tier, matching) \<Rightarrow> Tier_Found tier matching
      | None \<Rightarrow>
          (case ladder of
             Ladder_Complete _ \<Rightarrow> Tier_Not_Found
           | Ladder_Incomplete _ reason \<Rightarrow> Tier_Hierarchy_Incomplete reason))"

text \<open>The loader reads the origin and at most three ancestors.\<close>

fun load_facts :: "nat \<Rightarrow> price_region_fact list \<Rightarrow> string option \<Rightarrow> price_region_fact list" where
  "load_facts 0 regions cursor = []"
| "load_facts (Suc depth) regions None = []"
| "load_facts (Suc depth) regions (Some i) =
     (case find (\<lambda>r. rf_id r = i) regions of
        None \<Rightarrow> []
      | Some region \<Rightarrow> region # load_facts depth regions (rf_parent_id region))"

definition load_canonical_price_region_context :: "price_region_fact list \<Rightarrow> string \<Rightarrow> price_region_ladder" where
  "load_canonical_price_region_context regions origin =
     project_price_region_ladder origin (load_facts 4 regions (Some origin))"

section \<open>Properties\<close>

lemma applicability_matches: "basic_price_region_applicability target price = basic_price_region_matches price target"
  by (auto simp: basic_price_region_applicability_def basic_price_region_matches_def)

lemma nodes_by_id_fold:
  "foldl (\<lambda>m n. m(rf_id n \<mapsto> n)) m facts k = Some q \<Longrightarrow> m k = Some q \<or> q \<in> set facts \<and> rf_id q = k"
  "foldl (\<lambda>m n. m(rf_id n \<mapsto> n)) m facts k = None \<longleftrightarrow> m k = None \<and> k \<notin> rf_id ` set facts"
proof -
  show "foldl (\<lambda>m n. m(rf_id n \<mapsto> n)) m facts k = Some q \<Longrightarrow> m k = Some q \<or> q \<in> set facts \<and> rf_id q = k"
  proof (induction facts arbitrary: m)
    case (Cons f facts)
    from Cons.IH [of "m(rf_id f \<mapsto> f)"] Cons.prems show ?case by (auto split: if_splits)
  qed simp
  show "foldl (\<lambda>m n. m(rf_id n \<mapsto> n)) m facts k = None \<longleftrightarrow> m k = None \<and> k \<notin> rf_id ` set facts"
    by (induction facts arbitrary: m) auto
qed

lemma nodes_by_id_Some: "nodes_by_id facts k = Some q \<Longrightarrow> q \<in> set facts \<and> rf_id q = k"
  using nodes_by_id_fold(1) [of Map.empty facts k q] by (simp add: nodes_by_id_def)

lemma nodes_by_id_None: "nodes_by_id facts k = None \<longleftrightarrow> k \<notin> rf_id ` set facts"
  by (simp add: nodes_by_id_def nodes_by_id_fold(2))

lemma nodes_by_id_mem:
  assumes "distinct (map rf_id regions)" "set facts \<subseteq> set regions" "q \<in> set facts"
  shows "nodes_by_id facts (rf_id q) = Some q"
proof (cases "nodes_by_id facts (rf_id q)")
  case None
  then show ?thesis using assms(3) by (auto simp: nodes_by_id_None)
next
  case (Some r)
  then have "r \<in> set facts" "rf_id r = rf_id q" using nodes_by_id_Some by blast+
  then show ?thesis using Some unique_row [OF assms(1)] assms(2,3) by blast
qed

text \<open>A chain of parents that ends at a province: every region active, one level above the other, and named as its parent.\<close>

fun ancestry :: "(string \<rightharpoonup> price_region_fact) \<Rightarrow> price_region_fact list \<Rightarrow> bool" where
  "ancestry nodes [] \<longleftrightarrow> False"
| "ancestry nodes [r] \<longleftrightarrow> rf_is_active r \<and> fact_level r = Some PROVINCE"
| "ancestry nodes (r # p # rs) \<longleftrightarrow>
     rf_is_active r \<and> (\<exists>l. fact_level r = Some l \<and> next_parent_level l \<noteq> None \<and> next_parent_level l = fact_level p) \<and>
     (\<exists>k. rf_parent_id r = Some k \<and> nodes k = Some p) \<and> ancestry nodes (p # rs)"

fun tiers_of :: "nat \<Rightarrow> price_region_fact list \<Rightarrow> price_region_tier list" where
  "tiers_of n [] = []"
| "tiers_of n (r # rs) =
     \<lparr>tr_region_id = rf_id r, tr_level = Tier_Level (the (fact_level r)), tr_priority = n\<rparr> # tiers_of (Suc n) rs"

text \<open>The regions visited lie below the current one, so the loop never meets one again.\<close>

definition below :: "(string \<rightharpoonup> price_region_fact) \<Rightarrow> string list \<Rightarrow> price_region_fact \<Rightarrow> bool" where
  "below nodes visited current \<longleftrightarrow>
     (\<forall>v \<in> set visited. \<exists>n. nodes v = Some n \<and> level_height (fact_level current) < level_height (fact_level n))"

definition keyed :: "(string \<rightharpoonup> price_region_fact) \<Rightarrow> bool" where
  "keyed nodes \<longleftrightarrow> (\<forall>k n. nodes k = Some n \<longrightarrow> rf_id n = k)"

lemma below_new: "below nodes visited current \<Longrightarrow> nodes (rf_id current) = Some current \<Longrightarrow> rf_id current \<notin> set visited"
  by (auto simp: below_def)

lemma below_step:
  assumes "below nodes visited current" "nodes (rf_id current) = Some current" "fact_level current = Some l"
    "next_parent_level l = Some p" "rf_administrative_level parent = Some (level_name p)"
  shows "below nodes (rf_id current # visited) parent"
  using assms next_level_lower [OF assms(4)] by (auto simp: below_def simp del: level_height.simps)

lemma climb_step:
  assumes "below nodes visited current" "nodes (rf_id current) = Some current"
  shows "climb nodes tiers visited current =
     (if \<not> rf_is_active current then Ladder_Incomplete tiers REGION_INACTIVE
      else
        (case fact_level current of
           None \<Rightarrow> Ladder_Incomplete tiers HIERARCHY_LEVEL_MISMATCH
         | Some level \<Rightarrow>
             let tiers' = tiers @ [\<lparr>tr_region_id = rf_id current, tr_level = Tier_Level level, tr_priority = length tiers\<rparr>]
             in (case next_parent_level level of
                   None \<Rightarrow> Ladder_Complete tiers'
                 | Some parent_level \<Rightarrow>
                     (case (case rf_parent_id current of None \<Rightarrow> None | Some p \<Rightarrow> nodes p) of
                        None \<Rightarrow> Ladder_Incomplete tiers' PARENT_NOT_PROVEN
                      | Some parent \<Rightarrow>
                          if rf_administrative_level parent \<noteq> Some (level_name parent_level)
                          then Ladder_Incomplete tiers' HIERARCHY_LEVEL_MISMATCH
                          else climb nodes tiers' (rf_id current # visited) parent))))"
  using below_new [OF assms] by (subst climb.simps) simp

abbreviation tier_of :: "nat \<Rightarrow> price_region_fact \<Rightarrow> price_region_tier" where
  "tier_of n r \<equiv> \<lparr>tr_region_id = rf_id r, tr_level = Tier_Level (the (fact_level r)), tr_priority = n\<rparr>"

lemma climb_cases:
  assumes "below nodes visited current" "nodes (rf_id current) = Some current"
  obtains (stopped) reason tiers' where "climb nodes tiers visited current = Ladder_Incomplete tiers' reason"
      "reason \<noteq> HIERARCHY_CYCLE" "\<nexists>rs. ancestry nodes (current # rs)"
  | (top) "rf_is_active current" "fact_level current = Some PROVINCE"
      "climb nodes tiers visited current = Ladder_Complete (tiers @ [tier_of (length tiers) current])"
  | (up) l p k parent where "rf_is_active current" "fact_level current = Some l" "next_parent_level l = Some p"
      "rf_parent_id current = Some k" "nodes k = Some parent" "fact_level parent = Some p"
      "climb nodes tiers visited current =
        climb nodes (tiers @ [tier_of (length tiers) current]) (rf_id current # visited) parent"
proof -
  have stop: thesis if "climb nodes tiers visited current = Ladder_Incomplete tiers' reason" "reason \<noteq> HIERARCHY_CYCLE"
      "\<And>r rs. ancestry nodes (r # rs) \<Longrightarrow> r \<noteq> current" for tiers' reason
    using that stopped by blast
  note step = climb_step [OF assms, of tiers]
  show thesis
  proof (cases "rf_is_active current")
    case False
    then show thesis using step by (intro stop) (auto elim: ancestry.elims)
  next
    case active: True
    show thesis
    proof (cases "fact_level current")
      case None
      then show thesis using step active by (intro stop) (auto elim: ancestry.elims)
    next
      case level: (Some l)
      show thesis
      proof (cases "next_parent_level l")
        case None
        then have "l = PROVINCE" by (cases l) auto
        then show thesis using step active level by (intro top) auto
      next
        case p: (Some p)
        show thesis
        proof (cases "case rf_parent_id current of None \<Rightarrow> None | Some k \<Rightarrow> nodes k")
          case None
          then show thesis
            using step active level p by (intro stop) (auto elim: ancestry.elims split: option.splits)
        next
          case (Some parent)
          then obtain k where k: "rf_parent_id current = Some k" "nodes k = Some parent" by (auto split: option.splits)
          show thesis
          proof (cases "rf_administrative_level parent = Some (level_name p)")
            case True
            then show thesis using step active level p k by (intro up) simp_all
          next
            case False
            then show thesis
              using step active level p k by (intro stop) (auto elim: ancestry.elims simp: price_region_level_of_Some)
          qed
        qed
      qed
    qed
  qed
qed

lemma climb_never_cycles:
  assumes "keyed nodes" "below nodes visited current" "nodes (rf_id current) = Some current"
  shows "climb nodes tiers visited current \<noteq> Ladder_Incomplete ts HIERARCHY_CYCLE"
  using assms(2,3)
proof (induction "level_height (fact_level current)" arbitrary: tiers visited current rule: less_induct)
  case less
  from less(2,3) show ?case
  proof (cases rule: climb_cases [of nodes visited current tiers])
    case (up l p k parent)
    then show ?thesis
      using less(1) [of parent "rf_id current # visited"] below_step [OF less(2,3)] assms(1) next_level_lower [of l p]
      by (simp add: keyed_def price_region_level_of_Some del: level_height.simps)
  qed simp_all
qed

lemma climb_complete_iff:
  assumes "keyed nodes" "below nodes visited current" "nodes (rf_id current) = Some current"
  shows "climb nodes tiers visited current = Ladder_Complete ts \<longleftrightarrow>
     (\<exists>rs. ancestry nodes (current # rs) \<and> ts = tiers @ tiers_of (length tiers) (current # rs))"
  using assms(2,3)
proof (induction "level_height (fact_level current)" arbitrary: tiers visited current rule: less_induct)
  case less
  from less(2,3) show ?case
  proof (cases rule: climb_cases [of nodes visited current tiers])
    case (stopped reason tiers')
    then show ?thesis by auto
  next
    case top
    have "rs = []" if "ancestry nodes (current # rs)" for rs
      using that top(2) by (cases rs) auto
    moreover have "ancestry nodes [current]" using top by simp
    ultimately have "(\<exists>rs. ancestry nodes (current # rs) \<and> ts = tiers @ tiers_of (length tiers) (current # rs)) \<longleftrightarrow>
        ts = tiers @ tiers_of (length tiers) [current]" by metis
    then show ?thesis using top(3) by auto
  next
    case (up l p k parent)
    have "climb nodes (tiers @ [tier_of (length tiers) current]) (rf_id current # visited) parent = Ladder_Complete ts \<longleftrightarrow>
        (\<exists>rs. ancestry nodes (parent # rs) \<and>
          ts = (tiers @ [tier_of (length tiers) current]) @ tiers_of (Suc (length tiers)) (parent # rs))"
      using up less(1) [of parent "rf_id current # visited" "tiers @ [tier_of (length tiers) current]"]
        below_step [OF less(2,3)] assms(1) next_level_lower [of l p]
      by (simp add: keyed_def price_region_level_of_Some del: level_height.simps tiers_of.simps)
    moreover have "ancestry nodes (current # rs) \<longleftrightarrow> (\<exists>rs'. rs = parent # rs' \<and> ancestry nodes (parent # rs'))" for rs
      using up by (cases rs) auto
    ultimately show ?thesis using up(7) by auto
  qed
qed

lemma nodes_by_id_keyed: "keyed (nodes_by_id facts)"
  using nodes_by_id_Some by (auto simp: keyed_def)

lemma project_at_origin:
  assumes "nodes_by_id facts origin = Some r"
  shows "below (nodes_by_id facts) [] r" "nodes_by_id facts (rf_id r) = Some r"
  using nodes_by_id_Some [OF assms] assms by (auto simp: below_def)

lemma ancestry_level: "ancestry nodes (r # rs) \<Longrightarrow> fact_level r \<noteq> None"
  by (cases rs) auto

text \<open>What the loader reads, and what the loop asks of it.\<close>

lemma find_region:
  assumes "distinct (map rf_id regions)"
  shows "find (\<lambda>r. rf_id r = k) regions = nodes_by_id regions k"
proof (cases "nodes_by_id regions k")
  case None
  then have "k \<notin> rf_id ` set regions" by (simp add: nodes_by_id_None)
  then have "find (\<lambda>r. rf_id r = k) regions = None" by (auto simp: find_None_iff)
  then show ?thesis using None by simp
next
  case (Some q)
  then have q: "q \<in> set regions" "rf_id q = k" using nodes_by_id_Some by blast+
  obtain x where x: "find (\<lambda>r. rf_id r = k) regions = Some x"
    using q by (cases "find (\<lambda>r. rf_id r = k) regions") (auto simp: find_None_iff)
  then have "x \<in> set regions" "rf_id x = k" by (auto simp: find_Some_iff)
  then show ?thesis using x Some q unique_row [OF assms] by metis
qed

lemma load_facts_subset: "set (load_facts n regions cursor) \<subseteq> set regions"
proof (induction n regions cursor rule: load_facts.induct)
  case (3 depth regions i)
  show ?case
  proof (cases "find (\<lambda>r. rf_id r = i) regions")
    case (Some q)
    then have "q \<in> set regions" by (auto simp: find_Some_iff)
    then show ?thesis using Some 3 by simp
  qed simp
qed auto

lemma load_facts_next:
  assumes "distinct (map rf_id regions)" "cur \<in> set regions"
  shows "load_facts (Suc n) regions (Some (rf_id cur)) = cur # load_facts n regions (rf_parent_id cur)"
  using find_region [OF assms(1), of "rf_id cur"] nodes_by_id_mem [OF assms(1) subset_refl assms(2)] by simp

lemma parent_loaded:
  assumes d: "distinct (map rf_id regions)" and "set facts \<subseteq> set regions" "cur \<in> set regions"
    "set (load_facts (Suc (Suc n)) regions (Some (rf_id cur))) \<subseteq> set facts" "rf_parent_id cur = Some k"
  shows "nodes_by_id facts k = nodes_by_id regions k"
proof (cases "nodes_by_id regions k")
  case None
  then have "nodes_by_id facts k = None" using assms(2) by (auto simp: nodes_by_id_None)
  then show ?thesis using None by simp
next
  case (Some q)
  then have "q \<in> set (load_facts (Suc n) regions (Some k))" using find_region [OF d] by simp
  moreover have "load_facts (Suc (Suc n)) regions (Some (rf_id cur)) = cur # load_facts (Suc n) regions (Some k)"
    using load_facts_next [OF d assms(3), of "Suc n"] assms(5) by (simp only:)
  ultimately have "q \<in> set facts" using assms(4) by (simp only: list.set) blast
  then have "nodes_by_id facts (rf_id q) = Some q" by (rule nodes_by_id_mem [OF d assms(2)])
  then show ?thesis using Some nodes_by_id_Some [OF Some] by simp
qed

lemma level_height_zero: "level_height level = 0 \<longleftrightarrow> level = None"
  by (cases level rule: level_height.cases) simp_all

lemma level_height_most: "level_height level \<le> 4"
  by (cases level rule: level_height.cases) simp_all

lemma climb_same_facts:
  assumes d: "distinct (map rf_id regions)" and sub: "set facts \<subseteq> set regions"
    and cur: "cur \<in> set regions" and read: "set (load_facts n regions (Some (rf_id cur))) \<subseteq> set facts"
    and n: "level_height (fact_level cur) \<le> n"
  shows "climb (nodes_by_id facts) tiers visited cur = climb (nodes_by_id regions) tiers visited cur"
  using cur read n
proof (induction n arbitrary: cur tiers visited)
  case 0
  then have "fact_level cur = None" by (simp add: level_height_zero)
  then show ?case
    using climb.simps [of "nodes_by_id facts" tiers visited cur] climb.simps [of "nodes_by_id regions" tiers visited cur]
    by simp
next
  case (Suc n)
  note climb_both = climb.simps [of "nodes_by_id facts" tiers visited cur] climb.simps [of "nodes_by_id regions" tiers visited cur]
  show ?case
  proof (cases "\<exists>l p k. fact_level cur = Some l \<and> next_parent_level l = Some p \<and> rf_parent_id cur = Some k")
    case False
    then consider "fact_level cur = None" | l where "fact_level cur = Some l" "next_parent_level l = None"
      | l where "fact_level cur = Some l" "rf_parent_id cur = None"
      by (metis option.exhaust)
    then show ?thesis
    proof cases
      case 1
      then show ?thesis unfolding climb_both by simp
    next
      case (2 l)
      then show ?thesis unfolding climb_both by (simp add: Let_def)
    next
      case (3 l)
      then show ?thesis unfolding climb_both by (simp add: Let_def split: option.split)
    qed
  next
    case True
    then obtain l p k where l: "fact_level cur = Some l" "next_parent_level l = Some p" "rf_parent_id cur = Some k"
      by blast
    have height: "level_height (Some p) \<le> n" using Suc.prems(3) l next_level_lower [OF l(2)] by simp
    then obtain m where m: "n = Suc m" by (cases n; cases p) simp_all
    have same: "nodes_by_id facts k = nodes_by_id regions k"
      using parent_loaded [OF d sub Suc.prems(1) _ l(3)] Suc.prems(2) m by blast
    have "load_facts (Suc n) regions (Some (rf_id cur)) = cur # load_facts n regions (Some k)"
      using load_facts_next [OF d Suc.prems(1), of n] l(3) by (simp only:)
    then have above: "set (load_facts n regions (Some k)) \<subseteq> set facts" using Suc.prems(2) by (simp only: list.set) blast
    have step: "climb (nodes_by_id facts) ts vs q = climb (nodes_by_id regions) ts vs q"
      if "nodes_by_id regions k = Some q" "rf_administrative_level q = Some (level_name p)" for q ts vs
      using Suc.IH [of q] nodes_by_id_Some [OF that(1)] that(2) above height by simp
    show ?thesis
    proof (cases "nodes_by_id regions k")
      case None
      show ?thesis unfolding climb_both using l same None by (simp add: Let_def)
    next
      case (Some q)
      show ?thesis unfolding climb_both using l same Some step [OF Some] by (simp add: Let_def)
    qed
  qed
qed

text \<open>C15: A ladder is complete exactly when the origin starts a chain of active regions, each named as the parent of the one
  before and one administrative level above it, that ends at a province; its tiers are that chain, nearest first.
\<close>

theorem complete_ladder_is_ancestry:
  "project_price_region_ladder origin facts = Ladder_Complete tiers \<longleftrightarrow>
     (\<exists>r rs. nodes_by_id facts origin = Some r \<and> ancestry (nodes_by_id facts) (r # rs) \<and> tiers = tiers_of 0 (r # rs))"
proof (cases "nodes_by_id facts origin")
  case None
  then show ?thesis by (simp add: project_price_region_ladder_def)
next
  case (Some r)
  note climb = climb_complete_iff [OF nodes_by_id_keyed project_at_origin [OF Some], of "[]" tiers]
  show ?thesis
  proof (cases "fact_level r")
    case None
    then show ?thesis using Some ancestry_level [of "nodes_by_id facts" r] by (auto simp: project_price_region_ladder_def)
  next
    case level: (Some l)
    have "project_price_region_ladder origin facts = climb (nodes_by_id facts) [] [] r"
      using Some level by (simp add: project_price_region_ladder_def)
    then show ?thesis using climb Some by (simp del: tiers_of.simps)
  qed
qed

text \<open>C14: The four rows the loader reads from the region table give the ladder of the whole table, whatever chain the table
  holds: no ladder is cut short by the limit of the loader.
\<close>

theorem four_reads_suffice:
  assumes "distinct (map rf_id regions)"
  shows "load_canonical_price_region_context regions origin = project_price_region_ladder origin regions"
proof (cases "nodes_by_id regions origin")
  case None
  then have "nodes_by_id (load_facts 4 regions (Some origin)) origin = None"
    using load_facts_subset [of 4 regions "Some origin"] by (auto simp: nodes_by_id_None)
  then show ?thesis using None by (simp add: load_canonical_price_region_context_def project_price_region_ladder_def)
next
  case (Some r)
  then have r: "r \<in> set regions" "rf_id r = origin" using nodes_by_id_Some by blast+
  let ?facts = "load_facts 4 regions (Some origin)"
  have sub: "set ?facts \<subseteq> set regions" by (rule load_facts_subset)
  have "r \<in> set ?facts" using load_facts_next [OF assms r(1), of 3] r(2) by (simp add: eval_nat_numeral)
  then have here: "nodes_by_id ?facts origin = Some r" using nodes_by_id_mem [OF assms sub] r(2) by blast
  have "level_height (fact_level r) \<le> 4" by (rule level_height_most)
  then have "climb (nodes_by_id ?facts) [] [] r = climb (nodes_by_id regions) [] [] r"
    using climb_same_facts [OF assms sub r(1), of 4] r(2) by blast
  then show ?thesis
    using here Some by (simp add: load_canonical_price_region_context_def project_price_region_ladder_def)
qed

text \<open>The step up cannot meet a region again: the refusal for a cycle is never given.\<close>

lemma ladder_never_cycles: "project_price_region_ladder origin facts \<noteq> Ladder_Incomplete tiers HIERARCHY_CYCLE"
proof (cases "nodes_by_id facts origin")
  case None
  then show ?thesis by (simp add: project_price_region_ladder_def)
next
  case (Some r)
  then show ?thesis
    using climb_never_cycles [OF nodes_by_id_keyed project_at_origin [OF Some], of "[]" tiers]
    by (simp add: project_price_region_ladder_def)
qed

text \<open>The tier found is the nearest one with an offer.\<close>

lemma first_tier_with_offers_Some:
  "first_tier_with_offers applicable offers tiers = Some (tier, matching) \<longleftrightarrow>
     (\<exists>below above. tiers = below @ tier # above \<and> matching = filter (\<lambda>offer. applicable offer (tr_region_id tier)) offers \<and>
        matching \<noteq> [] \<and> (\<forall>t \<in> set below. \<forall>offer \<in> set offers. \<not> applicable offer (tr_region_id t)))"
proof (induction tiers)
  case (Cons t tiers)
  show ?case
  proof (cases "filter (\<lambda>offer. applicable offer (tr_region_id t)) offers = []")
    case True
    then have none: "\<forall>offer \<in> set offers. \<not> applicable offer (tr_region_id t)" by (simp add: filter_empty_conv)
    have "(\<exists>below above. t # tiers = below @ tier # above \<and> Q tier \<and> (\<forall>t \<in> set below. R t)) \<longleftrightarrow>
        (\<exists>below above. tiers = below @ tier # above \<and> Q tier \<and> (\<forall>t \<in> set below. R t))"
      if "\<not> Q t" "R t" for Q R
      using that by (auto simp: Cons_eq_append_conv) (metis append_Cons set_ConsD)+
    from this [of "\<lambda>u. matching = filter (\<lambda>offer. applicable offer (tr_region_id u)) offers \<and> matching \<noteq> []"
        "\<lambda>u. \<forall>offer \<in> set offers. \<not> applicable offer (tr_region_id u)"]
    show ?thesis using True none Cons by (simp add: conj_assoc)
  next
    case False
    then have offer: "\<exists>offer \<in> set offers. applicable offer (tr_region_id t)" by (simp add: filter_empty_conv)
    have "(\<exists>below above. t # tiers = below @ tier # above \<and> Q tier \<and> (\<forall>t \<in> set below. R t)) \<longleftrightarrow> t = tier \<and> Q tier"
      if "\<not> R t" for Q R
      using that by (auto simp: Cons_eq_append_conv)
    from this [of "\<lambda>u. \<forall>offer \<in> set offers. \<not> applicable offer (tr_region_id u)"
        "\<lambda>u. matching = filter (\<lambda>offer. applicable offer (tr_region_id u)) offers \<and> matching \<noteq> []"]
    show ?thesis using False offer by (auto simp: conj_assoc)
  qed
qed simp

section \<open>Witnesses\<close>

definition sample_regions :: "price_region_fact list" where
  "sample_regions =
     [\<lparr>rf_id = ''rg1'', rf_parent_id = Some ''rg2'', rf_administrative_level = Some ''DISTRICT'', rf_is_active = True\<rparr>,
      \<lparr>rf_id = ''rg2'', rf_parent_id = Some ''rg3'', rf_administrative_level = Some ''REGENCY_CITY'', rf_is_active = True\<rparr>,
      \<lparr>rf_id = ''rg3'', rf_parent_id = None, rf_administrative_level = Some ''PROVINCE'', rf_is_active = True\<rparr>,
      \<lparr>rf_id = ''rg4'', rf_parent_id = Some ''rg2'', rf_administrative_level = Some ''DISTRICT'', rf_is_active = True\<rparr>]"

lemma sample_regions_distinct: "distinct (map rf_id sample_regions)"
  by (simp add: sample_regions_def)

theorem four_reads_suffice_witness:
  "load_canonical_price_region_context sample_regions ''rg1'' = project_price_region_ladder ''rg1'' sample_regions \<and>
   length (ladder_tiers (project_price_region_ladder ''rg1'' sample_regions)) = 3"
proof -
  have "length (ladder_tiers (load_canonical_price_region_context sample_regions ''rg1'')) = 3" by code_simp
  then show ?thesis using four_reads_suffice [OF sample_regions_distinct, of "''rg1''"] by simp
qed

end
