(* ===== verification/PriceSelection.thy ===== *)
theory PriceSelection
  imports PriceRegion RabPricing
begin

text \<open>
  Which stored prices a workspace may be offered: eligibility (\<open>basic-price/basic-price-eligibility.policy.ts\<close>), applicability
  (\<open>basic-price-applicability.ts\<close>), currentness (\<open>basic-price-currentness.ts\<close>) and precedence
  (\<open>basic-price-promotion-precedence.ts\<close>), composed with the region ladder as the orchestrator composes them
  (\<open>project-ahsp/ahsp-resource-resolution.orchestrator.ts\<close>), and the correction of a private price
  (\<open>basic-price/basic-price-private-asset.service.ts\<close>).

  A query fragment is a predicate on a row of the tables; a relation of the schema is a search by id. Columns no law reads
  (local content, source labels, periods, the display name of a source in the journal) are left out of the rows.

  The properties: a correction leaves every answer about the past as it was and takes over at its own instant; the tables
  stay well formed.
\<close>

section \<open>Rows\<close>

datatype price_verification_status = UNVERIFIED | SUBMITTED | UNDER_REVIEW | VERIFIED | REJECTED | PUBLISHED

record 'd price_row = region_facts +
  bp_id :: string
  bp_resource_id :: string
  bp_workspace_id :: "string option"
  bp_organization_id :: "string option"
  bp_status :: string
  bp_verification_status :: price_verification_status
  bp_asset_scope :: basic_price_scope
  bp_effective_date :: int
  bp_valid_until :: "int option"
  bp_value :: 'd
  bp_source_submission_id :: "string option"
  bp_source_import_row_id :: "string option"
  bp_promoted_from :: "string option"
  bp_supersedes :: "string option"
  bp_created_at :: int

record publication_audit =
  pb_basic_price_id :: string
  pb_action :: string
  pb_actor_account_id :: string
  pb_created_at :: int
  pb_effective_at :: "int option"

record price_correction =
  cx_basic_price_id :: string
  cx_workspace_id :: string
  cx_actor_account_id :: string
  cx_reason :: string
  cx_before_value :: string
  cx_after_value :: string
  cx_from_source_document :: bool

record 'd price_tables =
  tp_prices :: "'d price_row list"
  tp_publication_audits :: "publication_audit list"
  tp_corrections :: "price_correction list"
  tp_regions :: "price_region_fact list"

section \<open>Eligibility\<close>

definition PUBLIC_BASIC_PRICE_STATUS :: string where
  "PUBLIC_BASIC_PRICE_STATUS = ''PUBLISHED''"

definition public_eligibility_where :: "'d price_row \<Rightarrow> bool" where
  "public_eligibility_where p \<longleftrightarrow> bp_status p = PUBLIC_BASIC_PRICE_STATUS \<and> bp_verification_status p = PUBLISHED"

definition catalog_asset_branch :: "string \<Rightarrow> 'd price_row \<Rightarrow> bool" where
  "catalog_asset_branch workspace p \<longleftrightarrow>
     bp_status p = PUBLIC_BASIC_PRICE_STATUS \<and> bp_verification_status p = PUBLISHED \<and>
     (bp_workspace_id p = Some workspace \<or> bp_workspace_id p = None)"

definition private_asset_branch :: "string \<Rightarrow> 'd price_row \<Rightarrow> bool" where
  "private_asset_branch workspace p \<longleftrightarrow>
     bp_asset_scope p = Scope_Workspace_Private \<and> bp_workspace_id p = Some workspace \<and> bp_verification_status p \<noteq> REJECTED"

definition build_usable_basic_price_where :: "string \<Rightarrow> 'd price_row \<Rightarrow> bool" where
  "build_usable_basic_price_where workspace p \<longleftrightarrow> catalog_asset_branch workspace p \<or> private_asset_branch workspace p"

text \<open>\<open>evaluate\<close>: a field that is \<open>undefined\<close> does not block; an empty one does.\<close>

datatype eligibility_reason_code =
    NOT_PUBLISHED | NOT_VERIFICATION_TERMINAL | RESOURCE_IDENTITY_MISSING | UNIT_IDENTITY_MISSING | REGION_IDENTITY_MISSING
  | EFFECTIVE_DATE_MISSING | SOURCE_IDENTITY_MISSING | UNRESOLVED_COLLISION_PRESENT | ELIGIBILITY_REJECTED
  | INCOMPLETE_NEW_IMPORT_PROVENANCE | ELIGIBLE

record eligibility_candidate =
  ec_status :: string
  ec_verification_status :: string
  ec_resource_id :: "string nullable"
  ec_unit :: "string nullable"
  ec_region_id :: "string nullable"
  ec_effective_date :: "string nullable"
  ec_source_origin :: "string nullable"
  ec_has_unresolved_collision :: "bool option"
  ec_rejected :: "bool option"
  ec_import_provenance_complete :: "bool option"

definition evaluate_eligibility :: "eligibility_candidate \<Rightarrow> bool \<times> eligibility_reason_code" where
  "evaluate_eligibility candidate =
     (if ec_status candidate \<noteq> PUBLIC_BASIC_PRICE_STATUS then (False, NOT_PUBLISHED)
      else if ec_verification_status candidate \<noteq> ''PUBLISHED'' then (False, NOT_VERIFICATION_TERMINAL)
      else if falsy_text (ec_resource_id candidate) then (False, RESOURCE_IDENTITY_MISSING)
      else if ec_unit candidate \<noteq> Js_Undefined \<and> falsy_text (ec_unit candidate) then (False, UNIT_IDENTITY_MISSING)
      else if ec_region_id candidate \<noteq> Js_Undefined \<and> falsy_text (ec_region_id candidate)
      then (False, REGION_IDENTITY_MISSING)
      else if falsy_text (ec_effective_date candidate) then (False, EFFECTIVE_DATE_MISSING)
      else if falsy_text (ec_source_origin candidate) then (False, SOURCE_IDENTITY_MISSING)
      else if ec_has_unresolved_collision candidate = Some True then (False, UNRESOLVED_COLLISION_PRESENT)
      else if ec_rejected candidate = Some True then (False, ELIGIBILITY_REJECTED)
      else if ec_import_provenance_complete candidate = Some False then (False, INCOMPLETE_NEW_IMPORT_PROVENANCE)
      else (True, ELIGIBLE))"

section \<open>Applicability\<close>

definition basic_price_applicability_and :: "int \<Rightarrow> 'd price_row \<Rightarrow> bool" where
  "basic_price_applicability_and as_of p \<longleftrightarrow>
     bp_effective_date p \<le> as_of \<and> (case bp_valid_until p of None \<Rightarrow> True | Some u \<Rightarrow> as_of \<le> u)"

section \<open>Currentness\<close>

abbreviation audits_of :: "('d, 'a) price_tables_scheme \<Rightarrow> 'd price_row \<Rightarrow> publication_audit list" where
  "audits_of t p \<equiv> filter (\<lambda>a. pb_basic_price_id a = bp_id p) (tp_publication_audits t)"

abbreviation superseded_by :: "('d, 'a) price_tables_scheme \<Rightarrow> 'd price_row \<Rightarrow> 'd price_row option" where
  "superseded_by t p \<equiv> find (\<lambda>s. bp_supersedes s = Some (bp_id p)) (tp_prices t)"

abbreviation price_named :: "('d, 'a) price_tables_scheme \<Rightarrow> string option \<Rightarrow> 'd price_row option" where
  "price_named t i \<equiv> find (\<lambda>q. Some (bp_id q) = i) (tp_prices t)"

definition withdrawn_audit :: "int \<Rightarrow> publication_audit \<Rightarrow> bool" where
  "withdrawn_audit as_of a \<longleftrightarrow>
     pb_action a = ''WITHDRAWN'' \<and> (case pb_effective_at a of None \<Rightarrow> False | Some e \<Rightarrow> e \<le> as_of)"

definition superseded_audit :: "int \<Rightarrow> publication_audit \<Rightarrow> bool" where
  "superseded_audit as_of a \<longleftrightarrow> pb_action a = ''SUPERSEDED'' \<and> pb_created_at a \<le> as_of"

definition any_superseded_audit :: "publication_audit \<Rightarrow> bool" where
  "any_superseded_audit a \<longleftrightarrow> pb_action a = ''SUPERSEDED''"

definition catalog_successor_with_no_governance_record :: "('d, 'a) price_tables_scheme \<Rightarrow> 'd price_row \<Rightarrow> bool" where
  "catalog_successor_with_no_governance_record t s \<longleftrightarrow>
     bp_verification_status s \<noteq> UNVERIFIED \<and>
     (case price_named t (bp_supersedes s) of
        None \<Rightarrow> False
      | Some q \<Rightarrow> \<not> (\<exists>a \<in> set (audits_of t q). any_superseded_audit a))"

definition private_successor_already_in_force :: "int \<Rightarrow> 'd price_row \<Rightarrow> bool" where
  "private_successor_already_in_force as_of s \<longleftrightarrow> bp_verification_status s = UNVERIFIED \<and> bp_created_at s \<le> as_of"

definition private_successor_recorded_by_as_of :: "int \<Rightarrow> 'd price_row \<Rightarrow> bool" where
  "private_successor_recorded_by_as_of as_of p \<longleftrightarrow>
     bp_supersedes p = None \<or> bp_verification_status p \<noteq> UNVERIFIED \<or> bp_created_at p \<le> as_of"

definition superseded_as_of :: "('d, 'a) price_tables_scheme \<Rightarrow> int \<Rightarrow> 'd price_row \<Rightarrow> bool" where
  "superseded_as_of t as_of p \<longleftrightarrow>
     (\<exists>a \<in> set (audits_of t p). superseded_audit as_of a) \<or>
     superseded_by t p \<noteq> None \<and> \<not> (\<exists>a \<in> set (audits_of t p). any_superseded_audit a)"

definition not_replaced :: "('d, 'a) price_tables_scheme \<Rightarrow> int \<Rightarrow> 'd price_row \<Rightarrow> bool" where
  "not_replaced t as_of p \<longleftrightarrow>
     (case superseded_by t p of
        None \<Rightarrow> True
      | Some s \<Rightarrow> \<not> (catalog_successor_with_no_governance_record t s \<or> private_successor_already_in_force as_of s))"

definition origin_still_current :: "('d, 'a) price_tables_scheme \<Rightarrow> int \<Rightarrow> 'd price_row \<Rightarrow> bool" where
  "origin_still_current t as_of p \<longleftrightarrow>
     (case price_named t (bp_promoted_from p) of
        None \<Rightarrow> True
      | Some origin \<Rightarrow>
          \<not> (superseded_as_of t as_of origin \<or> (\<exists>a \<in> set (audits_of t origin). withdrawn_audit as_of a)))"

definition basic_price_currentness_where :: "('d, 'a) price_tables_scheme \<Rightarrow> int \<Rightarrow> 'd price_row \<Rightarrow> bool" where
  "basic_price_currentness_where t as_of p \<longleftrightarrow>
     not_replaced t as_of p \<and> private_successor_recorded_by_as_of as_of p \<and>
     \<not> (\<exists>a \<in> set (audits_of t p). withdrawn_audit as_of a \<or> superseded_audit as_of a) \<and>
     origin_still_current t as_of p"

section \<open>Precedence and the offer\<close>

definition promotion_lineage_precedence_where :: "('d, 'a) price_tables_scheme \<Rightarrow> string \<Rightarrow> 'd price_row \<Rightarrow> bool" where
  "promotion_lineage_precedence_where t workspace p \<longleftrightarrow>
     \<not> (case price_named t (bp_promoted_from p) of None \<Rightarrow> False | Some origin \<Rightarrow> bp_workspace_id origin = Some workspace)"

text \<open>The regions an offer is drawn from: the proven ladder, or the exact region alone.\<close>

definition regional_ladder :: "price_region_fact list \<Rightarrow> string \<Rightarrow> js_error + price_region_ladder" where
  "regional_ladder regions origin =
     (case find (\<lambda>r. rf_id r = origin) (load_facts 4 regions (Some origin)) of
        None \<Rightarrow> Inl (ConflictException ''RAB_PRICE_REGION_HIERARCHY_UNPROVEN'')
      | Some r \<Rightarrow>
          if \<not> rf_is_active r then Inl (ConflictException ''RAB_PRICE_REGION_HIERARCHY_UNPROVEN'')
          else
            (case load_canonical_price_region_context regions origin of
               Ladder_Complete tiers \<Rightarrow> Inr (Ladder_Complete tiers)
             | Ladder_Incomplete _ _ \<Rightarrow> Inr (legacy_exact_price_region_ladder origin)))"

text \<open>
  The candidate offer. \<open>older_offers\<close> are the ids the explorer has replaced by a later observation of the same source.
\<close>

definition offered_prices ::
    "('d, 'a) price_tables_scheme \<Rightarrow> string \<Rightarrow> string list \<Rightarrow> int \<Rightarrow> price_region_ladder \<Rightarrow> 'd price_row list" where
  "offered_prices t workspace older_offers as_of ladder =
     filter (\<lambda>p. build_usable_basic_price_where workspace p \<and> bp_id p \<notin> set older_offers \<and>
         promotion_lineage_precedence_where t workspace p \<and> basic_price_currentness_where t as_of p \<and>
         (case bp_valid_until p of None \<Rightarrow> True | Some u \<Rightarrow> as_of \<le> u) \<and>
         (\<exists>tier \<in> set (ladder_tiers ladder). basic_price_region_applicability (tr_region_id tier) p) \<and>
         bp_effective_date p \<le> as_of)
       (tp_prices t)"

section \<open>The correction of a private price\<close>

record private_correction_result =
  pcr_basic_price_id :: string
  pcr_value :: string
  pcr_unchanged :: bool

definition money_text :: "'d decimal_ops \<Rightarrow> string \<Rightarrow> string option" where
  "money_text D s = map_option (\<lambda>x. d_to_fixed D 2 (to_money_decimal2 D x)) (d_parse D s)"

text \<open>The successor: the observation of the predecessor at another value, with the defaults of the schema.\<close>

definition successor_row :: "int \<Rightarrow> string \<Rightarrow> 'd \<Rightarrow> 'd price_row \<Rightarrow> 'd price_row" where
  "successor_row now new_id v p =
     p\<lparr>bp_id := new_id, bp_asset_scope := Scope_Workspace_Private, bp_status := ''UNPUBLISHED'',
       bp_verification_status := UNVERIFIED, bp_value := v, bp_source_submission_id := None,
       bp_source_import_row_id := None, bp_promoted_from := None, bp_supersedes := Some (bp_id p), bp_created_at := now\<rparr>"

definition correct_private_price ::
    "'d decimal_ops \<Rightarrow> int \<Rightarrow> string \<Rightarrow> ('d, 'a) price_tables_scheme \<Rightarrow> string \<Rightarrow> string \<Rightarrow> string \<Rightarrow> string \<Rightarrow> string \<Rightarrow> string
      \<Rightarrow> js_error + private_correction_result \<times> ('d, 'a) price_tables_scheme" where
  "correct_private_price D now new_id t basic_price_id workspace account expected_value proposed_value reason =
     (case (money_text D expected_value, money_text D proposed_value) of
        (Some expected, Some proposed) \<Rightarrow>
          if expected = proposed then Inl (ConflictException ''PRICE_UNCHANGED'')
          else
            (case find (\<lambda>p. bp_id p = basic_price_id \<and> bp_workspace_id p = Some workspace \<and>
                bp_asset_scope p = Scope_Workspace_Private) (tp_prices t) of
               None \<Rightarrow> Inl (NotFoundException ''BasicPrice not found'')
             | Some predecessor \<Rightarrow>
                 let stored = to_decimal_string2 D (bp_value predecessor)
                 in if stored \<noteq> expected
                    then
                      if stored = proposed
                      then Inr (\<lparr>pcr_basic_price_id = bp_id predecessor, pcr_value = stored, pcr_unchanged = True\<rparr>, t)
                      else Inl (ConflictException ''PRICE_STALE_FACT'')
                    else
                      (case superseded_by t predecessor of
                         Some s \<Rightarrow>
                           let successor_value = to_decimal_string2 D (bp_value s)
                           in if successor_value = proposed
                              then Inr (\<lparr>pcr_basic_price_id = bp_id s, pcr_value = successor_value, pcr_unchanged = True\<rparr>, t)
                              else Inl (ConflictException ''PREDECESSOR_ALREADY_SUPERSEDED'')
                       | None \<Rightarrow>
                           (case d_parse D proposed of
                              None \<Rightarrow> Inl (Plain_Error ''DecimalError'')
                            | Some v \<Rightarrow>
                                Inr (\<lparr>pcr_basic_price_id = new_id, pcr_value = to_decimal_string2 D v, pcr_unchanged = False\<rparr>,
                                  t\<lparr>tp_prices := tp_prices t @ [successor_row now new_id v predecessor],
                                    tp_corrections := tp_corrections t @
                                      [\<lparr>cx_basic_price_id = new_id, cx_workspace_id = workspace, cx_actor_account_id = account,
                                        cx_reason = reason, cx_before_value = stored, cx_after_value = proposed,
                                        cx_from_source_document = (bp_source_import_row_id predecessor \<noteq> None)\<rparr>]\<rparr>))))
      | _ \<Rightarrow> Inl (ConflictException ''PRICE_NOT_CANONICAL''))"

section \<open>Well-formed tables\<close>

text \<open>What the keys and checks of the schema keep: one id per row, pointers to rows that exist, one successor at most.\<close>

definition price_tables_wf :: "('d, 'a) price_tables_scheme \<Rightarrow> bool" where
  "price_tables_wf t \<longleftrightarrow>
     distinct (map bp_id (tp_prices t)) \<and>
     (\<forall>p \<in> set (tp_prices t). \<forall>k. bp_supersedes p = Some k \<longrightarrow> k \<in> bp_id ` set (tp_prices t)) \<and>
     (\<forall>p \<in> set (tp_prices t). \<forall>q \<in> set (tp_prices t).
        bp_supersedes p \<noteq> None \<and> bp_supersedes p = bp_supersedes q \<longrightarrow> p = q) \<and>
     (\<forall>p \<in> set (tp_prices t). \<forall>k. bp_promoted_from p = Some k \<longrightarrow>
        (\<exists>q \<in> set (tp_prices t). bp_id q = k \<and> bp_asset_scope q = Scope_Simprok_Catalog)) \<and>
     (\<forall>a \<in> set (tp_publication_audits t). pb_basic_price_id a \<in> bp_id ` set (tp_prices t)) \<and>
     (\<forall>p \<in> set (tp_prices t). bp_asset_scope p = Scope_Workspace_Private \<longrightarrow>
        bp_workspace_id p \<noteq> None \<and> bp_status p \<noteq> PUBLIC_BASIC_PRICE_STATUS \<and> bp_verification_status p \<noteq> PUBLISHED)"

lemma price_tables_wfD:
  assumes "price_tables_wf t" "p \<in> set (tp_prices t)"
  shows "distinct (map bp_id (tp_prices t))"
    "bp_supersedes p = Some k \<Longrightarrow> k \<in> bp_id ` set (tp_prices t)"
    "bp_promoted_from p = Some k \<Longrightarrow> \<exists>q \<in> set (tp_prices t). bp_id q = k \<and> bp_asset_scope q = Scope_Simprok_Catalog"
  using assms unfolding price_tables_wf_def by blast+

section \<open>What a correction writes\<close>

text \<open>\<open>corrected t t' now new_id p\<close>: the rows of \<open>t'\<close> are those of \<open>t\<close> with a successor of \<open>p\<close> at the end.\<close>

definition corrected :: "('d, 'a) price_tables_scheme \<Rightarrow> ('d, 'a) price_tables_scheme \<Rightarrow> int \<Rightarrow> string \<Rightarrow> 'd price_row \<Rightarrow> bool" where
  "corrected t t' now new_id p \<longleftrightarrow>
     p \<in> set (tp_prices t) \<and> bp_asset_scope p = Scope_Workspace_Private \<and> superseded_by t p = None \<and>
     tp_publication_audits t' = tp_publication_audits t \<and> tp_regions t' = tp_regions t \<and>
     (\<exists>v. tp_prices t' = tp_prices t @ [successor_row now new_id v p])"

lemma correction_writes:
  assumes "correct_private_price D now new_id t i workspace account expected proposed reason = Inr (result, t')"
    "\<not> pcr_unchanged result"
  obtains p where "corrected t t' now new_id p" "bp_id p = i" "bp_workspace_id p = Some workspace"
    "pcr_basic_price_id result = new_id"
proof -
  obtain e q where texts: "money_text D expected = Some e" "money_text D proposed = Some q" "e \<noteq> q"
    using assms(1) by (auto simp: correct_private_price_def split: option.splits if_splits)
  obtain p where p: "find (\<lambda>p. bp_id p = i \<and> bp_workspace_id p = Some workspace \<and>
      bp_asset_scope p = Scope_Workspace_Private) (tp_prices t) = Some p"
    using assms(1) texts by (auto simp: correct_private_price_def split: option.splits)
  then have facts: "p \<in> set (tp_prices t)" "bp_id p = i" "bp_workspace_id p = Some workspace"
    "bp_asset_scope p = Scope_Workspace_Private" by (auto simp: find_Some_iff)
  have stored: "to_decimal_string2 D (bp_value p) = e" and none: "superseded_by t p = None"
    using assms texts p by (auto simp: correct_private_price_def Let_def split: option.splits if_splits)
  obtain v where "d_parse D q = Some v"
    using assms texts p stored none by (auto simp: correct_private_price_def Let_def split: option.splits)
  then have "corrected t t' now new_id p" "pcr_basic_price_id result = new_id"
    using assms texts p stored none facts by (auto simp: correct_private_price_def corrected_def)
  then show thesis using facts by (intro that)
qed

lemma corrected_member:
  assumes "correct_private_price D now new_id t i workspace account expected proposed reason = Inr (result, t')"
    "\<not> pcr_unchanged result" "q \<in> set (tp_prices t)"
  shows "q \<in> set (tp_prices t')"
  using correction_writes [OF assms(1,2)] assms(3) by (metis (no_types) UnCI corrected_def set_append)

lemma superseded_by_corrected:
  assumes "price_tables_wf t" "corrected t t' now new_id p" "q \<in> set (tp_prices t)" "q \<noteq> p"
  shows "superseded_by t' q = superseded_by t q"
proof -
  obtain v where v: "tp_prices t' = tp_prices t @ [successor_row now new_id v p]"
    using assms(2) by (auto simp: corrected_def)
  have "bp_id q \<noteq> bp_id p"
    using assms unique_row [OF price_tables_wfD(1) [OF assms(1,3)]] by (auto simp: corrected_def)
  then show ?thesis unfolding v by (simp add: find_append successor_row_def split: option.split)
qed

lemma superseded_by_successor:
  assumes "corrected t t' now new_id p"
  obtains v where "superseded_by t' p = Some (successor_row now new_id v p)"
    "tp_prices t' = tp_prices t @ [successor_row now new_id v p]"
proof -
  obtain v where v: "tp_prices t' = tp_prices t @ [successor_row now new_id v p]"
    using assms by (auto simp: corrected_def)
  moreover have "superseded_by t' p = Some (successor_row now new_id v p)"
    unfolding v using assms by (simp add: find_append corrected_def) (simp add: successor_row_def)
  ultimately show thesis by (intro that)
qed

lemma price_named_corrected:
  assumes "corrected t t' now new_id p" "i \<noteq> Some new_id"
  shows "price_named t' i = price_named t i"
proof -
  obtain v where v: "tp_prices t' = tp_prices t @ [successor_row now new_id v p]"
    using assms by (auto simp: corrected_def)
  show ?thesis unfolding v using assms(2) by (auto simp: find_append successor_row_def split: option.split)
qed

lemma pointer_not_new:
  assumes "price_tables_wf t" "new_id \<notin> bp_id ` set (tp_prices t)" "q \<in> set (tp_prices t)"
  shows "bp_supersedes q \<noteq> Some new_id" "bp_promoted_from q \<noteq> Some new_id"
  using price_tables_wfD(2,3) [OF assms(1,3)] assms(2) by (metis image_eqI)+

lemma governance_record_corrected:
  assumes "price_tables_wf t" "corrected t t' now new_id p" "new_id \<notin> bp_id ` set (tp_prices t)" "s \<in> set (tp_prices t)"
  shows "catalog_successor_with_no_governance_record t' s = catalog_successor_with_no_governance_record t s"
proof -
  have "tp_publication_audits t' = tp_publication_audits t" using assms(2) by (simp add: corrected_def)
  then show ?thesis
    using price_named_corrected [OF assms(2) pointer_not_new(1) [OF assms(1,3,4)]]
    by (simp add: catalog_successor_with_no_governance_record_def split: option.split)
qed

lemma origin_not_corrected:
  assumes "price_tables_wf t" "corrected t t' now new_id p" "q \<in> set (tp_prices t)"
    "price_named t (bp_promoted_from q) = Some origin"
  shows "superseded_as_of t' as_of origin = superseded_as_of t as_of origin"
proof -
  have origin: "origin \<in> set (tp_prices t)" "bp_promoted_from q = Some (bp_id origin)"
    using assms(4) by (auto simp: find_Some_iff)
  obtain c where "c \<in> set (tp_prices t)" "bp_id c = bp_id origin" "bp_asset_scope c = Scope_Simprok_Catalog"
    using price_tables_wfD(3) [OF assms(1,3) origin(2)] by blast
  then have "bp_asset_scope origin = Scope_Simprok_Catalog"
    using unique_row [OF price_tables_wfD(1) [OF assms(1,3)]] origin(1) by metis
  then have "origin \<noteq> p" using assms(2) by (auto simp: corrected_def)
  then show ?thesis
    using superseded_by_corrected [OF assms(1,2) origin(1)] assms(2) by (simp add: superseded_as_of_def corrected_def)
qed

text \<open>The clause on the origin of a promoted price reads the same before and after.\<close>

lemma origin_clause_corrected:
  assumes "price_tables_wf t" "corrected t t' now new_id p" "new_id \<notin> bp_id ` set (tp_prices t)" "q \<in> set (tp_prices t)"
  shows "origin_still_current t' as_of q = origin_still_current t as_of q"
proof -
  have "tp_publication_audits t' = tp_publication_audits t" using assms(2) by (simp add: corrected_def)
  then show ?thesis
    using price_named_corrected [OF assms(2) pointer_not_new(2) [OF assms(1,3,4)]] origin_not_corrected [OF assms(1,2,4)]
    by (simp add: origin_still_current_def split: option.split)
qed

lemma replaced_corrected:
  assumes "price_tables_wf t" "corrected t t' now new_id p" "new_id \<notin> bp_id ` set (tp_prices t)"
    "q \<in> set (tp_prices t)" "q \<noteq> p"
  shows "not_replaced t' as_of q = not_replaced t as_of q"
proof -
  have "s \<in> set (tp_prices t)" if "superseded_by t q = Some s" for s using that by (auto simp: find_Some_iff)
  then show ?thesis
    using superseded_by_corrected [OF assms(1,2,4,5)] governance_record_corrected [OF assms(1-3)]
    by (simp add: not_replaced_def split: option.split)
qed

lemma predecessor_replaced:
  assumes "corrected t t' now new_id p"
  shows "not_replaced t as_of p" "not_replaced t' as_of p \<longleftrightarrow> as_of < now"
proof -
  show "not_replaced t as_of p" using assms by (simp add: corrected_def not_replaced_def)
  obtain v where "superseded_by t' p = Some (successor_row now new_id v p)"
    using superseded_by_successor [OF assms] by blast
  moreover have "bp_verification_status (successor_row now new_id v p) = UNVERIFIED"
    "bp_created_at (successor_row now new_id v p) = now" by (simp_all add: successor_row_def)
  ultimately show "not_replaced t' as_of p \<longleftrightarrow> as_of < now"
    by (simp add: not_replaced_def catalog_successor_with_no_governance_record_def
        private_successor_already_in_force_def not_le)
qed

lemma currentness_of_others:
  assumes "price_tables_wf t" "corrected t t' now new_id p" "new_id \<notin> bp_id ` set (tp_prices t)"
    "q \<in> set (tp_prices t)" "q \<noteq> p \<or> as_of < now"
  shows "basic_price_currentness_where t' as_of q = basic_price_currentness_where t as_of q"
proof -
  have "tp_publication_audits t' = tp_publication_audits t" using assms(2) by (simp add: corrected_def)
  moreover have "not_replaced t' as_of q = not_replaced t as_of q"
    using assms(5) replaced_corrected [OF assms(1-4)] predecessor_replaced [OF assms(2)] by blast
  ultimately show ?thesis
    using origin_clause_corrected [OF assms(1-4)] by (simp add: basic_price_currentness_where_def)
qed

text \<open>The successor itself.\<close>

lemma successor_current:
  assumes "price_tables_wf t" "corrected t t' now new_id p" "new_id \<notin> bp_id ` set (tp_prices t)"
    "s \<in> set (tp_prices t')" "bp_id s = new_id"
  shows "basic_price_currentness_where t' as_of s \<longleftrightarrow> now \<le> as_of"
proof -
  obtain v where v: "tp_prices t' = tp_prices t @ [successor_row now new_id v p]"
    using superseded_by_successor [OF assms(2)] by blast
  have s: "s = successor_row now new_id v p" using assms(3-5) v by auto
  have fields: "bp_promoted_from s = None" "bp_supersedes s = Some (bp_id p)" "bp_verification_status s = UNVERIFIED"
    "bp_created_at s = now" by (simp_all add: s successor_row_def)
  have p: "p \<in> set (tp_prices t)" "tp_publication_audits t' = tp_publication_audits t"
    using assms(2) by (simp_all add: corrected_def)
  have "bp_supersedes x \<noteq> Some new_id" if "x \<in> set (tp_prices t')" for x
    using that v pointer_not_new(1) [OF assms(1,3)] p(1) assms(3) by (auto simp: successor_row_def)
  then have "superseded_by t' s = None" using assms(5) by (auto simp: find_None_iff)
  moreover have "pb_basic_price_id a \<noteq> new_id" if "a \<in> set (tp_publication_audits t)" for a
    using assms(1,3) that unfolding price_tables_wf_def by metis
  then have "audits_of t' s = []"
    using assms(5) p(2) by (simp add: filter_empty_conv)
  moreover have "price_named t' None = None" by (auto simp: find_None_iff)
  ultimately show ?thesis
    using fields by (simp add: basic_price_currentness_where_def not_replaced_def origin_still_current_def
        private_successor_recorded_by_as_of_def del: filter_empty_conv)
qed

lemma corrected_wf:
  assumes "price_tables_wf t" "corrected t t' now new_id p" "new_id \<notin> bp_id ` set (tp_prices t)"
  shows "price_tables_wf t'"
proof -
  obtain v where v: "tp_prices t' = tp_prices t @ [successor_row now new_id v p]"
    using superseded_by_successor [OF assms(2)] by blast
  have p: "p \<in> set (tp_prices t)" "bp_asset_scope p = Scope_Workspace_Private" "superseded_by t p = None"
    "tp_publication_audits t' = tp_publication_audits t"
    using assms(2) by (simp_all add: corrected_def)
  then have "\<forall>q \<in> set (tp_prices t). bp_supersedes q \<noteq> Some (bp_id p)" "bp_workspace_id p \<noteq> None"
    using assms(1) by (auto simp: find_None_iff price_tables_wf_def)
  then show ?thesis
    using assms(1,3) p unfolding price_tables_wf_def v
    by (simp add: successor_row_def PUBLIC_BASIC_PRICE_STATUS_def) (auto dest: sym)
qed

text \<open>C11: Correcting a private price keeps the tables well formed and writes the past into nothing: every row that stood before
  is current at every instant before the correction exactly as it was, and every other row at every instant; from the
  instant of the correction on the corrected price is no longer current and its successor is, never both and never neither
  of the two by reason of the correction.
\<close>

theorem correction_keeps_history:
  assumes "price_tables_wf t" "new_id \<notin> bp_id ` set (tp_prices t)"
    "correct_private_price D now new_id t i workspace account expected proposed reason = Inr (result, t')"
    "\<not> pcr_unchanged result"
  shows "price_tables_wf t' \<and>
     (\<forall>q \<in> set (tp_prices t). \<forall>as_of. as_of < now \<or> bp_id q \<noteq> i \<longrightarrow>
        basic_price_currentness_where t' as_of q = basic_price_currentness_where t as_of q) \<and>
     (\<forall>q \<in> set (tp_prices t'). \<forall>as_of. now \<le> as_of \<and> bp_id q = i \<longrightarrow> \<not> basic_price_currentness_where t' as_of q) \<and>
     (\<exists>s \<in> set (tp_prices t'). bp_id s = new_id \<and> bp_supersedes s = Some i \<and>
        (\<forall>as_of. basic_price_currentness_where t' as_of s \<longleftrightarrow> now \<le> as_of))"
proof -
  obtain p where c: "corrected t t' now new_id p" and p: "bp_id p = i" using correction_writes [OF assms(3,4)] by metis
  obtain v where v: "tp_prices t' = tp_prices t @ [successor_row now new_id v p]"
    using superseded_by_successor [OF c] by blast
  have wf: "price_tables_wf t'" by (rule corrected_wf [OF assms(1) c assms(2)])
  have "p \<in> set (tp_prices t')" using c v by (auto simp: corrected_def)
  then have same: "q = p" if "q \<in> set (tp_prices t')" "bp_id q = i" for q
    using unique_row [OF price_tables_wfD(1) [OF wf]] that p by metis
  have "basic_price_currentness_where t' as_of q = basic_price_currentness_where t as_of q"
    if "q \<in> set (tp_prices t)" "as_of < now \<or> bp_id q \<noteq> i" for q as_of
    using currentness_of_others [OF assms(1) c assms(2) that(1)] that(2) p by blast
  moreover have "\<not> basic_price_currentness_where t' as_of q"
    if "q \<in> set (tp_prices t')" "now \<le> as_of" "bp_id q = i" for q as_of
    using same [OF that(1,3)] predecessor_replaced(2) [OF c] that(2) by (auto simp: basic_price_currentness_where_def)
  moreover have "successor_row now new_id v p \<in> set (tp_prices t')" "bp_id (successor_row now new_id v p) = new_id"
    "bp_supersedes (successor_row now new_id v p) = Some i" using v p by (simp_all add: successor_row_def)
  ultimately show ?thesis using wf successor_current [OF assms(1) c assms(2)] by blast
qed

section \<open>Witness\<close>

definition sample_private_price :: "rat option price_row" where
  "sample_private_price =
     \<lparr>rg_region_id = Some ''rg3'', rg_coverage_set_id = None, rg_coverage_members = [], bp_id = ''bp1'', bp_resource_id = ''rc1'',
      bp_workspace_id = Some ''w1'', bp_organization_id = Some ''o1'', bp_status = ''UNPUBLISHED'',
      bp_verification_status = UNVERIFIED, bp_asset_scope = Scope_Workspace_Private, bp_effective_date = 100,
      bp_valid_until = None, bp_value = Some 15, bp_source_submission_id = None, bp_source_import_row_id = Some ''ir1'',
      bp_promoted_from = None, bp_supersedes = None, bp_created_at = 100\<rparr>"

definition sample_catalog_price :: "rat option price_row" where
  "sample_catalog_price =
     sample_private_price\<lparr>bp_id := ''bp2'', bp_status := ''PUBLISHED'', bp_verification_status := PUBLISHED,
       bp_asset_scope := Scope_Simprok_Catalog, bp_value := Some 7, bp_source_submission_id := Some ''sb1'',
       bp_source_import_row_id := None\<rparr>"

definition sample_prices :: "rat option price_tables" where
  "sample_prices =
     \<lparr>tp_prices = [sample_private_price, sample_catalog_price],
      tp_publication_audits = [\<lparr>pb_basic_price_id = ''bp2'', pb_action = ''PUBLISH'', pb_actor_account_id = ''a2'',
        pb_created_at = 150, pb_effective_at = None\<rparr>],
      tp_corrections = [], tp_regions = sample_regions\<rparr>"

lemma sample_prices_wf: "price_tables_wf sample_prices"
  by (simp add: price_tables_wf_def sample_prices_def sample_catalog_price_def sample_private_price_def PUBLIC_BASIC_PRICE_STATUS_def)

lemma sample_money_texts:
  "parse_fixed ''15'' = Some 15" "parse_fixed ''16'' = Some 16" "fixed_text 2 15 = ''15.00''" "fixed_text 2 16 = ''16.00''"
  "parse_fixed ''16.00'' = Some 16" "round_half_up 1500 = 1500" "round_half_up 1600 = 1600"
  by code_simp+

lemma sample_correction:
  "\<exists>t'. correct_private_price decimal20 500 ''bp9'' sample_prices ''bp1'' ''w1'' ''a1'' ''15'' ''16'' ''salah'' =
     Inr (\<lparr>pcr_basic_price_id = ''bp9'', pcr_value = ''16.00'', pcr_unchanged = False\<rparr>, t')"
  by (simp add: correct_private_price_def money_text_def to_money_decimal2_def to_decimal_string2_def sample_money_texts
      sample_prices_def sample_catalog_price_def sample_private_price_def decimal20_def)

theorem correction_keeps_history_witness:
  "\<exists>result t'. correct_private_price decimal20 500 ''bp9'' sample_prices ''bp1'' ''w1'' ''a1'' ''15'' ''16'' ''salah'' =
       Inr (result, t') \<and>
     basic_price_currentness_where t' 400 sample_private_price \<and> \<not> basic_price_currentness_where t' 500 sample_private_price \<and>
     (\<exists>s \<in> set (tp_prices t'). bp_id s = ''bp9'' \<and> basic_price_currentness_where t' 500 s)"
proof -
  obtain r t' where c: "correct_private_price decimal20 500 ''bp9'' sample_prices ''bp1'' ''w1'' ''a1'' ''15'' ''16'' ''salah'' =
      Inr (r, t')" "\<not> pcr_unchanged r"
    using sample_correction by auto
  have fresh: "''bp9'' \<notin> bp_id ` set (tp_prices sample_prices)"
    by (simp add: sample_prices_def sample_catalog_price_def sample_private_price_def)
  have p: "sample_private_price \<in> set (tp_prices sample_prices)" "bp_id sample_private_price = ''bp1''"
    by (simp_all add: sample_prices_def sample_private_price_def)
  have "basic_price_currentness_where sample_prices 400 sample_private_price" by code_simp
  then show ?thesis
    using correction_keeps_history [OF sample_prices_wf fresh c] c(1) p corrected_member [OF c p(1)] by auto
qed

end
