(* ===== verification/EstimatePolicy.thy ===== *)
theory EstimatePolicy
  imports RabPricing
begin

text \<open>
  The policy that allows an estimate for auxiliary equipment: \<open>project-ahsp/auxiliary-equipment-estimate.policy.ts\<close>. A policy
  is governed when its approval rests on a position, its holder and its authority at the moment of the approval; the
  selector takes the narrowest scope that has a current policy, and never looks past it.

  A policy row is the row with what the query includes of the position, its assignment and its authority.

  The properties: a selected policy is governed and the narrowest; a policy that is not governed blocks, it is never passed
  over.
\<close>

section \<open>Governance\<close>

definition normalized_auxiliary_name :: "(string \<Rightarrow> string) \<Rightarrow> string option \<Rightarrow> string" where
  "normalized_auxiliary_name nfkc value =
     js_lower (js_trim (collapse_spaces False (nfkc (case value of None \<Rightarrow> [] | Some s \<Rightarrow> s))))"

definition AUXILIARY_ESTIMATE_APPROVAL_AUTHORITY :: string where
  "AUXILIARY_ESTIMATE_APPROVAL_AUTHORITY = ''AHSP_AUXILIARY_EQUIPMENT_ESTIMATE_APPROVE''"

datatype policy_scope_kind = Scope_Ahsp_Version | Scope_Classification_Node | Scope_Workspace_Fallback

record approving_assignment =
  aa_position_id :: string
  aa_account_id :: string
  aa_user_workspace_id :: string
  aa_membership_workspace_id :: string
  aa_assigned_at :: int
  aa_removed_at :: "int option"

record approving_authority =
  ay_position_id :: string
  ay_code :: string
  ay_assigned_at :: int
  ay_revoked_at :: "int option"

record 'd estimate_policy =
  ep_id :: string
  ep_workspace_id :: string
  ep_scope_kind :: policy_scope_kind
  ep_ahsp_version_id :: "string option"
  ep_classification_node_id :: "string option"
  ep_version :: int
  ep_decision :: string
  ep_percent :: "'d option"
  ep_evidence_reference :: string
  ep_approval_reference :: "string option"
  ep_approved_by_account_id :: "string option"
  ep_approved_by_position_id :: "string option"
  ep_approval_authority_code :: "string option"
  ep_approved_at :: "int option"
  ep_effective_from :: int
  ep_effective_until :: "int option"
  ep_created_at :: int
  ep_position_workspace_id :: "string option"
  ep_assignment :: "approving_assignment option"
  ep_authority :: "approving_authority option"

record estimate_scope =
  sc_workspace_id :: string
  sc_ahsp_version_id :: string
  sc_as_of :: int

definition in_force_until :: "int \<Rightarrow> int option \<Rightarrow> bool" where
  "in_force_until moment until = (case until of None \<Rightarrow> True | Some u \<Rightarrow> moment \<le> u)"

definition approved_auxiliary_policy_is_governed ::
    "'d decimal_ops \<Rightarrow> 'd estimate_policy \<Rightarrow> estimate_scope \<Rightarrow> bool" where
  "approved_auxiliary_policy_is_governed D p scope =
     (case (ep_approved_at p, ep_percent p, ep_assignment p, ep_authority p) of
        (Some approved_at, Some percent, Some assignment, Some authority) \<Rightarrow>
          approved_at \<le> sc_as_of scope \<and> ep_effective_from p \<le> sc_as_of scope \<and>
          in_force_until (sc_as_of scope) (ep_effective_until p) \<and>
          ep_decision p = ''APPROVED'' \<and> ep_workspace_id p = sc_workspace_id scope \<and>
          (ep_scope_kind p \<noteq> Scope_Ahsp_Version \<or> ep_ahsp_version_id p = Some (sc_ahsp_version_id scope)) \<and>
          d_greater_than D percent (d_of_int D 0) \<and> d_less_equal D percent (d_of_int D 100) \<and>
          truthy (ep_approval_reference p) \<and> ep_evidence_reference p \<noteq> [] \<and>
          ep_approval_authority_code p = Some AUXILIARY_ESTIMATE_APPROVAL_AUTHORITY \<and>
          ep_position_workspace_id p = Some (sc_workspace_id scope) \<and>
          Some (aa_position_id assignment) = ep_approved_by_position_id p \<and>
          Some (aa_account_id assignment) = ep_approved_by_account_id p \<and>
          aa_user_workspace_id assignment = sc_workspace_id scope \<and>
          aa_membership_workspace_id assignment = sc_workspace_id scope \<and>
          aa_assigned_at assignment \<le> approved_at \<and> in_force_until approved_at (aa_removed_at assignment) \<and>
          Some (ay_position_id authority) = ep_approved_by_position_id p \<and>
          ay_code authority = AUXILIARY_ESTIMATE_APPROVAL_AUTHORITY \<and>
          ay_assigned_at authority \<le> approved_at \<and> in_force_until approved_at (ay_revoked_at authority)
      | _ \<Rightarrow> False)"

section \<open>The selector\<close>

datatype 'd policy_selection =
    Policy_Selected "'d estimate_policy" policy_scope_kind
  | Policy_Missing string
  | Policy_Conflict string
  | Policy_Blocked string

definition policy_verdict ::
    "'d decimal_ops \<Rightarrow> 'd estimate_policy \<Rightarrow> estimate_scope \<Rightarrow> policy_scope_kind \<Rightarrow> 'd policy_selection" where
  "policy_verdict D p scope tier =
     (if \<not> approved_auxiliary_policy_is_governed D p scope
      then Policy_Blocked ''AUXILIARY_ESTIMATE_POLICY_UNAUTHORIZED''
      else Policy_Selected p tier)"

definition level_depth :: "string \<Rightarrow> nat option" where
  "level_depth =
     map_of [(''JENIS_PENGADAAN'', 1), (''KATEGORI'', 2), (''SUBKATEGORI'', 3), (''JENIS_PEKERJAAN'', 4)]"

datatype classification_node =
  Node (node_id: string) (node_level: string) (node_is_active: bool) (node_workspace_id: "string option")
    (node_parent: "classification_node option")

text \<open>The walk from a leaf to the top: the whole path, or nothing.\<close>

fun canonical_path :: "string \<Rightarrow> nat \<Rightarrow> classification_node option \<Rightarrow> (string \<times> nat) list option" where
  "canonical_path workspace expected_depth None = (if expected_depth \<noteq> 0 then None else Some [])"
| "canonical_path workspace expected_depth (Some (Node i level is_active owner parent)) =
     (if \<not> is_active \<or> level_depth level \<noteq> Some expected_depth \<or> owner \<noteq> None \<and> owner \<noteq> Some workspace then None
      else map_option ((#) (i, expected_depth)) (canonical_path workspace (expected_depth - 1) parent))"

definition canonical_nodes :: "string \<Rightarrow> classification_node list \<Rightarrow> (string \<rightharpoonup> nat)" where
  "canonical_nodes workspace leaves =
     map_of (rev (concat (map (\<lambda>leaf. case canonical_path workspace 4 (Some leaf) of None \<Rightarrow> [] | Some path \<Rightarrow> path) leaves)))"

text \<open>\<open>[...new Set(ids)]\<close>\<close>

definition several_nodes :: "'d estimate_policy list \<Rightarrow> bool" where
  "several_nodes policies \<longleftrightarrow> length (remdups (map ep_classification_node_id policies)) > 1"

definition depth_of :: "(string \<rightharpoonup> nat) \<Rightarrow> 'd estimate_policy \<Rightarrow> nat option" where
  "depth_of nodes p = (case ep_classification_node_id p of None \<Rightarrow> None | Some i \<Rightarrow> nodes i)"

text \<open>The policies the query finds, the newest version first.\<close>

definition policies_in_scope ::
    "'d estimate_policy list \<Rightarrow> estimate_scope \<Rightarrow> (string \<rightharpoonup> nat) \<Rightarrow> 'd estimate_policy list" where
  "policies_in_scope policies scope nodes =
     stable_sort_by (\<lambda>p q. ep_version q < ep_version p \<or> ep_version q = ep_version p \<and> ep_created_at q \<le> ep_created_at p)
       (filter (\<lambda>p. ep_workspace_id p = sc_workspace_id scope \<and> ep_effective_from p \<le> sc_as_of scope \<and>
           (ep_scope_kind p = Scope_Ahsp_Version \<and> ep_ahsp_version_id p = Some (sc_ahsp_version_id scope) \<or>
            ep_scope_kind p = Scope_Classification_Node \<and> depth_of nodes p \<noteq> None \<or>
            ep_scope_kind p = Scope_Workspace_Fallback \<and> ep_ahsp_version_id p = None \<and> ep_classification_node_id p = None))
         policies)"

definition select_among ::
    "'d decimal_ops \<Rightarrow> estimate_scope \<Rightarrow> (string \<rightharpoonup> nat) \<Rightarrow> 'd estimate_policy list \<Rightarrow> 'd policy_selection" where
  "select_among D scope nodes current =
     (case find (\<lambda>p. ep_scope_kind p = Scope_Ahsp_Version) current of
        Some direct \<Rightarrow> policy_verdict D direct scope Scope_Ahsp_Version
      | None \<Rightarrow>
          (let classified = filter (\<lambda>p. ep_scope_kind p = Scope_Classification_Node) current
           in if classified \<noteq> [] then
                (let max_depth = Max (set (map (\<lambda>p. case depth_of nodes p of None \<Rightarrow> 0 | Some d \<Rightarrow> d) classified));
                     at_depth = filter (\<lambda>p. depth_of nodes p = Some max_depth) classified
                 in if several_nodes at_depth
                    then Policy_Conflict ''AUXILIARY_ESTIMATE_POLICY_CLASSIFICATION_CONFLICT''
                    else policy_verdict D (hd at_depth) scope Scope_Classification_Node)
              else
                (case find (\<lambda>p. ep_scope_kind p = Scope_Workspace_Fallback) current of
                   Some fallback \<Rightarrow> policy_verdict D fallback scope Scope_Workspace_Fallback
                 | None \<Rightarrow> Policy_Missing ''AUXILIARY_ESTIMATE_POLICY_MISSING'')))"

text \<open>\<open>leaves\<close> are the leaf nodes of the active classification assignments of the analysis of the version.\<close>

definition select_auxiliary_estimate_policy ::
    "'d decimal_ops \<Rightarrow> ahsp_version_row list \<Rightarrow> (string \<Rightarrow> classification_node list) \<Rightarrow> 'd estimate_policy list
      \<Rightarrow> estimate_scope \<Rightarrow> 'd policy_selection" where
  "select_auxiliary_estimate_policy D versions leaves policies scope =
     (case find (\<lambda>v. av_id v = sc_ahsp_version_id scope) versions of
        None \<Rightarrow> Policy_Blocked ''AUXILIARY_ESTIMATE_POLICY_CROSS_WORKSPACE''
      | Some version \<Rightarrow>
          if av_workspace_id version \<noteq> None \<and> av_workspace_id version \<noteq> Some (sc_workspace_id scope)
          then Policy_Blocked ''AUXILIARY_ESTIMATE_POLICY_CROSS_WORKSPACE''
          else
            (let nodes = canonical_nodes (sc_workspace_id scope) (leaves (av_id version));
                 found = policies_in_scope policies scope nodes
             in select_among D scope nodes (filter (\<lambda>p. in_force_until (sc_as_of scope) (ep_effective_until p)) found)))"

section \<open>Properties\<close>

lemma canonical_path_depths:
  "canonical_path workspace d n = Some path \<Longrightarrow> (i, k) \<in> set path \<Longrightarrow> 1 \<le> k \<and> k \<le> d"
proof (induction workspace d n arbitrary: path rule: canonical_path.induct)
  case (2 workspace d i' level is_active owner parent)
  from "2.prems"(1) obtain rest where rest: "canonical_path workspace (d - 1) parent = Some rest" "path = (i', d) # rest"
    and level: "level_depth level = Some d" and cond: "\<not> (\<not> is_active \<or> level_depth level \<noteq> Some d \<or> owner \<noteq> None \<and> owner \<noteq> Some workspace)"
    by (auto split: if_splits)
  have "1 \<le> d" using level by (auto simp: level_depth_def split: if_splits)
  then show ?case using rest "2.prems"(2) "2.IH" [OF cond rest(1)] by auto
qed (auto split: if_splits)

lemma canonical_nodes_depth:
  assumes "canonical_nodes workspace leaves i = Some d"
  shows "1 \<le> d \<and> d \<le> 4"
proof -
  obtain leaf where leaf: "(i, d) \<in> set (case canonical_path workspace 4 (Some leaf) of None \<Rightarrow> [] | Some path \<Rightarrow> path)"
    using map_of_SomeD [OF assms [unfolded canonical_nodes_def]] by (simp del: canonical_path.simps) blast
  then obtain path where "canonical_path workspace 4 (Some leaf) = Some path" "(i, d) \<in> set path"
    by (cases "canonical_path workspace 4 (Some leaf)") (simp_all del: canonical_path.simps)
  then show ?thesis by (rule canonical_path_depths)
qed

text \<open>How narrow the scope of a policy is.\<close>

definition scope_rank :: "(string \<rightharpoonup> nat) \<Rightarrow> 'd estimate_policy \<Rightarrow> nat" where
  "scope_rank nodes p =
     (case ep_scope_kind p of
        Scope_Ahsp_Version \<Rightarrow> 5
      | Scope_Classification_Node \<Rightarrow> (case depth_of nodes p of None \<Rightarrow> 0 | Some d \<Rightarrow> d)
      | Scope_Workspace_Fallback \<Rightarrow> 0)"

definition newest_first :: "'d estimate_policy list \<Rightarrow> bool" where
  "newest_first = sorted_wrt (\<lambda>p q. ep_version q \<le> ep_version p)"

lemma policies_newest_first: "newest_first (filter P (policies_in_scope policies scope nodes))"
proof -
  let ?le = "\<lambda>p q. ep_version q < ep_version p \<or> ep_version q = ep_version p \<and> ep_created_at q \<le> ep_created_at p"
  have "sorted_wrt ?le (policies_in_scope policies scope nodes)"
    unfolding policies_in_scope_def by (rule sorted_stable_sort_by) auto
  then have "sorted_wrt (\<lambda>p q. ep_version q \<le> ep_version p) (policies_in_scope policies scope nodes)"
    by (rule sorted_wrt_mono_rel [rotated]) auto
  then show ?thesis unfolding newest_first_def by (rule sorted_wrt_filter)
qed

lemma newest_found:
  assumes "newest_first current" "find Q current = Some p" "q \<in> set current" "Q q"
  shows "ep_version q \<le> ep_version p"
  using assms by (induction current) (auto simp: newest_first_def split: if_splits)

lemma newest_head: "newest_first (p # rest) \<Longrightarrow> q \<in> set (p # rest) \<Longrightarrow> ep_version q \<le> ep_version p"
  by (auto simp: newest_first_def)

lemma policy_verdict_Selected:
  "policy_verdict D p scope tier = Policy_Selected q k \<longleftrightarrow>
     q = p \<and> k = tier \<and> approved_auxiliary_policy_is_governed D p scope"
  by (auto simp: policy_verdict_def)

lemma one_node:
  assumes "\<not> several_nodes policies" "p \<in> set policies" "q \<in> set policies"
  shows "ep_classification_node_id q = ep_classification_node_id p"
proof -
  have "card (ep_classification_node_id ` set policies) \<le> Suc 0"
    using assms(1) by (simp add: several_nodes_def length_remdups_card_conv)
  moreover have "finite (ep_classification_node_id ` set policies)" by simp
  ultimately have "\<forall>i \<in> ep_classification_node_id ` set policies. \<forall>j \<in> ep_classification_node_id ` set policies. i = j"
    using card_le_Suc0_iff_eq by blast
  then show ?thesis using assms(2,3) by blast
qed

lemma select_among_nearest:
  assumes "select_among D scope nodes current = Policy_Selected p tier" "newest_first current"
    and depths: "\<And>q. q \<in> set current \<Longrightarrow> ep_scope_kind q = Scope_Classification_Node \<Longrightarrow>
      \<exists>d. depth_of nodes q = Some d \<and> 1 \<le> d \<and> d \<le> 4"
  shows "p \<in> set current \<and> approved_auxiliary_policy_is_governed D p scope \<and> tier = ep_scope_kind p \<and>
     (\<forall>q \<in> set current. scope_rank nodes q \<le> scope_rank nodes p \<and>
        (scope_rank nodes q = scope_rank nodes p \<longrightarrow> ep_version q \<le> ep_version p \<and>
           (tier = Scope_Classification_Node \<longrightarrow> ep_classification_node_id q = ep_classification_node_id p)))"
proof (cases "find (\<lambda>p. ep_scope_kind p = Scope_Ahsp_Version) current")
  case (Some direct)
  then have p: "p = direct" "tier = Scope_Ahsp_Version" "approved_auxiliary_policy_is_governed D p scope"
    using assms(1) by (simp_all add: select_among_def policy_verdict_Selected)
  have kind: "p \<in> set current" "ep_scope_kind p = Scope_Ahsp_Version" using Some p(1) by (auto simp: find_Some_iff)
  have "scope_rank nodes q \<le> 5 \<and> (scope_rank nodes q = 5 \<longrightarrow> ep_scope_kind q = Scope_Ahsp_Version)" if "q \<in> set current" for q
    using depths [OF that] by (cases "ep_scope_kind q") (auto simp: scope_rank_def)
  moreover have "scope_rank nodes p = 5" using kind by (simp add: scope_rank_def)
  ultimately show ?thesis
    using p kind newest_found [OF assms(2) Some] by simp
next
  case None
  then have no_direct: "ep_scope_kind q \<noteq> Scope_Ahsp_Version" if "q \<in> set current" for q
    using that by (auto simp: find_None_iff)
  define classified where "classified = filter (\<lambda>p. ep_scope_kind p = Scope_Classification_Node) current"
  define depth where "depth q = (case depth_of nodes q of None \<Rightarrow> 0 | Some d \<Rightarrow> d)" for q :: "'a estimate_policy"
  show ?thesis
  proof (cases "classified = []")
    case True
    obtain fallback where f: "find (\<lambda>p. ep_scope_kind p = Scope_Workspace_Fallback) current = Some fallback"
      using assms(1) None True by (auto simp: select_among_def classified_def Let_def split: option.splits)
    then have p: "p = fallback" "tier = Scope_Workspace_Fallback" "approved_auxiliary_policy_is_governed D p scope"
      using assms(1) None True by (simp_all add: select_among_def classified_def policy_verdict_Selected)
    have kind: "p \<in> set current" "ep_scope_kind p = Scope_Workspace_Fallback" using f p(1) by (auto simp: find_Some_iff)
    have "ep_scope_kind q = Scope_Workspace_Fallback" if "q \<in> set current" for q
      using that no_direct True by (cases "ep_scope_kind q") (auto simp: classified_def filter_empty_conv)
    then show ?thesis using p kind newest_found [OF assms(2) f] by (simp add: scope_rank_def)
  next
    case False
    define most where "most = Max (set (map depth classified))"
    define at_depth where "at_depth = filter (\<lambda>p. depth_of nodes p = Some most) classified"
    have verdict: "\<not> several_nodes at_depth" "p = hd at_depth" "tier = Scope_Classification_Node"
      "approved_auxiliary_policy_is_governed D p scope"
      using assms(1) None False
      by (auto simp: select_among_def Let_def policy_verdict_Selected at_depth_def most_def depth_def classified_def
          split: if_splits)
    have classified: "depth_of nodes q = Some (depth q)" "depth q \<le> most" "scope_rank nodes q = depth q"
      if "q \<in> set classified" for q
      using that depths [of q] by (auto simp: classified_def depth_def most_def scope_rank_def intro!: Max_ge)
    have "most \<in> set (map depth classified)" unfolding most_def using False by (intro Max_in) auto
    then obtain deepest where "deepest \<in> set classified" "depth deepest = most" by auto
    then have "deepest \<in> set at_depth" using classified(1) by (simp add: at_depth_def)
    then obtain rest where rest: "at_depth = p # rest" using verdict(2) by (cases at_depth) auto
    then have "p \<in> set at_depth" by simp
    then have p: "p \<in> set classified" "depth_of nodes p = Some most" by (simp_all add: at_depth_def)
    have newest: "newest_first at_depth"
      using assms(2) unfolding newest_first_def at_depth_def classified_def by (intro sorted_wrt_filter)
    have rank: "scope_rank nodes p = most" using classified(1,3) [OF p(1)] p(2) by simp
    have bound: "scope_rank nodes q \<le> most \<and>
        (scope_rank nodes q = most \<longrightarrow> ep_version q \<le> ep_version p \<and> ep_classification_node_id q = ep_classification_node_id p)"
      if "q \<in> set current" for q
    proof (cases "ep_scope_kind q = Scope_Classification_Node")
      case True
      then have q: "q \<in> set classified" using that by (simp add: classified_def)
      have "ep_version q \<le> ep_version p \<and> ep_classification_node_id q = ep_classification_node_id p"
        if "scope_rank nodes q = most"
      proof -
        have "q \<in> set at_depth" using classified(1,3) [OF q] q that by (simp add: at_depth_def)
        then show ?thesis
          using newest_head [OF newest [unfolded rest]] one_node [OF verdict(1) \<open>p \<in> set at_depth\<close>] rest by metis
      qed
      then show ?thesis using classified(2,3) [OF q] by simp
    next
      case False
      then have "scope_rank nodes q = 0" using no_direct [OF that] by (cases "ep_scope_kind q") (simp_all add: scope_rank_def)
      moreover have "1 \<le> most" using depths [of p] p by (auto simp: classified_def)
      ultimately show ?thesis by simp
    qed
    have "p \<in> set current" "ep_scope_kind p = Scope_Classification_Node" using p(1) by (simp_all add: classified_def)
    then show ?thesis unfolding rank using verdict(3,4) bound by metis
  qed
qed

lemma selection_nearest:
  assumes "select_auxiliary_estimate_policy D versions leaves policies scope = Policy_Selected p tier"
    "nodes = canonical_nodes (sc_workspace_id scope) (leaves (sc_ahsp_version_id scope))"
  shows "p \<in> set policies \<and> approved_auxiliary_policy_is_governed D p scope \<and> tier = ep_scope_kind p \<and>
     (\<forall>q \<in> set (policies_in_scope policies scope nodes). in_force_until (sc_as_of scope) (ep_effective_until q) \<longrightarrow>
        scope_rank nodes q \<le> scope_rank nodes p \<and>
        (scope_rank nodes q = scope_rank nodes p \<longrightarrow> ep_version q \<le> ep_version p \<and>
           (tier = Scope_Classification_Node \<longrightarrow> ep_classification_node_id q = ep_classification_node_id p)))"
proof -
  let ?current = "filter (\<lambda>p. in_force_until (sc_as_of scope) (ep_effective_until p)) (policies_in_scope policies scope nodes)"
  obtain version where version: "find (\<lambda>v. av_id v = sc_ahsp_version_id scope) versions = Some version"
    using assms(1) by (auto simp: select_auxiliary_estimate_policy_def split: option.splits)
  then have "av_id version = sc_ahsp_version_id scope" by (auto simp: find_Some_iff)
  then have selected: "select_among D scope nodes ?current = Policy_Selected p tier"
    using assms version by (auto simp: select_auxiliary_estimate_policy_def Let_def split: if_splits)
  have "\<exists>d. depth_of nodes q = Some d \<and> 1 \<le> d \<and> d \<le> 4"
    if "q \<in> set ?current" "ep_scope_kind q = Scope_Classification_Node" for q
  proof -
    have "depth_of nodes q \<noteq> None" using that by (simp add: policies_in_scope_def)
    then obtain i d where "ep_classification_node_id q = Some i" "nodes i = Some d"
      by (cases "ep_classification_node_id q") (auto simp: depth_of_def)
    then show ?thesis using canonical_nodes_depth assms(2) by (simp add: depth_of_def)
  qed
  note near = select_among_nearest [OF selected policies_newest_first this]
  have "set (policies_in_scope policies scope nodes) \<subseteq> set policies" by (auto simp: policies_in_scope_def)
  then show ?thesis using near by (simp only: set_filter mem_Collect_eq) blast
qed


section \<open>Witness\<close>

definition sample_policy :: "rat option estimate_policy" where
  "sample_policy =
     \<lparr>ep_id = ''e1'', ep_workspace_id = ''w1'', ep_scope_kind = Scope_Classification_Node, ep_ahsp_version_id = None,
      ep_classification_node_id = Some ''n3'', ep_version = 2, ep_decision = ''APPROVED'', ep_percent = Some (Some 5),
      ep_evidence_reference = ''nota'', ep_approval_reference = Some ''sk'', ep_approved_by_account_id = Some ''a1'',
      ep_approved_by_position_id = Some ''ps1'',
      ep_approval_authority_code = Some AUXILIARY_ESTIMATE_APPROVAL_AUTHORITY, ep_approved_at = Some 50, ep_effective_from = 60,
      ep_effective_until = None, ep_created_at = 40, ep_position_workspace_id = Some ''w1'',
      ep_assignment = Some \<lparr>aa_position_id = ''ps1'', aa_account_id = ''a1'', aa_user_workspace_id = ''w1'',
        aa_membership_workspace_id = ''w1'', aa_assigned_at = 3, aa_removed_at = None\<rparr>,
      ep_authority = Some \<lparr>ay_position_id = ''ps1'', ay_code = AUXILIARY_ESTIMATE_APPROVAL_AUTHORITY, ay_assigned_at = 3,
        ay_revoked_at = Some 70\<rparr>\<rparr>"

definition sample_leaf :: classification_node where
  "sample_leaf =
     Node ''n4'' ''JENIS_PEKERJAAN'' True None (Some (Node ''n3'' ''SUBKATEGORI'' True (Some ''w1'')
       (Some (Node ''n2'' ''KATEGORI'' True None (Some (Node ''n1'' ''JENIS_PENGADAAN'' True None None))))))"

definition sample_policies :: "rat option estimate_policy list" where
  "sample_policies =
     [sample_policy\<lparr>ep_id := ''e2'', ep_classification_node_id := Some ''n2'', ep_version := 9\<rparr>,
      sample_policy\<lparr>ep_id := ''e0'', ep_version := 1\<rparr>, sample_policy]"

abbreviation sample_scope :: estimate_scope where
  "sample_scope \<equiv> \<lparr>sc_workspace_id = ''w1'', sc_ahsp_version_id = ''v1'', sc_as_of = 80\<rparr>"

lemma sample_nodes:
  "canonical_nodes ''w1'' [sample_leaf] = map_of (rev [(''n4'', 4), (''n3'', 3), (''n2'', 2), (''n1'', 1)])"
  by (simp add: canonical_nodes_def sample_leaf_def level_depth_def)

lemma sample_selection:
  "select_auxiliary_estimate_policy decimal20 [sample_version ''v1'' 1] (\<lambda>_. [sample_leaf]) sample_policies sample_scope =
     Policy_Selected sample_policy Scope_Classification_Node"
proof -
  have "policies_in_scope sample_policies sample_scope (canonical_nodes ''w1'' [sample_leaf]) =
      [sample_policy\<lparr>ep_id := ''e2'', ep_classification_node_id := Some ''n2'', ep_version := 9\<rparr>, sample_policy,
       sample_policy\<lparr>ep_id := ''e0'', ep_version := 1\<rparr>]"
    unfolding sample_nodes by (simp add: policies_in_scope_def sample_policies_def sample_policy_def depth_of_def)
  then show ?thesis
    by (simp add: select_auxiliary_estimate_policy_def sample_version_def select_among_def Let_def in_force_until_def)
      (simp add: sample_nodes sample_policy_def depth_of_def several_nodes_def policy_verdict_def
        approved_auxiliary_policy_is_governed_def in_force_until_def decimal20_simps d_greater_than_def)
qed


end
