(* ===== verification/LivePrice.thy ===== *)
theory LivePrice
  imports PriceSelection EstimatePolicy
begin

text \<open>
  The live evidence behind a frozen price: what the pricing command re-reads about the price a resolution selected before it
  writes money (\<open>project/rab-kernel-persistence.service.ts\<close>): eligibility, region, resource, dates, value, the chain of people
  and documents the price comes from, the proof of the unit it was adapted by, and the policy an estimate rests on. It is what
  the argument \<open>price_evidence\<close> of \<open>RabPricing\<close> stands for.

  The properties: a price in the offer passes every re-reading the offer could foresee; a chain is complete exactly when it
  names the documents and the two people; the successor of a private price is offered and always refused.
\<close>

section \<open>Rows\<close>

record submission_review =
  rv_workspace_id :: string
  rv_organization_id :: string
  rv_decisions :: "(string \<times> string) list"

record price_submission_row =
  sb_id :: string
  sb_resource_id :: string
  sb_workspace_id :: "string option"
  sb_organization_id :: "string option"
  sb_review :: "submission_review option"

record import_batch =
  ib_workspace_id :: string
  ib_organization_id :: string
  ib_region_id :: "string option"
  ib_region_coverage_set_id :: "string option"
  ib_effective_date :: "int option"
  ib_source_origin :: "string option"
  ib_source_sha256 :: string

record price_import_row =
  ir_id :: string
  ir_resource_catalog_id :: "string option"
  ir_resolution_status :: string
  ir_batch :: import_batch

text \<open>
  The columns of a resolution that only the re-proof of its unit reads, kept for the resolutions of the directional policy;
  \<open>tp_catalog\<close> holds the unit and the type of every catalog row.
\<close>

record directional_columns =
  dx_policy_version :: string
  dx_source_unit :: "string option"
  dx_ahsp_unit :: "string option"
  dx_canonical_unit :: "string option"
  dx_unit_conversion_rule_id :: "string option"
  dx_unit_conversion_rule_version :: "int option"
  dx_source_unit_definition_id :: "string option"
  dx_target_unit_definition_id :: "string option"
  dx_quantity_factor :: "string nullable"
  dx_original_base_unit :: string
  dx_original_resource_type :: string

record 'd evidence_tables = "'d price_tables" +
  tp_submissions :: "price_submission_row list"
  tp_import_rows :: "price_import_row list"
  tp_catalog :: "(string \<times> string \<times> string) list"
  tp_conversion_rules :: "'d conversion_rule list"
  tp_directional_columns :: "(string \<times> directional_columns) list"
  tp_estimate_policies :: "'d estimate_policy list"
  tp_classification_leaves :: "(string \<times> classification_node list) list"

section \<open>The price is read again\<close>

definition price_region_proven :: "price_region_fact list \<Rightarrow> string \<Rightarrow> 'a region_facts_scheme \<Rightarrow> bool" where
  "price_region_proven regions region price \<longleftrightarrow>
     basic_price_region_matches price region \<or>
     (case load_canonical_price_region_context regions region of
        Ladder_Complete tiers \<Rightarrow> \<exists>tier \<in> set tiers. basic_price_region_matches price (tr_region_id tier)
      | Ladder_Incomplete _ _ \<Rightarrow> False)"

definition reread_basic_price ::
    "'d decimal_ops \<Rightarrow> ('d, 'a) price_tables_scheme \<Rightarrow> string \<Rightarrow> string \<Rightarrow> int \<Rightarrow> string nullable \<Rightarrow> string option
      \<Rightarrow> string nullable \<Rightarrow> js_error + 'd price_row" where
  "reread_basic_price D t workspace region as_of selected_id catalog_id source_value =
     (case find (\<lambda>p. Js_Val (bp_id p) = selected_id \<and> build_usable_basic_price_where workspace p) (tp_prices t) of
        None \<Rightarrow> Inl (ConflictException ''SELECTED_BASIC_PRICE_NOT_ELIGIBLE'')
      | Some price \<Rightarrow>
          if \<not> price_region_proven (tp_regions t) region price then Inl (ConflictException ''BASIC_PRICE_REGION_MISMATCH'')
          else if Some (bp_resource_id price) \<noteq> catalog_id
          then Inl (ConflictException ''BASIC_PRICE_RESOURCE_IDENTITY_MISMATCH'')
          else if as_of < bp_effective_date price then Inl (ConflictException ''BASIC_PRICE_NOT_YET_EFFECTIVE'')
          else if (case bp_valid_until price of None \<Rightarrow> False | Some u \<Rightarrow> u < as_of)
          then Inl (ConflictException ''BASIC_PRICE_EXPIRED'')
          else if \<not> equals_column D (bp_value price) source_value then Inl (ConflictException ''BASIC_PRICE_VALUE_DRIFTED'')
          else Inr price)"

section \<open>The chain behind a price\<close>

abbreviation provenance_incomplete :: "js_error + unit" where
  "provenance_incomplete \<equiv> Inl (ConflictException ''BASIC_PRICE_PROVENANCE_INCOMPLETE'')"

definition assert_traceable_private_provenance ::
    "('d, 'a) evidence_tables_scheme \<Rightarrow> 'd price_row \<Rightarrow> string \<Rightarrow> js_error + unit" where
  "assert_traceable_private_provenance t price trusted_workspace =
     (if bp_workspace_id price = None \<or> bp_workspace_id price \<noteq> Some trusted_workspace then provenance_incomplete
      else if bp_source_submission_id price \<noteq> None then provenance_incomplete
      else if bp_source_import_row_id price = None then provenance_incomplete
      else
        (case find (\<lambda>r. Some (ir_id r) = bp_source_import_row_id price) (tp_import_rows t) of
           None \<Rightarrow> provenance_incomplete
         | Some row \<Rightarrow>
             let batch = ir_batch row
             in if ir_resource_catalog_id row \<noteq> Some (bp_resource_id price) then provenance_incomplete
                else if ir_resolution_status row \<noteq> ''RESOLVED'' then provenance_incomplete
                else if Some (ib_workspace_id batch) \<noteq> bp_workspace_id price \<or>
                  Some (ib_organization_id batch) \<noteq> bp_organization_id price \<or>
                  ib_region_id batch \<noteq> rg_region_id price \<or>
                  ib_region_coverage_set_id batch \<noteq> rg_coverage_set_id price
                then provenance_incomplete
                else if ib_source_sha256 batch = [] \<or> \<not> truthy (ib_source_origin batch) \<or> ib_effective_date batch = None
                then provenance_incomplete
                else Inr ()))"

text \<open>The account and the workspace of the membership of a user.\<close>

definition membership_of_user ::
    "('d, 'b) org_tables_scheme \<Rightarrow> string \<Rightarrow> (string \<times> string) option" where
  "membership_of_user org user_id =
     (case find (\<lambda>u. us_id u = user_id) (t_users org) of
        None \<Rightarrow> None
      | Some u \<Rightarrow>
          map_option (\<lambda>m. (mb_account_id m, mb_workspace_id m)) (find (\<lambda>m. mb_id m = us_membership_id u) (t_memberships org)))"

text \<open>The latest publication of a price.\<close>

definition publisher_of :: "('d, 'a) price_tables_scheme \<Rightarrow> string \<Rightarrow> string option" where
  "publisher_of t price_id =
     (case stable_sort_by (\<lambda>a b. pb_created_at b \<le> pb_created_at a)
         (filter (\<lambda>a. pb_basic_price_id a = price_id \<and> pb_action a = ''PUBLISH'') (tp_publication_audits t)) of
        [] \<Rightarrow> None
      | a # _ \<Rightarrow> Some (pb_actor_account_id a))"

definition assert_catalog_chain ::
    "('d, 'b) org_tables_scheme \<Rightarrow> ('d, 'a) evidence_tables_scheme \<Rightarrow> 'd price_row \<Rightarrow> js_error + unit" where
  "assert_catalog_chain org t price =
     (case bp_source_submission_id price of
        None \<Rightarrow> provenance_incomplete
      | Some submission_id \<Rightarrow>
     (case find (\<lambda>s. sb_id s = submission_id) (tp_submissions t) of
        None \<Rightarrow> provenance_incomplete
      | Some submission \<Rightarrow>
     if sb_resource_id submission \<noteq> bp_resource_id price \<or> sb_workspace_id submission \<noteq> bp_workspace_id price \<or>
       sb_organization_id submission \<noteq> bp_organization_id price
     then provenance_incomplete
     else
     (case sb_review submission of
        None \<Rightarrow> provenance_incomplete
      | Some review \<Rightarrow>
     if Some (rv_workspace_id review) \<noteq> bp_workspace_id price \<or> Some (rv_organization_id review) \<noteq> bp_organization_id price
     then provenance_incomplete
     else
     (case filter (\<lambda>(action, _). action = ''ACCEPT'') (rv_decisions review) of
        [(_, decided_by)] \<Rightarrow>
          (case membership_of_user org decided_by of
             None \<Rightarrow> provenance_incomplete
           | Some (verifier, workspace) \<Rightarrow>
               if verifier = [] \<or> Some workspace \<noteq> sb_workspace_id submission then provenance_incomplete
               else if \<not> truthy (publisher_of t (bp_id price)) then provenance_incomplete
               else if publisher_of t (bp_id price) = Some verifier then provenance_incomplete
               else Inr ())
      | _ \<Rightarrow> provenance_incomplete))))"

text \<open>A shared price stands on the chain of the price it was promoted from, read without its own promotion.\<close>

definition assert_traceable_provenance ::
    "('d, 'b) org_tables_scheme \<Rightarrow> ('d, 'a) evidence_tables_scheme \<Rightarrow> 'd price_row \<Rightarrow> string \<Rightarrow> js_error + unit" where
  "assert_traceable_provenance org t price trusted_workspace =
     (if bp_asset_scope price = Scope_Workspace_Private
      then assert_traceable_private_provenance t price trusted_workspace
      else if truthy (bp_promoted_from price) then
        (case find (\<lambda>q. Some (bp_id q) = bp_promoted_from price) (tp_prices t) of
           None \<Rightarrow> provenance_incomplete
         | Some origin \<Rightarrow>
             if bp_asset_scope origin \<noteq> Scope_Simprok_Catalog \<or> bp_workspace_id origin = None \<or>
               bp_resource_id origin \<noteq> bp_resource_id price \<or> rg_region_id origin \<noteq> rg_region_id price \<or>
               rg_coverage_set_id origin \<noteq> rg_coverage_set_id price
             then provenance_incomplete
             else assert_catalog_chain org t origin)
      else assert_catalog_chain org t price)"

section \<open>The unit is proved again\<close>

abbreviation conversion_invalid :: "js_error + unit" where
  "conversion_invalid \<equiv> Inl (ConflictException ''BASIC_PRICE_CONVERSION_PROVENANCE_INVALID'')"

definition proof_of_verdict :: "unit_resolution_result \<Rightarrow> proven_unit_price_operation" where
  "proof_of_verdict v =
     \<lparr>pu_status = urr_status v, pu_raw_source_unit = urr_raw_source_unit v, pu_raw_target_unit = urr_raw_target_unit v,
      pu_quantity_factor = urr_quantity_factor v, pu_price_operation = urr_price_operation v,
      pu_conversion_rule_id = urr_conversion_rule_id v, pu_conversion_rule_version = urr_conversion_rule_version v\<rparr>"

definition unit_reproved ::
    "'d decimal_ops \<Rightarrow> (string \<Rightarrow> string) \<Rightarrow> unit_alias list \<Rightarrow> ('d, 'a) evidence_tables_scheme \<Rightarrow> 'd price_row
      \<Rightarrow> priced_resolution \<Rightarrow> directional_columns \<Rightarrow> js_error + unit" where
  "unit_reproved D nfkc aliases t price r x =
     (if dx_policy_version x \<noteq> ''E1A_PRICE_DIRECTIONAL_V1'' then Inr ()
      else
        (case map_of (tp_catalog t) (bp_resource_id price) of
           None \<Rightarrow> conversion_invalid
         | Some (base_unit, resource_type) \<Rightarrow>
             if fr_price_mode r \<noteq> Js_Val ''BASIC_PRICE'' \<or> \<not> truthy (dx_source_unit x) \<or> \<not> truthy (dx_ahsp_unit x) \<or>
               \<not> truthy (dx_canonical_unit x) \<or> \<not> truthy (dx_unit_conversion_rule_id x) \<or>
               dx_unit_conversion_rule_version x = None \<or> dx_unit_conversion_rule_version x = Some 0 \<or>
               \<not> truthy (dx_source_unit_definition_id x) \<or> \<not> truthy (dx_target_unit_definition_id x) \<or>
               dx_quantity_factor x = Js_Null \<or> Some base_unit \<noteq> dx_source_unit x \<or>
               Some (dx_original_base_unit x) \<noteq> dx_ahsp_unit x \<or> resource_type \<noteq> dx_original_resource_type x \<or>
               trusted_unit_context (Some resource_type) = None
             then conversion_invalid
             else
               (let verdict = resolve_units D nfkc aliases (tp_conversion_rules t) (the (dx_source_unit x))
                      (the (dx_ahsp_unit x)) (rx_resource_catalog_id r) (trusted_unit_context (Some resource_type))
                in if urr_status verdict \<noteq> RESOLVED \<or>
                     urr_price_operation verdict \<noteq> Some DIVIDE_SOURCE_UNIT_PRICE_BY_QUANTITY_FACTOR \<or>
                     urr_conversion_rule_id verdict \<noteq> dx_unit_conversion_rule_id x \<or>
                     urr_conversion_rule_version verdict \<noteq> dx_unit_conversion_rule_version x \<or>
                     map_option ud_id (urr_source_unit_definition verdict) \<noteq> dx_source_unit_definition_id x \<or>
                     map_option ud_id (urr_target_unit_definition verdict) \<noteq> dx_target_unit_definition_id x \<or>
                     map_option ud_code (urr_target_unit_definition verdict) \<noteq> dx_canonical_unit x \<or>
                     urr_quantity_factor verdict = None
                   then conversion_invalid
                   else
                     (case d_parse D (the (urr_quantity_factor verdict)) of
                        None \<Rightarrow> Inl (Plain_Error ''DecimalError'')
                      | Some factor \<Rightarrow>
                     if \<not> equals_column D factor (dx_quantity_factor x) then conversion_invalid
                     else
                       (case adapt_price_with_proven_unit_verdict D (d_to_string D (bp_value price)) (the (dx_source_unit x))
                           (the (dx_ahsp_unit x)) (proof_of_verdict verdict) of
                          Adaptation_Held _ \<Rightarrow> conversion_invalid
                        | Adapted _ adapted _ _ _ \<Rightarrow>
                            (case d_parse D adapted of
                               None \<Rightarrow> Inl (Plain_Error ''DecimalError'')
                             | Some a \<Rightarrow>
                                 if equals_column D a (fr_adapted_price_value r) then Inr () else conversion_invalid))))))"

section \<open>The evidence\<close>

definition null_of_option :: "'a option \<Rightarrow> 'a nullable" where
  "null_of_option x = (case x of None \<Rightarrow> Js_Null | Some y \<Rightarrow> Js_Val y)"

text \<open>The policy selected today is the one the estimate was frozen with. \<close>

definition estimate_approved ::
    "'d decimal_ops \<Rightarrow> ('d, 'a) evidence_tables_scheme \<Rightarrow> 'd pricing_tables \<Rightarrow> priced_occurrence \<Rightarrow> int
      \<Rightarrow> priced_resolution \<Rightarrow> bool" where
  "estimate_approved D pt t occurrence as_of r =
     (case select_auxiliary_estimate_policy D (t_ahsp_versions t)
         (\<lambda>v. case map_of (tp_classification_leaves pt) v of None \<Rightarrow> [] | Some leaves \<Rightarrow> leaves) (tp_estimate_policies pt)
         \<lparr>sc_workspace_id = po_workspace_id occurrence, sc_ahsp_version_id = po_ahsp_version_id occurrence, sc_as_of = as_of\<rparr> of
        Policy_Selected p _ \<Rightarrow>
          Js_Val (ep_id p) = fr_estimate_policy_id r \<and> Js_Val (ep_version p) = fr_estimate_policy_version r \<and>
          (case ep_percent p of None \<Rightarrow> False | Some percent \<Rightarrow> equals_column D percent (fr_estimate_percent r)) \<and>
          null_of_option (ep_approval_reference p) = fr_estimate_approval_reference r \<and>
          null_of_option (ep_approved_by_account_id p) = fr_estimate_approved_by_account_id r \<and>
          null_of_option (ep_approved_by_position_id p) = fr_estimate_approved_by_position_id r \<and>
          null_of_option (ep_approval_authority_code p) = fr_estimate_authority_code r \<and>
          (case ep_approved_at p of None \<Rightarrow> False | Some a \<Rightarrow> fr_estimate_approved_at r = Js_Val (Date_Time a))
      | _ \<Rightarrow> False)"

text \<open>The evidence of one resolution.\<close>

definition live_price_evidence ::
    "'d decimal_ops \<Rightarrow> (string \<Rightarrow> string) \<Rightarrow> ('d, 'a) evidence_tables_scheme \<Rightarrow> 'd price_evidence" where
  "live_price_evidence D nfkc pt t occurrence as_of r =
     (if temporary_estimate r then
        (if estimate_approved D pt t occurrence as_of r then Inr ()
         else Inl (ConflictException ''AUXILIARY_ESTIMATE_POLICY_DRIFTED''))
      else
        rbind (reread_basic_price D pt (po_workspace_id occurrence) (the (po_reference_region_id occurrence)) as_of
            (fr_selected_basic_price_id r) (rx_resource_catalog_id r) (fr_source_price_value r)) (\<lambda>price.
        rbind (assert_traceable_provenance t pt price (po_workspace_id occurrence)) (\<lambda>_.
        case map_of (tp_directional_columns pt) (rw_id r) of
          None \<Rightarrow> Inr ()
        | Some x \<Rightarrow> unit_reproved D nfkc (t_unit_aliases t) pt price r x)))"

section \<open>Properties\<close>

lemma find_by_id:
  assumes "distinct (map bp_id prices)" "p \<in> set prices" "Q p"
  shows "find (\<lambda>q. Js_Val (bp_id q) = Js_Val (bp_id p) \<and> Q q) prices = Some p"
  using find_eq_unique [of bp_id prices p "\<lambda>q. Js_Val (bp_id q) = Js_Val (bp_id p) \<and> Q q"] assms by simp

lemma offered_iff:
  "p \<in> set (offered_prices t workspace older as_of ladder) \<longleftrightarrow>
     p \<in> set (tp_prices t) \<and> build_usable_basic_price_where workspace p \<and> bp_id p \<notin> set older \<and>
     promotion_lineage_precedence_where t workspace p \<and> basic_price_currentness_where t as_of p \<and>
     basic_price_applicability_and as_of p \<and> (\<exists>tier \<in> set (ladder_tiers ladder). basic_price_region_matches p (tr_region_id tier))"
  by (auto simp: offered_prices_def basic_price_applicability_and_def applicability_matches)

text \<open>Every tier an offer is drawn from is one the re-reading proves.\<close>

lemma regional_ladder_proven:
  assumes "regional_ladder regions origin = Inr ladder" "tier \<in> set (ladder_tiers ladder)"
    "basic_price_region_matches p (tr_region_id tier)"
  shows "price_region_proven regions origin p"
proof (cases "load_canonical_price_region_context regions origin")
  case (Ladder_Complete tiers)
  then have "ladder = Ladder_Complete tiers" using assms(1) by (auto simp: regional_ladder_def split: option.splits if_splits)
  then show ?thesis using Ladder_Complete assms(2,3) by (auto simp: price_region_proven_def)
next
  case (Ladder_Incomplete tiers reason)
  then have "ladder = legacy_exact_price_region_ladder origin"
    using assms(1) by (auto simp: regional_ladder_def split: option.splits if_splits)
  then show ?thesis using assms(2,3) by (auto simp: price_region_proven_def legacy_exact_price_region_ladder_def)
qed


lemma catalog_chain_accepted:
  assumes "assert_catalog_chain org t q = Inr ()"
  obtains submission review user account workspace publisher where
    "submission \<in> set (tp_submissions t)" "bp_source_submission_id q = Some (sb_id submission)"
    "sb_resource_id submission = bp_resource_id q" "sb_workspace_id submission = bp_workspace_id q"
    "sb_review submission = Some review" "filter (\<lambda>(action, _). action = ''ACCEPT'') (rv_decisions review) = [(''ACCEPT'', user)]"
    "membership_of_user org user = Some (account, workspace)" "Some workspace = bp_workspace_id q"
    "publisher_of t (bp_id q) = Some publisher" "account \<noteq> publisher"
proof -
  obtain i where i: "bp_source_submission_id q = Some i"
    using assms by (cases "bp_source_submission_id q") (simp_all add: assert_catalog_chain_def)
  obtain s where s: "find (\<lambda>s. sb_id s = i) (tp_submissions t) = Some s"
    using assms i by (cases "find (\<lambda>s. sb_id s = i) (tp_submissions t)") (simp_all add: assert_catalog_chain_def)
  then have mem: "s \<in> set (tp_submissions t)" "sb_id s = i" by (auto simp: find_Some_iff)
  have same: "sb_resource_id s = bp_resource_id q" "sb_workspace_id s = bp_workspace_id q"
    using assms i s by (auto simp: assert_catalog_chain_def split: if_splits)
  obtain review where review: "sb_review s = Some review"
    using assms i s by (cases "sb_review s") (auto simp: assert_catalog_chain_def split: if_splits)
  obtain action user where accept: "filter (\<lambda>(action, _). action = ''ACCEPT'') (rv_decisions review) = [(action, user)]"
    using assms i s review
    by (cases "filter (\<lambda>(action, _). action = ''ACCEPT'') (rv_decisions review)" rule: list.exhaust)
      (auto simp: assert_catalog_chain_def split: if_splits list.splits)
  have "(action, user) \<in> set (filter (\<lambda>(action, _). action = ''ACCEPT'') (rv_decisions review))" using accept by simp
  then have "action = ''ACCEPT''" by simp
  moreover obtain account workspace where m: "membership_of_user org user = Some (account, workspace)"
    using assms i s review accept
    by (cases "membership_of_user org user") (auto simp: assert_catalog_chain_def split: if_splits)
  moreover have "Some workspace = bp_workspace_id q"
    using assms i s review accept m same by (auto simp: assert_catalog_chain_def split: if_splits)
  moreover obtain publisher where "publisher_of t (bp_id q) = Some publisher" "account \<noteq> publisher"
    using assms i s review accept m
    by (cases "publisher_of t (bp_id q)") (auto simp: assert_catalog_chain_def split: if_splits)
  ultimately show thesis using that [OF mem(1) _ same review] i mem(2) accept by blast
qed

lemma publisher_of_Some:
  assumes "publisher_of t i = Some publisher"
  shows "\<exists>a \<in> set (tp_publication_audits t).
     pb_basic_price_id a = i \<and> pb_action a = ''PUBLISH'' \<and> pb_actor_account_id a = publisher"
proof -
  let ?audits = "filter (\<lambda>a. pb_basic_price_id a = i \<and> pb_action a = ''PUBLISH'') (tp_publication_audits t)"
  obtain a rest where a: "stable_sort_by (\<lambda>a b. pb_created_at b \<le> pb_created_at a) ?audits = a # rest"
    "pb_actor_account_id a = publisher"
    using assms by (auto simp: publisher_of_def split: list.splits)
  have "a \<in> set (stable_sort_by (\<lambda>a b. pb_created_at b \<le> pb_created_at a) ?audits)" using a(1) by simp
  then have "a \<in> set ?audits" by simp
  then show ?thesis using a(2) by auto
qed


section \<open>The successor of a private price\<close>

lemma no_import_row_refused:
  assumes "bp_asset_scope price = Scope_Workspace_Private" "bp_source_import_row_id price = None"
  shows "assert_traceable_provenance org t price workspace = provenance_incomplete"
  using assms by (simp add: assert_traceable_provenance_def assert_traceable_private_provenance_def)

lemma refused_evidence:
  assumes "distinct (map bp_id (tp_prices pt))" "s \<in> set (tp_prices pt)"
    "bp_asset_scope s = Scope_Workspace_Private" "bp_source_import_row_id s = None"
    "\<not> temporary_estimate r" "fr_selected_basic_price_id r = Js_Val (bp_id s)"
  shows "\<exists>e. live_price_evidence D nfkc pt t occurrence as_of r = Inl e"
proof (cases "reread_basic_price D pt (po_workspace_id occurrence) (the (po_reference_region_id occurrence)) as_of
    (fr_selected_basic_price_id r) (rx_resource_catalog_id r) (fr_source_price_value r)")
  case (Inl e)
  then show ?thesis using assms(5) by (simp add: live_price_evidence_def rbind_def)
next
  case (Inr price)
  then have "price \<in> set (tp_prices pt)" "bp_id price = bp_id s"
    using assms(6) by (auto simp: reread_basic_price_def find_Some_iff split: option.splits if_splits)
  then have "price = s" using unique_row [OF assms(1)] assms(2) by metis
  then show ?thesis
    using Inr assms(5) by (simp add: live_price_evidence_def rbind_def no_import_row_refused [OF assms(3,4)])
qed

text \<open>C9: A correction takes a private price out of use: after it, wherever the corrected price was offered its successor is
  offered in its place and the corrected price is not, but no resolution that selects the successor ever passes the
  evidence of the pricing command, because the successor has no row of a document and the chain of a private price asks
  for one.
\<close>

theorem corrected_price_is_offered_and_refused:
  fixes t t' :: "'d evidence_tables"
  assumes "price_tables_wf t" "new_id \<notin> bp_id ` set (tp_prices t)" "new_id \<notin> set older" "now \<le> as_of"
    "correct_private_price D now new_id t i owner account expected proposed reason = Inr (result, t')"
    "\<not> pcr_unchanged result"
    "p \<in> set (offered_prices t workspace older as_of ladder)" "bp_id p = i"
  shows "p \<notin> set (offered_prices t' workspace older as_of ladder) \<and>
     (\<exists>s \<in> set (offered_prices t' workspace older as_of ladder). bp_id s = new_id \<and> bp_supersedes s = Some i) \<and>
     (\<forall>org occurrence date r. \<not> temporary_estimate r \<and> fr_selected_basic_price_id r = Js_Val new_id \<longrightarrow>
        (\<exists>e. live_price_evidence D nfkc t' org occurrence date r = Inl e))"
proof -
  obtain q where c: "corrected t t' now new_id q" and q: "bp_id q = i" using correction_writes [OF assms(5,6)] by metis
  obtain v where v: "tp_prices t' = tp_prices t @ [successor_row now new_id v q]"
    using superseded_by_successor [OF c] by blast
  let ?s = "successor_row now new_id v q"
  have wf: "price_tables_wf t'" by (rule corrected_wf [OF assms(1) c assms(2)])
  have p: "p \<in> set (tp_prices t)" "build_usable_basic_price_where workspace p" "basic_price_applicability_and as_of p"
    "\<exists>tier \<in> set (ladder_tiers ladder). basic_price_region_matches p (tr_region_id tier)"
    using assms(7) by (simp_all add: offered_iff)
  have own: "q \<in> set (tp_prices t)" "bp_asset_scope q = Scope_Workspace_Private" using c by (simp_all add: corrected_def)
  have same: "p = q" using unique_row [OF price_tables_wfD(1) [OF assms(1) p(1)]] p(1) own(1) q assms(8) by metis
  have s: "?s \<in> set (tp_prices t')" "bp_id ?s = new_id" "bp_supersedes ?s = Some i" "bp_source_import_row_id ?s = None"
    "bp_asset_scope ?s = Scope_Workspace_Private" "bp_promoted_from ?s = None"
    using v q by (simp_all add: successor_row_def)
  have "private_asset_branch workspace q"
    using assms(1) own p(2) same by (auto simp: price_tables_wf_def build_usable_basic_price_where_def catalog_asset_branch_def)
  then have "build_usable_basic_price_where workspace ?s"
    by (simp add: build_usable_basic_price_where_def private_asset_branch_def successor_row_def)
  moreover have "promotion_lineage_precedence_where t' workspace ?s"
    using s(6) by (auto simp: promotion_lineage_precedence_where_def find_Some_iff split: option.splits)
  moreover have "basic_price_applicability_and as_of ?s" using p(3) same
    by (simp add: basic_price_applicability_and_def successor_row_def)
  moreover have "basic_price_region_matches ?s region = basic_price_region_matches p region" for region
    by (simp add: same basic_price_region_matches_def successor_row_def)
  moreover have "basic_price_currentness_where t' as_of ?s"
    using successor_current [OF assms(1) c assms(2) s(1,2)] assms(4) by blast
  ultimately have "?s \<in> set (offered_prices t' workspace older as_of ladder)"
    using s(1,2) p(4) assms(3) by (simp add: offered_iff)
  moreover have "p \<notin> set (offered_prices t' workspace older as_of ladder)"
    using predecessor_replaced(2) [OF c, of as_of] assms(4) same by (simp add: offered_iff basic_price_currentness_where_def)
  moreover have "\<exists>e. live_price_evidence D nfkc t' org occurrence date r = Inl e"
    if "\<not> temporary_estimate r" "fr_selected_basic_price_id r = Js_Val new_id" for org occurrence date r
    using refused_evidence [OF price_tables_wfD(1) [OF wf s(1)] s(1,5,4) that(1)] that(2) s(2) by simp
  ultimately show ?thesis using s by blast
qed

section \<open>Priced money\<close>

lemma collected_evidence:
  assumes "collect_resources D evidence rs frozen acc = Inr result" "r \<in> set rs"
  shows "evidence r = Inr ()"
  using assms
proof (induction rs arbitrary: frozen acc)
  case (Cons x rs)
  obtain f acc' where "evidence x = Inr ()" "collect_resources D evidence rs f acc' = Inr result"
    using Cons.prems(1) by (auto simp: rbind_def split: if_splits sum.splits)
  then show ?case using Cons.IH Cons.prems(2) by auto
qed simp

lemma reread_price_facts:
  assumes "reread_basic_price D t workspace region as_of selected catalog source = Inr p"
  shows "p \<in> set (tp_prices t) \<and> selected = Js_Val (bp_id p) \<and> build_usable_basic_price_where workspace p \<and>
     price_region_proven (tp_regions t) region p \<and> catalog = Some (bp_resource_id p) \<and>
     basic_price_applicability_and as_of p \<and> equals_column D (bp_value p) source"
proof -
  obtain q where q: "find (\<lambda>p. Js_Val (bp_id p) = selected \<and> build_usable_basic_price_where workspace p) (tp_prices t) = Some q"
    using assms by (cases "find (\<lambda>p. Js_Val (bp_id p) = selected \<and> build_usable_basic_price_where workspace p) (tp_prices t)")
      (simp_all add: reread_basic_price_def)
  then have "p = q" using assms by (simp add: reread_basic_price_def split: if_splits)
  then show ?thesis using q find_Some_mem [OF q] assms
    by (auto simp: reread_basic_price_def basic_price_applicability_and_def split: if_splits option.splits)
qed

lemma evidence_facts:
  assumes "live_price_evidence D nfkc pt t occurrence as_of r = Inr ()"
  shows "(temporary_estimate r \<and>
       (\<exists>p \<in> set (tp_estimate_policies pt). fr_estimate_policy_id r = Js_Val (ep_id p) \<and>
          approved_auxiliary_policy_is_governed D p
            \<lparr>sc_workspace_id = po_workspace_id occurrence, sc_ahsp_version_id = po_ahsp_version_id occurrence, sc_as_of = as_of\<rparr>)) \<or>
     (\<exists>p \<in> set (tp_prices pt). fr_selected_basic_price_id r = Js_Val (bp_id p) \<and>
        build_usable_basic_price_where (po_workspace_id occurrence) p \<and>
        price_region_proven (tp_regions pt) (the (po_reference_region_id occurrence)) p \<and>
        rx_resource_catalog_id r = Some (bp_resource_id p) \<and> basic_price_applicability_and as_of p \<and>
        equals_column D (bp_value p) (fr_source_price_value r) \<and>
        assert_traceable_provenance t pt p (po_workspace_id occurrence) = Inr ())"
proof (cases "temporary_estimate r")
  case True
  then have "estimate_approved D pt t occurrence as_of r"
    using assms by (simp add: live_price_evidence_def split: if_splits)
  then obtain p tier where "select_auxiliary_estimate_policy D (t_ahsp_versions t)
      (\<lambda>v. case map_of (tp_classification_leaves pt) v of None \<Rightarrow> [] | Some leaves \<Rightarrow> leaves) (tp_estimate_policies pt)
      \<lparr>sc_workspace_id = po_workspace_id occurrence, sc_ahsp_version_id = po_ahsp_version_id occurrence, sc_as_of = as_of\<rparr> =
      Policy_Selected p tier" "fr_estimate_policy_id r = Js_Val (ep_id p)"
    by (auto simp: estimate_approved_def split: policy_selection.splits)
  then show ?thesis using selection_nearest [OF _ refl] True by blast
next
  case False
  obtain p where p: "reread_basic_price D pt (po_workspace_id occurrence) (the (po_reference_region_id occurrence)) as_of
      (fr_selected_basic_price_id r) (rx_resource_catalog_id r) (fr_source_price_value r) = Inr p"
    "assert_traceable_provenance t pt p (po_workspace_id occurrence) = Inr ()"
    using assms False by (auto simp: live_price_evidence_def rbind_def split: sum.splits)
  then show ?thesis using reread_price_facts [OF p(1)] by blast
qed


section \<open>Witnesses\<close>

definition sample_evidence :: "rat option evidence_tables" where
  "sample_evidence =
     \<lparr>tp_prices = tp_prices sample_prices, tp_publication_audits = tp_publication_audits sample_prices, tp_corrections = [],
      tp_regions = sample_regions,
      tp_submissions = [\<lparr>sb_id = ''sb1'', sb_resource_id = ''rc1'', sb_workspace_id = Some ''w1'', sb_organization_id = Some ''o1'',
        sb_review = Some \<lparr>rv_workspace_id = ''w1'', rv_organization_id = ''o1'', rv_decisions = [(''REJECT'', ''u7''), (''ACCEPT'', ''u1'')]\<rparr>\<rparr>],
      tp_import_rows = [\<lparr>ir_id = ''ir1'', ir_resource_catalog_id = Some ''rc1'', ir_resolution_status = ''RESOLVED'',
        ir_batch = \<lparr>ib_workspace_id = ''w1'', ib_organization_id = ''o1'', ib_region_id = Some ''rg3'',
          ib_region_coverage_set_id = None, ib_effective_date = Some 100, ib_source_origin = Some ''GOVERNMENT'',
          ib_source_sha256 = ''ab''\<rparr>\<rparr>],
      tp_catalog = [(''rc1'', ''zak'', ''MATERIAL'')], tp_conversion_rules = [], tp_directional_columns = [],
      tp_estimate_policies = [], tp_classification_leaves = []\<rparr>"

lemma sample_evidence_wf: "price_tables_wf sample_evidence"
  by (simp add: price_tables_wf_def sample_evidence_def sample_prices_def sample_catalog_price_def sample_private_price_def
      PUBLIC_BASIC_PRICE_STATUS_def)

definition sample_tiers :: price_region_ladder where
  "sample_tiers = project_price_region_ladder ''rg1'' sample_regions"

lemma sample_ladder: "regional_ladder (tp_regions sample_evidence) ''rg1'' = Inr sample_tiers"
  by code_simp

lemma sample_offer: "sample_private_price \<in> set (offered_prices sample_evidence ''w1'' [] 400 sample_tiers)"
  "sample_private_price \<in> set (offered_prices sample_evidence ''w1'' [] 600 sample_tiers)"
  by code_simp+


lemma sample_chain: "assert_traceable_provenance sample_org sample_evidence sample_catalog_price ''w1'' = Inr ()"
  by code_simp


theorem corrected_price_is_offered_and_refused_witness:
  "\<exists>result t'. correct_private_price decimal20 500 ''bp9'' sample_evidence ''bp1'' ''w1'' ''a1'' ''15'' ''16'' ''salah'' =
       Inr (result, t') \<and>
     sample_private_price \<notin> set (offered_prices t' ''w1'' [] 600 sample_tiers) \<and>
     (\<exists>s \<in> set (offered_prices t' ''w1'' [] 600 sample_tiers). bp_id s = ''bp9'')"
proof -
  obtain r t' where c: "correct_private_price decimal20 500 ''bp9'' sample_evidence ''bp1'' ''w1'' ''a1'' ''15'' ''16'' ''salah'' =
      Inr (r, t')" "\<not> pcr_unchanged r"
    by (simp add: correct_private_price_def money_text_def to_money_decimal2_def to_decimal_string2_def sample_money_texts
      sample_evidence_def sample_prices_def sample_catalog_price_def sample_private_price_def decimal20_def)
  have fresh: "''bp9'' \<notin> bp_id ` set (tp_prices sample_evidence)"
    by (simp add: sample_evidence_def sample_prices_def sample_catalog_price_def sample_private_price_def)
  have "bp_id sample_private_price = ''bp1''" by (simp add: sample_private_price_def)
  then show ?thesis
    using corrected_price_is_offered_and_refused [where nfkc = latin_nfkc, OF sample_evidence_wf fresh _ _ c sample_offer(2)] c(1)
    by auto
qed

definition sample_live_pricing :: "rat option pricing_tables" where
  "sample_live_pricing =
     sample_pricing\<lparr>t_occurrences := [sample_priced_occurrence\<lparr>po_resolutions :=
       [sample_resolution ''r1'' ''2'' ''15'', (sample_resolution ''r2'' ''3'' ''7'')\<lparr>fr_selected_basic_price_id := Js_Val ''bp2''\<rparr>]\<rparr>]\<rparr>"

lemma sample_live_steps:
  "persistable_line sample_live_pricing sample_params 1770681600000 =
     Inr (\<lparr>st_id = ''s1'', st_project_id = Some ''p1'', st_status = RAB_DRAFT, st_name = WORKING_DRAFT_STRUCTURE_NAME\<rparr>,
       sample_line, (sample_version ''v1'' 1)\<lparr>av_output_unit := Some ''m3''\<rparr>, hd (t_occurrences sample_live_pricing))"
  "calculated_line decimal20 latin_nfkc (live_price_evidence decimal20 latin_nfkc sample_evidence) sample_live_pricing
     1770681600000 sample_line ((sample_version ''v1'' 1)\<lparr>av_output_unit := Some ''m3''\<rparr>)
     (hd (t_occurrences sample_live_pricing)) = Inr (Some 51, Some 204)"
  by code_simp+


end
