(* ===== verification/Spec2Isabelle.thy ===== *)
theory Spec2Isabelle
  imports PeriodNavigator RabStructure PriceResolution CostKernel RabApproval LivePrice
begin

text \<open>
  A verification library for the backend of SIMPROK (\<open>src/backend/src\<close>): a platform that prices the bill of quantities
  (RAB) of a construction project, freezes and approves it, and then measures the progress of the work against the plan.
  The theories model the policies and commands on which money, authority and dates rest, as functions over explicit
  tables and values, and prove what makes them correct. Paths below are relative to \<open>src/backend/src\<close>.

  THE PARTS AND HOW THEY INTERACT

  Pricing. The unit dictionary decides which spellings name the same unit (\<open>UnitKernel\<close>: \<open>unit-kernel/*\<close>). A price may be
  divided by a proven factor (\<open>UnitPrice\<close>: \<open>ahsp/price-resolution/proven-unit-price-adaptation.ts\<close>). The resolution kernel
  chooses and adapts the price of a resource (\<open>PriceResolution\<close>: \<open>ahsp-resource-price-resolution.kernel.ts\<close>). The cost kernel
  sums the frozen resources of an analysis and multiplies by the volume (\<open>CostKernel\<close>: \<open>project/cost-kernel.*\<close>,
  \<open>monetary-unit-identity.ts\<close>). Which analyses a workspace may bind is \<open>AhspEligibility\<close>
  (\<open>project-ahsp/ahsp-eligibility.policy.ts\<close>).

  Stored prices. \<open>PriceRegion\<close> is the ladder of regions above a project (\<open>basic-price-region-priority.ts\<close>,
  \<open>basic-price-region-applicability.ts\<close>); \<open>PriceSelection\<close> the laws that decide which stored prices compete
  (\<open>basic-price-eligibility.policy.ts\<close>, \<open>-applicability.ts\<close>, \<open>-currentness.ts\<close>, \<open>-promotion-precedence.ts\<close>), the offer the
  orchestrator draws from them and the correction of a private price (\<open>basic-price-private-asset.service.ts\<close>);
  \<open>EstimatePolicy\<close> the policy an estimate rests on (\<open>auxiliary-equipment-estimate.policy.ts\<close>); \<open>LivePrice\<close> what the pricing
  command reads again about a selected price before it writes money (\<open>rab-kernel-persistence.service.ts\<close>).

  The bill. A draft is a forest of rows (\<open>RabStructure\<close>: \<open>project/rab-structure-preflight.ts\<close>). While its lifecycle allows
  (\<open>RabLifecycle\<close>: \<open>rab-lifecycle-policy.service.ts\<close>, \<open>rab-editable-lifecycle.guard.ts\<close>) the pricing command writes the
  result of the cost kernel to a line and restates the totals (\<open>RabPricing\<close>: \<open>rab-kernel-persistence.service.ts\<close>,
  \<open>rab-draft-recap.ts\<close>, \<open>common/money.ts\<close>); the re-proof runs the kernel again over the frozen rows (\<open>PersistedCalculation\<close>:
  \<open>persisted-calculation.service.ts\<close>); the lock freezes a bill whose every line still proves itself (\<open>RabLock\<close>:
  \<open>rab-lock.service.ts\<close>); the approval turns the frozen bill into the active baseline (\<open>RabApproval\<close>:
  \<open>rab-approval.service.ts\<close>). \<open>RabApproval\<close> ends with the three commands as one step relation \<open>rab_step\<close> and its invariant.

  Access and authority. \<open>ProjectAccess\<close> (\<open>auth/project-access-policy.service.ts\<close>) decides who reaches a project;
  \<open>DecisionAuthority\<close> (\<open>progress/progress-authority.service.ts\<close>) finds the position that may decide, on the screen and again
  inside the transaction; the approval asks the second.

  Time. \<open>JsDate\<close> is the \<open>Date\<close> object and \<open>common/date-only.util.ts\<close>; \<open>ProjectTimeZone\<close> the business date of an instant;
  \<open>TemporalBoundary\<close> and \<open>TemporalSlices\<close> the canonical periods and the week slices of a month
  (\<open>progress-temporal-boundary.policy.ts\<close>); \<open>PeriodPages\<close> and \<open>PeriodNavigator\<close> the pages of periods a reader walks
  (\<open>progress-period-navigator.policy.ts\<close>); \<open>WorkPeriodAnchor\<close> the governed first day of work
  (\<open>project/work-period-anchor.policy.ts\<close>).

  Progress. \<open>Lineage\<close> selects the entries that count (\<open>progress-actual-calculation.policy.ts\<close>), \<open>SemanticAuthority\<close> reads
  their confirmation from the audit trail (\<open>progress-semantic-authority.policy.ts\<close>), \<open>OfficialQuantity\<close> sums them and projects
  the sum to a date, \<open>MonitoringWeight\<close> weighs the rows (\<open>monitoring-weight.ts\<close>), \<open>PhysicalProgress\<close> is the progress of an item
  and of the project. \<open>ExecutionPlan\<close> is the plan with its blockers, \<open>PlannedComparison\<close>, \<open>PeriodWindow\<close> and \<open>TemporalLens\<close>
  set plan and actual against each other at a date, in a window and in a period.

  HOW STATE AND OPERATIONS CORRESPOND TO THE CODE

  A function of the source is a definition of the same name in snake case. A table of the database is a list of row
  records in the order of creation; \<open>org_tables\<close>, \<open>rab_tables\<close> and \<open>pricing_tables\<close> extend each other as the commands read
  more of the schema. \<open>findFirst\<close> and \<open>findUnique\<close> are \<open>find\<close>, \<open>findMany\<close> is \<open>filter\<close>, \<open>orderBy\<close> is \<open>stable_sort_by\<close>,
  \<open>updateMany\<close> is \<open>update_rows\<close>, a raw SQL join is a list comprehension. A transaction holds the row of the project and is one
  step: it answers a value and the new tables, or an exception (\<open>Inl\<close>), after which the tables are the old ones. Times are
  milliseconds; the current time and new identifiers are arguments. A value of a column that may be missing is an option,
  a value that may be \<open>null\<close> or \<open>undefined\<close> a \<open>nullable\<close>.

  PARAMETERS AND INTERFACES

  \<open>Prisma.Decimal\<close> is the record of operations \<open>decimal_ops\<close>, its documented arithmetic the locale \<open>decimal_arith\<close> with its
  extensions \<open>decimal_price\<close> and \<open>decimal_money\<close>, all interpreted on \<open>decimal20\<close>, numbers rounded to 20 significant digits.
  \<open>Intl.DateTimeFormat\<close> is the locale \<open>civil_calendar\<close>, interpreted on the Indonesian zones. The contract of the period
  resolver is \<open>canonical_period_resolver\<close>, interpreted on the code's resolver; the days of every kind of period are
  interpretations of \<open>day_partition\<close>; \<open>invariant_system\<close> is interpreted on \<open>rab_step\<close>. NFKC, SHA-256 and \<open>localeCompare\<close> are
  plain arguments; so are \<open>resolve_version_resources\<close>, the choice of prices for a whole analysis the lock asks for, and
  \<open>price_evidence\<close>, which \<open>LivePrice\<close> gives as \<open>live_price_evidence\<close>: what is proved of the command for any evidence holds
  for this one.

  WHAT THE LEMMAS SHOW

  Dates and periods: every date of a project lies in one period of every kind, a month is tiled by its week slices, and
  following the cursors reaches every date. Progress: only lawful lineages are read, every current leaf is accounted for,
  an item counts exactly when all its facts are proven, a plan without blockers is sound, and the boundaries of a
  comparison suffice. Money: the kernels answer exactly what their gates say, a resolved price rests on evidence, a line
  total is rounded once. The bill: a written line proves itself, a total is never partial, a lock or an approval happens
  exactly when its conditions hold, both are idempotent, documents and baselines agree in every reachable state, and
  frozen money never moves. Stored prices: the reads of the loader show the whole ladder, a correction keeps the past as it
  was, an offered price is accepted when it is read again, priced money rests on live prices with their chain or on a
  governed policy; and the successor of a corrected private price is offered and always refused.

  BOUNDS, FUEL AND TERMINATION

  No definition takes fuel. The loops that are not structural have a termination proof: the pages of periods by the room
  left on a page of 64, the walks over lineages, trees and parents by the rows not yet visited. Two loops the source bounds
  by nothing, \<open>week_slices_from\<close> and \<open>emit_forest\<close>, are partial functions, proved to return on every input the code gives
  them. Dates are those the strict parser accepts, 0100-01-01 to 9999-12-31.

  NOT MODELLED

  Row locks and isolation levels (a command is one step); the queries, controllers and serialization around the policies;
  explanation sentences for people; the services that read workbooks and documents, whose heuristics state no law; the
  identity of a resource in the catalog; authentication, the import and publication of prices, the provisioning scripts and
  the frontend.
\<close>

end
